(* ===== verification/Prelude.thy ===== *)
theory Prelude
  imports Main "HOL-Library.Word" "HOL-Library.List_Lexorder" "HOL-Library.Char_ord"
    "HOL-Library.Product_Lexorder"
begin

text \<open>
  Shared vocabulary of the development: machine integers, results and stateful procedures
  (the Go functions that return an \<open>error\<close>), the rules by which facts about procedures are
  composed, and generic lemmas on tables kept as lists of rows.

  A Go \<open>int64\<close>, \<open>uint64\<close> or \<open>time.Duration\<close> is a 64-bit word; \<open>sint\<close> reads it as signed
  and \<open>unat\<close> as unsigned, and \<open>+\<close>, \<open>-\<close>, \<open>*\<close> wrap as they do in Go. A Go \<open>string\<close> is the
  list of its bytes, so \<open>length\<close> is Go's \<open>len\<close>, and \<open><\<close> on strings is the bytewise
  lexicographic order of Go and of SQLite's BINARY collation.
\<close>

type_synonym int64 = "64 word"
type_synonym uint64 = "64 word"

named_theorems word_facts \<open>signed reading of word arithmetic that does not overflow\<close>
named_theorems proc_simps \<open>evaluation of the procedure combinators\<close>
named_theorems triple_intros \<open>introduction rules for pre- and postconditions of procedures\<close>

section \<open>Signed 64-bit arithmetic without overflow\<close>

lemma sint_in_range:
  fixes a :: int64
  shows "- (2 ^ 63) \<le> sint a" and "sint a < 2 ^ 63"
  using sint_ge [of a] sint_lt [of a] by simp_all

lemma sint_eqI:
  fixes a :: int64
  assumes "sint a = sint b"
  shows "a = b"
  using assms by (simp add: signed_word_eqI)

lemma sint_of_int_exact [word_facts]:
  assumes "- (2 ^ 63) \<le> i" and "i < 2 ^ 63"
  shows "sint (word_of_int i :: int64) = i"
  using assms by (simp add: signed_of_int signed_take_bit_int_eq_self)

lemma sint_add_exact [word_facts]:
  fixes a b :: int64
  assumes "- (2 ^ 63) \<le> sint a + sint b" and "sint a + sint b < 2 ^ 63"
  shows "sint (a + b) = sint a + sint b"
proof -
  have "a + b = word_of_int (sint a + sint b)" by simp
  then show ?thesis using assms by (simp only: sint_of_int_exact)
qed

lemma sint_diff_exact [word_facts]:
  fixes a b :: int64
  assumes "- (2 ^ 63) \<le> sint a - sint b" and "sint a - sint b < 2 ^ 63"
  shows "sint (a - b) = sint a - sint b"
proof -
  have "a - b = word_of_int (sint a - sint b)" by simp
  then show ?thesis using assms by (simp only: sint_of_int_exact)
qed

lemma sint_mult_exact [word_facts]:
  fixes a b :: int64
  assumes "- (2 ^ 63) \<le> sint a * sint b" and "sint a * sint b < 2 ^ 63"
  shows "sint (a * b) = sint a * sint b"
proof -
  have "a * b = word_of_int (sint a * sint b)" by simp
  then show ?thesis using assms by (simp only: sint_of_int_exact)
qed

lemma sint_eq_0_iff: "sint (a :: int64) = 0 \<longleftrightarrow> a = 0"
  using sint_eqI [of a 0] by auto

lemma unat_inc_exact [word_facts]:
  fixes v :: uint64
  assumes "v \<noteq> - 1"
  shows "unat (v + 1) = unat v + 1"
  using assms by (metis add.commute add_eq_0_iff2 unatSuc plus_1_eq_Suc)

lemma inc_neq_0: "v \<noteq> - 1 \<Longrightarrow> (v :: uint64) + 1 \<noteq> 0"
  by (metis add_eq_0_iff2)

section \<open>Results and procedures\<close>

text \<open>
  A function that returns a value and an \<open>error\<close> returns \<open>Inl e\<close> for a non-nil error and
  \<open>Inr x\<close> otherwise; one that returns only an \<open>error\<close> returns an option, \<open>None\<close> for nil.
  A procedure also reads and writes a state: it returns the state it leaves behind, on the
  error path too.
\<close>

type_synonym ('s, 'e, 'a) proc = "'s \<Rightarrow> ('e + 'a) \<times> 's"

fun bindR :: "'e + 'a \<Rightarrow> ('a \<Rightarrow> 'e + 'b) \<Rightarrow> 'e + 'b" where
  "bindR (Inl e) f = Inl e"
| "bindR (Inr x) f = f x"

fun mapErr :: "('e \<Rightarrow> 'f) \<Rightarrow> 'e + 'a \<Rightarrow> 'f + 'a" where
  "mapErr g (Inl e) = Inl (g e)"
| "mapErr g (Inr x) = Inr x"

definition returnP :: "'a \<Rightarrow> ('s, 'e, 'a) proc" where
  "returnP x = (\<lambda>s. (Inr x, s))"

definition raiseP :: "'e \<Rightarrow> ('s, 'e, 'a) proc" where
  "raiseP e = (\<lambda>s. (Inl e, s))"

definition bindP :: "('s, 'e, 'a) proc \<Rightarrow> ('a \<Rightarrow> ('s, 'e, 'b) proc) \<Rightarrow> ('s, 'e, 'b) proc" where
  "bindP m f = (\<lambda>s. case m s of (Inl e, s') \<Rightarrow> (Inl e, s') | (Inr x, s') \<Rightarrow> f x s')"

definition liftP :: "'e + 'a \<Rightarrow> ('s, 'e, 'a) proc" where
  "liftP r = (\<lambda>s. (r, s))"

definition readP :: "('s \<Rightarrow> 'a) \<Rightarrow> ('s, 'e, 'a) proc" where
  "readP f = (\<lambda>s. (Inr (f s), s))"

definition writeP :: "('s \<Rightarrow> 's) \<Rightarrow> ('s, 'e, unit) proc" where
  "writeP f = (\<lambda>s. (Inr (), f s))"

definition attemptP :: "('s, 'e, 'a) proc \<Rightarrow> ('s, 'e, 'e + 'a) proc" where
  "attemptP m = (\<lambda>s. case m s of (r, s') \<Rightarrow> (Inr r, s'))"

fun eachP :: "('a \<Rightarrow> ('s, 'e, unit) proc) \<Rightarrow> 'a list \<Rightarrow> ('s, 'e, unit) proc" where
  "eachP f [] = returnP ()"
| "eachP f (x # xs) = bindP (f x) (\<lambda>_. eachP f xs)"

fun mapP :: "('a \<Rightarrow> ('s, 'e, 'b) proc) \<Rightarrow> 'a list \<Rightarrow> ('s, 'e, 'b list) proc" where
  "mapP f [] = returnP []"
| "mapP f (x # xs) = bindP (f x) (\<lambda>y. bindP (mapP f xs) (\<lambda>ys. returnP (y # ys)))"

lemma returnP_apply [simp, proc_simps]: "returnP x s = (Inr x, s)"
  by (simp add: returnP_def)

lemma raiseP_apply [simp, proc_simps]: "raiseP e s = (Inl e, s)"
  by (simp add: raiseP_def)

lemma liftP_apply [simp, proc_simps]: "liftP r s = (r, s)"
  by (simp add: liftP_def)

lemma readP_apply [simp, proc_simps]: "readP f s = (Inr (f s), s)"
  by (simp add: readP_def)

lemma writeP_apply [simp, proc_simps]: "writeP f s = (Inr (), f s)"
  by (simp add: writeP_def)

lemma attemptP_apply [simp, proc_simps]: "attemptP m s = (Inr (fst (m s)), snd (m s))"
  by (simp add: attemptP_def split: prod.splits)

lemma bindP_apply [proc_simps]:
  "bindP m f s = (case m s of (Inl e, s') \<Rightarrow> (Inl e, s') | (Inr x, s') \<Rightarrow> f x s')"
  by (simp add: bindP_def)

lemma bindP_Inr [simp]: "m s = (Inr x, s') \<Longrightarrow> bindP m f s = f x s'"
  by (simp add: bindP_def)

lemma bindP_Inl [simp]: "m s = (Inl e, s') \<Longrightarrow> bindP m f s = (Inl e, s')"
  by (simp add: bindP_def)

lemma bindP_returnP [simp]: "bindP (returnP x) f = f x"
  by (simp add: fun_eq_iff bindP_def)

lemma bindP_raiseP [simp]: "bindP (raiseP e) f = raiseP e"
  by (simp add: fun_eq_iff bindP_def)

lemma bindP_readP [simp]: "bindP (readP g) f s = f (g s) s"
  by (simp add: bindP_def)

lemma bindP_writeP [simp]: "bindP (writeP g) f s = f () (g s)"
  by (simp add: bindP_def)

lemma bindP_assoc: "bindP (bindP m f) g = bindP m (\<lambda>x. bindP (f x) g)"
  by (simp add: fun_eq_iff bindP_def split: prod.splits sum.splits)

lemma bindP_InrE:
  assumes "bindP m f s = (Inr y, t)"
  obtains x s' where "m s = (Inr x, s')" and "f x s' = (Inr y, t)"
  using assms by (auto simp: bindP_def split: prod.splits sum.splits)

lemma bindP_InlE:
  assumes "bindP m f s = (Inl e, t)"
  obtains "m s = (Inl e, t)"
  | x s' where "m s = (Inr x, s')" and "f x s' = (Inl e, t)"
  using assms by (auto simp: bindP_def split: prod.splits sum.splits)

lemma bindR_Inr_iff: "bindR r f = Inr y \<longleftrightarrow> (\<exists>x. r = Inr x \<and> f x = Inr y)"
  by (cases r) auto

lemma mapErr_Inr_iff [simp]: "mapErr g r = Inr x \<longleftrightarrow> r = Inr x"
  by (cases r) auto

lemma mapErr_Inl_iff: "mapErr g r = Inl e \<longleftrightarrow> (\<exists>d. r = Inl d \<and> e = g d)"
  by (cases r) auto

section \<open>Pre- and postconditions\<close>

text \<open>
  \<open>triple P m Q E\<close>: started in a state that satisfies \<open>P\<close>, the procedure ends in a state
  that satisfies \<open>Q x\<close> when it returns \<open>x\<close> and \<open>E e\<close> when it fails with \<open>e\<close>.
\<close>

definition triple ::
  "('s \<Rightarrow> bool) \<Rightarrow> ('s, 'e, 'a) proc \<Rightarrow> ('a \<Rightarrow> 's \<Rightarrow> bool) \<Rightarrow> ('e \<Rightarrow> 's \<Rightarrow> bool) \<Rightarrow> bool" where
  "triple P m Q E \<longleftrightarrow>
     (\<forall>s. P s \<longrightarrow> (case m s of (Inl e, s') \<Rightarrow> E e s' | (Inr x, s') \<Rightarrow> Q x s'))"

abbreviation preserves :: "('s \<Rightarrow> bool) \<Rightarrow> ('s, 'e, 'a) proc \<Rightarrow> bool" where
  "preserves I m \<equiv> triple I m (\<lambda>_. I) (\<lambda>_. I)"

lemma tripleI:
  assumes "\<And>s x s'. P s \<Longrightarrow> m s = (Inr x, s') \<Longrightarrow> Q x s'"
    and "\<And>s e s'. P s \<Longrightarrow> m s = (Inl e, s') \<Longrightarrow> E e s'"
  shows "triple P m Q E"
  using assms by (auto simp: triple_def split: prod.splits sum.splits)

lemma triple_Inr: "triple P m Q E \<Longrightarrow> P s \<Longrightarrow> m s = (Inr x, s') \<Longrightarrow> Q x s'"
  by (auto simp: triple_def split: prod.splits sum.splits)

lemma triple_Inl: "triple P m Q E \<Longrightarrow> P s \<Longrightarrow> m s = (Inl e, s') \<Longrightarrow> E e s'"
  by (auto simp: triple_def split: prod.splits sum.splits)

lemma triple_snd:
  assumes "preserves I m" and "I s"
  shows "I (snd (m s))"
  using triple_Inr [OF assms] triple_Inl [OF assms]
  by (cases "fst (m s)") (metis prod.collapse)+

lemma triple_return [triple_intros]: "(\<And>s. P s \<Longrightarrow> Q x s) \<Longrightarrow> triple P (returnP x) Q E"
  by (simp add: triple_def)

lemma triple_raise [triple_intros]: "(\<And>s. P s \<Longrightarrow> E e s) \<Longrightarrow> triple P (raiseP e) Q E"
  by (simp add: triple_def)

lemma triple_read [triple_intros]: "(\<And>s. P s \<Longrightarrow> Q (f s) s) \<Longrightarrow> triple P (readP f) Q E"
  by (simp add: triple_def)

lemma triple_write [triple_intros]: "(\<And>s. P s \<Longrightarrow> Q () (f s)) \<Longrightarrow> triple P (writeP f) Q E"
  by (simp add: triple_def)

lemma triple_lift [triple_intros]:
  "(\<And>s x. P s \<Longrightarrow> r = Inr x \<Longrightarrow> Q x s) \<Longrightarrow> (\<And>s e. P s \<Longrightarrow> r = Inl e \<Longrightarrow> E e s) \<Longrightarrow>
     triple P (liftP r) Q E"
  by (auto simp: triple_def split: sum.splits)

lemma triple_bind:
  assumes "triple P m R E" and "\<And>x. triple (R x) (f x) Q E"
  shows "triple P (bindP m f) Q E"
proof (rule tripleI)
  fix s y t assume "P s" and "bindP m f s = (Inr y, t)"
  from this(2) obtain x s' where "m s = (Inr x, s')" and "f x s' = (Inr y, t)"
    by (rule bindP_InrE)
  from triple_Inr [OF assms(1) \<open>P s\<close> this(1)] show "Q y t"
    using \<open>f x s' = (Inr y, t)\<close> by (rule triple_Inr [OF assms(2)])
next
  fix s e t assume P: "P s" and "bindP m f s = (Inl e, t)"
  from this(2) show "E e t"
  proof (cases rule: bindP_InlE)
    case 1
    then show ?thesis by (rule triple_Inl [OF assms(1) P])
  next
    case (2 x s')
    from triple_Inr [OF assms(1) P 2(1)] show ?thesis
      using 2(2) by (rule triple_Inl [OF assms(2)])
  qed
qed

lemma triple_weaken:
  assumes "triple P m Q E" and "\<And>s. P' s \<Longrightarrow> P s"
    and "\<And>x s. Q x s \<Longrightarrow> Q' x s" and "\<And>e s. E e s \<Longrightarrow> E' e s"
  shows "triple P' m Q' E'"
proof (rule tripleI)
  fix s x s' assume "P' s" and m: "m s = (Inr x, s')"
  show "Q' x s'" by (rule assms(3) [OF triple_Inr [OF assms(1) assms(2) [OF \<open>P' s\<close>] m]])
next
  fix s e s' assume "P' s" and m: "m s = (Inl e, s')"
  show "E' e s'" by (rule assms(4) [OF triple_Inl [OF assms(1) assms(2) [OF \<open>P' s\<close>] m]])
qed

lemma preserves_bind [triple_intros]:
  "preserves I m \<Longrightarrow> (\<And>x. preserves I (f x)) \<Longrightarrow> preserves I (bindP m f)"
  by (rule triple_bind)

lemma preserves_attempt [triple_intros]: "preserves I m \<Longrightarrow> preserves I (attemptP m)"
  by (rule tripleI) (auto dest: triple_snd)

lemma preserves_each [triple_intros]:
  "(\<And>x. preserves I (f x)) \<Longrightarrow> preserves I (eachP f xs)"
  by (induction xs) (auto intro!: triple_intros)

lemma preserves_mapP [triple_intros]:
  "(\<And>x. preserves I (f x)) \<Longrightarrow> preserves I (mapP f xs)"
  by (induction xs) (auto intro!: triple_intros)

lemma preserves_if [triple_intros]:
  "(c \<Longrightarrow> preserves I m) \<Longrightarrow> (\<not> c \<Longrightarrow> preserves I n) \<Longrightarrow> preserves I (if c then m else n)"
  by simp

lemma preserves_option [triple_intros]:
  "preserves I m \<Longrightarrow> (\<And>x. preserves I (f x)) \<Longrightarrow>
     preserves I (case x of None \<Rightarrow> m | Some y \<Rightarrow> f y)"
  by (cases x) auto

lemma preserves_sum [triple_intros]:
  "(\<And>x. preserves I (f x)) \<Longrightarrow> (\<And>x. preserves I (g x)) \<Longrightarrow>
     preserves I (case x of Inl y \<Rightarrow> f y | Inr y \<Rightarrow> g y)"
  by (cases x) auto

section \<open>Tables as lists of rows\<close>

text \<open>
  A table with a primary key is the list of its rows in insertion order; \<open>key\<close> reads the
  primary key of a row. \<open>row_at\<close> is the lookup by key, \<open>put_row\<close> replaces the row with the
  key of the new one in place or appends it.
\<close>

definition row_at :: "('r \<Rightarrow> 'k) \<Rightarrow> 'k \<Rightarrow> 'r list \<Rightarrow> 'r option" where
  "row_at key k rows = find (\<lambda>r. key r = k) rows"

fun put_row :: "('r \<Rightarrow> 'k) \<Rightarrow> 'r \<Rightarrow> 'r list \<Rightarrow> 'r list" where
  "put_row key r [] = [r]"
| "put_row key r (x # xs) = (if key x = key r then r # xs else x # put_row key r xs)"

abbreviation keys_distinct :: "('r \<Rightarrow> 'k) \<Rightarrow> 'r list \<Rightarrow> bool" where
  "keys_distinct key rows \<equiv> distinct (map key rows)"

lemma row_at_Nil [simp]: "row_at key k [] = None"
  by (simp add: row_at_def)

lemma row_at_Cons [simp]:
  "row_at key k (r # rows) = (if key r = k then Some r else row_at key k rows)"
  by (simp add: row_at_def)

lemma row_at_append:
  "row_at key k (xs @ ys) =
     (case row_at key k xs of None \<Rightarrow> row_at key k ys | Some r \<Rightarrow> Some r)"
  by (induction xs) auto

lemma row_at_SomeD: "row_at key k rows = Some r \<Longrightarrow> r \<in> set rows \<and> key r = k"
  by (induction rows) (auto split: if_splits)

lemma row_at_None_iff: "row_at key k rows = None \<longleftrightarrow> k \<notin> key ` set rows"
  by (induction rows) auto

lemma row_at_unique:
  "keys_distinct key rows \<Longrightarrow> r \<in> set rows \<Longrightarrow> row_at key (key r) rows = Some r"
  by (induction rows) (auto simp: rev_image_eqI)

lemma row_at_put [simp]:
  "row_at key k (put_row key r rows) = (if k = key r then Some r else row_at key k rows)"
  by (induction rows) auto

lemma set_put_row:
  "keys_distinct key rows \<Longrightarrow> set (put_row key r rows) = insert r {x \<in> set rows. key x \<noteq> key r}"
  by (induction rows) (auto simp: rev_image_eqI)

lemma set_put_row_subset: "set (put_row key r rows) \<subseteq> insert r (set rows)"
  by (induction rows) auto

lemma keys_put_row:
  "map key (put_row key r rows) =
     (if key r \<in> key ` set rows then map key rows else map key rows @ [key r])"
  by (induction rows) auto

lemma distinct_put_row [simp]: "keys_distinct key rows \<Longrightarrow> keys_distinct key (put_row key r rows)"
  by (simp add: keys_put_row)

section \<open>Decimal digits\<close>

text \<open>The digits that Go's \<open>%d\<close> and \<open>strconv\<close> print for an unsigned number.\<close>

fun digits :: "nat \<Rightarrow> string" where
  "digits n =
     (if n < 10 then [char_of (48 + n)] else digits (n div 10) @ [char_of (48 + n mod 10)])"

declare digits.simps [simp del]

lemma digits_not_Nil [simp]: "digits n \<noteq> []"
  by (subst digits.simps) simp

lemma char_of_digit_inj:
  assumes "char_of (48 + m) = (char_of (48 + n) :: char)" and "m < 10" and "n < (10 :: nat)"
  shows "m = n"
proof -
  have "of_char (char_of (48 + m) :: char) = (of_char (char_of (48 + n) :: char) :: nat)"
    using assms(1) by simp
  then show ?thesis using assms(2,3) by simp
qed

lemma digits_inj: "digits m = digits n \<Longrightarrow> m = n"
proof (induction m arbitrary: n rule: less_induct)
  case (less m)
  show ?case
  proof (cases "m < 10")
    case True
    with less.prems have d: "[char_of (48 + m)] = digits n"
      by (simp add: digits.simps [of m])
    have "n < 10"
    proof (rule ccontr)
      assume "\<not> n < 10"
      with d have "digits (n div 10) = []" by (simp add: digits.simps [of n])
      then show False by simp
    qed
    with d have "char_of (48 + m) = (char_of (48 + n) :: char)"
      by (simp add: digits.simps [of n])
    with True \<open>n < 10\<close> show ?thesis by (intro char_of_digit_inj)
  next
    case False
    then have dm: "digits m = digits (m div 10) @ [char_of (48 + m mod 10)]"
      by (simp add: digits.simps [of m])
    have n: "\<not> n < 10"
    proof
      assume "n < 10"
      then have "digits n = [char_of (48 + n)]" by (simp add: digits.simps [of n])
      with dm less.prems have "digits (m div 10) = []" by simp
      then show False by simp
    qed
    then have dn: "digits n = digits (n div 10) @ [char_of (48 + n mod 10)]"
      by (simp add: digits.simps [of n])
    from dm dn less.prems
    have tens: "digits (m div 10) = digits (n div 10)"
      and units: "char_of (48 + m mod 10) = (char_of (48 + n mod 10) :: char)" by simp_all
    from units have "m mod 10 = n mod 10" by (rule char_of_digit_inj) simp_all
    moreover from False tens have "m div 10 = n div 10" by (intro less.IH) simp_all
    ultimately show ?thesis by (metis div_mult_mod_eq)
  qed
qed

end
