(* ===== verification/Errors.thy ===== *)
theory Errors
  imports Prelude
begin

text \<open>
  The sentinel errors of the packages (the \<open>errors.go\<close> files), one datatype per package, and
  the error values that the application layers pass around. An error value keeps what
  \<open>errors.Is\<close> can observe (which sentinels it wraps), not its message text: a sentinel wrapped
  by \<open>fmt.Errorf("...: %w", err)\<close> is the sentinel itself, an error that wraps several
  (\<open>errors.Join\<close>, several \<open>%w\<close>) is \<open>Joined\<close>, an error without a sentinel is \<open>Message\<close>
  with a short name for the statement that makes it.
\<close>

datatype payment_error =
    ErrInvalidPaymentID | ErrInvalidPaymentStatus | ErrInvalidPaymentVersion
  | ErrInvalidMoneyAmount | ErrInvalidCurrency | ErrInvalidTransition
  | ErrInvalidAuthorizedAmount | ErrInvalidCapturedAmount | ErrInvalidRefundedAmount
  | ErrInvalidPaymentState | ErrInvalidEventID | ErrInvalidAggregateID
  | ErrInvalidEventType | ErrInvalidEventTimestamp | ErrInvalidAggregateVersion

datatype payment_app_error =
    ErrPaymentNotFound | ErrPaymentVersionConflict | ErrEventAlreadyExists
  | ErrEmptyEventHistory | ErrIncompleteEventHistory | ErrInconsistentEventHistory

datatype job_error =
    ErrInvalidJobID | ErrInvalidJobType | ErrInvalidScheduledAt | ErrInvalidLeaseOwner
  | ErrInvalidLeaseExpiry | ErrStaleLease | ErrInvalidRetryTime | ErrInvalidJobTransition
  | ErrInvalidExecutionStatus | ErrInvalidAttempt | ErrInvalidMaxAttempts
  | ErrInvalidRetryDelay | ErrInvalidMaxDelay

datatype scheduler_error =
    ErrInvalidRepository | ErrInvalidDispatcher | ErrInvalidSchedulerClock
  | ErrInvalidOperationalClock | ErrInvalidOwner | ErrInvalidBatchSize
  | ErrInvalidLeaseDuration | ErrNilAcquiredJob
  | ErrInvalidWorkerRepository | ErrNilJob | ErrUnknownJobType | ErrInvalidHandler

datatype clock_error =
    ErrInvalidClock | ErrInvalidTime | ErrInvalidAdvance | ErrBackwardAdvance

datatype provider_error =
    ErrInvalidProviderID | ErrInvalidPaymentSnapshot | ErrInvalidOperationResult
  | ErrInvalidAsyncOperation | ErrNilProvider | ErrProviderAlreadyExists
  | ErrProviderNotFound | ErrInvalidRequest | ErrInvalidOperationAmount

datatype saga_error =
    SagaErrVersionConflict | SagaErrInvalidID | SagaErrInvalidStep | SagaErrInvalidStatus
  | SagaErrInvalidMessage | SagaErrInvalidTransition

datatype idempotency_error = ErrRecordNotFound | ErrFingerprintConflict

datatype webhook_error =
    ErrInvalidEndpointID | ErrInvalidEndpointURL | ErrInvalidEndpointRepository
  | ErrEndpointNotFound | ErrEndpointAlreadyExists | ErrInvalidDeliveryPayload
  | ErrCallbackDeliveryFailed | ErrInvalidHTTPClient

datatype replay_error =
    ErrInvalidScenarioID | ErrInvalidScenarioTime | ErrInvalidProviderConfiguration
  | ErrDuplicateInitialPayment | ErrInvalidCommand | ErrInvalidCommandType
  | ErrInvalidCommandPaymentID | ErrScenarioAlreadyExists | ErrInvalidCommandAmount
  | ErrInvalidName

datatype replay_app_error =
    ErrPaymentAlreadyExists | ErrNilScenarioRunner | ErrNilProviderRegistry
  | ErrProviderOperationFailed | ErrAsyncOperationNotFound | ErrAsyncOperationNotDue
  | ErrScenarioNotFound

datatype administration_error =
    ErrNilPaymentRepository | ErrNilEventLog | ErrNilDiagnosticsClock | ErrNilDiagnosticsRegistry
  | ErrNilRuntimeEvents | ErrNilRuntimeJobs | ErrNilRuntimeHooks | ErrNilRuntimeTransaction
  | ErrNilWebhookDeliveryAudit | AdministrationErrScenarioNotFound | ErrNilClock | ErrNilRegistry

datatype error =
    Payment payment_error
  | PaymentApp payment_app_error
  | JobErr job_error
  | Scheduler scheduler_error
  | Clock clock_error
  | Provider provider_error
  | Saga saga_error
  | Idempotency idempotency_error
  | Webhook webhook_error
  | Replay replay_error
  | ReplayApp replay_app_error
  | Administration administration_error
  | Canceled                     \<comment> \<open>\<open>ctx.Err()\<close> of a context that is done\<close>
  | Driver                       \<comment> \<open>a failed SQL statement, begin, commit or rollback\<close>
  | NoRows                       \<comment> \<open>\<open>sql.ErrNoRows\<close>\<close>
  | Decoding                     \<comment> \<open>\<open>encoding/json\<close> rejects its input\<close>
  | Message string
  | Joined "error list"

text \<open>\<open>errors.Is(e, t)\<close> for a sentinel \<open>t\<close>.\<close>

fun errors_Is :: "error \<Rightarrow> error \<Rightarrow> bool" where
  "errors_Is (Joined es) t \<longleftrightarrow> Joined es = t \<or> (\<exists>e \<in> set es. errors_Is e t)"
| "errors_Is e t \<longleftrightarrow> e = t"

text \<open>\<open>errors.Join\<close>: the nil errors are dropped, and joining nothing is nil.\<close>

definition errors_Join :: "error option list \<Rightarrow> error option" where
  "errors_Join es =
     (case List.map_filter (\<lambda>e. e) es of [] \<Rightarrow> None | xs \<Rightarrow> Some (Joined xs))"

lemma errors_Join_None_iff: "errors_Join es = None \<longleftrightarrow> (\<forall>e \<in> set es. e = None)"
  by (induction es) (auto simp: errors_Join_def map_filter_simps split: list.splits option.splits)

end
