(* ===== verification/Payments.thy ===== *)
theory Payments
  imports Errors
begin

text \<open>
  The payment aggregate of \<open>internal/payment/domain\<close>: money, lifecycle statuses, the
  persisted state with its validation, and the five operations that move a payment through
  its life. Amounts are \<open>int64\<close> and the version is \<open>uint64\<close>, as in the code.
\<close>

section \<open>Money\<close>

record money =
  money_amount :: int64
  money_currency :: string

definition validCurrency :: "string \<Rightarrow> bool" where
  "validCurrency currency \<longleftrightarrow>
     length currency = 3 \<and>
     (\<forall>c \<in> set currency. \<not> (of_char c < (65 :: nat) \<or> of_char c > (90 :: nat)))"

definition NewMoney :: "int64 \<Rightarrow> string \<Rightarrow> payment_error + money" where
  "NewMoney amount currency =
     (if sint amount < 0 then Inl ErrInvalidMoneyAmount
      else if \<not> validCurrency currency then Inl ErrInvalidCurrency
      else Inr \<lparr>money_amount = amount, money_currency = currency\<rparr>)"

section \<open>Statuses\<close>

text \<open>
  Go's \<open>Status\<close> is a string with eight named constants. \<open>UnknownStatus\<close> is any other text,
  which can come from a table row or a request; \<open>status_text\<close> and \<open>status_of\<close> relate the
  constants to their texts.
\<close>

datatype status =
    StatusPending | StatusAuthorized | StatusPartiallyCaptured | StatusCaptured
  | StatusPartiallyRefunded | StatusRefunded | StatusFailed | StatusCancelled
  | UnknownStatus string

fun status_text :: "status \<Rightarrow> string" where
  "status_text StatusPending = ''pending''"
| "status_text StatusAuthorized = ''authorized''"
| "status_text StatusPartiallyCaptured = ''partially_captured''"
| "status_text StatusCaptured = ''captured''"
| "status_text StatusPartiallyRefunded = ''partially_refunded''"
| "status_text StatusRefunded = ''refunded''"
| "status_text StatusFailed = ''failed''"
| "status_text StatusCancelled = ''cancelled''"
| "status_text (UnknownStatus t) = t"

definition status_of :: "string \<Rightarrow> status" where
  "status_of t =
     (case find (\<lambda>s. status_text s = t)
        [StatusPending, StatusAuthorized, StatusPartiallyCaptured, StatusCaptured,
         StatusPartiallyRefunded, StatusRefunded, StatusFailed, StatusCancelled] of
        Some s \<Rightarrow> s | None \<Rightarrow> UnknownStatus t)"

fun Status_Valid :: "status \<Rightarrow> bool" where
  "Status_Valid (UnknownStatus t) = False"
| "Status_Valid s = True"

fun Status_Terminal :: "status \<Rightarrow> bool" where
  "Status_Terminal StatusFailed = True"
| "Status_Terminal StatusCancelled = True"
| "Status_Terminal StatusRefunded = True"
| "Status_Terminal s = False"

lemma status_text_of [simp]: "status_text (status_of t) = t"
  by (simp add: status_of_def)

lemma status_of_text: "Status_Valid s \<Longrightarrow> status_of (status_text s) = s"
  by (cases s) (simp_all add: status_of_def)

section \<open>The persisted state and its validation\<close>

record payment_state =
  ps_ID :: string
  ps_Amount :: money
  ps_Status :: status
  ps_AuthorizedAmount :: int64
  ps_CapturedAmount :: int64
  ps_RefundedAmount :: int64
  ps_Version :: uint64

definition validateLifecycleConsistency :: "payment_state \<Rightarrow> payment_error option" where
  "validateLifecycleConsistency s =
     (let total = money_amount (ps_Amount s); authorized = ps_AuthorizedAmount s;
          captured = ps_CapturedAmount s; refunded = ps_RefundedAmount s;
          reject = (\<lambda>bad. if bad then Some ErrInvalidPaymentState else None)
      in case ps_Status s of
        StatusPending \<Rightarrow> reject (authorized \<noteq> 0 \<or> captured \<noteq> 0 \<or> refunded \<noteq> 0)
      | StatusFailed \<Rightarrow> reject (authorized \<noteq> 0 \<or> captured \<noteq> 0 \<or> refunded \<noteq> 0)
      | StatusAuthorized \<Rightarrow> reject (authorized \<noteq> total \<or> captured \<noteq> 0 \<or> refunded \<noteq> 0)
      | StatusPartiallyCaptured \<Rightarrow>
          reject (authorized \<noteq> total \<or> sint captured \<le> 0 \<or> sint captured \<ge> sint authorized
                  \<or> refunded \<noteq> 0)
      | StatusCaptured \<Rightarrow> reject (authorized \<noteq> total \<or> captured \<noteq> authorized \<or> refunded \<noteq> 0)
      | StatusPartiallyRefunded \<Rightarrow>
          reject (authorized \<noteq> total \<or> captured \<noteq> authorized
                  \<or> sint refunded \<le> 0 \<or> sint refunded \<ge> sint captured)
      | StatusRefunded \<Rightarrow>
          reject (authorized \<noteq> total \<or> captured \<noteq> authorized \<or> refunded \<noteq> captured)
      | StatusCancelled \<Rightarrow> reject (authorized \<noteq> total \<or> captured \<noteq> 0 \<or> refunded \<noteq> 0)
      | UnknownStatus t \<Rightarrow> None)"

definition PaymentState_Validate :: "payment_state \<Rightarrow> payment_error option" where
  "PaymentState_Validate s =
     (if ps_ID s = [] then Some ErrInvalidPaymentID
      else if \<not> Status_Valid (ps_Status s) then Some ErrInvalidPaymentStatus
      else if ps_Version s = 0 then Some ErrInvalidPaymentVersion
      else if sint (money_amount (ps_Amount s)) \<le> 0 then Some ErrInvalidMoneyAmount
      else if sint (ps_AuthorizedAmount s) < 0
           \<or> sint (ps_AuthorizedAmount s) > sint (money_amount (ps_Amount s))
        then Some ErrInvalidAuthorizedAmount
      else if sint (ps_CapturedAmount s) < 0
           \<or> sint (ps_CapturedAmount s) > sint (ps_AuthorizedAmount s)
        then Some ErrInvalidCapturedAmount
      else if sint (ps_RefundedAmount s) < 0
           \<or> sint (ps_RefundedAmount s) > sint (ps_CapturedAmount s)
        then Some ErrInvalidRefundedAmount
      else validateLifecycleConsistency s)"

section \<open>The aggregate\<close>

record payment =
  p_id :: string
  p_amount :: money
  p_status :: status
  p_authorizedAmount :: int64
  p_capturedAmount :: int64
  p_refundedAmount :: int64
  p_version :: uint64

definition Payment_New :: "string \<Rightarrow> money \<Rightarrow> payment_error + payment" where
  "Payment_New pid amount =
     (if pid = [] then Inl ErrInvalidPaymentID
      else if sint (money_amount amount) \<le> 0 then Inl ErrInvalidMoneyAmount
      else Inr \<lparr>p_id = pid, p_amount = amount, p_status = StatusPending,
                p_authorizedAmount = 0, p_capturedAmount = 0, p_refundedAmount = 0,
                p_version = 1\<rparr>)"

definition Payment_Restore :: "payment_state \<Rightarrow> payment_error + payment" where
  "Payment_Restore s =
     (case PaymentState_Validate s of
        Some e \<Rightarrow> Inl e
      | None \<Rightarrow>
          Inr \<lparr>p_id = ps_ID s, p_amount = ps_Amount s, p_status = ps_Status s,
               p_authorizedAmount = ps_AuthorizedAmount s,
               p_capturedAmount = ps_CapturedAmount s,
               p_refundedAmount = ps_RefundedAmount s, p_version = ps_Version s\<rparr>)"

text \<open>The accessors that return an amount in the currency of the payment.\<close>

definition AuthorizedAmount :: "payment \<Rightarrow> money" where
  "AuthorizedAmount p =
     \<lparr>money_amount = p_authorizedAmount p, money_currency = money_currency (p_amount p)\<rparr>"

definition CapturedAmount :: "payment \<Rightarrow> money" where
  "CapturedAmount p =
     \<lparr>money_amount = p_capturedAmount p, money_currency = money_currency (p_amount p)\<rparr>"

definition RefundedAmount :: "payment \<Rightarrow> money" where
  "RefundedAmount p =
     \<lparr>money_amount = p_refundedAmount p, money_currency = money_currency (p_amount p)\<rparr>"

definition RemainingCapturableAmount :: "payment \<Rightarrow> money" where
  "RemainingCapturableAmount p =
     \<lparr>money_amount = p_authorizedAmount p - p_capturedAmount p,
      money_currency = money_currency (p_amount p)\<rparr>"

definition RemainingRefundableAmount :: "payment \<Rightarrow> money" where
  "RemainingRefundableAmount p =
     \<lparr>money_amount = p_capturedAmount p - p_refundedAmount p,
      money_currency = money_currency (p_amount p)\<rparr>"

definition Payment_Authorize :: "payment \<Rightarrow> payment_error + payment" where
  "Payment_Authorize p =
     (if p_status p \<noteq> StatusPending then Inl ErrInvalidTransition
      else Inr (p\<lparr>p_authorizedAmount := money_amount (p_amount p),
                  p_status := StatusAuthorized, p_version := p_version p + 1\<rparr>))"

definition Payment_Fail :: "payment \<Rightarrow> payment_error + payment" where
  "Payment_Fail p =
     (if p_status p \<noteq> StatusPending then Inl ErrInvalidTransition
      else Inr (p\<lparr>p_status := StatusFailed, p_version := p_version p + 1\<rparr>))"

definition Payment_Cancel :: "payment \<Rightarrow> payment_error + payment" where
  "Payment_Cancel p =
     (if p_status p \<noteq> StatusAuthorized then Inl ErrInvalidTransition
      else Inr (p\<lparr>p_status := StatusCancelled, p_version := p_version p + 1\<rparr>))"

definition Payment_Capture :: "money \<Rightarrow> payment \<Rightarrow> payment_error + payment" where
  "Payment_Capture m p =
     (if p_status p \<noteq> StatusAuthorized \<and> p_status p \<noteq> StatusPartiallyCaptured
        then Inl ErrInvalidTransition
      else if money_currency m \<noteq> money_currency (p_amount p) then Inl ErrInvalidCurrency
      else if sint (money_amount m) \<le> 0 then Inl ErrInvalidCapturedAmount
      else let remaining = p_authorizedAmount p - p_capturedAmount p in
        if sint (money_amount m) > sint remaining then Inl ErrInvalidCapturedAmount
        else let captured = p_capturedAmount p + money_amount m in
          Inr (p\<lparr>p_capturedAmount := captured,
                 p_status := (if captured = p_authorizedAmount p then StatusCaptured
                              else StatusPartiallyCaptured),
                 p_version := p_version p + 1\<rparr>))"

definition Payment_Refund :: "money \<Rightarrow> payment \<Rightarrow> payment_error + payment" where
  "Payment_Refund m p =
     (if p_status p \<noteq> StatusCaptured \<and> p_status p \<noteq> StatusPartiallyRefunded
        then Inl ErrInvalidTransition
      else if money_currency m \<noteq> money_currency (p_amount p) then Inl ErrInvalidCurrency
      else if sint (money_amount m) \<le> 0 then Inl ErrInvalidRefundedAmount
      else let remaining = p_capturedAmount p - p_refundedAmount p in
        if sint (money_amount m) > sint remaining then Inl ErrInvalidRefundedAmount
        else let refunded = p_refundedAmount p + money_amount m in
          Inr (p\<lparr>p_refundedAmount := refunded,
                 p_status := (if refunded = p_capturedAmount p then StatusRefunded
                              else StatusPartiallyRefunded),
                 p_version := p_version p + 1\<rparr>))"

text \<open>One call of an operation, and a run of calls in which a rejected call changes nothing.\<close>

datatype payment_op =
  OpAuthorize | OpFail | OpCancel | OpCapture money | OpRefund money

fun payment_call :: "payment_op \<Rightarrow> payment \<Rightarrow> payment_error + payment" where
  "payment_call OpAuthorize p = Payment_Authorize p"
| "payment_call OpFail p = Payment_Fail p"
| "payment_call OpCancel p = Payment_Cancel p"
| "payment_call (OpCapture m) p = Payment_Capture m p"
| "payment_call (OpRefund m) p = Payment_Refund m p"

fun payment_run :: "payment_op list \<Rightarrow> payment \<Rightarrow> payment" where
  "payment_run [] p = p"
| "payment_run (op # ops) p =
     payment_run ops (case payment_call op p of Inl e \<Rightarrow> p | Inr q \<Rightarrow> q)"

lemmas payment_op_defs = Payment_Authorize_def Payment_Fail_def Payment_Cancel_def
  Payment_Capture_def Payment_Refund_def

section \<open>The aggregate invariant\<close>

text \<open>
  The state that \<open>memoryRepository.states\<close> and the SQL row expose of a payment. A payment is
  well formed when \<open>PaymentState.Validate\<close> accepts that state, so that \<open>Restore\<close> returns it.
\<close>

definition payment_state_of :: "payment \<Rightarrow> payment_state" where
  "payment_state_of p =
     \<lparr>ps_ID = p_id p, ps_Amount = p_amount p, ps_Status = p_status p,
      ps_AuthorizedAmount = p_authorizedAmount p, ps_CapturedAmount = p_capturedAmount p,
      ps_RefundedAmount = p_refundedAmount p, ps_Version = p_version p\<rparr>"

definition payment_valid :: "payment \<Rightarrow> bool" where
  "payment_valid p \<longleftrightarrow> PaymentState_Validate (payment_state_of p) = None"

definition payment_ok :: "payment \<Rightarrow> bool" where
  "payment_ok p \<longleftrightarrow> payment_valid p \<and> validCurrency (money_currency (p_amount p))"

text \<open>What the validation accepts, status by status.\<close>

fun amounts_fit :: "status \<Rightarrow> int \<Rightarrow> int \<Rightarrow> int \<Rightarrow> int \<Rightarrow> bool" where
  "amounts_fit StatusPending t a c r \<longleftrightarrow> a = 0 \<and> c = 0 \<and> r = 0"
| "amounts_fit StatusFailed t a c r \<longleftrightarrow> a = 0 \<and> c = 0 \<and> r = 0"
| "amounts_fit StatusAuthorized t a c r \<longleftrightarrow> a = t \<and> c = 0 \<and> r = 0"
| "amounts_fit StatusCancelled t a c r \<longleftrightarrow> a = t \<and> c = 0 \<and> r = 0"
| "amounts_fit StatusPartiallyCaptured t a c r \<longleftrightarrow> a = t \<and> 0 < c \<and> c < t \<and> r = 0"
| "amounts_fit StatusCaptured t a c r \<longleftrightarrow> a = t \<and> c = t \<and> r = 0"
| "amounts_fit StatusPartiallyRefunded t a c r \<longleftrightarrow> a = t \<and> c = t \<and> 0 < r \<and> r < t"
| "amounts_fit StatusRefunded t a c r \<longleftrightarrow> a = t \<and> c = t \<and> r = t"
| "amounts_fit (UnknownStatus u) t a c r \<longleftrightarrow> False"

lemma sint_word_eq_iff: "(a :: int64) = b \<longleftrightarrow> sint a = sint b"
  using sint_eqI by blast

lemma payment_valid_iff:
  "payment_valid p \<longleftrightarrow>
     p_id p \<noteq> [] \<and> p_version p \<noteq> 0 \<and> 0 < sint (money_amount (p_amount p)) \<and>
     amounts_fit (p_status p) (sint (money_amount (p_amount p))) (sint (p_authorizedAmount p))
       (sint (p_capturedAmount p)) (sint (p_refundedAmount p))"
proof (cases "p_status p")
  case (UnknownStatus u)
  then show ?thesis
    by (simp add: payment_valid_def PaymentState_Validate_def payment_state_of_def)
qed (auto simp: payment_valid_def PaymentState_Validate_def payment_state_of_def
       validateLifecycleConsistency_def Let_def sint_word_eq_iff)

lemma payment_valid_restore:
  "payment_valid p \<Longrightarrow> Payment_Restore (payment_state_of p) = Inr p"
  by (simp add: payment_valid_def Payment_Restore_def payment_state_of_def)

lemma payment_restore_valid:
  "Payment_Restore s = Inr p \<Longrightarrow> payment_valid p \<and> payment_state_of p = s"
  by (cases s) (auto simp: Payment_Restore_def payment_valid_def payment_state_of_def split: option.splits)

lemma NewMoney_Inr_iff:
  "NewMoney a c = Inr m \<longleftrightarrow>
     0 \<le> sint a \<and> validCurrency c \<and> m = \<lparr>money_amount = a, money_currency = c\<rparr>"
  by (auto simp: NewMoney_def)

lemma Payment_New_valid: "Payment_New i m = Inr p \<Longrightarrow> payment_valid p"
  by (auto simp: Payment_New_def payment_valid_iff split: if_splits)

lemma Payment_New_fields:
  assumes "Payment_New i m = Inr p"
  shows "p_id p = i" and "p_amount p = m" and "p_version p = 1" and "p_status p = StatusPending"
  using assms by (auto simp: Payment_New_def split: if_splits)

text \<open>Every accepted call changes only the lifecycle fields and advances the version by one.\<close>

lemma payment_call_frame:
  assumes "payment_call op p = Inr q"
  shows "p_id q = p_id p" and "p_amount q = p_amount p" and "p_version q = p_version p + 1"
  using assms by (cases op; auto simp: payment_op_defs Let_def split: if_splits)+

section \<open>The ledger: an abstract specification over unbounded integers\<close>

text \<open>
  A ledger keeps the total of a payment and how much of it is held (authorized), taken
  (captured) and returned (refunded), and whether it was rejected or voided. It has no status:
  the status of a payment is a function of its ledger (\<open>ledger_status\<close>), and which operations
  are possible is read off the amounts.
\<close>

datatype ledger_mode = Live | Voided | Rejected

record ledger =
  mode :: ledger_mode
  total :: int
  held :: int
  taken :: int
  returned :: int

definition ledger_status :: "ledger \<Rightarrow> status" where
  "ledger_status l =
     (case mode l of
        Rejected \<Rightarrow> StatusFailed
      | Voided \<Rightarrow> StatusCancelled
      | Live \<Rightarrow>
          if held l = 0 then StatusPending
          else if 0 < returned l
            then (if returned l = taken l then StatusRefunded else StatusPartiallyRefunded)
          else if taken l = 0 then StatusAuthorized
          else if taken l = held l then StatusCaptured else StatusPartiallyCaptured)"

fun ledger_call :: "payment_op \<Rightarrow> ledger \<Rightarrow> ledger option" where
  "ledger_call OpAuthorize l =
     (if mode l = Live \<and> held l = 0 then Some (l\<lparr>held := total l\<rparr>) else None)"
| "ledger_call OpFail l =
     (if mode l = Live \<and> held l = 0 then Some (l\<lparr>mode := Rejected\<rparr>) else None)"
| "ledger_call OpCancel l =
     (if mode l = Live \<and> 0 < held l \<and> taken l = 0 then Some (l\<lparr>mode := Voided\<rparr>) else None)"
| "ledger_call (OpCapture m) l =
     (if mode l = Live \<and> 0 < held l \<and> 0 < sint (money_amount m)
         \<and> taken l + sint (money_amount m) \<le> held l
      then Some (l\<lparr>taken := taken l + sint (money_amount m)\<rparr>) else None)"
| "ledger_call (OpRefund m) l =
     (if mode l = Live \<and> 0 < held l \<and> taken l = held l \<and> 0 < sint (money_amount m)
         \<and> returned l + sint (money_amount m) \<le> taken l
      then Some (l\<lparr>returned := returned l + sint (money_amount m)\<rparr>) else None)"

definition ledger_of :: "payment \<Rightarrow> ledger" where
  "ledger_of p =
     \<lparr>mode = (case p_status p of StatusFailed \<Rightarrow> Rejected | StatusCancelled \<Rightarrow> Voided | _ \<Rightarrow> Live),
      total = sint (money_amount (p_amount p)), held = sint (p_authorizedAmount p),
      taken = sint (p_capturedAmount p), returned = sint (p_refundedAmount p)\<rparr>"

text \<open>The currency of a capture or refund is the payment's; the other calls name no money.\<close>

fun op_currency_ok :: "payment_op \<Rightarrow> payment \<Rightarrow> bool" where
  "op_currency_ok (OpCapture m) p \<longleftrightarrow> money_currency m = money_currency (p_amount p)"
| "op_currency_ok (OpRefund m) p \<longleftrightarrow> money_currency m = money_currency (p_amount p)"
| "op_currency_ok op p \<longleftrightarrow> True"

lemma ledger_status_of:
  assumes "payment_valid p"
  shows "ledger_status (ledger_of p) = p_status p"
  using assms
  by (cases "p_status p") (auto simp: payment_valid_iff ledger_status_def ledger_of_def)

lemma captured_remaining:
  fixes a c n :: int64
  assumes "0 \<le> sint c" and "sint c \<le> sint a"
  shows "sint (a - c) = sint a - sint c \<and>
         (0 < sint n \<and> sint n \<le> sint (a - c) \<longrightarrow> sint (c + n) = sint c + sint n)"
proof -
  have diff: "sint (a - c) = sint a - sint c"
    using assms sint_in_range [of a] sint_in_range [of c] by (intro sint_diff_exact) linarith+
  have "sint (c + n) = sint c + sint n" if "0 < sint n" and "sint n \<le> sint (a - c)"
    using that diff assms sint_in_range [of a] by (intro sint_add_exact) linarith+
  with diff show ?thesis by blast
qed

lemma payment_refines_ledger:
  assumes "payment_valid p" and "op_currency_ok op p"
  shows "(case payment_call op p of Inl e \<Rightarrow> None | Inr q \<Rightarrow> Some (ledger_of q)) =
           ledger_call op (ledger_of p)"
proof (cases op)
  case OpAuthorize
  with assms(1) show ?thesis
    by (cases "p_status p") (auto simp: payment_valid_iff Payment_Authorize_def ledger_of_def)
next
  case OpFail
  with assms(1) show ?thesis
    by (cases "p_status p") (auto simp: payment_valid_iff Payment_Fail_def ledger_of_def)
next
  case OpCancel
  with assms(1) show ?thesis
    by (cases "p_status p") (auto simp: payment_valid_iff Payment_Cancel_def ledger_of_def)
next
  case (OpCapture m)
  with assms(1) captured_remaining [of "p_capturedAmount p" "p_authorizedAmount p" "money_amount m"]
  show ?thesis using assms(2)
    by (cases "p_status p")
      (auto simp: payment_valid_iff Payment_Capture_def ledger_of_def Let_def sint_eq_0_iff)
next
  case (OpRefund m)
  with assms(1) captured_remaining [of "p_refundedAmount p" "p_capturedAmount p" "money_amount m"]
  show ?thesis using assms(2)
    by (cases "p_status p")
      (auto simp: payment_valid_iff Payment_Refund_def ledger_of_def Let_def sint_eq_0_iff)
qed

lemma payment_call_currency:
  "payment_call op p = Inr q \<Longrightarrow> op_currency_ok op p"
  by (cases op) (auto simp: payment_op_defs Let_def split: if_splits)

lemma payment_call_ledger:
  assumes "payment_valid p" and "payment_call op p = Inr q"
  shows "ledger_call op (ledger_of p) = Some (ledger_of q)"
  using payment_refines_ledger [OF assms(1) payment_call_currency [OF assms(2)]] assms(2) by simp

lemma payment_call_valid:
  assumes "payment_valid p" and "p_version p \<noteq> - 1" and "payment_call op p = Inr q"
  shows "payment_valid q"
proof (cases op)
  case (OpCapture m)
  with assms captured_remaining [of "p_capturedAmount p" "p_authorizedAmount p" "money_amount m"]
  show ?thesis
    by (cases "p_status p")
      (auto simp: payment_valid_iff Payment_Capture_def Let_def inc_neq_0
         sint_word_eq_iff [of "p_capturedAmount p + money_amount m"] split: if_splits)
next
  case (OpRefund m)
  with assms captured_remaining [of "p_refundedAmount p" "p_capturedAmount p" "money_amount m"]
  show ?thesis
    by (cases "p_status p")
      (auto simp: payment_valid_iff Payment_Refund_def Let_def inc_neq_0
         sint_word_eq_iff [of "p_refundedAmount p + money_amount m"] split: if_splits)
qed (use assms in \<open>auto simp: payment_valid_iff payment_op_defs inc_neq_0 split: if_splits\<close>)

lemma payment_call_ok:
  assumes "payment_ok p" and "p_version p \<noteq> - 1" and "payment_call op p = Inr q"
  shows "payment_ok q"
  using assms payment_call_valid [OF _ assms(2,3)] payment_call_frame(2) [OF assms(3)]
  by (simp add: payment_ok_def)

lemma terminal_is_final: "Status_Terminal (p_status p) \<Longrightarrow> \<exists>e. payment_call op p = Inl e"
  by (cases op; cases "p_status p") (simp_all add: payment_op_defs)

section \<open>Runs\<close>

text \<open>The money that the accepted captures (refunds) of a run moved.\<close>

fun captured_by :: "payment_op list \<Rightarrow> payment \<Rightarrow> int" where
  "captured_by [] p = 0"
| "captured_by (op # ops) p =
     (case payment_call op p of
        Inl e \<Rightarrow> captured_by ops p
      | Inr q \<Rightarrow> (case op of OpCapture m \<Rightarrow> sint (money_amount m) | _ \<Rightarrow> 0) + captured_by ops q)"

fun refunded_by :: "payment_op list \<Rightarrow> payment \<Rightarrow> int" where
  "refunded_by [] p = 0"
| "refunded_by (op # ops) p =
     (case payment_call op p of
        Inl e \<Rightarrow> refunded_by ops p
      | Inr q \<Rightarrow> (case op of OpRefund m \<Rightarrow> sint (money_amount m) | _ \<Rightarrow> 0) + refunded_by ops q)"

lemma payment_call_amounts:
  assumes "payment_valid p" and "payment_call op p = Inr q"
  shows "sint (p_capturedAmount q) =
           sint (p_capturedAmount p) + (case op of OpCapture m \<Rightarrow> sint (money_amount m) | _ \<Rightarrow> 0)"
    and "sint (p_refundedAmount q) =
           sint (p_refundedAmount p) + (case op of OpRefund m \<Rightarrow> sint (money_amount m) | _ \<Rightarrow> 0)"
  using payment_call_ledger [OF assms]
  by (cases op; auto simp: ledger_of_def split: if_splits)+

lemma version_room:
  assumes "payment_call op p = Inr q" and "unat (p_version p) + Suc n < 2 ^ 64"
  shows "p_version p \<noteq> - 1" and "unat (p_version q) + n < 2 ^ 64"
proof -
  show "p_version p \<noteq> - 1"
  proof
    assume "p_version p = - 1"
    then have "unat (p_version p) = 2 ^ 64 - 1" by (simp add: unsigned_minus_1_eq_mask mask_eq_exp_minus_1)
    with assms(2) show False by simp
  qed
  then show "unat (p_version q) + n < 2 ^ 64"
    using assms(2) by (simp add: payment_call_frame(3) [OF assms(1)] unat_inc_exact)
qed

lemma payment_run_facts:
  assumes "payment_valid p" and "unat (p_version p) + length ops < 2 ^ 64"
  shows "payment_valid (payment_run ops p) \<and>
         p_id (payment_run ops p) = p_id p \<and> p_amount (payment_run ops p) = p_amount p \<and>
         sint (p_capturedAmount (payment_run ops p)) = sint (p_capturedAmount p) + captured_by ops p \<and>
         sint (p_refundedAmount (payment_run ops p)) = sint (p_refundedAmount p) + refunded_by ops p"
  using assms
proof (induction ops arbitrary: p)
  case Nil
  then show ?case by simp
next
  case (Cons op ops)
  show ?case
  proof (cases "payment_call op p")
    case (Inl e)
    with Cons show ?thesis by simp
  next
    case (Inr q)
    have "unat (p_version p) + Suc (length ops) < 2 ^ 64" using Cons.prems(2) by simp
    note room = version_room [OF Inr this]
    have "payment_valid q" by (rule payment_call_valid [OF Cons.prems(1) room(1) Inr])
    from Cons.IH [OF this room(2)] show ?thesis
      using payment_call_amounts [OF Cons.prems(1) Inr] payment_call_frame [OF Inr]
      by (simp add: Inr)
  qed
qed

lemma payment_valid_bounds:
  assumes "payment_valid p"
  shows "0 \<le> sint (p_refundedAmount p)"
    and "sint (p_refundedAmount p) \<le> sint (p_capturedAmount p)"
    and "sint (p_capturedAmount p) \<le> sint (p_authorizedAmount p)"
    and "sint (p_authorizedAmount p) \<le> sint (money_amount (p_amount p))"
  using assms by (cases "p_status p"; auto simp: payment_valid_iff)+

section \<open>Properties\<close>

text \<open>An order of 10.00 EUR, as \<open>New\<close> makes it, for concrete runs.\<close>

definition eur :: "int64 \<Rightarrow> money" where
  "eur n = \<lparr>money_amount = n, money_currency = ''EUR''\<rparr>"

definition sample :: payment where
  "sample = \<lparr>p_id = ''p1'', p_amount = eur 1000, p_status = StatusPending, p_authorizedAmount = 0,
            p_capturedAmount = 0, p_refundedAmount = 0, p_version = 1\<rparr>"

lemma sample_new: "Payment_New ''p1'' (eur 1000) = Inr sample"
  by (simp add: Payment_New_def eur_def sample_def)

lemma sample_valid: "payment_valid sample" and sample_ok: "payment_ok sample"
  by (simp_all add: payment_ok_def payment_valid_iff sample_def eur_def validCurrency_def)

text \<open>
  C1. Money is conserved over any run of operations, rejected ones included: the payment stays
  valid, keeps its identity and amount, and its captured (refunded) total is exactly the money of
  the accepted captures (refunds), without overflow and within the bounds
  \<open>refunded \<le> captured \<le> authorized \<le> amount\<close>.
\<close>

theorem runs_conserve_money:
  assumes "PaymentState_Validate (payment_state_of p) = None"
    and "unat (p_version p) + length ops < 2 ^ 64"
  shows "PaymentState_Validate (payment_state_of (payment_run ops p)) = None \<and>
         p_id (payment_run ops p) = p_id p \<and> p_amount (payment_run ops p) = p_amount p \<and>
         sint (p_capturedAmount (payment_run ops p)) = sint (p_capturedAmount p) + captured_by ops p \<and>
         sint (p_refundedAmount (payment_run ops p)) = sint (p_refundedAmount p) + refunded_by ops p \<and>
         0 \<le> sint (p_refundedAmount (payment_run ops p)) \<and>
         sint (p_refundedAmount (payment_run ops p)) \<le> sint (p_capturedAmount (payment_run ops p)) \<and>
         sint (p_capturedAmount (payment_run ops p)) \<le> sint (p_authorizedAmount (payment_run ops p)) \<and>
         sint (p_authorizedAmount (payment_run ops p)) \<le> sint (money_amount (p_amount p))"
proof -
  have "payment_valid p" using assms(1) by (simp add: payment_valid_def)
  from payment_run_facts [OF this assms(2)]
  have facts: "payment_valid (payment_run ops p)" "p_id (payment_run ops p) = p_id p"
    "p_amount (payment_run ops p) = p_amount p"
    "sint (p_capturedAmount (payment_run ops p)) = sint (p_capturedAmount p) + captured_by ops p"
    "sint (p_refundedAmount (payment_run ops p)) = sint (p_refundedAmount p) + refunded_by ops p"
    by blast+
  with payment_valid_bounds [OF facts(1)] show ?thesis by (simp add: payment_valid_def)
qed

theorem runs_conserve_money_witness:
  "p_capturedAmount (payment_run [OpAuthorize, OpCapture (eur 400), OpCapture (eur 700), OpRefund (eur 1),
      OpCapture (eur 600), OpRefund (eur 250)] sample) = 1000 \<and>
   PaymentState_Validate (payment_state_of (payment_run [OpAuthorize, OpCapture (eur 400),
      OpCapture (eur 700), OpRefund (eur 1), OpCapture (eur 600), OpRefund (eur 250)] sample)) = None"
proof -
  have "PaymentState_Validate (payment_state_of sample) = None"
    using sample_valid by (simp add: payment_valid_def)
  from runs_conserve_money [OF this, of "[OpAuthorize, OpCapture (eur 400), OpCapture (eur 700),
      OpRefund (eur 1), OpCapture (eur 600), OpRefund (eur 250)]"]
  show ?thesis
    by (simp add: sample_def eur_def payment_op_defs Let_def)
qed



lemma payment_moves:
  assumes "payment_valid p" and "\<not> Status_Terminal (p_status p)"
  shows "\<exists>op q. payment_call op p = Inr q"
proof -
  let ?m = "\<lambda>n. \<lparr>money_amount = n, money_currency = money_currency (p_amount p)\<rparr>"
  have move: "\<exists>op q. payment_call op p = Inr q"
    if "ledger_call op (ledger_of p) \<noteq> None" and "op_currency_ok op p" for op
    using payment_refines_ledger [OF assms(1) that(2)] that(1) by (metis sum.case(1) sum.exhaust)
  have "sint (p_authorizedAmount p - p_capturedAmount p) = sint (p_authorizedAmount p) - sint (p_capturedAmount p)"
    and "sint (p_capturedAmount p - p_refundedAmount p) = sint (p_capturedAmount p) - sint (p_refundedAmount p)"
    using payment_valid_bounds [OF assms(1)] captured_remaining [of "p_capturedAmount p" "p_authorizedAmount p"]
      captured_remaining [of "p_refundedAmount p" "p_capturedAmount p"] by auto
  note diffs = this
  show ?thesis
  proof (cases "p_status p")
    case StatusPending
    with assms(1) show ?thesis
      by (intro move [of OpAuthorize]) (auto simp: ledger_of_def payment_valid_iff)
  next
    case StatusAuthorized
    with assms(1) show ?thesis
      by (intro move [of OpCancel]) (auto simp: ledger_of_def payment_valid_iff)
  next
    case StatusPartiallyCaptured
    with assms(1) diffs show ?thesis
      by (intro move [of "OpCapture (?m (p_authorizedAmount p - p_capturedAmount p))"])
        (auto simp: ledger_of_def payment_valid_iff)
  next
    case StatusCaptured
    with assms(1) diffs show ?thesis
      by (intro move [of "OpRefund (?m (p_capturedAmount p - p_refundedAmount p))"])
        (auto simp: ledger_of_def payment_valid_iff)
  next
    case StatusPartiallyRefunded
    with assms(1) diffs show ?thesis
      by (intro move [of "OpRefund (?m (p_capturedAmount p - p_refundedAmount p))"])
        (auto simp: ledger_of_def payment_valid_iff)
  qed (use assms in \<open>simp_all add: payment_valid_iff\<close>)
qed

text \<open>
  The terminal statuses are exactly the ends of the lifecycle: a valid payment is in one of
  them if and only if every operation is rejected, and there every rejection is
  \<open>ErrInvalidTransition\<close>.
\<close>

theorem terminal_iff_stuck:
  assumes "PaymentState_Validate (payment_state_of p) = None"
  shows "(Status_Terminal (p_status p) \<longleftrightarrow> (\<forall>op. \<exists>e. payment_call op p = Inl e)) \<and>
         (Status_Terminal (p_status p) \<longrightarrow> payment_call op p = Inl ErrInvalidTransition)"
proof -
  have v: "payment_valid p" using assms by (simp add: payment_valid_def)
  have "Status_Terminal (p_status p) \<Longrightarrow> payment_call op p = Inl ErrInvalidTransition" for op
    by (cases op; cases "p_status p") (simp_all add: payment_op_defs)
  with payment_moves [OF v] show ?thesis by (metis sum.distinct(1))
qed

theorem terminal_iff_stuck_witness:
  "payment_call (OpCapture (eur 1)) (sample\<lparr>p_status := StatusFailed\<rparr>) = Inl ErrInvalidTransition"
proof -
  have "PaymentState_Validate (payment_state_of (sample\<lparr>p_status := StatusFailed\<rparr>)) = None"
    unfolding payment_valid_def [symmetric] by (simp add: payment_valid_iff sample_def eur_def)
  from terminal_iff_stuck [OF this, of "OpCapture (eur 1)"] show ?thesis by simp
qed

end
