(* ===== verification/Clocks.thy ===== *)
theory Clocks
  imports Errors
begin

text \<open>
  Instants, durations and the two business clocks of \<open>internal/platform/clock\<close>.

  A \<open>time.Time\<close> is the number of nanoseconds since Go's zero time (year 1), the location and
  the monotonic reading being erased by the \<open>UTC()\<close> calls of the code. Go keeps the seconds of
  an instant in an \<open>int64\<close>, and \<open>Time.Add\<close> saturates there; \<open>time_Add\<close> writes that out,
  because the clocks test for it. A \<open>time.Duration\<close> is an \<open>int64\<close> of nanoseconds.
\<close>

type_synonym time = int
type_synonym duration = int64

abbreviation IsZero :: "time \<Rightarrow> bool" where
  "IsZero t \<equiv> t = 0"

definition second :: int where "second = 1000000000"
definition minute :: int where "minute = 60 * second"
definition max_seconds :: int where "max_seconds = 2 ^ 63 - 1"

definition time_Add :: "time \<Rightarrow> duration \<Rightarrow> time" where
  "time_Add t d =
     (let u = t + sint d; s = u div second; ns = u mod second
      in if s > max_seconds then max_seconds * second + ns
         else if s < - max_seconds - 1 then - max_seconds * second + ns
         else u)"

lemma second_pos [simp]: "0 < second"
  by (simp add: second_def)

lemma time_Add_exact:
  assumes "(t + sint d) div second \<le> max_seconds" and "- max_seconds - 1 \<le> (t + sint d) div second"
  shows "time_Add t d = t + sint d"
  using assms by (simp add: time_Add_def Let_def)

lemma time_Add_le: "0 < sint d \<Longrightarrow> - max_seconds - 1 \<le> t div second \<Longrightarrow> time_Add t d \<le> t + sint d"
proof -
  assume d: "0 < sint d" and lo: "- max_seconds - 1 \<le> t div second"
  let ?u = "t + sint d"
  have "t div second \<le> ?u div second" using d by (intro zdiv_mono1) simp_all
  with lo have nlo: "\<not> ?u div second < - max_seconds - 1" by linarith
  show ?thesis
  proof (cases "?u div second > max_seconds")
    case True
    then have "max_seconds * second \<le> (?u div second) * second"
      by (intro mult_right_mono) (simp_all add: order.strict_implies_order)
    then have "max_seconds * second + ?u mod second \<le> ?u"
      using div_mult_mod_eq [of ?u second] by linarith
    with True show ?thesis by (simp add: time_Add_def Let_def)
  next
    case False
    with nlo show ?thesis by (simp add: time_Add_def Let_def)
  qed
qed

text \<open>The instants whose year has four digits: those that JSON can carry.\<close>

definition time_in_range :: "time \<Rightarrow> bool" where
  "time_in_range t \<longleftrightarrow> - (366 * 86400 * second) \<le> t \<and> t < 3652059 * 86400 * second"

section \<open>The in-memory virtual clock\<close>

record virtual_clock =
  vc_current :: time

definition NewVirtualClock :: "time \<Rightarrow> clock_error + virtual_clock" where
  "NewVirtualClock initial =
     (if IsZero initial then Inl ErrInvalidTime else Inr \<lparr>vc_current = initial\<rparr>)"

definition VirtualClock_Now :: "virtual_clock \<Rightarrow> time" where
  "VirtualClock_Now c = vc_current c"

definition VirtualClock_Advance :: "duration \<Rightarrow> virtual_clock \<Rightarrow> clock_error + virtual_clock" where
  "VirtualClock_Advance by c =
     (if sint by \<le> 0 then Inl ErrInvalidAdvance
      else let next = time_Add (vc_current c) by in
        if \<not> next > vc_current c then Inl ErrBackwardAdvance
        else Inr (c\<lparr>vc_current := next\<rparr>))"

definition VirtualClock_Restore :: "time \<Rightarrow> virtual_clock \<Rightarrow> clock_error + virtual_clock" where
  "VirtualClock_Restore at c =
     (if IsZero at then Inl ErrInvalidTime else Inr (c\<lparr>vc_current := at\<rparr>))"

lemma VirtualClock_Advance_forward:
  "VirtualClock_Advance by c = Inr c' \<Longrightarrow> vc_current c < vc_current c'"
  by (auto simp: VirtualClock_Advance_def Let_def split: if_splits)

lemma VirtualClock_Advance_exact:
  assumes "0 < sint by" and "(vc_current c + sint by) div second \<le> max_seconds"
    and "0 \<le> vc_current c"
  shows "VirtualClock_Advance by c = Inr (c\<lparr>vc_current := vc_current c + sint by\<rparr>)"
proof -
  have "0 \<le> (vc_current c + sint by) div second"
    using assms by (simp add: pos_imp_zdiv_nonneg_iff)
  then have "time_Add (vc_current c) by = vc_current c + sint by"
    using assms(2) by (intro time_Add_exact) (simp_all add: max_seconds_def)
  then show ?thesis using assms(1) by (simp add: VirtualClock_Advance_def)
qed

section \<open>The persistent virtual clock\<close>

text \<open>
  \<open>StateStore\<close> is the interface behind \<open>PersistentVirtualClock\<close>. \<open>Load\<close> returns the stored
  instant and whether there is one; an option stands for that pair.
\<close>

record 's state_store =
  ss_Load :: "string \<Rightarrow> ('s, error, time option) proc"
  ss_Save :: "string \<Rightarrow> time \<Rightarrow> ('s, error, unit) proc"

record persistent_clock =
  pc_current :: time
  pc_key :: string

definition NewPersistentVirtualClock ::
  "time \<Rightarrow> 's state_store \<Rightarrow> string \<Rightarrow> ('s, error, persistent_clock) proc" where
  "NewPersistentVirtualClock initial store key =
     (if IsZero initial \<or> key = [] then raiseP (Clock ErrInvalidTime)
      else bindP (ss_Load store key) (\<lambda>loaded.
        case loaded of
          Some at \<Rightarrow> returnP \<lparr>pc_current = at, pc_key = key\<rparr>
        | None \<Rightarrow>
            bindP (ss_Save store key initial) (\<lambda>_.
              returnP \<lparr>pc_current = initial, pc_key = key\<rparr>)))"

definition PersistentVirtualClock_Advance ::
  "'s state_store \<Rightarrow> duration \<Rightarrow> persistent_clock \<Rightarrow> ('s, error, persistent_clock) proc" where
  "PersistentVirtualClock_Advance store by c =
     (if sint by \<le> 0 then raiseP (Clock ErrInvalidAdvance)
      else let next = time_Add (pc_current c) by in
        if \<not> next > pc_current c then raiseP (Clock ErrBackwardAdvance)
        else bindP (ss_Save store (pc_key c) next) (\<lambda>_.
          returnP (c\<lparr>pc_current := next\<rparr>)))"

definition PersistentVirtualClock_Restore ::
  "'s state_store \<Rightarrow> time \<Rightarrow> persistent_clock \<Rightarrow> ('s, error, persistent_clock) proc" where
  "PersistentVirtualClock_Restore store at c =
     (if IsZero at then raiseP (Clock ErrInvalidTime)
      else bindP (ss_Save store (pc_key c) at) (\<lambda>_. returnP (c\<lparr>pc_current := at\<rparr>)))"

text \<open>
  \<open>TimeAdvancer.Execute\<close> over any clock with \<open>Advance\<close> and \<open>Now\<close>: the clock is the value
  threaded through.
\<close>

definition TimeAdvancer_Execute ::
  "(duration \<Rightarrow> 'c \<Rightarrow> ('s, error, 'c) proc) \<Rightarrow> ('c \<Rightarrow> time) \<Rightarrow> duration \<Rightarrow> 'c \<Rightarrow>
     ('s, error, 'c \<times> time) proc" where
  "TimeAdvancer_Execute advance now by c =
     (if sint by \<le> 0 then raiseP (Clock ErrInvalidAdvance)
      else bindP (advance by c) (\<lambda>c'. returnP (c', now c')))"

text \<open>
  What the clock relies on of its store: a key just saved is what \<open>Load\<close> returns, and neither
  a load nor a failed save changes what is stored.
\<close>

locale durable_store =
  fixes store :: "'s state_store"
    and stored :: "'s \<Rightarrow> string \<Rightarrow> time option"
  assumes load_ok: "ss_Load store k s = (Inr r, s') \<Longrightarrow> r = stored s k \<and> stored s' = stored s"
    and load_fails: "ss_Load store k s = (Inl e, s') \<Longrightarrow> stored s' = stored s"
    and save_ok: "ss_Save store k t s = (Inr u, s') \<Longrightarrow> stored s' = (stored s)(k \<mapsto> t)"
    and save_fails: "ss_Save store k t s = (Inl e, s') \<Longrightarrow> stored s' = stored s"
begin

lemma advance_durable:
  assumes "PersistentVirtualClock_Advance store by c s = (Inr c', s')"
  shows "pc_current c < pc_current c' \<and> pc_key c' = pc_key c \<and>
         stored s' (pc_key c) = Some (pc_current c')"
  using assms
  by (auto simp: PersistentVirtualClock_Advance_def Let_def split: if_splits
      elim!: bindP_InrE dest!: save_ok)

lemma advance_fails:
  assumes "PersistentVirtualClock_Advance store by c s = (Inl e, s')"
  shows "stored s' = stored s"
  using assms
  by (auto simp: PersistentVirtualClock_Advance_def Let_def split: if_splits
      elim!: bindP_InlE dest!: save_fails)

lemma restart_resumes:
  assumes "stored s key = Some at"
    and "NewPersistentVirtualClock initial store key s = (Inr c, s')"
  shows "pc_current c = at \<and> stored s' = stored s"
  using assms
  by (auto simp: NewPersistentVirtualClock_def split: if_splits
      elim!: bindP_InrE dest!: load_ok)

lemma first_start_saves:
  assumes "stored s key = None"
    and "NewPersistentVirtualClock initial store key s = (Inr c, s')"
  shows "pc_current c = initial \<and> stored s' = (stored s)(key \<mapsto> initial)"
  using assms
  by (auto simp: NewPersistentVirtualClock_def split: if_splits
      elim!: bindP_InrE dest!: load_ok save_ok)

end

end
