(* ===== verification/Json.thy ===== *)
theory Json
  imports Clocks
begin

text \<open>
  Payloads. A \<open>[]byte\<close> that the program stores or sends is empty, the JSON text of a document
  (\<open>JsonText\<close>), such a text with more after it that is not white space (\<open>JsonThen\<close>), or some other
  text; the rendering of a document as characters is left to \<open>encoding/json\<close>,
  so a payload keeps the document itself. \<open>JTime\<close> and \<open>JBase64\<close> are the strings that
  \<open>encoding/json\<close> makes of a \<open>time.Time\<close> and of a \<open>[]byte\<close> field.

  Decoding follows \<open>json.Unmarshal\<close> into a struct: members are read in order, a member sets the
  field whose name it matches up to letter case, other members are skipped, \<open>null\<close> sets
  nothing, a value of the wrong kind or outside the field's range is an error, and fields that
  no member names keep their zero value.
\<close>

datatype json =
    JNull
  | JBool bool
  | JNum int
  | JStr string
  | JTime time
  | JBase64 bytes
  | JArr "json list"
  | JObj "(string \<times> json) list"
and bytes =
    NoBytes
  | JsonText json
  | JsonThen json string
  | OtherText string

definition ascii_lower :: "string \<Rightarrow> string" where
  "ascii_lower s =
     map (\<lambda>c. if 65 \<le> (of_char c :: nat) \<and> (of_char c :: nat) \<le> 90
               then char_of ((of_char c :: nat) + 32) else c) s"

definition names :: "string \<Rightarrow> string \<Rightarrow> bool" where
  "names k field \<longleftrightarrow> ascii_lower k = ascii_lower field"

fun decode_members :: "(string \<Rightarrow> json \<Rightarrow> 'a \<Rightarrow> 'a option) \<Rightarrow> (string \<times> json) list \<Rightarrow> 'a \<Rightarrow> 'a option" where
  "decode_members member [] r = Some r"
| "decode_members member ((k, v) # kvs) r =
     (case member k v r of None \<Rightarrow> None | Some r' \<Rightarrow> decode_members member kvs r')"

fun Unmarshal :: "(string \<Rightarrow> json \<Rightarrow> 'a \<Rightarrow> 'a option) \<Rightarrow> 'a \<Rightarrow> bytes \<Rightarrow> error + 'a" where
  "Unmarshal member zero (JsonText (JObj kvs)) =
     (case decode_members member kvs zero of None \<Rightarrow> Inl Decoding | Some r \<Rightarrow> Inr r)"
| "Unmarshal member zero (JsonText JNull) = Inr zero"
| "Unmarshal member zero b = Inl Decoding"

fun json_string :: "string \<Rightarrow> json \<Rightarrow> string option" where
  "json_string old (JStr s) = Some s"
| "json_string old JNull = Some old"
| "json_string old v = None"

fun json_int64 :: "int64 \<Rightarrow> json \<Rightarrow> int64 option" where
  "json_int64 old (JNum n) =
     (if - (2 ^ 63) \<le> n \<and> n < 2 ^ 63 then Some (word_of_int n) else None)"
| "json_int64 old JNull = Some old"
| "json_int64 old v = None"

fun json_uint64 :: "uint64 \<Rightarrow> json \<Rightarrow> uint64 option" where
  "json_uint64 old (JNum n) = (if 0 \<le> n \<and> n < 2 ^ 64 then Some (word_of_int n) else None)"
| "json_uint64 old JNull = Some old"
| "json_uint64 old v = None"

fun json_time :: "time \<Rightarrow> json \<Rightarrow> time option" where
  "json_time old (JTime t) = Some t"
| "json_time old JNull = Some old"
| "json_time old v = None"

fun json_byte_slice :: "bytes \<Rightarrow> json \<Rightarrow> bytes option" where
  "json_byte_slice old (JBase64 b) = Some b"
| "json_byte_slice old JNull = Some NoBytes"
| "json_byte_slice old v = None"

fun json_struct :: "(string \<Rightarrow> json \<Rightarrow> 'a \<Rightarrow> 'a option) \<Rightarrow> 'a \<Rightarrow> json \<Rightarrow> 'a option" where
  "json_struct member zero (JObj kvs) = decode_members member kvs zero"
| "json_struct member zero JNull = Some zero"
| "json_struct member zero v = None"

fun json_elements :: "(json \<Rightarrow> 'a option) \<Rightarrow> json \<Rightarrow> 'a list option" where
  "json_elements f (JArr vs) = those (map f vs)"
| "json_elements f JNull = Some []"
| "json_elements f v = None"

text \<open>
  \<open>Decoder.Decode\<close> followed by a check that nothing comes after the first value; the left result is
  the message for the client.
\<close>

definition decode_document :: "(json \<Rightarrow> 'a option) \<Rightarrow> bytes \<Rightarrow> string + 'a" where
  "decode_document f body =
     (case body of
        JsonText v \<Rightarrow>
          (case f v of None \<Rightarrow> Inl ''invalid JSON request body'' | Some x \<Rightarrow> Inr x)
      | JsonThen v rest \<Rightarrow>
          (case f v of
             None \<Rightarrow> Inl ''invalid JSON request body''
           | Some x \<Rightarrow> Inl ''request body must contain one JSON object'')
      | NoBytes \<Rightarrow> Inl ''invalid JSON request body''
      | OtherText t \<Rightarrow> Inl ''invalid JSON request body'')"

lemma json_int64_sint [simp]: "json_int64 old (JNum (sint a)) = Some a"
  using sint_in_range [of a] by simp

lemma json_uint64_uint [simp]: "json_uint64 old (JNum (uint v)) = Some v"
  using uint_lt2p [of v] by simp

declare json_int64.simps(1) [simp del] json_uint64.simps(1) [simp del]

end
