(* ===== verification/Events.thy ===== *)
theory Events
  imports Payments Json
begin

text \<open>
  Business events of \<open>internal/payment/domain\<close> (\<open>events.go\<close>, \<open>event_snapshot.go\<close>) and the
  reconstruction of a payment from its event history
  (\<open>internal/payment/application/reconstruct.go\<close>).
\<close>

section \<open>Business events\<close>

datatype event_type =
    EventPaymentCreated | EventPaymentAuthorized | EventPaymentFailed
  | EventPaymentCancelled | EventPaymentCaptured | EventPaymentRefunded
  | UnknownEvent string

fun event_text :: "event_type \<Rightarrow> string" where
  "event_text EventPaymentCreated = ''payment.created''"
| "event_text EventPaymentAuthorized = ''payment.authorized''"
| "event_text EventPaymentFailed = ''payment.failed''"
| "event_text EventPaymentCancelled = ''payment.cancelled''"
| "event_text EventPaymentCaptured = ''payment.captured''"
| "event_text EventPaymentRefunded = ''payment.refunded''"
| "event_text (UnknownEvent t) = t"

fun EventType_Valid :: "event_type \<Rightarrow> bool" where
  "EventType_Valid (UnknownEvent t) = False"
| "EventType_Valid t = True"

record business_event =
  be_id :: string
  be_aggregateID :: string
  be_eventType :: event_type
  be_occurredAt :: time
  be_aggregateVersion :: uint64
  be_correlationID :: string
  be_causationID :: string
  be_payload :: bytes
  be_runtimeSequence :: uint64

definition BusinessEvent_Validate :: "business_event \<Rightarrow> payment_error option" where
  "BusinessEvent_Validate e =
     (if be_id e = [] then Some ErrInvalidEventID
      else if be_aggregateID e = [] then Some ErrInvalidAggregateID
      else if \<not> EventType_Valid (be_eventType e) then Some ErrInvalidEventType
      else if IsZero (be_occurredAt e) then Some ErrInvalidEventTimestamp
      else if be_aggregateVersion e = 0 then Some ErrInvalidAggregateVersion
      else None)"

definition NewBusinessEventWithPayload ::
  "string \<Rightarrow> string \<Rightarrow> event_type \<Rightarrow> time \<Rightarrow> uint64 \<Rightarrow> string \<Rightarrow> string \<Rightarrow> bytes \<Rightarrow>
     payment_error + business_event" where
  "NewBusinessEventWithPayload eid aggregate etype occurredAt version correlation causation payload =
     (let event = \<lparr>be_id = eid, be_aggregateID = aggregate, be_eventType = etype,
                   be_occurredAt = occurredAt, be_aggregateVersion = version,
                   be_correlationID = correlation, be_causationID = causation,
                   be_payload = payload, be_runtimeSequence = 0\<rparr>
      in case BusinessEvent_Validate event of Some e \<Rightarrow> Inl e | None \<Rightarrow> Inr event)"

definition NewBusinessEvent ::
  "string \<Rightarrow> string \<Rightarrow> event_type \<Rightarrow> time \<Rightarrow> uint64 \<Rightarrow> string \<Rightarrow> string \<Rightarrow>
     payment_error + business_event" where
  "NewBusinessEvent eid aggregate etype occurredAt version correlation causation =
     NewBusinessEventWithPayload eid aggregate etype occurredAt version correlation causation NoBytes"

definition WithRuntimeSequence :: "uint64 \<Rightarrow> business_event \<Rightarrow> business_event" where
  "WithRuntimeSequence sequence e = e\<lparr>be_runtimeSequence := sequence\<rparr>"

section \<open>Event snapshots\<close>

record event_snapshot =
  es_PaymentID :: string
  es_Amount :: int64
  es_Currency :: string
  es_AuthorizedAmount :: int64
  es_CapturedAmount :: int64
  es_RefundedAmount :: int64
  es_Status :: status
  es_Version :: uint64

definition NewEventSnapshot :: "payment \<Rightarrow> event_snapshot" where
  "NewEventSnapshot p =
     \<lparr>es_PaymentID = p_id p, es_Amount = money_amount (p_amount p),
      es_Currency = money_currency (p_amount p),
      es_AuthorizedAmount = money_amount (AuthorizedAmount p),
      es_CapturedAmount = money_amount (CapturedAmount p),
      es_RefundedAmount = money_amount (RefundedAmount p),
      es_Status = p_status p, es_Version = p_version p\<rparr>"

definition EventSnapshot_Restore :: "event_snapshot \<Rightarrow> payment_error + payment" where
  "EventSnapshot_Restore s =
     bindR (NewMoney (es_Amount s) (es_Currency s)) (\<lambda>money.
       Payment_Restore
         \<lparr>ps_ID = es_PaymentID s, ps_Amount = money, ps_Status = es_Status s,
          ps_AuthorizedAmount = es_AuthorizedAmount s, ps_CapturedAmount = es_CapturedAmount s,
          ps_RefundedAmount = es_RefundedAmount s, ps_Version = es_Version s\<rparr>)"

text \<open>The JSON of a snapshot, by the tags of the struct, and its decoding.\<close>

definition Marshal_snapshot :: "event_snapshot \<Rightarrow> bytes" where
  "Marshal_snapshot s =
     JsonText (JObj
       [(''payment_id'', JStr (es_PaymentID s)), (''amount'', JNum (sint (es_Amount s))),
        (''currency'', JStr (es_Currency s)),
        (''authorized_amount'', JNum (sint (es_AuthorizedAmount s))),
        (''captured_amount'', JNum (sint (es_CapturedAmount s))),
        (''refunded_amount'', JNum (sint (es_RefundedAmount s))),
        (''status'', JStr (status_text (es_Status s))),
        (''version'', JNum (uint (es_Version s)))])"

definition zero_snapshot :: event_snapshot where
  "zero_snapshot =
     \<lparr>es_PaymentID = [], es_Amount = 0, es_Currency = [], es_AuthorizedAmount = 0,
      es_CapturedAmount = 0, es_RefundedAmount = 0, es_Status = UnknownStatus [], es_Version = 0\<rparr>"

definition snapshot_member :: "string \<Rightarrow> json \<Rightarrow> event_snapshot \<Rightarrow> event_snapshot option" where
  "snapshot_member k v s =
     (if names k ''payment_id''
        then map_option (\<lambda>x. s\<lparr>es_PaymentID := x\<rparr>) (json_string (es_PaymentID s) v)
      else if names k ''amount''
        then map_option (\<lambda>x. s\<lparr>es_Amount := x\<rparr>) (json_int64 (es_Amount s) v)
      else if names k ''currency''
        then map_option (\<lambda>x. s\<lparr>es_Currency := x\<rparr>) (json_string (es_Currency s) v)
      else if names k ''authorized_amount''
        then map_option (\<lambda>x. s\<lparr>es_AuthorizedAmount := x\<rparr>) (json_int64 (es_AuthorizedAmount s) v)
      else if names k ''captured_amount''
        then map_option (\<lambda>x. s\<lparr>es_CapturedAmount := x\<rparr>) (json_int64 (es_CapturedAmount s) v)
      else if names k ''refunded_amount''
        then map_option (\<lambda>x. s\<lparr>es_RefundedAmount := x\<rparr>) (json_int64 (es_RefundedAmount s) v)
      else if names k ''status''
        then map_option (\<lambda>x. s\<lparr>es_Status := status_of x\<rparr>) (json_string (status_text (es_Status s)) v)
      else if names k ''version''
        then map_option (\<lambda>x. s\<lparr>es_Version := x\<rparr>) (json_uint64 (es_Version s) v)
      else Some s)"

definition Unmarshal_snapshot :: "bytes \<Rightarrow> error + event_snapshot" where
  "Unmarshal_snapshot b = Unmarshal snapshot_member zero_snapshot b"

section \<open>Reconstruction\<close>

text \<open>
  The loop of \<open>ReconstructFromEvents\<close>: \<open>index\<close> is the position of the next event,
  \<open>aggregateID\<close> the aggregate of the first one, \<open>payment\<close> what the last event restored.
\<close>

fun reconstruct_from ::
  "nat \<Rightarrow> string \<Rightarrow> payment option \<Rightarrow> business_event list \<Rightarrow> error + payment option" where
  "reconstruct_from index aggregateID payment [] = Inr payment"
| "reconstruct_from index aggregateID payment (event # events) =
     (case BusinessEvent_Validate event of
        Some err \<Rightarrow> Inl (Joined [PaymentApp ErrInconsistentEventHistory, Payment err])
      | None \<Rightarrow>
        (let aggregateID' = (if index = 0 then be_aggregateID event else aggregateID) in
         if be_aggregateID event \<noteq> aggregateID'
            \<or> be_aggregateVersion event \<noteq> word_of_nat (index + 1)
           then Inl (PaymentApp ErrIncompleteEventHistory)
         else case Unmarshal_snapshot (be_payload event) of
           Inl err \<Rightarrow> Inl (Joined [PaymentApp ErrInconsistentEventHistory, err])
         | Inr snapshot \<Rightarrow>
             (if es_PaymentID snapshot \<noteq> aggregateID'
                 \<or> es_Version snapshot \<noteq> be_aggregateVersion event
                then Inl (PaymentApp ErrInconsistentEventHistory)
              else case EventSnapshot_Restore snapshot of
                Inl err \<Rightarrow> Inl (Joined [PaymentApp ErrInconsistentEventHistory, Payment err])
              | Inr restored \<Rightarrow>
                  reconstruct_from (index + 1) aggregateID' (Some restored) events)))"

definition ReconstructFromEvents :: "business_event list \<Rightarrow> error + payment option" where
  "ReconstructFromEvents events =
     (if events = [] then Inl (PaymentApp ErrEmptyEventHistory)
      else reconstruct_from 0 [] None events)"

section \<open>Round trips\<close>

lemma names_refl [simp]: "names k k"
  by (simp add: names_def)

lemma EventSnapshot_Restore_New:
  assumes "payment_ok p"
  shows "EventSnapshot_Restore (NewEventSnapshot p) = Inr p"
proof -
  have m: "NewMoney (money_amount (p_amount p)) (money_currency (p_amount p)) = Inr (p_amount p)"
    using assms by (simp add: NewMoney_Inr_iff payment_ok_def payment_valid_iff)
  have "Payment_Restore (payment_state_of p) = Inr p"
    using assms by (simp add: payment_ok_def payment_valid_restore)
  then show ?thesis
    by (simp add: EventSnapshot_Restore_def NewEventSnapshot_def m payment_state_of_def
        AuthorizedAmount_def CapturedAmount_def RefundedAmount_def)
qed

lemma EventSnapshot_Restore_ok:
  assumes "EventSnapshot_Restore s = Inr p"
  shows "payment_ok p" and "p_id p = es_PaymentID s" and "p_version p = es_Version s"
    and "NewEventSnapshot p = s"
proof -
  from assms obtain m where m: "NewMoney (es_Amount s) (es_Currency s) = Inr m"
    and r: "Payment_Restore
         \<lparr>ps_ID = es_PaymentID s, ps_Amount = m, ps_Status = es_Status s,
          ps_AuthorizedAmount = es_AuthorizedAmount s, ps_CapturedAmount = es_CapturedAmount s,
          ps_RefundedAmount = es_RefundedAmount s, ps_Version = es_Version s\<rparr> = Inr p"
    by (auto simp: EventSnapshot_Restore_def bindR_Inr_iff)
  note ok = payment_restore_valid [OF r]
  have f: "p_id p = es_PaymentID s \<and> p_amount p = m \<and> p_status p = es_Status s \<and>
      p_authorizedAmount p = es_AuthorizedAmount s \<and> p_capturedAmount p = es_CapturedAmount s \<and>
      p_refundedAmount p = es_RefundedAmount s \<and> p_version p = es_Version s"
    using conjunct2 [OF ok] by (simp add: payment_state_of_def)
  show "payment_ok p" using ok f m by (simp add: payment_ok_def NewMoney_Inr_iff)
  show "p_id p = es_PaymentID s" and "p_version p = es_Version s" using f by simp_all
  show "NewEventSnapshot p = s"
    using f m by (cases s) (simp add: NewEventSnapshot_def NewMoney_Inr_iff
        AuthorizedAmount_def CapturedAmount_def RefundedAmount_def)
qed

lemma member_names [simp]:
  "snapshot_member ''payment_id'' (JStr x) s = Some (s\<lparr>es_PaymentID := x\<rparr>)"
  "snapshot_member ''amount'' (JNum (sint a)) s = Some (s\<lparr>es_Amount := a\<rparr>)"
  "snapshot_member ''currency'' (JStr x) s = Some (s\<lparr>es_Currency := x\<rparr>)"
  "snapshot_member ''authorized_amount'' (JNum (sint a)) s = Some (s\<lparr>es_AuthorizedAmount := a\<rparr>)"
  "snapshot_member ''captured_amount'' (JNum (sint a)) s = Some (s\<lparr>es_CapturedAmount := a\<rparr>)"
  "snapshot_member ''refunded_amount'' (JNum (sint a)) s = Some (s\<lparr>es_RefundedAmount := a\<rparr>)"
  "snapshot_member ''status'' (JStr x) s = Some (s\<lparr>es_Status := status_of x\<rparr>)"
  "snapshot_member ''version'' (JNum (uint v)) s = Some (s\<lparr>es_Version := v\<rparr>)"
  by (simp_all add: snapshot_member_def names_def ascii_lower_def)

lemma Unmarshal_Marshal_snapshot:
  assumes "Status_Valid (es_Status s)"
  shows "Unmarshal_snapshot (Marshal_snapshot s) = Inr s"
  using assms
  by (cases s) (simp add: Unmarshal_snapshot_def Marshal_snapshot_def zero_snapshot_def status_of_text)

lemma payment_ok_status: "payment_ok p \<Longrightarrow> Status_Valid (p_status p)"
  by (cases "p_status p") (simp_all add: payment_ok_def payment_valid_iff)

lemma snapshot_roundtrip:
  assumes "payment_ok p"
  shows "bindR (Unmarshal_snapshot (Marshal_snapshot (NewEventSnapshot p)))
           (\<lambda>s. mapErr Payment (EventSnapshot_Restore s)) = Inr p"
proof -
  have "Status_Valid (es_Status (NewEventSnapshot p))"
    using payment_ok_status [OF assms] by (simp add: NewEventSnapshot_def)
  then show ?thesis
    using EventSnapshot_Restore_New [OF assms] by (simp add: Unmarshal_Marshal_snapshot)
qed

section \<open>Histories\<close>

text \<open>
  \<open>event_records i n e p\<close>: the event is a valid one of aggregate \<open>i\<close> with version \<open>n\<close> and its
  snapshot restores to \<open>p\<close>. A history pairs the events of an aggregate, numbered from \<open>n\<close>,
  with the payments they record.
\<close>

definition event_records :: "string \<Rightarrow> nat \<Rightarrow> business_event \<Rightarrow> payment \<Rightarrow> bool" where
  "event_records i n e p \<longleftrightarrow>
     BusinessEvent_Validate e = None \<and> be_aggregateID e = i \<and>
     be_aggregateVersion e = word_of_nat n \<and>
     (\<exists>s. Unmarshal_snapshot (be_payload e) = Inr s \<and> es_PaymentID s = i \<and>
          es_Version s = be_aggregateVersion e \<and> EventSnapshot_Restore s = Inr p)"

fun history :: "string \<Rightarrow> nat \<Rightarrow> business_event list \<Rightarrow> payment list \<Rightarrow> bool" where
  "history i n [] ps \<longleftrightarrow> ps = []"
| "history i n (e # es) ps \<longleftrightarrow>
     (case ps of [] \<Rightarrow> False | p # ps' \<Rightarrow> event_records i n e p \<and> history i (n + 1) es ps')"

lemma event_recordsD:
  assumes "event_records i n e p"
  shows "payment_ok p" and "p_id p = i" and "p_version p = word_of_nat n"
    and "be_aggregateID e = i" and "be_aggregateVersion e = word_of_nat n"
  using assms EventSnapshot_Restore_ok by (auto simp: event_records_def)

lemma history_length: "history i n es ps \<Longrightarrow> length ps = length es"
  by (induction es arbitrary: n ps) (auto split: list.splits)

lemma history_snoc:
  "history i n (es @ [e]) (ps @ [p]) \<longleftrightarrow> history i n es ps \<and> event_records i (n + length es) e p"
proof (induction es arbitrary: n ps)
  case Nil
  then show ?case by (cases ps) auto
next
  case (Cons d es)
  then show ?case by (cases ps) (auto dest: history_length)
qed

lemma history_nth:
  "history i n es ps \<Longrightarrow> k < length es \<Longrightarrow> event_records i (n + k) (es ! k) (ps ! k)"
proof (induction es arbitrary: n ps k)
  case Nil
  then show ?case by simp
next
  case (Cons e es)
  from Cons.prems obtain p ps' where ps: "ps = p # ps'" and e: "event_records i n e p"
    and h: "history i (n + 1) es ps'" by (auto split: list.splits)
  show ?case
  proof (cases k)
    case 0
    with ps e show ?thesis by simp
  next
    case (Suc j)
    with Cons.prems have "event_records i (n + 1 + j) (es ! j) (ps' ! j)"
      by (intro Cons.IH [OF h]) simp
    with Suc ps show ?thesis by simp
  qed
qed

lemma reconstruct_from_step:
  assumes "0 < index"
  shows "reconstruct_from index i q (e # es) = Inr r \<longleftrightarrow>
           (\<exists>p. event_records i (index + 1) e p \<and> reconstruct_from (index + 1) i (Some p) es = Inr r)"
  using assms
  by (auto simp: event_records_def Let_def split: option.splits sum.splits if_splits)

lemma reconstruct_first_step:
  "reconstruct_from 0 i q (e # es) = Inr r \<longleftrightarrow>
     (\<exists>p. event_records (be_aggregateID e) 1 e p \<and>
          reconstruct_from 1 (be_aggregateID e) (Some p) es = Inr r)"
  by (auto simp: event_records_def Let_def split: option.splits sum.splits if_splits)

lemma reconstruct_from_iff:
  "0 < index \<Longrightarrow> reconstruct_from index i q es = Inr r \<longleftrightarrow>
     (\<exists>ps. history i (index + 1) es ps \<and> r = (if ps = [] then q else Some (last ps)))"
proof (induction es arbitrary: index q)
  case Nil
  then show ?case by auto
next
  case (Cons e es)
  have "reconstruct_from index i q (e # es) = Inr r \<longleftrightarrow>
      (\<exists>p ps. event_records i (index + 1) e p \<and> history i (index + 2) es ps \<and>
         r = (if ps = [] then Some p else Some (last ps)))"
    using Cons.IH [of "index + 1"]
    by (simp only: reconstruct_from_step [OF Cons.prems]) (auto simp: add.assoc)
  also have "\<dots> \<longleftrightarrow>
      (\<exists>ps. history i (index + 1) (e # es) ps \<and> r = (if ps = [] then q else Some (last ps)))"
    (is "?L \<longleftrightarrow> ?R")
  proof
    assume ?L
    then obtain p ps where "event_records i (index + 1) e p" and "history i (index + 2) es ps"
      and "r = (if ps = [] then Some p else Some (last ps))" by blast
    then show ?R by (intro exI [of _ "p # ps"]) simp
  next
    assume ?R
    then obtain ps where h: "history i (index + 1) (e # es) ps"
      and r: "r = (if ps = [] then q else Some (last ps))" by blast
    from h obtain p ps' where "ps = p # ps'" and "event_records i (index + 1) e p"
      and "history i (index + 2) es ps'" by (auto split: list.splits)
    with r show ?L by auto
  qed
  finally show ?case .
qed

lemma ReconstructFromEvents_iff:
  "ReconstructFromEvents es = Inr r \<longleftrightarrow>
     (\<exists>i ps. es \<noteq> [] \<and> history i 1 es ps \<and> r = Some (last ps))"
proof (cases es)
  case Nil
  then show ?thesis by (simp add: ReconstructFromEvents_def)
next
  case (Cons e es')
  have "ReconstructFromEvents es = Inr r \<longleftrightarrow>
      (\<exists>p ps. event_records (be_aggregateID e) 1 e p \<and> history (be_aggregateID e) 2 es' ps \<and>
         r = (if ps = [] then Some p else Some (last ps)))"
    using reconstruct_from_iff [of 1 "be_aggregateID e"]
    by (simp add: ReconstructFromEvents_def Cons reconstruct_first_step del: reconstruct_from.simps)
       (auto simp: numeral_2_eq_2)
  also have "\<dots> \<longleftrightarrow> (\<exists>i ps. es \<noteq> [] \<and> history i 1 es ps \<and> r = Some (last ps))"
    (is "?L \<longleftrightarrow> ?R")
  proof
    assume ?L
    then obtain p ps where "event_records (be_aggregateID e) 1 e p"
      and "history (be_aggregateID e) 2 es' ps"
      and "r = (if ps = [] then Some p else Some (last ps))" by blast
    then show ?R
      by (intro exI [of _ "be_aggregateID e"] exI [of _ "p # ps"])
        (simp add: Cons numeral_2_eq_2)
  next
    assume ?R
    then obtain i ps where h: "history i 1 es ps" and r: "r = Some (last ps)" by blast
    from h Cons obtain p ps' where ps: "ps = p # ps'" and e: "event_records i 1 e p"
      and t: "history i 2 es' ps'" by (auto simp: numeral_2_eq_2 split: list.splits)
    from e have "i = be_aggregateID e" by (auto dest: event_recordsD)
    with e t r ps show ?L by auto
  qed
  finally show ?thesis .
qed

lemma reconstruct_history:
  assumes "history i 1 es ps" and "es \<noteq> []"
  shows "ReconstructFromEvents es = Inr (Some (last ps))"
  using assms by (auto simp: ReconstructFromEvents_iff)

lemma reconstruct_sound:
  assumes "ReconstructFromEvents es = Inr r"
  obtains p where "r = Some p" and "payment_ok p" and "p_version p = word_of_nat (length es)"
    and "\<And>k. k < length es \<Longrightarrow> be_aggregateID (es ! k) = p_id p"
    and "\<And>k. k < length es \<Longrightarrow> be_aggregateVersion (es ! k) = word_of_nat (k + 1)"
proof -
  from assms obtain i ps where ne: "es \<noteq> []" and h: "history i 1 es ps" and r: "r = Some (last ps)"
    by (auto simp: ReconstructFromEvents_iff)
  note len = history_length [OF h]
  let ?k = "length es - 1"
  have "event_records i (1 + ?k) (es ! ?k) (ps ! ?k)"
    using ne by (intro history_nth [OF h]) simp
  moreover have "ps \<noteq> []" using ne len by auto
  ultimately have last: "event_records i (length es) (last es) (last ps)"
    using ne len by (simp add: last_conv_nth)
  show thesis
  proof (rule that [OF r])
    show "payment_ok (last ps)" and "p_version (last ps) = word_of_nat (length es)"
      using event_recordsD [OF last] by simp_all
    fix k assume "k < length es"
    from event_recordsD [OF history_nth [OF h this]] event_recordsD [OF last]
    show "be_aggregateID (es ! k) = p_id (last ps)"
      and "be_aggregateVersion (es ! k) = word_of_nat (k + 1)" by simp_all
  qed
qed

section \<open>Properties\<close>

text \<open>The first two events of the sample payment, with their snapshots.\<close>

definition sample_authorized :: payment where
  "sample_authorized = sample\<lparr>p_status := StatusAuthorized, p_authorizedAmount := 1000, p_version := 2\<rparr>"

definition sample_events :: "business_event list" where
  "sample_events =
     [\<lparr>be_id = ''e1'', be_aggregateID = ''p1'', be_eventType = EventPaymentCreated, be_occurredAt = 5,
       be_aggregateVersion = 1, be_correlationID = [], be_causationID = [],
       be_payload = Marshal_snapshot (NewEventSnapshot sample), be_runtimeSequence = 1\<rparr>,
      \<lparr>be_id = ''e2'', be_aggregateID = ''p1'', be_eventType = EventPaymentAuthorized, be_occurredAt = 6,
       be_aggregateVersion = 2, be_correlationID = [], be_causationID = ''e1'',
       be_payload = Marshal_snapshot (NewEventSnapshot sample_authorized), be_runtimeSequence = 2\<rparr>]"

lemma sample_authorized_ok: "payment_ok sample_authorized"
  by (simp add: payment_ok_def payment_valid_iff sample_authorized_def sample_def eur_def validCurrency_def)

lemma sample_event_records:
  assumes "payment_ok p" and "be_payload e = Marshal_snapshot (NewEventSnapshot p)"
    and "BusinessEvent_Validate e = None" and "be_aggregateID e = p_id p"
    and "be_aggregateVersion e = p_version p" and "p_version p = word_of_nat n"
  shows "event_records (p_id p) n e p"
proof -
  have "Unmarshal_snapshot (Marshal_snapshot (NewEventSnapshot p)) = Inr (NewEventSnapshot p)"
    using payment_ok_status [OF assms(1)]
    by (intro Unmarshal_Marshal_snapshot) (simp add: NewEventSnapshot_def)
  with assms EventSnapshot_Restore_New [OF assms(1)] show ?thesis
    by (simp add: event_records_def NewEventSnapshot_def)
qed

lemma sample_history: "history ''p1'' 1 sample_events [sample, sample_authorized]"
proof -
  have "event_records (p_id sample) 1 (sample_events ! 0) sample"
    using sample_ok by (rule sample_event_records)
      (simp_all add: sample_events_def BusinessEvent_Validate_def sample_def)
  moreover have "event_records (p_id sample_authorized) 2 (sample_events ! 1) sample_authorized"
    using sample_authorized_ok by (rule sample_event_records)
      (simp_all add: sample_events_def BusinessEvent_Validate_def sample_def sample_authorized_def)
  ultimately show ?thesis
    by (simp add: sample_events_def sample_def sample_authorized_def numeral_2_eq_2)
qed

text \<open>
  The event payload is faithful: encoding the snapshot of a valid payment as JSON, decoding it
  and restoring gives the same payment.
\<close>

theorem payload_restores_payment:
  assumes "PaymentState_Validate (payment_state_of p) = None"
    and "validCurrency (money_currency (p_amount p))"
  shows "bindR (Unmarshal_snapshot (Marshal_snapshot (NewEventSnapshot p)))
           (\<lambda>s. mapErr Payment (EventSnapshot_Restore s)) = Inr p"
  using assms by (intro snapshot_roundtrip) (simp add: payment_ok_def payment_valid_def)

theorem payload_restores_payment_witness:
  "bindR (Unmarshal_snapshot (Marshal_snapshot (NewEventSnapshot sample_authorized)))
     (\<lambda>s. mapErr Payment (EventSnapshot_Restore s)) = Inr sample_authorized"
proof -
  have "PaymentState_Validate (payment_state_of sample_authorized) = None"
    and "validCurrency (money_currency (p_amount sample_authorized))"
    using sample_authorized_ok by (simp_all add: payment_ok_def payment_valid_def)
  then show ?thesis by (rule payload_restores_payment)
qed

text \<open>
  C9. Reconstruction accepts exactly the complete histories: it succeeds if and only if the events
  are a non-empty sequence of valid events of one aggregate, numbered 1, 2, 3, ... without a gap,
  each with a restorable snapshot of that aggregate and version; and the result is the payment
  of the last one.
\<close>

theorem reconstruct_exactly_histories:
  "ReconstructFromEvents es = Inr r \<longleftrightarrow>
     (\<exists>i ps. es \<noteq> [] \<and> history i 1 es ps \<and> r = Some (last ps))"
  by (rule ReconstructFromEvents_iff)

text \<open>
  What reconstruction returns is a valid payment whose identity is that of every event and
  whose version is the number of events.
\<close>

theorem reconstruct_returns_valid:
  assumes "ReconstructFromEvents es = Inr r"
  shows "\<exists>p. r = Some p \<and> PaymentState_Validate (payment_state_of p) = None \<and>
           p_version p = word_of_nat (length es) \<and> (\<forall>e \<in> set es. be_aggregateID e = p_id p)"
proof -
  from assms obtain p where "r = Some p" and "payment_ok p" and "p_version p = word_of_nat (length es)"
    and "\<And>k. k < length es \<Longrightarrow> be_aggregateID (es ! k) = p_id p" by (rule reconstruct_sound) (rule that)
  then show ?thesis by (auto simp: payment_ok_def payment_valid_def in_set_conv_nth)
qed

theorem reconstruct_returns_valid_witness:
  "\<exists>p. Some sample_authorized = Some p \<and> PaymentState_Validate (payment_state_of p) = None \<and>
     p_version p = word_of_nat (length sample_events) \<and>
     (\<forall>e \<in> set sample_events. be_aggregateID e = p_id p)"
proof (rule reconstruct_returns_valid)
  have "sample_events \<noteq> []" by (simp add: sample_events_def)
  from reconstruct_history [OF sample_history this]
  show "ReconstructFromEvents sample_events = Inr (Some sample_authorized)" by simp
qed

end
