(* ===== verification/Jobs.thy ===== *)
theory Jobs
  imports Json
begin

text \<open>
  Durable jobs and retry policies of \<open>internal/scheduler/domain\<close>: the job with its lease and
  its lifecycle operations, the snapshots kept as audit trail, and the three retry policies.
\<close>

section \<open>Job statuses\<close>

datatype job_status =
    JobPending | JobLeased | JobRunning | JobFailed | JobExhausted | JobCompleted
  | UnknownJobStatus string

fun job_status_text :: "job_status \<Rightarrow> string" where
  "job_status_text JobPending = ''pending''"
| "job_status_text JobLeased = ''leased''"
| "job_status_text JobRunning = ''running''"
| "job_status_text JobCompleted = ''completed''"
| "job_status_text JobFailed = ''failed''"
| "job_status_text JobExhausted = ''exhausted''"
| "job_status_text (UnknownJobStatus t) = t"

fun job_status_known :: "job_status \<Rightarrow> bool" where
  "job_status_known (UnknownJobStatus t) = False"
| "job_status_known s = True"

text \<open>
  The order of lifecycle statuses used by the audit queries (\<open>ORDER BY ... CASE status WHEN
  'pending' THEN 1 ...\<close>; SQL gives other texts NULL, which sorts first).
\<close>

fun job_rank :: "job_status \<Rightarrow> nat \<times> string" where
  "job_rank (UnknownJobStatus t) = (0, t)"
| "job_rank JobPending = (1, [])"
| "job_rank JobLeased = (2, [])"
| "job_rank JobRunning = (3, [])"
| "job_rank JobFailed = (4, [])"
| "job_rank JobExhausted = (5, [])"
| "job_rank JobCompleted = (6, [])"

lemma job_rank_inj: "job_rank a = job_rank b \<Longrightarrow> a = b"
  by (cases a; cases b) simp_all

instantiation job_status :: linorder
begin

definition less_eq_job_status :: "job_status \<Rightarrow> job_status \<Rightarrow> bool" where
  "less_eq_job_status a b \<longleftrightarrow> job_rank a \<le> job_rank b"

definition less_job_status :: "job_status \<Rightarrow> job_status \<Rightarrow> bool" where
  "less_job_status a b \<longleftrightarrow> job_rank a < job_rank b"

instance
  by standard (auto simp: less_eq_job_status_def less_job_status_def intro: job_rank_inj)

end

section \<open>Jobs\<close>

record job_metadata =
  jm_AggregateID :: string
  jm_CausationID :: string

record job =
  j_id :: string
  j_jobType :: string
  j_payload :: bytes
  j_scheduledAt :: time
  j_nextAttemptAt :: time
  j_status :: job_status
  j_leaseOwner :: string
  j_leaseExpiresAt :: time
  j_leaseGeneration :: uint64
  j_attempts :: uint64
  j_aggregateID :: string
  j_causationID :: string

definition NewJob ::
  "string \<Rightarrow> string \<Rightarrow> bytes \<Rightarrow> time \<Rightarrow> job_metadata list \<Rightarrow> job_error + job" where
  "NewJob jid jobType payload scheduledAt metadata =
     (if jid = [] then Inl ErrInvalidJobID
      else if jobType = [] then Inl ErrInvalidJobType
      else if IsZero scheduledAt then Inl ErrInvalidScheduledAt
      else Inr \<lparr>j_id = jid, j_jobType = jobType, j_payload = payload,
                j_scheduledAt = scheduledAt, j_nextAttemptAt = scheduledAt,
                j_status = JobPending, j_leaseOwner = [], j_leaseExpiresAt = 0,
                j_leaseGeneration = 0, j_attempts = 0,
                j_aggregateID = (case metadata of [] \<Rightarrow> [] | m # _ \<Rightarrow> jm_AggregateID m),
                j_causationID = (case metadata of [] \<Rightarrow> [] | m # _ \<Rightarrow> jm_CausationID m)\<rparr>)"

definition Job_Restore ::
  "string \<Rightarrow> string \<Rightarrow> bytes \<Rightarrow> time \<Rightarrow> time \<Rightarrow> job_status \<Rightarrow> string \<Rightarrow> time \<Rightarrow> uint64 \<Rightarrow> uint64 \<Rightarrow>
     job_metadata list \<Rightarrow> job_error + job" where
  "Job_Restore jid jobType payload scheduledAt nextAttemptAt st leaseOwner leaseExpiresAt
     leaseGeneration attempts metadata =
     (if jid = [] then Inl ErrInvalidJobID
      else if jobType = [] then Inl ErrInvalidJobType
      else if IsZero scheduledAt \<or> IsZero nextAttemptAt then Inl ErrInvalidScheduledAt
      else if \<not> job_status_known st then Inl ErrInvalidExecutionStatus
      else Inr \<lparr>j_id = jid, j_jobType = jobType, j_payload = payload,
                j_scheduledAt = scheduledAt, j_nextAttemptAt = nextAttemptAt,
                j_status = st, j_leaseOwner = leaseOwner, j_leaseExpiresAt = leaseExpiresAt,
                j_leaseGeneration = leaseGeneration, j_attempts = attempts,
                j_aggregateID = (case metadata of [] \<Rightarrow> [] | m # _ \<Rightarrow> jm_AggregateID m),
                j_causationID = (case metadata of [] \<Rightarrow> [] | m # _ \<Rightarrow> jm_CausationID m)\<rparr>)"

definition clearLease :: "job \<Rightarrow> job" where
  "clearLease j = j\<lparr>j_leaseOwner := [], j_leaseExpiresAt := 0\<rparr>"

text \<open>\<open>RequeueExpired\<close> returns whether it requeued, and the job it leaves.\<close>

definition Job_RequeueExpired :: "time \<Rightarrow> job \<Rightarrow> bool \<times> job" where
  "Job_RequeueExpired at j =
     (if j_status j \<noteq> JobLeased \<and> j_status j \<noteq> JobRunning then (False, j)
      else if IsZero (j_leaseExpiresAt j) \<or> j_leaseExpiresAt j > at then (False, j)
      else (True, j\<lparr>j_status := JobPending, j_leaseOwner := [], j_leaseExpiresAt := 0\<rparr>))"

definition Job_Lease :: "string \<Rightarrow> time \<Rightarrow> job \<Rightarrow> job_error + job" where
  "Job_Lease owner expiresAt j =
     (if j_status j \<noteq> JobPending then Inl ErrInvalidJobTransition
      else if owner = [] then Inl ErrInvalidLeaseOwner
      else if IsZero expiresAt then Inl ErrInvalidLeaseExpiry
      else Inr (j\<lparr>j_status := JobLeased, j_leaseOwner := owner, j_leaseExpiresAt := expiresAt,
                  j_leaseGeneration := j_leaseGeneration j + 1\<rparr>))"

definition Job_Start :: "job \<Rightarrow> job_error + job" where
  "Job_Start j =
     (if j_status j \<noteq> JobLeased then Inl ErrInvalidJobTransition
      else Inr (j\<lparr>j_status := JobRunning, j_attempts := j_attempts j + 1\<rparr>))"

definition Job_Complete :: "job \<Rightarrow> job_error + job" where
  "Job_Complete j =
     (if j_status j \<noteq> JobRunning then Inl ErrInvalidJobTransition
      else Inr (clearLease (j\<lparr>j_status := JobCompleted\<rparr>)))"

definition Job_Fail :: "job \<Rightarrow> job_error + job" where
  "Job_Fail j =
     (if j_status j \<noteq> JobRunning then Inl ErrInvalidJobTransition
      else Inr (clearLease (j\<lparr>j_status := JobFailed\<rparr>)))"

definition Job_Exhaust :: "job \<Rightarrow> job_error + job" where
  "Job_Exhaust j =
     (if j_status j \<noteq> JobFailed \<and> (j_status j \<noteq> JobLeased \<or> j_attempts j = 0)
        then Inl ErrInvalidJobTransition
      else Inr (clearLease (j\<lparr>j_status := JobExhausted\<rparr>)))"

definition Job_ScheduleRetry :: "time \<Rightarrow> job \<Rightarrow> job_error + job" where
  "Job_ScheduleRetry at j =
     (if j_status j \<noteq> JobFailed then Inl ErrInvalidJobTransition
      else if IsZero at then Inl ErrInvalidRetryTime
      else Inr (j\<lparr>j_nextAttemptAt := at, j_status := JobPending\<rparr>))"

lemmas job_op_defs = Job_Lease_def Job_Start_def Job_Complete_def Job_Fail_def
  Job_Exhaust_def Job_ScheduleRetry_def clearLease_def

section \<open>Snapshots\<close>

record job_snapshot =
  js_ID :: string
  js_Type :: string
  js_Payload :: bytes
  js_ScheduledAt :: time
  js_NextAttemptAt :: time
  js_Status :: job_status
  js_LeaseOwner :: string
  js_LeaseExpiresAt :: time
  js_LeaseGeneration :: uint64
  js_Attempts :: uint64
  js_AggregateID :: string
  js_CausationID :: string
  js_RuntimeSequence :: uint64

definition NewJobSnapshot :: "job \<Rightarrow> job_snapshot" where
  "NewJobSnapshot j =
     \<lparr>js_ID = j_id j, js_Type = j_jobType j, js_Payload = j_payload j,
      js_ScheduledAt = j_scheduledAt j, js_NextAttemptAt = j_nextAttemptAt j,
      js_Status = j_status j, js_LeaseOwner = j_leaseOwner j,
      js_LeaseExpiresAt = j_leaseExpiresAt j, js_LeaseGeneration = j_leaseGeneration j,
      js_Attempts = j_attempts j, js_AggregateID = j_aggregateID j,
      js_CausationID = j_causationID j, js_RuntimeSequence = 0\<rparr>"

definition JobSnapshot_Restore :: "job_snapshot \<Rightarrow> job_error + job" where
  "JobSnapshot_Restore s =
     Job_Restore (js_ID s) (js_Type s) (js_Payload s) (js_ScheduledAt s) (js_NextAttemptAt s)
       (js_Status s) (js_LeaseOwner s) (js_LeaseExpiresAt s) (js_LeaseGeneration s)
       (js_Attempts s) [\<lparr>jm_AggregateID = js_AggregateID s, jm_CausationID = js_CausationID s\<rparr>]"

section \<open>Retry policies\<close>

record retry_decision =
  rd_RetryAfter :: duration
  rd_Retry :: bool

type_synonym retry_policy = "uint64 \<Rightarrow> job_error + retry_decision"

definition no_retry :: retry_decision where
  "no_retry = \<lparr>rd_RetryAfter = 0, rd_Retry = False\<rparr>"

definition NoRetryPolicy_Decide :: retry_policy where
  "NoRetryPolicy_Decide attempt = (if attempt = 0 then Inl ErrInvalidAttempt else Inr no_retry)"

record fixed_delay_policy =
  fd_maxAttempts :: uint64
  fd_delay :: duration

definition NewFixedDelayPolicy :: "uint64 \<Rightarrow> duration \<Rightarrow> job_error + fixed_delay_policy" where
  "NewFixedDelayPolicy maxAttempts delay =
     (if maxAttempts = 0 then Inl ErrInvalidMaxAttempts
      else if sint delay \<le> 0 then Inl ErrInvalidRetryDelay
      else Inr \<lparr>fd_maxAttempts = maxAttempts, fd_delay = delay\<rparr>)"

definition FixedDelayPolicy_Decide :: "fixed_delay_policy \<Rightarrow> retry_policy" where
  "FixedDelayPolicy_Decide p attempt =
     (if attempt = 0 then Inl ErrInvalidAttempt
      else if attempt \<ge> fd_maxAttempts p then Inr no_retry
      else Inr \<lparr>rd_RetryAfter = fd_delay p, rd_Retry = True\<rparr>)"

record exponential_policy =
  eb_maxAttempts :: uint64
  eb_initial :: duration
  eb_maxDelay :: duration

definition NewExponentialBackoffPolicy ::
  "uint64 \<Rightarrow> duration \<Rightarrow> duration \<Rightarrow> job_error + exponential_policy" where
  "NewExponentialBackoffPolicy maxAttempts initial maxDelay =
     (if maxAttempts = 0 then Inl ErrInvalidMaxAttempts
      else if sint initial \<le> 0 then Inl ErrInvalidRetryDelay
      else if sint maxDelay < sint initial then Inl ErrInvalidMaxDelay
      else Inr \<lparr>eb_maxAttempts = maxAttempts, eb_initial = initial, eb_maxDelay = maxDelay\<rparr>)"

text \<open>Go's signed division by two rounds towards zero.\<close>

definition half :: "int64 \<Rightarrow> int64" where
  "half d = word_of_int (if 0 \<le> sint d then sint d div 2 else - (- sint d div 2))"

text \<open>
  The doubling loop of \<open>Decide\<close>: \<open>retryNumber\<close> runs from 1 while it is below \<open>attempt\<close>, so the
  body runs \<open>n = attempt - 1\<close> times unless the cap is reached; the result is the delay.
\<close>

fun backoff_loop :: "nat \<Rightarrow> duration \<Rightarrow> duration \<Rightarrow> duration" where
  "backoff_loop 0 delay maxDelay = delay"
| "backoff_loop (Suc n) delay maxDelay =
     (if sint delay > sint (half maxDelay) then maxDelay
      else backoff_loop n (delay * 2) maxDelay)"

definition ExponentialBackoffPolicy_Decide :: "exponential_policy \<Rightarrow> retry_policy" where
  "ExponentialBackoffPolicy_Decide p attempt =
     (if attempt = 0 then Inl ErrInvalidAttempt
      else if attempt \<ge> eb_maxAttempts p then Inr no_retry
      else Inr \<lparr>rd_RetryAfter =
                  backoff_loop (unat attempt - 1) (eb_initial p) (eb_maxDelay p),
                rd_Retry = True\<rparr>)"

section \<open>The backoff is a capped exponential\<close>

lemma sint_half: "0 \<le> sint d \<Longrightarrow> sint (half d) = sint d div 2"
  using sint_in_range [of d] by (simp add: half_def sint_of_int_exact)

lemma sint_double:
  fixes d m :: int64
  assumes "0 < sint d" and "sint d \<le> sint m div 2"
  shows "sint (d * 2) = 2 * sint d"
proof -
  have "sint (2 :: int64) = 2" by simp
  moreover have "2 * sint d < 2 ^ 63"
    using assms sint_in_range(2) [of m] by linarith
  ultimately show ?thesis
    using assms(1) sint_mult_exact [of d 2] by (simp add: mult.commute)
qed

lemma sint_backoff_loop:
  fixes delay maxDelay :: int64
  assumes "0 < sint delay" and "sint delay \<le> sint maxDelay"
  shows "sint (backoff_loop n delay maxDelay) = min (sint maxDelay) (sint delay * 2 ^ n)"
  using assms
proof (induction n arbitrary: delay)
  case 0
  then show ?case by simp
next
  case (Suc n)
  have h: "sint (half maxDelay) = sint maxDelay div 2"
    using Suc.prems by (intro sint_half) linarith
  show ?case
  proof (cases "sint delay > sint maxDelay div 2")
    case True
    have one: "(1 :: int) \<le> 2 ^ n" by simp
    have "sint maxDelay \<le> sint delay * 2" using True by linarith
    also have "\<dots> \<le> sint delay * 2 ^ Suc n"
      using Suc.prems(1) one by simp
    finally show ?thesis using True h by simp
  next
    case False
    then have d: "sint (delay * 2) = 2 * sint delay"
      using Suc.prems by (intro sint_double [where m = maxDelay]) simp_all
    with False Suc.prems have "0 < sint (delay * 2)" and "sint (delay * 2) \<le> sint maxDelay"
      by linarith+
    from Suc.IH [OF this] show ?thesis using False h d by (simp add: ac_simps)
  qed
qed

lemma exponential_decide:
  assumes "NewExponentialBackoffPolicy maxAttempts initial maxDelay = Inr p"
    and "0 < attempt" and "attempt < maxAttempts"
  obtains d where "ExponentialBackoffPolicy_Decide p attempt =
      Inr \<lparr>rd_RetryAfter = d, rd_Retry = True\<rparr>"
    and "sint d = min (sint maxDelay) (sint initial * 2 ^ (unat attempt - 1))"
proof -
  from assms(1) have p: "p = \<lparr>eb_maxAttempts = maxAttempts, eb_initial = initial, eb_maxDelay = maxDelay\<rparr>"
    and "0 < sint initial" and "sint initial \<le> sint maxDelay"
    by (auto simp: NewExponentialBackoffPolicy_def split: if_splits)
  then show thesis
    using assms(2,3) sint_backoff_loop
    by (intro that [of "backoff_loop (unat attempt - 1) initial maxDelay"])
      (auto simp: ExponentialBackoffPolicy_Decide_def)
qed

section \<open>The lease discipline\<close>

text \<open>
  A well-formed job has an identity, a type and times, and holds a lease exactly while it is
  leased or running.
\<close>

definition job_wf :: "job \<Rightarrow> bool" where
  "job_wf j \<longleftrightarrow>
     j_id j \<noteq> [] \<and> j_jobType j \<noteq> [] \<and> j_scheduledAt j \<noteq> 0 \<and> j_nextAttemptAt j \<noteq> 0 \<and>
     job_status_known (j_status j) \<and>
     (if j_status j = JobLeased \<or> j_status j = JobRunning
      then j_leaseOwner j \<noteq> [] \<and> j_leaseExpiresAt j \<noteq> 0
      else j_leaseOwner j = [] \<and> j_leaseExpiresAt j = 0)"

lemma NewJob_wf: "NewJob i t b at m = Inr j \<Longrightarrow> job_wf j"
  by (auto simp: NewJob_def job_wf_def split: if_splits)

lemma job_ops_wf:
  assumes "job_wf j"
  shows "Job_Lease owner at j = Inr k \<Longrightarrow> job_wf k"
    and "Job_Start j = Inr k \<Longrightarrow> job_wf k"
    and "Job_Complete j = Inr k \<Longrightarrow> job_wf k"
    and "Job_Fail j = Inr k \<Longrightarrow> job_wf k"
    and "Job_Exhaust j = Inr k \<Longrightarrow> job_wf k"
    and "Job_ScheduleRetry at j = Inr k \<Longrightarrow> job_wf k"
    and "job_wf (snd (Job_RequeueExpired at j))"
  using assms
  by (auto simp: job_wf_def job_op_defs Job_RequeueExpired_def split: if_splits)

lemma job_snapshot_roundtrip:
  assumes "job_wf j"
  shows "JobSnapshot_Restore (NewJobSnapshot j) = Inr j"
  using assms
  by (cases j) (auto simp: JobSnapshot_Restore_def NewJobSnapshot_def Job_Restore_def job_wf_def)

text \<open>Completed and exhausted jobs are never changed again by an operation.\<close>

lemma job_terminal_final:
  assumes "j_status j = JobCompleted \<or> j_status j = JobExhausted"
  shows "Job_Lease owner at j = Inl ErrInvalidJobTransition"
    and "Job_Start j = Inl ErrInvalidJobTransition"
    and "Job_Complete j = Inl ErrInvalidJobTransition"
    and "Job_Fail j = Inl ErrInvalidJobTransition"
    and "Job_Exhaust j = Inl ErrInvalidJobTransition"
    and "Job_ScheduleRetry at j = Inl ErrInvalidJobTransition"
    and "Job_RequeueExpired at j = (False, j)"
  using assms by (auto simp: job_op_defs Job_RequeueExpired_def)

section \<open>Properties\<close>

text \<open>
  C10. The backoff of attempt \<open>n\<close> is \<open>initial * 2^(n-1)\<close>, capped at the maximal delay, whatever the
  numbers: the doubling of the 64-bit duration never overflows.
\<close>

theorem backoff_is_capped_doubling:
  assumes "NewExponentialBackoffPolicy maxAttempts initial maxDelay = Inr p"
    and "0 < attempt" and "attempt < maxAttempts"
  shows "\<exists>d. ExponentialBackoffPolicy_Decide p attempt = Inr \<lparr>rd_RetryAfter = d, rd_Retry = True\<rparr> \<and>
           sint d = min (sint maxDelay) (sint initial * 2 ^ (unat attempt - 1))"
  using exponential_decide [OF assms] by metis

theorem backoff_is_capped_doubling_witness:
  "\<exists>d. ExponentialBackoffPolicy_Decide
         \<lparr>eb_maxAttempts = 20, eb_initial = 30000000000, eb_maxDelay = 300000000000\<rparr> 6 =
       Inr \<lparr>rd_RetryAfter = d, rd_Retry = True\<rparr> \<and>
     sint d = min (sint (300000000000 :: int64)) (sint (30000000000 :: int64) * 2 ^ (unat (6 :: uint64) - 1))"
proof (rule backoff_is_capped_doubling)
  show "NewExponentialBackoffPolicy 20 30000000000 300000000000 =
      Inr \<lparr>eb_maxAttempts = 20, eb_initial = 30000000000, eb_maxDelay = 300000000000\<rparr>"
    by (simp add: NewExponentialBackoffPolicy_def)
qed simp_all

text \<open>
  C11. Every job is well formed for its whole life: \<open>NewJob\<close> makes well-formed jobs (identity, type
  and times set; an owner and an expiry exactly while it is leased or running) and each operation
  keeps them so.
\<close>

theorem job_operations_keep_wf:
  "(NewJob i t b at m = Inr j \<longrightarrow> job_wf j) \<and>
   (job_wf j \<longrightarrow>
      (Job_Lease owner at j = Inr k \<or> Job_Start j = Inr k \<or> Job_Complete j = Inr k \<or>
       Job_Fail j = Inr k \<or> Job_Exhaust j = Inr k \<or> Job_ScheduleRetry at j = Inr k \<or>
       snd (Job_RequeueExpired at j) = k) \<longrightarrow> job_wf k)"
  by (auto intro: NewJob_wf job_ops_wf)

theorem job_operations_keep_wf_witness:
  "job_wf (snd (Job_RequeueExpired 9
     \<lparr>j_id = ''j'', j_jobType = ''t'', j_payload = NoBytes, j_scheduledAt = 1, j_nextAttemptAt = 1,
      j_status = JobLeased, j_leaseOwner = ''w'', j_leaseExpiresAt = 5, j_leaseGeneration = 1,
      j_attempts = 0, j_aggregateID = [], j_causationID = []\<rparr>))"
proof -
  have "job_wf \<lparr>j_id = ''j'', j_jobType = ''t'', j_payload = NoBytes, j_scheduledAt = 1, j_nextAttemptAt = 1,
      j_status = JobLeased, j_leaseOwner = ''w'', j_leaseExpiresAt = 5, j_leaseGeneration = 1,
      j_attempts = 0, j_aggregateID = [], j_causationID = []\<rparr>" by (simp add: job_wf_def)
  with job_operations_keep_wf show ?thesis by blast
qed

text \<open>
  The audit snapshot of a well-formed job restores to that job, in every state it can be in.
\<close>

theorem job_snapshot_restores:
  assumes "job_wf j"
  shows "JobSnapshot_Restore (NewJobSnapshot j) = Inr j"
  by (rule job_snapshot_roundtrip [OF assms])

theorem job_snapshot_restores_witness:
  "JobSnapshot_Restore (NewJobSnapshot
     \<lparr>j_id = ''j'', j_jobType = ''t'', j_payload = NoBytes, j_scheduledAt = 1, j_nextAttemptAt = 2,
      j_status = JobRunning, j_leaseOwner = ''w'', j_leaseExpiresAt = 5, j_leaseGeneration = 3,
      j_attempts = 2, j_aggregateID = [], j_causationID = []\<rparr>) =
   Inr \<lparr>j_id = ''j'', j_jobType = ''t'', j_payload = NoBytes, j_scheduledAt = 1, j_nextAttemptAt = 2,
      j_status = JobRunning, j_leaseOwner = ''w'', j_leaseExpiresAt = 5, j_leaseGeneration = 3,
      j_attempts = 2, j_aggregateID = [], j_causationID = []\<rparr>"
  by (rule job_snapshot_restores) (simp add: job_wf_def)

end
