(* ===== verification/Providers.thy ===== *)
theory Providers
  imports Payments Json
begin

text \<open>
  The provider contract of \<open>internal/provider/domain\<close> (\<open>contracts.go\<close>, \<open>registry.go\<close>), the
  deterministic provider (\<open>internal/provider/deterministic\<close>) and the three plugins built on it
  (\<open>fake\<close>, \<open>stripe\<close>, \<open>adyen\<close>).
\<close>

section \<open>Contracts\<close>

definition ProviderID_Valid :: "string \<Rightarrow> bool" where
  "ProviderID_Valid i \<longleftrightarrow> i \<noteq> []"

definition ProviderIdentity_Validate :: "string \<Rightarrow> provider_error option" where
  "ProviderIdentity_Validate i = (if \<not> ProviderID_Valid i then Some ErrInvalidProviderID else None)"

record payment_snapshot =
  sn_ID :: string
  sn_Amount :: money
  sn_Status :: status
  sn_Version :: uint64

definition PaymentSnapshot_Validate :: "payment_snapshot \<Rightarrow> provider_error option" where
  "PaymentSnapshot_Validate s =
     (if sn_ID s = [] \<or> \<not> Status_Valid (sn_Status s) \<or> sn_Version s = 0
        then Some ErrInvalidPaymentSnapshot
      else if sint (money_amount (sn_Amount s)) \<le> 0 \<or> money_currency (sn_Amount s) = []
        then Some ErrInvalidPaymentSnapshot
      else None)"

record async_operation =
  ao_ID :: string
  ao_PaymentID :: string
  ao_Type :: string
  ao_Payload :: bytes
  ao_ScheduledAt :: time

definition AsyncOperation_Validate :: "async_operation \<Rightarrow> provider_error option" where
  "AsyncOperation_Validate x =
     (if ao_ID x = [] \<or> ao_PaymentID x = [] \<or> ao_Type x = [] \<or> IsZero (ao_ScheduledAt x)
        then Some ErrInvalidAsyncOperation else None)"

datatype outcome = OutcomeSucceeded | OutcomePending | OutcomeFailed | UnknownOutcome string

fun OperationOutcome_Valid :: "outcome \<Rightarrow> bool" where
  "OperationOutcome_Valid (UnknownOutcome t) = False"
| "OperationOutcome_Valid x = True"

record operation_result =
  or_Outcome :: outcome
  or_ProviderReference :: string
  or_AsyncOperations :: "async_operation list"

text \<open>The loop of \<open>OperationResult.Validate\<close>; \<open>seen\<close> holds the identities met so far.\<close>

fun validate_async :: "string list \<Rightarrow> async_operation list \<Rightarrow> provider_error option" where
  "validate_async seen [] = None"
| "validate_async seen (operation # rest) =
     (case AsyncOperation_Validate operation of
        Some e \<Rightarrow> Some e
      | None \<Rightarrow>
          if ao_ID operation \<in> set seen then Some ErrInvalidAsyncOperation
          else validate_async (ao_ID operation # seen) rest)"

definition OperationResult_Validate :: "operation_result \<Rightarrow> provider_error option" where
  "OperationResult_Validate r =
     (if \<not> OperationOutcome_Valid (or_Outcome r) then Some ErrInvalidOperationResult
      else validate_async [] (or_AsyncOperations r))"

text \<open>
  A provider as the rest of the program sees it: the \<open>Provider\<close> interface, and the
  \<open>AsyncExecutor\<close> capability, which a type assertion may find absent. A call takes the
  snapshot, the amount where there is one, and the instant of the request.
\<close>

record provider_interface =
  pv_Identity :: string
  pv_Authorize :: "payment_snapshot \<Rightarrow> time \<Rightarrow> error + operation_result"
  pv_Capture :: "payment_snapshot \<Rightarrow> money \<Rightarrow> time \<Rightarrow> error + operation_result"
  pv_Refund :: "payment_snapshot \<Rightarrow> money \<Rightarrow> time \<Rightarrow> error + operation_result"
  pv_Cancel :: "payment_snapshot \<Rightarrow> time \<Rightarrow> error + operation_result"
  pv_ExecuteAsync :: "(async_operation \<Rightarrow> error + operation_result) option"

section \<open>The deterministic provider\<close>

record deterministic_provider =
  dp_identity :: string
  dp_profile :: string
  dp_seed :: uint64

definition NewWithProfile :: "string \<Rightarrow> string \<Rightarrow> deterministic_provider" where
  "NewWithProfile i profile = \<lparr>dp_identity = i, dp_profile = profile, dp_seed = 0\<rparr>"

definition Deterministic_New :: "string \<Rightarrow> deterministic_provider" where
  "Deterministic_New i = NewWithProfile i ''success''"

definition Deterministic_Configure ::
  "string \<Rightarrow> uint64 \<Rightarrow> deterministic_provider \<Rightarrow> deterministic_provider" where
  "Deterministic_Configure profile seed p =
     \<lparr>dp_identity = dp_identity p,
      dp_profile = (if profile = [] then ''success'' else profile), dp_seed = seed\<rparr>"

definition successfulResult :: "string \<Rightarrow> string \<Rightarrow> string \<Rightarrow> operation_result" where
  "successfulResult operation paymentID providerID =
     \<lparr>or_Outcome = OutcomeSucceeded,
      or_ProviderReference = providerID @ '':'' @ operation @ '':'' @ paymentID,
      or_AsyncOperations = []\<rparr>"

definition failedResult :: "string \<Rightarrow> string \<Rightarrow> string \<Rightarrow> operation_result" where
  "failedResult operation paymentID providerID =
     \<lparr>or_Outcome = OutcomeFailed,
      or_ProviderReference = providerID @ '':'' @ operation @ '':'' @ paymentID @ '':failed'',
      or_AsyncOperations = []\<rparr>"

definition time_Minute :: duration where
  "time_Minute = 60000000000"

definition pendingResult ::
  "string \<Rightarrow> string \<Rightarrow> string \<Rightarrow> time \<Rightarrow> uint64 \<Rightarrow> operation_result" where
  "pendingResult operation paymentID providerID at delay =
     \<lparr>or_Outcome = OutcomePending, or_ProviderReference = [],
      or_AsyncOperations =
        [\<lparr>ao_ID = providerID @ '':'' @ paymentID @ '':async'', ao_PaymentID = paymentID,
          ao_Type = operation, ao_Payload = NoBytes,
          ao_ScheduledAt = time_Add at (delay * time_Minute)\<rparr>]\<rparr>"

definition Deterministic_result ::
  "deterministic_provider \<Rightarrow> string \<Rightarrow> string \<Rightarrow> time \<Rightarrow> operation_result" where
  "Deterministic_result p operation paymentID at =
     (if dp_profile p = ''seeded'' \<and> dp_seed p mod 3 = 1 \<and> operation = ''authorize''
        then failedResult operation paymentID (dp_identity p)
      else if dp_profile p = ''seeded'' \<and> dp_seed p mod 3 = 2 \<and> operation = ''authorize''
        then pendingResult operation paymentID (dp_identity p) at (dp_seed p mod 5 + 1)
      else if dp_profile p = ''fail_authorize'' \<and> operation = ''authorize''
        then failedResult operation paymentID (dp_identity p)
      else if dp_profile p = ''pending_authorize'' \<and> operation = ''authorize''
        then \<lparr>or_Outcome = OutcomePending, or_ProviderReference = [],
              or_AsyncOperations =
                [\<lparr>ao_ID = dp_identity p @ '':'' @ paymentID @ '':async'', ao_PaymentID = paymentID,
                  ao_Type = operation, ao_Payload = NoBytes,
                  ao_ScheduledAt = time_Add at time_Minute\<rparr>]\<rparr>
      else successfulResult operation paymentID (dp_identity p))"

definition validateSnapshot :: "payment_snapshot \<Rightarrow> error option" where
  "validateSnapshot s =
     (case PaymentSnapshot_Validate s of
        Some e \<Rightarrow> Some (Joined [Provider ErrInvalidRequest, Provider e])
      | None \<Rightarrow>
          (case NewMoney (money_amount (sn_Amount s)) (money_currency (sn_Amount s)) of
             Inl e \<Rightarrow> Some (Joined [Provider ErrInvalidRequest, Payment e])
           | Inr m \<Rightarrow> None))"

definition validateOperationAmount :: "payment_snapshot \<Rightarrow> money \<Rightarrow> error option" where
  "validateOperationAmount s amount =
     (if sint (money_amount amount) \<le> 0 \<or> money_currency amount \<noteq> money_currency (sn_Amount s)
        then Some (Provider ErrInvalidOperationAmount)
      else case NewMoney (money_amount amount) (money_currency amount) of
        Inl e \<Rightarrow> Some (Joined [Provider ErrInvalidOperationAmount, Payment e])
      | Inr m \<Rightarrow> None)"

definition Deterministic_Authorize ::
  "deterministic_provider \<Rightarrow> payment_snapshot \<Rightarrow> time \<Rightarrow> error + operation_result" where
  "Deterministic_Authorize p s at =
     (case validateSnapshot s of Some e \<Rightarrow> Inl e
      | None \<Rightarrow> Inr (Deterministic_result p ''authorize'' (sn_ID s) at))"

definition Deterministic_Capture ::
  "deterministic_provider \<Rightarrow> payment_snapshot \<Rightarrow> money \<Rightarrow> time \<Rightarrow> error + operation_result" where
  "Deterministic_Capture p s amount at =
     (case validateSnapshot s of Some e \<Rightarrow> Inl e
      | None \<Rightarrow>
          (case validateOperationAmount s amount of Some e \<Rightarrow> Inl e
           | None \<Rightarrow> Inr (Deterministic_result p ''capture'' (sn_ID s) at)))"

definition Deterministic_Refund ::
  "deterministic_provider \<Rightarrow> payment_snapshot \<Rightarrow> money \<Rightarrow> time \<Rightarrow> error + operation_result" where
  "Deterministic_Refund p s amount at =
     (case validateSnapshot s of Some e \<Rightarrow> Inl e
      | None \<Rightarrow>
          (case validateOperationAmount s amount of Some e \<Rightarrow> Inl e
           | None \<Rightarrow> Inr (Deterministic_result p ''refund'' (sn_ID s) at)))"

definition Deterministic_Cancel ::
  "deterministic_provider \<Rightarrow> payment_snapshot \<Rightarrow> time \<Rightarrow> error + operation_result" where
  "Deterministic_Cancel p s at =
     (case validateSnapshot s of Some e \<Rightarrow> Inl e
      | None \<Rightarrow> Inr (Deterministic_result p ''cancel'' (sn_ID s) at))"

definition Deterministic_ExecuteAsync ::
  "deterministic_provider \<Rightarrow> async_operation \<Rightarrow> error + operation_result" where
  "Deterministic_ExecuteAsync p x =
     (case AsyncOperation_Validate x of Some e \<Rightarrow> Inl (Provider e)
      | None \<Rightarrow> Inr (successfulResult (ao_Type x) (ao_PaymentID x) (dp_identity p)))"

definition deterministic_interface :: "deterministic_provider \<Rightarrow> provider_interface" where
  "deterministic_interface p =
     \<lparr>pv_Identity = dp_identity p, pv_Authorize = Deterministic_Authorize p,
      pv_Capture = Deterministic_Capture p, pv_Refund = Deterministic_Refund p,
      pv_Cancel = Deterministic_Cancel p,
      pv_ExecuteAsync = Some (Deterministic_ExecuteAsync p)\<rparr>"

definition Fake_New :: deterministic_provider where
  "Fake_New = Deterministic_New ''fake''"

definition Stripe_New :: deterministic_provider where
  "Stripe_New = Deterministic_New ''stripe''"

definition Adyen_New :: deterministic_provider where
  "Adyen_New = Deterministic_New ''adyen''"

section \<open>The registry\<close>

text \<open>
  The registry maps identities to providers. A provider to register is an option because the
  code rejects a nil interface and a typed nil pointer. The rows are kept in registration
  order; \<open>IDs\<close> sorts, so the iteration order of Go's map does not show.
\<close>

type_synonym 'p registry = "(string \<times> 'p) list"

definition NewRegistry :: "'p registry" where
  "NewRegistry = []"

definition Registry_Register ::
  "('p \<Rightarrow> string) \<Rightarrow> 'p option \<Rightarrow> 'p registry \<Rightarrow> provider_error + 'p registry" where
  "Registry_Register identity provider r =
     (case provider of
        None \<Rightarrow> Inl ErrNilProvider
      | Some p \<Rightarrow>
          (case ProviderIdentity_Validate (identity p) of
             Some e \<Rightarrow> Inl e
           | None \<Rightarrow>
               if map_of r (identity p) \<noteq> None then Inl ErrProviderAlreadyExists
               else Inr (r @ [(identity p, p)])))"

definition Registry_Resolve :: "string \<Rightarrow> 'p registry \<Rightarrow> provider_error + 'p" where
  "Registry_Resolve i r =
     (if \<not> ProviderID_Valid i then Inl ErrInvalidProviderID
      else case map_of r i of None \<Rightarrow> Inl ErrProviderNotFound | Some p \<Rightarrow> Inr p)"

definition Registry_IDs :: "'p registry \<Rightarrow> string list" where
  "Registry_IDs r = sort (map fst r)"

text \<open>
  The registry refines a finite map: a registered provider is what its identity resolves to,
  every other identity resolves as before, and \<open>IDs\<close> lists the domain once, in order.
\<close>

definition registry_ok :: "('p \<Rightarrow> string) \<Rightarrow> 'p registry \<Rightarrow> bool" where
  "registry_ok identity r \<longleftrightarrow>
     distinct (map fst r) \<and> (\<forall>(i, p) \<in> set r. i = identity p \<and> i \<noteq> [])"

lemma registry_ok_new: "registry_ok identity NewRegistry"
  by (simp add: registry_ok_def NewRegistry_def)

lemma Registry_Register_ok:
  assumes "registry_ok identity r" and "Registry_Register identity (Some p) r = Inr r'"
  shows "registry_ok identity r'"
    and "Registry_Resolve (identity p) r = Inl ErrProviderNotFound"
    and "Registry_Resolve i r' = (if i = identity p then Inr p else Registry_Resolve i r)"
    and "set (Registry_IDs r') = insert (identity p) (set (Registry_IDs r))"
proof -
  from assms(2) have r': "r' = r @ [(identity p, p)]" and ne: "identity p \<noteq> []"
    and fresh: "map_of r (identity p) = None"
    by (auto simp: Registry_Register_def ProviderIdentity_Validate_def ProviderID_Valid_def
        split: if_splits)
  from fresh have nin: "identity p \<notin> fst ` set r" by (simp add: map_of_eq_None_iff)
  show "registry_ok identity r'"
    using assms(1) nin ne by (auto simp: registry_ok_def r')
  show "Registry_Resolve (identity p) r = Inl ErrProviderNotFound"
    using fresh ne by (simp add: Registry_Resolve_def ProviderID_Valid_def)
  show "Registry_Resolve i r' = (if i = identity p then Inr p else Registry_Resolve i r)"
    using fresh ne
    by (simp add: Registry_Resolve_def ProviderID_Valid_def r' map_add_def split: option.splits)
  show "set (Registry_IDs r') = insert (identity p) (set (Registry_IDs r))"
    by (simp add: Registry_IDs_def r')
qed

lemma Registry_IDs_sorted:
  "registry_ok identity r \<Longrightarrow> sorted (Registry_IDs r) \<and> distinct (Registry_IDs r)"
  by (simp add: registry_ok_def Registry_IDs_def)

section \<open>Every result of the provider is valid\<close>

lemma time_Minute_sint: "sint time_Minute = 60000000000"
  by (simp add: time_Minute_def)

lemma time_Add_pos:
  assumes "0 \<le> t" and "0 < sint d"
  shows "0 < time_Add t d"
proof -
  have nn: "0 \<le> (t + sint d) div second"
    using assms by (simp add: pos_imp_zdiv_nonneg_iff)
  have "0 \<le> (t + sint d) mod second" by simp
  then have "0 < max_seconds * second + (t + sint d) mod second"
    by (simp add: max_seconds_def second_def add_pos_nonneg)
  then show ?thesis
    using assms nn by (simp add: time_Add_def Let_def)
qed

lemma seeded_delay_pos: "0 < sint (((s :: uint64) mod 5 + 1) * time_Minute)"
proof -
  have "unat (s mod 5) < 5" by (simp add: unat_mod)
  then consider "unat (s mod 5) = 0" | "unat (s mod 5) = 1" | "unat (s mod 5) = 2"
    | "unat (s mod 5) = 3" | "unat (s mod 5) = 4" by linarith
  moreover have "s mod 5 = word_of_nat (unat (s mod 5))" by simp
  ultimately show ?thesis
    by cases (simp_all only: time_Minute_def, simp_all)
qed

lemma Deterministic_result_valid:
  assumes "0 \<le> at" and "i \<noteq> []" and "operation \<noteq> []"
  shows "OperationResult_Validate (Deterministic_result p operation i at) = None"
proof -
  have "0 < time_Add at time_Minute"
    by (rule time_Add_pos [OF assms(1)]) (simp add: time_Minute_sint)
  moreover have "0 < time_Add at ((dp_seed p mod 5 + 1) * time_Minute)"
    by (rule time_Add_pos [OF assms(1) seeded_delay_pos])
  ultimately show ?thesis
    using assms
    by (simp add: Deterministic_result_def OperationResult_Validate_def successfulResult_def
        failedResult_def pendingResult_def AsyncOperation_Validate_def)
qed

lemma validateSnapshot_id: "validateSnapshot s = None \<Longrightarrow> sn_ID s \<noteq> []"
  by (auto simp: validateSnapshot_def PaymentSnapshot_Validate_def split: if_splits)

lemma Deterministic_results_valid:
  assumes "0 \<le> at"
  shows "Deterministic_Authorize p s at = Inr r \<Longrightarrow> OperationResult_Validate r = None"
    and "Deterministic_Capture p s m at = Inr r \<Longrightarrow> OperationResult_Validate r = None"
    and "Deterministic_Refund p s m at = Inr r \<Longrightarrow> OperationResult_Validate r = None"
    and "Deterministic_Cancel p s at = Inr r \<Longrightarrow> OperationResult_Validate r = None"
  using assms Deterministic_result_valid validateSnapshot_id
  by (auto simp: Deterministic_Authorize_def Deterministic_Capture_def Deterministic_Refund_def
      Deterministic_Cancel_def split: option.splits)

lemma Deterministic_ExecuteAsync_valid:
  "Deterministic_ExecuteAsync p x = Inr r \<Longrightarrow>
     OperationResult_Validate r = None \<and> or_Outcome r = OutcomeSucceeded"
  by (auto simp: Deterministic_ExecuteAsync_def OperationResult_Validate_def successfulResult_def
      split: option.splits)

text \<open>The provider accepts the snapshot of every well-formed payment.\<close>

definition snapshot_of_payment :: "payment \<Rightarrow> payment_snapshot" where
  "snapshot_of_payment p =
     \<lparr>sn_ID = p_id p, sn_Amount = p_amount p, sn_Status = p_status p, sn_Version = p_version p\<rparr>"

lemma validateSnapshot_payment:
  assumes "payment_ok p"
  shows "validateSnapshot (snapshot_of_payment p) = None"
proof -
  have v: "payment_valid p" and c: "validCurrency (money_currency (p_amount p))"
    using assms by (simp_all add: payment_ok_def)
  from v have "Status_Valid (p_status p)"
    by (cases "p_status p") (simp_all add: payment_valid_iff)
  moreover have "money_currency (p_amount p) \<noteq> []"
    using c by (auto simp: validCurrency_def)
  ultimately show ?thesis
    using v c by (simp add: validateSnapshot_def PaymentSnapshot_Validate_def
        snapshot_of_payment_def payment_valid_iff NewMoney_def)
qed

definition all_ops :: "deterministic_provider \<Rightarrow> payment_snapshot \<Rightarrow> money \<Rightarrow> time
    \<Rightarrow> (error + operation_result) list" where
  "all_ops p s m at = [Deterministic_Authorize p s at, Deterministic_Capture p s m at,
     Deterministic_Refund p s m at, Deterministic_Cancel p s at]"

text \<open>
  Whatever scenario and seed a deterministic provider is configured with, for the snapshot of a
  well-formed payment authorize and cancel always answer, and every answer of the four operations
  passes \<open>OperationResult.Validate\<close>: a failed result has a code, a pending one has well-formed
  operations to run later. Running an asynchronous operation always succeeds, validly, when the
  operation itself is valid.
\<close>

theorem provider_answers_validly:
  assumes "payment_ok p" and "0 \<le> at" and "AsyncOperation_Validate op = None"
  shows "(\<exists>r. Deterministic_Authorize d (snapshot_of_payment p) at = Inr r) \<and>
    (\<exists>r. Deterministic_Cancel d (snapshot_of_payment p) at = Inr r) \<and>
    (\<forall>r. Inr r \<in> set (all_ops d (snapshot_of_payment p) m at) \<longrightarrow> OperationResult_Validate r = None) \<and>
    (\<exists>r. Deterministic_ExecuteAsync d op = Inr r \<and> or_Outcome r = OutcomeSucceeded \<and>
      OperationResult_Validate r = None)"
proof (intro conjI)
  note accepted = validateSnapshot_payment [OF assms(1)]
  show "\<exists>r. Deterministic_Authorize d (snapshot_of_payment p) at = Inr r"
    and "\<exists>r. Deterministic_Cancel d (snapshot_of_payment p) at = Inr r"
    by (simp_all add: Deterministic_Authorize_def Deterministic_Cancel_def accepted)
  show "\<forall>r. Inr r \<in> set (all_ops d (snapshot_of_payment p) m at) \<longrightarrow> OperationResult_Validate r = None"
    by (auto simp: all_ops_def dest!: sym [of "Inr _"] dest: Deterministic_results_valid [OF assms(2)])
  show "\<exists>r. Deterministic_ExecuteAsync d op = Inr r \<and> or_Outcome r = OutcomeSucceeded \<and>
      OperationResult_Validate r = None"
    using Deterministic_ExecuteAsync_valid [of d op] assms(3) by (simp add: Deterministic_ExecuteAsync_def)
qed

theorem provider_answers_validly_witness:
  "\<exists>r. Deterministic_Authorize Stripe_New (snapshot_of_payment sample) 0 = Inr r"
  using provider_answers_validly [OF sample_ok order.refl, of
      "\<lparr>ao_ID = ''a'', ao_PaymentID = ''p'', ao_Type = ''capture'', ao_Payload = NoBytes,
        ao_ScheduledAt = 5\<rparr>" Stripe_New "p_amount sample"]
  by (simp add: AsyncOperation_Validate_def)

end
