(* ===== verification/Sagas.thy ===== *)
theory Sagas
  imports Providers
begin

text \<open>
  The payment saga of \<open>internal/paymentworkflow/domain/workflow.go\<close>: its messages, its
  instances and the three transitions of an instance.
\<close>

section \<open>Steps, statuses, messages\<close>

datatype saga_step = StepAuthorize | StepCapture | StepRefund | StepCancel | UnknownStep string

fun step_text :: "saga_step \<Rightarrow> string" where
  "step_text StepAuthorize = ''authorize''"
| "step_text StepCapture = ''capture''"
| "step_text StepRefund = ''refund''"
| "step_text StepCancel = ''cancel''"
| "step_text (UnknownStep t) = t"

definition step_of :: "string \<Rightarrow> saga_step" where
  "step_of t =
     (case find (\<lambda>s. step_text s = t) [StepAuthorize, StepCapture, StepRefund, StepCancel] of
        Some s \<Rightarrow> s | None \<Rightarrow> UnknownStep t)"

fun Step_Valid :: "saga_step \<Rightarrow> bool" where
  "Step_Valid (UnknownStep t) = False"
| "Step_Valid s = True"

lemma step_of_text: "Step_Valid s \<Longrightarrow> step_of (step_text s) = s"
  by (cases s) (simp_all add: step_of_def)

datatype saga_status =
  SagaRunning | SagaCompensating | SagaCompleted | SagaFailed | UnknownSagaStatus string

fun SagaStatus_Valid :: "saga_status \<Rightarrow> bool" where
  "SagaStatus_Valid (UnknownSagaStatus t) = False"
| "SagaStatus_Valid s = True"

record saga_message =
  sm_ID :: string
  sm_SagaID :: string
  sm_PaymentID :: string
  sm_Step :: saga_step
  sm_OperationID :: string
  sm_Payload :: bytes
  sm_Seed :: uint64
  sm_ScheduledAt :: time
  sm_VirtualAt :: time
  sm_Attempt :: uint64
  sm_CorrelationID :: string
  sm_CausationID :: string

definition Message_Validate :: "saga_message \<Rightarrow> saga_error option" where
  "Message_Validate m =
     (if sm_ID m = [] \<or> sm_SagaID m = [] \<or> sm_PaymentID m = [] \<or> \<not> Step_Valid (sm_Step m)
         \<or> IsZero (sm_ScheduledAt m) \<or> IsZero (sm_VirtualAt m) \<or> sm_Attempt m = 0
      then Some SagaErrInvalidMessage else None)"

section \<open>Instances\<close>

record saga_instance =
  si_ID :: string
  si_PaymentID :: string
  si_Payload :: bytes
  si_Status :: saga_status
  si_CurrentStep :: saga_step
  si_CompletedSteps :: "saga_step list"
  si_Compensation :: "saga_step list"
  si_Seed :: uint64
  si_Version :: uint64
  si_UpdatedAt :: time

definition Saga_New :: "string \<Rightarrow> string \<Rightarrow> uint64 \<Rightarrow> time \<Rightarrow> saga_error + saga_instance" where
  "Saga_New sid paymentID seed at =
     (if sid = [] then Inl SagaErrInvalidID
      else if paymentID = [] \<or> IsZero at then Inl SagaErrInvalidTransition
      else Inr \<lparr>si_ID = sid, si_PaymentID = paymentID, si_Payload = NoBytes,
                si_Status = SagaRunning, si_CurrentStep = StepAuthorize,
                si_CompletedSteps = [], si_Compensation = [], si_Seed = seed,
                si_Version = 1, si_UpdatedAt = at\<rparr>)"

definition Saga_NewWithPayload ::
  "string \<Rightarrow> string \<Rightarrow> bytes \<Rightarrow> uint64 \<Rightarrow> time \<Rightarrow> saga_error + saga_instance" where
  "Saga_NewWithPayload sid paymentID payload seed at =
     bindR (Saga_New sid paymentID seed at) (\<lambda>i. Inr (i\<lparr>si_Payload := payload\<rparr>))"

definition Instance_Validate :: "saga_instance \<Rightarrow> saga_error option" where
  "Instance_Validate i =
     (if si_ID i = [] \<or> si_PaymentID i = [] \<or> \<not> SagaStatus_Valid (si_Status i)
         \<or> \<not> Step_Valid (si_CurrentStep i) \<or> si_Version i = 0 \<or> IsZero (si_UpdatedAt i)
      then Some SagaErrInvalidTransition else None)"

definition Instance_contains :: "saga_instance \<Rightarrow> saga_step \<Rightarrow> bool" where
  "Instance_contains i step \<longleftrightarrow> List.member (si_CompletedSteps i) step"

definition compensationFor :: "saga_step list \<Rightarrow> saga_step list" where
  "compensationFor completed =
     (if List.member completed StepCapture then [StepRefund, StepCancel]
      else if List.member completed StepAuthorize then [StepCancel]
      else [])"

definition ApplySuccess :: "saga_step \<Rightarrow> time \<Rightarrow> saga_instance \<Rightarrow> saga_error + saga_instance" where
  "ApplySuccess step at i =
     (if \<not> Step_Valid step \<or> si_Status i \<noteq> SagaRunning \<or> step \<noteq> si_CurrentStep i
        then Inl SagaErrInvalidTransition
      else if Instance_contains i step then Inr i
      else let j = i\<lparr>si_CompletedSteps := si_CompletedSteps i @ [step],
                     si_Version := si_Version i + 1, si_UpdatedAt := at\<rparr>
        in case step of
          StepAuthorize \<Rightarrow> Inr (j\<lparr>si_CurrentStep := StepCapture\<rparr>)
        | StepCapture \<Rightarrow> Inr (j\<lparr>si_Status := SagaCompleted\<rparr>)
        | _ \<Rightarrow> Inr j)"

definition BeginCompensation ::
  "saga_step \<Rightarrow> time \<Rightarrow> saga_instance \<Rightarrow> saga_error + saga_instance" where
  "BeginCompensation step at i =
     (if si_Status i \<noteq> SagaRunning \<or> \<not> Step_Valid step then Inl SagaErrInvalidTransition
      else let j = i\<lparr>si_Status := SagaCompensating,
                     si_Compensation := compensationFor (si_CompletedSteps i)\<rparr>
        in case si_Compensation j of
          [] \<Rightarrow> Inr (j\<lparr>si_Status := SagaFailed, si_Version := si_Version j + 1,
                       si_UpdatedAt := at\<rparr>)
        | c # _ \<Rightarrow> Inr (j\<lparr>si_CurrentStep := c, si_Version := si_Version j + 1,
                           si_UpdatedAt := at\<rparr>))"

definition ApplyCompensationSuccess ::
  "saga_step \<Rightarrow> time \<Rightarrow> saga_instance \<Rightarrow> saga_error + saga_instance" where
  "ApplyCompensationSuccess step at i =
     (if si_Status i \<noteq> SagaCompensating \<or> si_Compensation i = [] \<or> step \<noteq> si_CurrentStep i
        then Inl SagaErrInvalidTransition
      else let j = i\<lparr>si_Compensation := tl (si_Compensation i),
                     si_Version := si_Version i + 1, si_UpdatedAt := at\<rparr>
        in case si_Compensation j of
          [] \<Rightarrow> Inr (j\<lparr>si_Status := SagaFailed\<rparr>)
        | c # _ \<Rightarrow> Inr (j\<lparr>si_CurrentStep := c\<rparr>))"

lemmas saga_op_defs = ApplySuccess_def BeginCompensation_def ApplyCompensationSuccess_def

section \<open>The saga as a state machine\<close>

text \<open>One transition of an instance, as the orchestrator makes them.\<close>

inductive saga_moves :: "saga_instance \<Rightarrow> saga_instance \<Rightarrow> bool" where
  success: "ApplySuccess step at i = Inr j \<Longrightarrow> saga_moves i j"
| failure: "BeginCompensation step at i = Inr j \<Longrightarrow> saga_moves i j"
| compensated: "ApplyCompensationSuccess step at i = Inr j \<Longrightarrow> saga_moves i j"

inductive saga_reachable :: "saga_instance \<Rightarrow> bool" where
  started: "Saga_NewWithPayload sid pid payload seed at = Inr i \<Longrightarrow> saga_reachable i"
| moved: "saga_reachable i \<Longrightarrow> saga_moves i j \<Longrightarrow> saga_reachable j"

inductive_cases saga_movesE: "saga_moves i j"

text \<open>
  The five shapes of a reachable instance, with its version: two running ones, one that
  compensates the authorization, and the final ones.
\<close>

datatype saga_phase = Authorizing | Capturing | Cancelling | Succeeded | Declined | Compensated

fun phase_status :: "saga_phase \<Rightarrow> saga_status" where
  "phase_status Authorizing = SagaRunning"
| "phase_status Capturing = SagaRunning"
| "phase_status Cancelling = SagaCompensating"
| "phase_status Succeeded = SagaCompleted"
| "phase_status Declined = SagaFailed"
| "phase_status Compensated = SagaFailed"

fun phase_step :: "saga_phase \<Rightarrow> saga_step" where
  "phase_step Authorizing = StepAuthorize"
| "phase_step Capturing = StepCapture"
| "phase_step Cancelling = StepCancel"
| "phase_step Succeeded = StepCapture"
| "phase_step Declined = StepAuthorize"
| "phase_step Compensated = StepCancel"

fun phase_completed :: "saga_phase \<Rightarrow> saga_step list" where
  "phase_completed Authorizing = []"
| "phase_completed Declined = []"
| "phase_completed Succeeded = [StepAuthorize, StepCapture]"
| "phase_completed p = [StepAuthorize]"

fun phase_compensation :: "saga_phase \<Rightarrow> saga_step list" where
  "phase_compensation Cancelling = [StepCancel]"
| "phase_compensation p = []"

fun phase_version :: "saga_phase \<Rightarrow> uint64" where
  "phase_version Authorizing = 1"
| "phase_version Capturing = 2"
| "phase_version Declined = 2"
| "phase_version Succeeded = 3"
| "phase_version Cancelling = 3"
| "phase_version Compensated = 4"

definition in_phase :: "saga_phase \<Rightarrow> saga_instance \<Rightarrow> bool" where
  "in_phase p i \<longleftrightarrow>
     si_ID i \<noteq> [] \<and> si_PaymentID i \<noteq> [] \<and>
     si_Status i = phase_status p \<and> si_CurrentStep i = phase_step p \<and>
     si_CompletedSteps i = phase_completed p \<and> si_Compensation i = phase_compensation p \<and>
     si_Version i = phase_version p"

inductive phase_moves :: "saga_phase \<Rightarrow> saga_phase \<Rightarrow> bool" where
  "phase_moves Authorizing Capturing"
| "phase_moves Authorizing Declined"
| "phase_moves Capturing Succeeded"
| "phase_moves Capturing Cancelling"
| "phase_moves Cancelling Compensated"

inductive_simps phase_moves_simps [simp]: "phase_moves p q"

lemma Saga_New_phase: "Saga_NewWithPayload sid pid payload seed at = Inr i \<Longrightarrow> in_phase Authorizing i"
  by (auto simp: Saga_NewWithPayload_def Saga_New_def in_phase_def bindR_Inr_iff split: if_splits)

lemma ApplySuccess_phase:
  assumes "in_phase p i" and "ApplySuccess step at i = Inr j"
  shows "(p = Authorizing \<and> step = StepAuthorize \<and> in_phase Capturing j) \<or>
         (p = Capturing \<and> step = StepCapture \<and> in_phase Succeeded j)"
  using assms
  by (cases p; cases step)
    (auto simp: in_phase_def ApplySuccess_def Instance_contains_def split: if_splits)

lemma BeginCompensation_phase:
  assumes "in_phase p i" and "BeginCompensation step at i = Inr j"
  shows "(p = Authorizing \<and> in_phase Declined j) \<or> (p = Capturing \<and> in_phase Cancelling j)"
  using assms
  by (cases p) (auto simp: in_phase_def BeginCompensation_def compensationFor_def split: if_splits)

lemma ApplyCompensationSuccess_phase:
  assumes "in_phase p i" and "ApplyCompensationSuccess step at i = Inr j"
  shows "p = Cancelling \<and> step = StepCancel \<and> in_phase Compensated j"
  using assms
  by (cases p) (auto simp: in_phase_def ApplyCompensationSuccess_def split: if_splits)

lemma saga_moves_phase:
  assumes "in_phase p i" and "saga_moves i j"
  obtains q where "phase_moves p q" and "in_phase q j"
  using assms(2)
proof (elim saga_movesE)
  fix step at assume "ApplySuccess step at i = Inr j"
  from ApplySuccess_phase [OF assms(1) this] that show thesis by auto
next
  fix step at assume "BeginCompensation step at i = Inr j"
  from BeginCompensation_phase [OF assms(1) this] that show thesis by auto
next
  fix step at assume "ApplyCompensationSuccess step at i = Inr j"
  from ApplyCompensationSuccess_phase [OF assms(1) this] that show thesis by auto
qed

lemma saga_reachable_phase: "saga_reachable i \<Longrightarrow> \<exists>p. in_phase p i"
proof (induction rule: saga_reachable.induct)
  case (started sid pid payload seed at i)
  then show ?case using Saga_New_phase by blast
next
  case (moved i j)
  then show ?case by (metis saga_moves_phase)
qed

text \<open>Every transition advances the version by one and keeps the identity, payload and seed.\<close>

lemma saga_moves_frame:
  assumes "saga_moves i j"
  shows "si_ID j = si_ID i \<and> si_PaymentID j = si_PaymentID i \<and> si_Payload j = si_Payload i \<and>
         si_Seed j = si_Seed i"
  using assms
  by (cases rule: saga_movesE)
    (auto simp: saga_op_defs Let_def split: if_splits saga_step.splits list.splits)

lemma phase_version_step: "phase_moves p q \<Longrightarrow> phase_version q = phase_version p + 1"
  by (cases p; cases q) simp_all

lemma saga_version_step:
  assumes "saga_reachable i" and "saga_moves i j"
  shows "si_Version j = si_Version i + 1"
proof -
  from saga_reachable_phase [OF assms(1)] obtain p where p: "in_phase p i" ..
  from p assms(2) obtain q where "phase_moves p q" and "in_phase q j" by (rule saga_moves_phase)
  with p phase_version_step show ?thesis by (simp add: in_phase_def)
qed

text \<open>An unfinished saga can move on: its current step, once done, is accepted.\<close>

lemma saga_progress:
  assumes "saga_reachable i" and "si_Status i = SagaRunning \<or> si_Status i = SagaCompensating"
  shows "\<exists>j. (if si_Status i = SagaRunning then ApplySuccess (si_CurrentStep i) at i
               else ApplyCompensationSuccess (si_CurrentStep i) at i) = Inr j"
proof -
  from saga_reachable_phase [OF assms(1)] obtain p where "in_phase p i" ..
  with assms(2) show ?thesis
    by (cases p)
      (auto simp: in_phase_def ApplySuccess_def ApplyCompensationSuccess_def Instance_contains_def)
qed

section \<open>JSON of messages and asynchronous operations\<close>

text \<open>A nil byte slice marshals to \<open>null\<close>, any other to a base64 string.\<close>

definition json_of_bytes :: "bytes \<Rightarrow> json" where
  "json_of_bytes b = (if b = NoBytes then JNull else JBase64 b)"

text \<open>Marshalling a time fails when its year has not four digits.\<close>

definition Marshal_async :: "async_operation \<Rightarrow> error + bytes" where
  "Marshal_async x =
     (if \<not> time_in_range (ao_ScheduledAt x) then Inl Decoding
      else Inr (JsonText (JObj
        [(''ID'', JStr (ao_ID x)), (''PaymentID'', JStr (ao_PaymentID x)),
         (''Type'', JStr (ao_Type x)), (''Payload'', json_of_bytes (ao_Payload x)),
         (''ScheduledAt'', JTime (ao_ScheduledAt x))])))"

definition async_member :: "string \<Rightarrow> json \<Rightarrow> async_operation \<Rightarrow> async_operation option" where
  "async_member k v x =
     (if names k ''ID'' then map_option (\<lambda>a. x\<lparr>ao_ID := a\<rparr>) (json_string (ao_ID x) v)
      else if names k ''PaymentID''
        then map_option (\<lambda>a. x\<lparr>ao_PaymentID := a\<rparr>) (json_string (ao_PaymentID x) v)
      else if names k ''Type'' then map_option (\<lambda>a. x\<lparr>ao_Type := a\<rparr>) (json_string (ao_Type x) v)
      else if names k ''Payload''
        then map_option (\<lambda>a. x\<lparr>ao_Payload := a\<rparr>) (json_byte_slice (ao_Payload x) v)
      else if names k ''ScheduledAt''
        then map_option (\<lambda>a. x\<lparr>ao_ScheduledAt := a\<rparr>) (json_time (ao_ScheduledAt x) v)
      else Some x)"

definition Unmarshal_async :: "bytes \<Rightarrow> error + async_operation" where
  "Unmarshal_async b =
     Unmarshal async_member
       \<lparr>ao_ID = [], ao_PaymentID = [], ao_Type = [], ao_Payload = NoBytes, ao_ScheduledAt = 0\<rparr> b"

definition Marshal_message :: "saga_message \<Rightarrow> error + bytes" where
  "Marshal_message m =
     (if \<not> time_in_range (sm_ScheduledAt m) \<or> \<not> time_in_range (sm_VirtualAt m) then Inl Decoding
      else Inr (JsonText (JObj
        [(''ID'', JStr (sm_ID m)), (''SagaID'', JStr (sm_SagaID m)),
         (''PaymentID'', JStr (sm_PaymentID m)), (''Step'', JStr (step_text (sm_Step m))),
         (''OperationID'', JStr (sm_OperationID m)), (''Payload'', json_of_bytes (sm_Payload m)),
         (''Seed'', JNum (uint (sm_Seed m))), (''ScheduledAt'', JTime (sm_ScheduledAt m)),
         (''VirtualAt'', JTime (sm_VirtualAt m)), (''Attempt'', JNum (uint (sm_Attempt m))),
         (''CorrelationID'', JStr (sm_CorrelationID m)),
         (''CausationID'', JStr (sm_CausationID m))])))"

definition zero_message :: saga_message where
  "zero_message =
     \<lparr>sm_ID = [], sm_SagaID = [], sm_PaymentID = [], sm_Step = UnknownStep [],
      sm_OperationID = [], sm_Payload = NoBytes, sm_Seed = 0, sm_ScheduledAt = 0,
      sm_VirtualAt = 0, sm_Attempt = 0, sm_CorrelationID = [], sm_CausationID = []\<rparr>"

definition message_member :: "string \<Rightarrow> json \<Rightarrow> saga_message \<Rightarrow> saga_message option" where
  "message_member k v m =
     (if names k ''ID'' then map_option (\<lambda>a. m\<lparr>sm_ID := a\<rparr>) (json_string (sm_ID m) v)
      else if names k ''SagaID''
        then map_option (\<lambda>a. m\<lparr>sm_SagaID := a\<rparr>) (json_string (sm_SagaID m) v)
      else if names k ''PaymentID''
        then map_option (\<lambda>a. m\<lparr>sm_PaymentID := a\<rparr>) (json_string (sm_PaymentID m) v)
      else if names k ''Step''
        then map_option (\<lambda>a. m\<lparr>sm_Step := step_of a\<rparr>) (json_string (step_text (sm_Step m)) v)
      else if names k ''OperationID''
        then map_option (\<lambda>a. m\<lparr>sm_OperationID := a\<rparr>) (json_string (sm_OperationID m) v)
      else if names k ''Payload''
        then map_option (\<lambda>a. m\<lparr>sm_Payload := a\<rparr>) (json_byte_slice (sm_Payload m) v)
      else if names k ''Seed'' then map_option (\<lambda>a. m\<lparr>sm_Seed := a\<rparr>) (json_uint64 (sm_Seed m) v)
      else if names k ''ScheduledAt''
        then map_option (\<lambda>a. m\<lparr>sm_ScheduledAt := a\<rparr>) (json_time (sm_ScheduledAt m) v)
      else if names k ''VirtualAt''
        then map_option (\<lambda>a. m\<lparr>sm_VirtualAt := a\<rparr>) (json_time (sm_VirtualAt m) v)
      else if names k ''Attempt''
        then map_option (\<lambda>a. m\<lparr>sm_Attempt := a\<rparr>) (json_uint64 (sm_Attempt m) v)
      else if names k ''CorrelationID''
        then map_option (\<lambda>a. m\<lparr>sm_CorrelationID := a\<rparr>) (json_string (sm_CorrelationID m) v)
      else if names k ''CausationID''
        then map_option (\<lambda>a. m\<lparr>sm_CausationID := a\<rparr>) (json_string (sm_CausationID m) v)
      else Some m)"

definition Unmarshal_message :: "bytes \<Rightarrow> error + saga_message" where
  "Unmarshal_message b = Unmarshal message_member zero_message b"

lemma json_byte_slice_of_bytes [simp]: "json_byte_slice old (json_of_bytes b) = Some b"
  by (simp add: json_of_bytes_def)

lemma message_roundtrip:
  assumes "Marshal_message m = Inr b" and "Step_Valid (sm_Step m)"
  shows "Unmarshal_message b = Inr m"
  using assms
  by (cases m)
    (auto simp: Marshal_message_def Unmarshal_message_def message_member_def zero_message_def
      names_def ascii_lower_def step_of_text split: if_splits)

lemma async_roundtrip:
  assumes "Marshal_async x = Inr b"
  shows "Unmarshal_async b = Inr x"
  using assms
  by (cases x)
    (auto simp: Marshal_async_def Unmarshal_async_def async_member_def names_def ascii_lower_def
      split: if_splits)

section \<open>Properties\<close>

definition sample_saga :: saga_instance where
  "sample_saga = \<lparr>si_ID = ''s1'', si_PaymentID = ''p1'', si_Payload = NoBytes, si_Status = SagaRunning,
     si_CurrentStep = StepAuthorize, si_CompletedSteps = [], si_Compensation = [], si_Seed = 7,
     si_Version = 1, si_UpdatedAt = 5\<rparr>"

lemma sample_saga_new: "Saga_NewWithPayload ''s1'' ''p1'' NoBytes 7 5 = Inr sample_saga"
  by (simp add: Saga_NewWithPayload_def Saga_New_def sample_saga_def)

text \<open>
  C24. Every saga that can be reached is in one of six phases (authorizing, capturing, cancelling,
  succeeded, declined, compensated), each with its one status, current step, completed steps,
  compensation list and version; a move goes along the phase diagram, keeps identity, payment,
  payload and seed, and raises the version by one.
\<close>

theorem saga_follows_phases:
  assumes "saga_reachable i"
  shows "(\<exists>p. in_phase p i) \<and>
         (saga_moves i j \<longrightarrow>
            (\<exists>p q. in_phase p i \<and> in_phase q j \<and> phase_moves p q) \<and> si_Version j = si_Version i + 1 \<and>
            si_ID j = si_ID i \<and> si_PaymentID j = si_PaymentID i \<and> si_Payload j = si_Payload i \<and>
            si_Seed j = si_Seed i)"
proof -
  from saga_reachable_phase [OF assms] obtain p where p: "in_phase p i" ..
  have "\<exists>p q. in_phase p i \<and> in_phase q j \<and> phase_moves p q" if "saga_moves i j"
    using saga_moves_phase [OF p that] p by blast
  with p saga_version_step [OF assms] saga_moves_frame show ?thesis by blast
qed

theorem saga_follows_phases_witness: "\<exists>p. in_phase p sample_saga"
  using saga_follows_phases [OF saga_reachable.started [OF sample_saga_new], of sample_saga] by blast

text \<open>How many moves a saga in a phase can still make.\<close>

fun phase_rank :: "saga_phase \<Rightarrow> nat" where
  "phase_rank Authorizing = 3"
| "phase_rank Capturing = 2"
| "phase_rank Cancelling = 1"
| "phase_rank p = 0"

lemma saga_moves_bounded:
  "(saga_moves ^^ n) i j \<Longrightarrow> in_phase p i \<Longrightarrow> \<exists>q. in_phase q j \<and> n + phase_rank q \<le> phase_rank p"
proof (induction n arbitrary: i p)
  case 0
  then show ?case by auto
next
  case (Suc n)
  from Suc.prems(1) obtain k where m: "saga_moves i k" and r: "(saga_moves ^^ n) k j"
    by (metis relpowp_Suc_D2)
  from saga_moves_phase [OF Suc.prems(2) m] obtain q where pq: "phase_moves p q" and q: "in_phase q k" .
  from Suc.IH [OF r q] obtain q' where "in_phase q' j" and "n + phase_rank q' \<le> phase_rank q" by blast
  moreover have "phase_rank q < phase_rank p" using pq by auto
  ultimately show ?case by (intro exI [of _ q']) simp
qed

text \<open>
  C25. No saga is stuck and none goes on for ever: a reachable saga that is running or compensating
  can take the success of its current step, and at most three moves follow the start of a saga.
\<close>

theorem saga_ends:
  assumes "Saga_NewWithPayload sid pid payload seed at = Inr i" and "(saga_moves ^^ n) i j"
  shows "n \<le> 3 \<and>
         (si_Status j = SagaCompleted \<or> si_Status j = SagaFailed \<or>
          (\<exists>k. ApplySuccess (si_CurrentStep j) now j = Inr k \<or>
               ApplyCompensationSuccess (si_CurrentStep j) now j = Inr k))"
proof -
  have reach: "saga_reachable j"
    using assms(2) saga_reachable.started [OF assms(1)]
    by (induction n arbitrary: j) (auto intro: saga_reachable.moved)
  from saga_moves_bounded [OF assms(2) Saga_New_phase [OF assms(1)]] obtain q
    where q: "in_phase q j" and n: "n + phase_rank q \<le> 3" by auto
  have "si_Status j = SagaCompleted \<or> si_Status j = SagaFailed \<or>
      si_Status j = SagaRunning \<or> si_Status j = SagaCompensating"
    using q by (cases q) (simp_all add: in_phase_def)
  with saga_progress [OF reach, of now] n show ?thesis by (auto split: if_splits)
qed

theorem saga_ends_witness:
  "\<exists>k. ApplySuccess StepAuthorize 9 sample_saga = Inr k \<or> ApplyCompensationSuccess StepAuthorize 9 sample_saga = Inr k"
proof -
  have "(saga_moves ^^ 0) sample_saga sample_saga" by simp
  from saga_ends [OF sample_saga_new this, of 9] show ?thesis by (simp add: sample_saga_def)
qed

text \<open>
  The message of a saga step survives the job queue: a message that can be encoded is decoded
  to itself, with its payload, attempt, times and asynchronous operation.
\<close>

theorem saga_message_roundtrip:
  assumes "Marshal_message m = Inr b" and "Step_Valid (sm_Step m)"
  shows "Unmarshal_message b = Inr m"
  by (rule message_roundtrip [OF assms])

definition sample_message :: saga_message where
  "sample_message = \<lparr>sm_ID = ''m1'', sm_SagaID = ''s1'', sm_PaymentID = ''p1'', sm_Step = StepCapture,
     sm_OperationID = ''s1:capture'', sm_Payload = NoBytes, sm_Seed = 7, sm_ScheduledAt = 5,
     sm_VirtualAt = 5, sm_Attempt = 1, sm_CorrelationID = ''s1'', sm_CausationID = ''s1''\<rparr>"

theorem saga_message_roundtrip_witness:
  "\<exists>b. Marshal_message sample_message = Inr b \<and> Unmarshal_message b = Inr sample_message"
proof -
  obtain b where b: "Marshal_message sample_message = Inr b"
    by (simp add: Marshal_message_def sample_message_def time_in_range_def second_def)
  have "Step_Valid (sm_Step sample_message)" by (simp add: sample_message_def)
  from saga_message_roundtrip [OF b this] b show ?thesis by blast
qed

end
