(* ===== verification/Database.thy ===== *)
theory Database
  imports Events Jobs Sagas
begin

text \<open>
  The runtime the adapters share: the SQLite tables (\<open>migrations/sql\<close>), statements and
  transactions (\<open>internal/platform/persistence/sqlite\<close>), the request context
  (\<open>internal/platform/observability\<close>, \<open>WithTx\<close>, \<open>WithExecutionMetadata\<close>), and the other
  things the program reads from or does to its surroundings: clocks, random bytes, HTTP.

  One connection serves the whole process (\<open>SetMaxOpenConns(1)\<close>), so a transaction, or a
  statement outside one, runs alone; a procedure of this model is such a unit, or a sequence
  of them.

  An instant is stored as text in a layout for four-digit years, which sorts like the instants
  and which \<open>time.Parse\<close> reads back; a column of that kind holds the instant itself, and
  reading an instant outside those years fails. A \<open>uint64\<close> argument above \<open>2^63 - 1\<close> is
  refused by \<open>database/sql\<close>. A nil or empty \<open>[]byte\<close> is stored as an empty blob.
\<close>

section \<open>Tables\<close>

record payment_row =
  pr_id :: string
  pr_status :: string
  pr_amount :: int64
  pr_currency :: string
  pr_authorized_amount :: int64
  pr_captured_amount :: int64
  pr_refunded_amount :: int64
  pr_version :: int

record event_row =
  er_id :: string
  er_aggregate_id :: string
  er_event_type :: string
  er_occurred_at :: time
  er_aggregate_version :: int
  er_correlation_id :: string
  er_causation_id :: string
  er_payload :: bytes
  er_runtime_sequence :: int

text \<open>A \<open>lease_expires_at\<close> of \<open>''\<close> is \<open>None\<close>.\<close>

record job_row =
  jr_id :: string
  jr_type :: string
  jr_payload :: bytes
  jr_scheduled_at :: time
  jr_next_attempt_at :: time
  jr_status :: job_status
  jr_lease_owner :: string
  jr_lease_expires_at :: "time option"
  jr_lease_generation :: int
  jr_attempts :: int
  jr_aggregate_id :: string
  jr_causation_id :: string

text \<open>
  The primary key of an audit row is the SHA-256 digest of a text made of the columns of its job
  (\<open>ar_job\<close>); the key is not a column of the model, see \<open>audit_key\<close> of the scheduler repository.
\<close>

record audit_row =
  ar_job :: job_row
  ar_runtime_sequence :: int

record saga_row =
  sr_id :: string
  sr_payment_id :: string
  sr_payload :: bytes
  sr_status :: saga_status
  sr_current_step :: saga_step
  sr_completed_steps :: "saga_step list"
  sr_compensation_steps :: "saga_step list"
  sr_seed :: int
  sr_version :: int
  sr_updated_at :: time

record endpoint_row =
  wr_id :: string
  wr_url :: string

text \<open>The \<open>error\<close> column is the text of the error it holds, \<open>''\<close> for \<open>None\<close>.\<close>

record delivery_row =
  dr_job_id :: string
  dr_attempt :: int
  dr_endpoint_id :: string
  dr_correlation_id :: string
  dr_causation_id :: string
  dr_outcome :: string
  dr_http_status :: int
  dr_error :: "error option"
  dr_runtime_sequence :: int

record idempotency_row =
  ir_scope :: string
  ir_key :: string
  ir_fingerprint :: string
  ir_status :: string
  ir_response_status :: int
  ir_response_body :: bytes
  ir_response_headers :: "(string \<times> string list) list"

record scenario_row =
  xr_id :: string
  xr_payload :: bytes

record db =
  t_payments :: "payment_row list"
  t_event_log :: "event_row list"
  t_scheduler_jobs :: "job_row list"
  t_scheduler_job_audit :: "audit_row list"
  t_saga_instances :: "saga_row list"
  t_webhook_endpoints :: "endpoint_row list"
  t_webhook_delivery_audit :: "delivery_row list"
  t_idempotency_records :: "idempotency_row list"
  t_replay_scenarios :: "scenario_row list"
  t_runtime_state :: "(string \<times> time) list"
  t_runtime_sequence :: int

section \<open>The world\<close>

text \<open>
  \<open>w_faults\<close> decides, statement by statement, which of the next SQL statements fail (\<open>True\<close>);
  when it is used up none does. \<open>w_entropy\<close> are the results of the next reads of the random
  source, \<open>w_http\<close> the outcomes of the next HTTP requests; \<open>w_outbox\<close> are the requests made.
\<close>

datatype http_outcome =
    HttpError string
  | HttpNilResponse
  | HttpResponse int bool        \<comment> \<open>the status code, and whether there is a body\<close>

record http_request =
  hq_URL :: string
  hq_Body :: bytes
  hq_CorrelationID :: "string option"
  hq_CausationID :: "string option"

record world =
  w_db :: db
  w_faults :: "bool list"
  w_clock :: persistent_clock
  w_wall :: time
  w_entropy :: "string option list"
  w_http :: "http_outcome list"
  w_outbox :: "http_request list"

type_synonym 'a act = "(world, error, 'a) proc"

definition business_now :: "world \<Rightarrow> time" where
  "business_now w = pc_current (w_clock w)"

section \<open>The context\<close>

record metadata =
  md_CorrelationID :: string
  md_CausationID :: string

record ctx =
  cx_tx :: bool
  cx_metadata :: metadata
  cx_execution :: "(string \<times> uint64) option"

definition background :: ctx where
  "background = \<lparr>cx_tx = False, cx_metadata = \<lparr>md_CorrelationID = [], md_CausationID = []\<rparr>,
                 cx_execution = None\<rparr>"

definition WithMetadata :: "metadata \<Rightarrow> ctx \<Rightarrow> ctx" where
  "WithMetadata m cx = cx\<lparr>cx_metadata := m\<rparr>"

definition MetadataFromContext :: "ctx \<Rightarrow> metadata" where
  "MetadataFromContext cx = cx_metadata cx"

definition WithTx :: "ctx \<Rightarrow> ctx" where
  "WithTx cx = cx\<lparr>cx_tx := True\<rparr>"

definition WithExecutionMetadata :: "string \<Rightarrow> uint64 \<Rightarrow> ctx \<Rightarrow> ctx" where
  "WithExecutionMetadata jobID attempt cx = cx\<lparr>cx_execution := Some (jobID, attempt)\<rparr>"

definition ExecutionMetadataFromContext :: "ctx \<Rightarrow> (string \<times> uint64) option" where
  "ExecutionMetadataFromContext cx = cx_execution cx"

definition hex_digit :: "nat \<Rightarrow> char" where
  "hex_digit n = char_of (if n < 10 then 48 + n else 87 + n)"

definition hex_EncodeToString :: "string \<Rightarrow> string" where
  "hex_EncodeToString s =
     concat (map (\<lambda>c. [hex_digit (of_char c div 16), hex_digit (of_char c mod 16)]) s)"

definition NewCorrelationID :: "string act" where
  "NewCorrelationID w =
     (case w_entropy w of
        Some value # rest \<Rightarrow> (Inr (hex_EncodeToString value), w\<lparr>w_entropy := rest\<rparr>)
      | None # rest \<Rightarrow> (Inl (Message ''generate correlation id''), w\<lparr>w_entropy := rest\<rparr>)
      | [] \<Rightarrow> (Inl (Message ''generate correlation id''), w))"

section \<open>Statements and transactions\<close>

definition statement :: "(db \<Rightarrow> 'a \<times> db) \<Rightarrow> 'a act" where
  "statement f w =
     (case w_faults w of
        True # faults \<Rightarrow> (Inl Driver, w\<lparr>w_faults := faults\<rparr>)
      | faults \<Rightarrow> (Inr (fst (f (w_db w))),
                   w\<lparr>w_db := snd (f (w_db w)), w_faults := tl faults\<rparr>))"

definition query :: "(db \<Rightarrow> 'a) \<Rightarrow> 'a act" where
  "query f = statement (\<lambda>d. (f d, d))"

text \<open>
  \<open>QueryRowContext(...).Scan\<close>: no row is the error \<open>sql.ErrNoRows\<close>. Where the code tests for
  that error, the model uses \<open>query\<close>, whose result \<open>None\<close> is the case of no row.
\<close>

definition query_row :: "(db \<Rightarrow> 'r option) \<Rightarrow> 'r act" where
  "query_row f =
     bindP (query f) (\<lambda>r. case r of None \<Rightarrow> raiseP NoRows | Some x \<Rightarrow> returnP x)"

definition uint64_arg :: "uint64 \<Rightarrow> int act" where
  "uint64_arg v = (if uint v < 2 ^ 63 then returnP (uint v) else raiseP Driver)"

definition scan_uint64 :: "int \<Rightarrow> error + uint64" where
  "scan_uint64 n = (if 0 \<le> n \<and> n < 2 ^ 63 then Inr (word_of_int n) else Inl Driver)"

definition parse_time :: "time \<Rightarrow> error + time" where
  "parse_time t = (if time_in_range t then Inr t else Inl Decoding)"

text \<open>
  \<open>WithinTransaction\<close>: a body that fails is rolled back, and its error is joined with that of
  a failed rollback; nothing of a transaction whose rollback or commit fails becomes durable.
\<close>

definition control :: "unit act" where
  "control = query (\<lambda>d. ())"

definition WithinTransaction :: "'a act \<Rightarrow> 'a act" where
  "WithinTransaction fn w =
     (case control w of
        (Inl e, w1) \<Rightarrow> (Inl e, w1)
      | (Inr _, w1) \<Rightarrow>
          (case fn w1 of
             (Inl e, w2) \<Rightarrow>
               (case control w2 of
                  (Inl r, w3) \<Rightarrow> (Inl (Joined [e, r]), w3\<lparr>w_db := w_db w1\<rparr>)
                | (Inr _, w3) \<Rightarrow> (Inl e, w3\<lparr>w_db := w_db w1\<rparr>))
           | (Inr x, w2) \<Rightarrow>
               (case control w2 of
                  (Inl c, w3) \<Rightarrow> (Inl c, w3\<lparr>w_db := w_db w1\<rparr>)
                | (Inr _, w3) \<Rightarrow> (Inr x, w3))))"

definition WithinContext :: "ctx \<Rightarrow> (ctx \<Rightarrow> 'a act) \<Rightarrow> 'a act" where
  "WithinContext cx fn = WithinTransaction (fn (WithTx cx))"

text \<open>What repositories do: run in the transaction of the context, or in one of their own.\<close>

definition in_transaction :: "ctx \<Rightarrow> (ctx \<Rightarrow> 'a act) \<Rightarrow> 'a act" where
  "in_transaction cx fn = (if cx_tx cx then fn cx else WithinContext cx fn)"

definition NextRuntimeSequence :: "uint64 act" where
  "NextRuntimeSequence =
     bindP (statement (\<lambda>d. (t_runtime_sequence d + 1,
                            d\<lparr>t_runtime_sequence := t_runtime_sequence d + 1\<rparr>)))
       (\<lambda>n. liftP (scan_uint64 n))"

section \<open>Facts about statements\<close>

text \<open>The parts of the world that no SQL statement touches.\<close>

definition surroundings :: "world \<Rightarrow> persistent_clock \<times> time \<times> string option list \<times>
    http_outcome list \<times> http_request list" where
  "surroundings w = (w_clock w, w_wall w, w_entropy w, w_http w, w_outbox w)"

lemma surroundings_faults [simp]: "surroundings (w\<lparr>w_faults := fs\<rparr>) = surroundings w"
  by (simp add: surroundings_def)

lemma surroundings_db [simp]: "surroundings (w\<lparr>w_db := d\<rparr>) = surroundings w"
  by (simp add: surroundings_def)

lemma surroundings_now: "surroundings w' = surroundings w \<Longrightarrow> business_now w' = business_now w"
  by (simp add: surroundings_def business_now_def)

lemma statement_Inr:
  assumes "statement f w = (Inr x, w')"
  shows "x = fst (f (w_db w))" and "w_db w' = snd (f (w_db w))"
    and "surroundings w' = surroundings w"
  using assms by (auto simp: statement_def split: list.splits bool.splits)

lemma statement_Inl:
  assumes "statement f w = (Inl e, w')"
  shows "e = Driver" and "w_db w' = w_db w" and "surroundings w' = surroundings w"
    and "w_faults w = True # w_faults w'"
  using assms by (auto simp: statement_def split: list.splits bool.splits)

lemma statement_InrD:
  "statement f w = (Inr x, w') \<Longrightarrow>
     x = fst (f (w_db w)) \<and> w_db w' = snd (f (w_db w)) \<and> surroundings w' = surroundings w"
  by (simp add: statement_Inr)

lemma statement_InlD:
  "statement f w = (Inl e, w') \<Longrightarrow>
     e = Driver \<and> w_db w' = w_db w \<and> surroundings w' = surroundings w"
  by (simp add: statement_Inl)

lemma statement_reliable [simp]:
  "w_faults w = [] \<Longrightarrow> statement f w = (Inr (fst (f (w_db w))), w\<lparr>w_db := snd (f (w_db w))\<rparr>)"
  by (cases w) (simp add: statement_def)

lemma query_Inr:
  assumes "query f w = (Inr x, w')"
  shows "x = f (w_db w)" and "w_db w' = w_db w" and "surroundings w' = surroundings w"
  using statement_Inr [OF assms [unfolded query_def]] by simp_all

lemma query_Inl:
  assumes "query f w = (Inl e, w')"
  shows "e = Driver" and "w_db w' = w_db w" and "surroundings w' = surroundings w"
  using statement_Inl [OF assms [unfolded query_def]] by simp_all

lemma query_InrD:
  "query f w = (Inr x, w') \<Longrightarrow>
     x = f (w_db w) \<and> w_db w' = w_db w \<and> surroundings w' = surroundings w"
  by (simp add: query_Inr)

lemma query_InlD:
  "query f w = (Inl e, w') \<Longrightarrow>
     e = Driver \<and> w_db w' = w_db w \<and> surroundings w' = surroundings w"
  by (simp add: query_Inl)

lemma query_reliable [simp]: "w_faults w = [] \<Longrightarrow> query f w = (Inr (f (w_db w)), w)"
  by (cases w) (simp add: query_def)

lemma query_row_Inr:
  assumes "query_row f w = (Inr x, w')"
  shows "f (w_db w) = Some x" and "w_db w' = w_db w" and "surroundings w' = surroundings w"
  using assms
  by (auto simp: query_row_def elim!: bindP_InrE dest!: query_InrD split: option.splits)

lemma query_row_Inl:
  assumes "query_row f w = (Inl e, w')"
  shows "w_db w' = w_db w" and "surroundings w' = surroundings w"
    and "e = Driver \<or> (e = NoRows \<and> f (w_db w) = None)"
  using assms
  by (auto simp: query_row_def elim!: bindP_InlE dest!: query_InrD query_InlD split: option.splits)

lemma query_row_reliable [simp]:
  "w_faults w = [] \<Longrightarrow>
     query_row f w = (case f (w_db w) of None \<Rightarrow> (Inl NoRows, w) | Some x \<Rightarrow> (Inr x, w))"
  by (simp add: query_row_def bindP_apply split: option.splits)

lemma uint64_arg_Inr: "uint64_arg v w = (Inr n, w') \<longleftrightarrow> w' = w \<and> n = uint v \<and> uint v < 2 ^ 63"
  by (auto simp: uint64_arg_def)

lemma uint64_arg_Inl: "uint64_arg v w = (Inl e, w') \<longleftrightarrow> w' = w \<and> e = Driver \<and> \<not> uint v < 2 ^ 63"
  by (auto simp: uint64_arg_def)

lemma uint64_arg_small [simp]: "uint v < 2 ^ 63 \<Longrightarrow> uint64_arg v = returnP (uint v)"
  by (simp add: uint64_arg_def)

lemma scan_uint64_uint [simp]: "uint v < 2 ^ 63 \<Longrightarrow> scan_uint64 (uint v) = Inr v"
  by (simp add: scan_uint64_def)

lemma scan_uint64_Inr_iff: "scan_uint64 n = Inr v \<longleftrightarrow> n = uint v \<and> uint v < 2 ^ 63"
proof
  assume "scan_uint64 n = Inr v"
  then have n: "0 \<le> n" "n < 2 ^ 63" and v: "v = word_of_int n"
    by (auto simp: scan_uint64_def split: if_splits)
  then have "uint v = n" by (simp add: v take_bit_int_eq_self uint_word_of_int_eq)
  with n show "n = uint v \<and> uint v < 2 ^ 63" by simp
qed simp

lemma parse_time_Inr_iff: "parse_time t = Inr u \<longleftrightarrow> u = t \<and> time_in_range t"
  by (auto simp: parse_time_def)

section \<open>Procedures that work on the database only\<close>

text \<open>
  A procedure is local to the database when it leaves the surroundings alone; one that also
  leaves the tables alone reads only.
\<close>

definition db_local :: "'a act \<Rightarrow> bool" where
  "db_local m \<longleftrightarrow> (\<forall>w. surroundings (snd (m w)) = surroundings w)"

definition read_only :: "'a act \<Rightarrow> bool" where
  "read_only m \<longleftrightarrow> (\<forall>w. w_db (snd (m w)) = w_db w)"

named_theorems local_intros \<open>procedures that leave the surroundings alone\<close>
named_theorems read_only_intros \<open>procedures that leave the tables alone\<close>

lemma db_localI: "(\<And>w r w'. m w = (r, w') \<Longrightarrow> surroundings w' = surroundings w) \<Longrightarrow> db_local m"
  unfolding db_local_def by (metis prod.collapse)

lemma db_localD: "db_local m \<Longrightarrow> m w = (r, w') \<Longrightarrow> surroundings w' = surroundings w"
  unfolding db_local_def by (metis snd_conv)

lemma read_onlyI: "(\<And>w r w'. m w = (r, w') \<Longrightarrow> w_db w' = w_db w) \<Longrightarrow> read_only m"
  unfolding read_only_def by (metis prod.collapse)

lemma read_onlyD: "read_only m \<Longrightarrow> m w = (r, w') \<Longrightarrow> w_db w' = w_db w"
  unfolding read_only_def by (metis snd_conv)

lemma db_local_bind [local_intros]:
  "db_local m \<Longrightarrow> (\<And>x. db_local (f x)) \<Longrightarrow> db_local (bindP m f)"
  unfolding db_local_def bindP_def by (auto split: prod.splits sum.splits) (metis snd_conv)+

lemma read_only_bind [read_only_intros]:
  "read_only m \<Longrightarrow> (\<And>x. read_only (f x)) \<Longrightarrow> read_only (bindP m f)"
  unfolding read_only_def bindP_def by (auto split: prod.splits sum.splits) (metis snd_conv)+

lemma local_basic [local_intros]:
  "db_local (returnP x)" "db_local (raiseP e)" "db_local (liftP r)" "db_local (readP g)"
  "db_local (statement f)" "db_local (query q)" "db_local (query_row qr)" "db_local (uint64_arg v)"
  by (auto intro!: db_localI simp: uint64_arg_def query_row_def query_def bindP_apply
      dest: statement_Inr statement_Inl split: prod.splits sum.splits option.splits if_splits)
     (metis sum.exhaust statement_Inr(3) statement_Inl(3))+

lemma read_only_basic [read_only_intros]:
  "read_only (returnP x)" "read_only (raiseP e)" "read_only (liftP r)" "read_only (readP g)"
  "read_only (query q)" "read_only (query_row qr)" "read_only (uint64_arg v)"
  by (auto simp: read_only_def uint64_arg_def query_row_def query_def statement_def bindP_apply
      split: prod.splits sum.splits option.splits list.splits bool.splits)

lemma local_cases [local_intros]:
  "(c \<Longrightarrow> db_local m) \<Longrightarrow> (\<not> c \<Longrightarrow> db_local n) \<Longrightarrow> db_local (if c then m else n)"
  "db_local m \<Longrightarrow> (\<And>y. db_local (f y)) \<Longrightarrow> db_local (case x of None \<Rightarrow> m | Some y \<Rightarrow> f y)"
  "(\<And>y. db_local (g y)) \<Longrightarrow> (\<And>y. db_local (f y)) \<Longrightarrow>
     db_local (case s of Inl y \<Rightarrow> g y | Inr y \<Rightarrow> f y)"
  by (auto split: option.splits sum.splits)

lemma read_only_cases [read_only_intros]:
  "(c \<Longrightarrow> read_only m) \<Longrightarrow> (\<not> c \<Longrightarrow> read_only n) \<Longrightarrow> read_only (if c then m else n)"
  "read_only m \<Longrightarrow> (\<And>y. read_only (f y)) \<Longrightarrow> read_only (case x of None \<Rightarrow> m | Some y \<Rightarrow> f y)"
  "(\<And>y. read_only (g y)) \<Longrightarrow> (\<And>y. read_only (f y)) \<Longrightarrow>
     read_only (case s of Inl y \<Rightarrow> g y | Inr y \<Rightarrow> f y)"
  by (auto split: option.splits sum.splits)

lemma local_each [local_intros]: "(\<And>x. db_local (f x)) \<Longrightarrow> db_local (eachP f xs)"
  by (induction xs) (auto intro!: local_intros)

lemma local_mapP [local_intros]: "(\<And>x. db_local (f x)) \<Longrightarrow> db_local (mapP f xs)"
  by (induction xs) (auto intro!: local_intros)

lemma read_only_mapP [read_only_intros]: "(\<And>x. read_only (f x)) \<Longrightarrow> read_only (mapP f xs)"
  by (induction xs) (auto intro!: read_only_intros)

section \<open>Transactions are atomic\<close>

lemma control_Inr: "control w = (Inr u, w') \<Longrightarrow> w_db w' = w_db w \<and> surroundings w' = surroundings w"
  unfolding control_def by (auto dest: query_Inr)

lemma control_Inl: "control w = (Inl e, w') \<Longrightarrow> w_db w' = w_db w \<and> surroundings w' = surroundings w"
  unfolding control_def by (auto dest: query_Inl)

lemma WithinTransaction_InrE:
  assumes "WithinTransaction fn w = (Inr x, w')"
  obtains w1 w2 where "w_db w1 = w_db w" and "surroundings w1 = surroundings w"
    and "fn w1 = (Inr x, w2)" and "w_db w' = w_db w2" and "surroundings w' = surroundings w2"
  using assms
  by (auto simp: WithinTransaction_def dest!: control_Inr split: prod.splits sum.splits)

lemma WithinTransaction_Inl:
  assumes "WithinTransaction fn w = (Inl e, w')"
  shows "w_db w' = w_db w"
  using assms
  by (auto simp: WithinTransaction_def dest!: control_Inr control_Inl split: prod.splits sum.splits)

lemma WithinTransaction_reliable:
  assumes "w_faults w = []" and "fn w = (r, w2)" and "w_faults w2 = []"
  shows "WithinTransaction fn w =
           (case r of Inl e \<Rightarrow> (Inl e, w2\<lparr>w_db := w_db w\<rparr>) | Inr x \<Rightarrow> (Inr x, w2))"
  using assms by (simp add: WithinTransaction_def control_def split: sum.splits)

lemma local_WithinTransaction [local_intros]:
  assumes "db_local fn" shows "db_local (WithinTransaction fn)"
proof (rule db_localI)
  fix w r w' assume "WithinTransaction fn w = (r, w')"
  then show "surroundings w' = surroundings w"
    using db_localD [OF assms]
    by (auto simp: WithinTransaction_def dest!: control_Inr control_Inl
        split: prod.splits sum.splits)
qed

lemma in_transaction_InrE:
  assumes "in_transaction cx fn w = (Inr x, w')"
  obtains w1 w2 where "w_db w1 = w_db w" and "surroundings w1 = surroundings w"
    and "fn (WithTx cx) w1 = (Inr x, w2)" and "w_db w' = w_db w2"
    and "surroundings w' = surroundings w2"
proof (cases "cx_tx cx")
  case True
  then have "WithTx cx = cx" by (simp add: WithTx_def)
  with True assms that show thesis by (simp add: in_transaction_def)
next
  case False
  with assms have "WithinTransaction (fn (WithTx cx)) w = (Inr x, w')"
    by (simp add: in_transaction_def WithinContext_def)
  then show thesis by (rule WithinTransaction_InrE) (rule that)
qed

lemma in_transaction_reliable:
  assumes "w_faults w = []" and "fn (WithTx cx) w = (Inr x, w2)" and "w_faults w2 = []"
  shows "in_transaction cx fn w = (Inr x, w2)"
proof (cases "cx_tx cx")
  case True
  then have "WithTx cx = cx" by (simp add: WithTx_def)
  with True assms(2) show ?thesis by (simp add: in_transaction_def)
next
  case False
  with assms WithinTransaction_reliable [of w "fn (WithTx cx)" "Inr x" w2] show ?thesis
    by (simp add: in_transaction_def WithinContext_def)
qed

lemma in_transaction_Inl:
  assumes "in_transaction cx fn w = (Inl e, w')" and "\<not> cx_tx cx"
  shows "w_db w' = w_db w"
  using assms WithinTransaction_Inl by (auto simp: in_transaction_def WithinContext_def)

lemma local_in_transaction [local_intros]:
  "(\<And>c. db_local (fn c)) \<Longrightarrow> db_local (in_transaction cx fn)"
  by (simp add: in_transaction_def WithinContext_def local_intros)

lemma NextRuntimeSequence_Inr:
  assumes "NextRuntimeSequence w = (Inr n, w')"
  shows "w_db w' = (w_db w)\<lparr>t_runtime_sequence := uint n\<rparr>"
    and "uint n = t_runtime_sequence (w_db w) + 1" and "surroundings w' = surroundings w"
    and "uint n < 2 ^ 63"
  using assms
  by (auto simp: NextRuntimeSequence_def scan_uint64_Inr_iff elim!: bindP_InrE dest!: statement_InrD)

lemma NextRuntimeSequence_reliable:
  assumes "w_faults w = []" and "0 \<le> t_runtime_sequence (w_db w)"
    and "t_runtime_sequence (w_db w) + 1 < 2 ^ 63"
  obtains n where "NextRuntimeSequence w =
      (Inr n, w\<lparr>w_db := (w_db w)\<lparr>t_runtime_sequence := t_runtime_sequence (w_db w) + 1\<rparr>\<rparr>)"
    and "uint n = t_runtime_sequence (w_db w) + 1"
proof (rule that)
  show "NextRuntimeSequence w =
      (Inr (word_of_int (t_runtime_sequence (w_db w) + 1)),
       w\<lparr>w_db := (w_db w)\<lparr>t_runtime_sequence := t_runtime_sequence (w_db w) + 1\<rparr>\<rparr>)"
    using assms by (simp add: NextRuntimeSequence_def bindP_apply scan_uint64_def)
  show "uint (word_of_int (t_runtime_sequence (w_db w) + 1) :: uint64) = t_runtime_sequence (w_db w) + 1"
    using assms(2,3) by (subst uint_word_of_int_eq) (simp add: take_bit_int_eq_self)
qed

lemma local_NextRuntimeSequence [local_intros]: "db_local NextRuntimeSequence"
  by (simp add: NextRuntimeSequence_def local_intros)

section \<open>The store of the virtual clock\<close>

definition RuntimeStateStore_Load :: "string \<Rightarrow> time option act" where
  "RuntimeStateStore_Load key =
     bindP (query (\<lambda>d. map_of (t_runtime_state d) key)) (\<lambda>r.
       case r of
         None \<Rightarrow> returnP None
       | Some value \<Rightarrow> liftP (bindR (parse_time value) (\<lambda>at. Inr (Some at))))"

definition RuntimeStateStore_Save :: "string \<Rightarrow> time \<Rightarrow> unit act" where
  "RuntimeStateStore_Save key at =
     statement (\<lambda>d. ((), d\<lparr>t_runtime_state := put_row fst (key, at) (t_runtime_state d)\<rparr>))"

definition RuntimeStateStore :: "world state_store" where
  "RuntimeStateStore = \<lparr>ss_Load = RuntimeStateStore_Load, ss_Save = RuntimeStateStore_Save\<rparr>"

definition stored_state :: "world \<Rightarrow> string \<Rightarrow> time option" where
  "stored_state w key = map_of (t_runtime_state (w_db w)) key"

lemma map_of_put_row: "map_of (put_row fst (k, v) rows) = (map_of rows)(k \<mapsto> v)"
  by (induction rows) (auto simp: fun_eq_iff)

lemma RuntimeStateStore_Load_frame: "read_only (RuntimeStateStore_Load key)"
  by (simp add: RuntimeStateStore_Load_def read_only_intros)

interpretation runtime_state: durable_store RuntimeStateStore stored_state
proof
  fix k s r s' assume "ss_Load RuntimeStateStore k s = (Inr r, s')"
  then have l: "RuntimeStateStore_Load k s = (Inr r, s')" by (simp add: RuntimeStateStore_def)
  then have "r = map_of (t_runtime_state (w_db s)) k"
    by (auto simp: RuntimeStateStore_Load_def bindR_Inr_iff parse_time_Inr_iff
        elim!: bindP_InrE dest!: query_InrD split: option.splits)
  with read_onlyD [OF RuntimeStateStore_Load_frame l]
  show "r = stored_state s k \<and> stored_state s' = stored_state s"
    by (simp add: stored_state_def fun_eq_iff)
next
  fix k s e s' assume "ss_Load RuntimeStateStore k s = (Inl e, s')"
  then have "RuntimeStateStore_Load k s = (Inl e, s')" by (simp add: RuntimeStateStore_def)
  from read_onlyD [OF RuntimeStateStore_Load_frame this]
  show "stored_state s' = stored_state s" by (simp add: stored_state_def fun_eq_iff)
next
  fix k t s u s' assume "ss_Save RuntimeStateStore k t s = (Inr u, s')"
  then have "RuntimeStateStore_Save k t s = (Inr u, s')" by (simp add: RuntimeStateStore_def)
  from statement_Inr(2) [OF this [unfolded RuntimeStateStore_Save_def]]
  show "stored_state s' = (stored_state s)(k \<mapsto> t)"
    by (simp add: stored_state_def fun_eq_iff map_of_put_row)
next
  fix k t s e s' assume "ss_Save RuntimeStateStore k t s = (Inl e, s')"
  then have "RuntimeStateStore_Save k t s = (Inl e, s')" by (simp add: RuntimeStateStore_def)
  from statement_Inl(2) [OF this [unfolded RuntimeStateStore_Save_def]]
  show "stored_state s' = stored_state s" by (simp add: stored_state_def fun_eq_iff)
qed

text \<open>
  The clock of the running program: \<open>Advance\<close> through the store, keeping the new instant.
\<close>

definition advance_time :: "duration \<Rightarrow> time act" where
  "advance_time by w =
     (case TimeAdvancer_Execute (PersistentVirtualClock_Advance RuntimeStateStore) pc_current
             by (w_clock w) w of
        (Inl e, w') \<Rightarrow> (Inl e, w')
      | (Inr (c, t), w') \<Rightarrow> (Inr t, w'\<lparr>w_clock := c\<rparr>))"

section \<open>Properties\<close>

text \<open>A new database, and a world in which nothing fails, for concrete runs.\<close>

definition empty_db :: db where
  "empty_db = \<lparr>t_payments = [], t_event_log = [], t_scheduler_jobs = [], t_scheduler_job_audit = [],
     t_saga_instances = [], t_webhook_endpoints = [], t_webhook_delivery_audit = [],
     t_idempotency_records = [], t_replay_scenarios = [], t_runtime_state = [], t_runtime_sequence = 0\<rparr>"

definition fresh_world :: world where
  "fresh_world = \<lparr>w_db = empty_db, w_faults = [],
     w_clock = \<lparr>pc_current = 60000000000, pc_key = ''business_virtual_time''\<rparr>, w_wall = 60000000000,
     w_entropy = [], w_http = [], w_outbox = []\<rparr>"

lemma fresh_world_simps [simp]:
  "w_db fresh_world = empty_db" "w_faults fresh_world = []" "w_wall fresh_world = 60000000000"
  "business_now fresh_world = 60000000000" "w_outbox fresh_world = []"
  by (simp_all add: fresh_world_def business_now_def)

text \<open>
  An advance of the virtual clock is durable and only goes forward: when it succeeds the
  business time has grown, the new instant is what the caller is told, and a process restarted on
  the same database, whatever its own start time, resumes at exactly that instant. When it fails
  (a bad duration, a failed statement) neither the clock nor what a restart would resume at has
  changed.
\<close>

theorem clock_advance_durable:
  assumes "advance_time by w = (r, w')"
  shows "(case r of
            Inr t \<Rightarrow> business_now w < t \<and> business_now w' = t \<and>
              (\<forall>initial w2 c w3. w_db w2 = w_db w' \<longrightarrow>
                 NewPersistentVirtualClock initial RuntimeStateStore (pc_key (w_clock w)) w2 = (Inr c, w3) \<longrightarrow>
                 pc_current c = t)
          | Inl e \<Rightarrow> w_clock w' = w_clock w \<and> w_db w' = w_db w)"
proof (cases r)
  case (Inl e)
  with assms show ?thesis
    by (auto simp: advance_time_def TimeAdvancer_Execute_def PersistentVirtualClock_Advance_def
        RuntimeStateStore_def RuntimeStateStore_Save_def Let_def surroundings_def
        dest!: statement_InlD elim!: bindP_InlE split: prod.splits sum.splits if_splits)
next
  case (Inr t)
  with assms obtain c w1 where a: "PersistentVirtualClock_Advance RuntimeStateStore by (w_clock w) w = (Inr c, w1)"
    and t: "t = pc_current c" and w': "w' = w1\<lparr>w_clock := c\<rparr>"
    by (auto simp: advance_time_def TimeAdvancer_Execute_def elim!: bindP_InrE
        split: prod.splits sum.splits if_splits)
  note A = runtime_state.advance_durable [OF a]
  have "pc_current c' = t"
    if "w_db w2 = w_db w'" and "NewPersistentVirtualClock initial RuntimeStateStore (pc_key (w_clock w)) w2 = (Inr c', w3)"
    for initial w2 c' w3
    using runtime_state.restart_resumes [OF _ that(2), of t] A that(1) t w' by (simp add: stored_state_def)
  with A Inr t w' show ?thesis by (auto simp: business_now_def)
qed

theorem clock_advance_durable_witness:
  "case fst (advance_time 5 fresh_world) of
     Inr t \<Rightarrow> business_now fresh_world < t \<and> business_now (snd (advance_time 5 fresh_world)) = t
   | Inl e \<Rightarrow> False"
proof -
  obtain r w' where run: "advance_time 5 fresh_world = (r, w')" by force
  then have "r = Inr 60000000005"
    by (simp add: advance_time_def TimeAdvancer_Execute_def PersistentVirtualClock_Advance_def Let_def
        RuntimeStateStore_def RuntimeStateStore_Save_def bindP_apply time_Add_exact max_seconds_def
        second_def fresh_world_def)
  with clock_advance_durable [OF run] run show ?thesis by simp
qed

end
