(* ===== verification/Payment_Store.thy ===== *)
theory Payment_Store
  imports Database
begin

text \<open>
  The SQLite adapters of the payment context: \<open>internal/payment/adapters/sqlite/repository.go\<close>
  (payments, saved under optimistic locking) and \<open>event_log.go\<close> (the append-only event log).
\<close>

section \<open>The payment repository\<close>

definition payment_row_of :: "payment \<Rightarrow> int \<Rightarrow> payment_row" where
  "payment_row_of p version =
     \<lparr>pr_id = p_id p, pr_status = status_text (p_status p),
      pr_amount = money_amount (p_amount p), pr_currency = money_currency (p_amount p),
      pr_authorized_amount = money_amount (AuthorizedAmount p),
      pr_captured_amount = money_amount (CapturedAmount p),
      pr_refunded_amount = money_amount (RefundedAmount p), pr_version = version\<rparr>"

text \<open>
  The upsert of \<open>Save\<close>: a new identity is inserted; an existing row takes the new status,
  amounts and version when its version is the one before, and keeps its amount and currency.
  The result is the number of affected rows.
\<close>

definition upsert_payment :: "payment_row \<Rightarrow> db \<Rightarrow> nat \<times> db" where
  "upsert_payment r d =
     (case row_at pr_id (pr_id r) (t_payments d) of
        None \<Rightarrow> (1, d\<lparr>t_payments := put_row pr_id r (t_payments d)\<rparr>)
      | Some old \<Rightarrow>
          if pr_version old = pr_version r - 1
          then (1, d\<lparr>t_payments :=
                  put_row pr_id
                    (old\<lparr>pr_status := pr_status r, pr_authorized_amount := pr_authorized_amount r,
                         pr_captured_amount := pr_captured_amount r,
                         pr_refunded_amount := pr_refunded_amount r,
                         pr_version := pr_version r\<rparr>) (t_payments d)\<rparr>)
          else (0, d))"

definition Repository_Save :: "ctx \<Rightarrow> payment \<Rightarrow> unit act" where
  "Repository_Save cx p =
     bindP (uint64_arg (p_version p)) (\<lambda>version.
     bindP (statement (upsert_payment (payment_row_of p version))) (\<lambda>rowsAffected.
       if rowsAffected = 0 then raiseP (PaymentApp ErrPaymentVersionConflict)
       else returnP ()))"

definition restore_payment_row :: "payment_row \<Rightarrow> error + payment" where
  "restore_payment_row r =
     bindR (scan_uint64 (pr_version r)) (\<lambda>version.
     bindR (mapErr Payment (NewMoney (pr_amount r) (pr_currency r))) (\<lambda>money.
       mapErr Payment (Payment_Restore
         \<lparr>ps_ID = pr_id r, ps_Amount = money, ps_Status = status_of (pr_status r),
          ps_AuthorizedAmount = pr_authorized_amount r,
          ps_CapturedAmount = pr_captured_amount r,
          ps_RefundedAmount = pr_refunded_amount r, ps_Version = version\<rparr>)))"

definition Repository_FindByID :: "ctx \<Rightarrow> string \<Rightarrow> payment act" where
  "Repository_FindByID cx i =
     bindP (query (\<lambda>d. row_at pr_id i (t_payments d))) (\<lambda>r.
       case r of
         None \<Rightarrow> raiseP (PaymentApp ErrPaymentNotFound)
       | Some row \<Rightarrow> liftP (restore_payment_row row))"

definition Repository_WithinContext :: "ctx \<Rightarrow> (ctx \<Rightarrow> 'a act) \<Rightarrow> 'a act" where
  "Repository_WithinContext cx fn = (if cx_tx cx then fn cx else WithinContext cx fn)"

section \<open>What a row means\<close>

definition find_row :: "string \<Rightarrow> db \<Rightarrow> payment_row option" where
  "find_row i d = row_at pr_id i (t_payments d)"

definition stored_payment :: "db \<Rightarrow> string \<Rightarrow> payment option" where
  "stored_payment d i =
     (case find_row i d of
        None \<Rightarrow> None
      | Some r \<Rightarrow> (case restore_payment_row r of Inl e \<Rightarrow> None | Inr p \<Rightarrow> Some p))"

definition version_storable :: "payment \<Rightarrow> bool" where
  "version_storable p \<longleftrightarrow> uint (p_version p) < 2 ^ 63"

lemma restore_payment_row_of:
  assumes "payment_ok p" and "version_storable p"
  shows "restore_payment_row (payment_row_of p (uint (p_version p))) = Inr p"
proof -
  have v: "payment_valid p" and c: "validCurrency (money_currency (p_amount p))"
    using assms(1) by (simp_all add: payment_ok_def)
  have "Payment_Restore (payment_state_of p) = Inr p" using v by (rule payment_valid_restore)
  moreover have "Status_Valid (p_status p)" using assms(1) by (rule payment_ok_status)
  moreover have "NewMoney (money_amount (p_amount p)) (money_currency (p_amount p)) = Inr (p_amount p)"
    using v c by (simp add: NewMoney_Inr_iff payment_valid_iff)
  ultimately show ?thesis
    using assms(2)
    by (simp add: restore_payment_row_def payment_row_of_def version_storable_def
        status_of_text payment_state_of_def AuthorizedAmount_def CapturedAmount_def
        RefundedAmount_def)
qed

lemma restore_payment_row_Inr:
  assumes "restore_payment_row r = Inr p"
  shows "payment_ok p" and "r = payment_row_of p (uint (p_version p))" and "version_storable p"
proof -
  from assms obtain v m where v: "pr_version r = uint v" "uint v < 2 ^ 63"
    and m: "NewMoney (pr_amount r) (pr_currency r) = Inr m"
    and p: "Payment_Restore
         \<lparr>ps_ID = pr_id r, ps_Amount = m, ps_Status = status_of (pr_status r),
          ps_AuthorizedAmount = pr_authorized_amount r,
          ps_CapturedAmount = pr_captured_amount r,
          ps_RefundedAmount = pr_refunded_amount r, ps_Version = v\<rparr> = Inr p"
    by (auto simp: restore_payment_row_def bindR_Inr_iff scan_uint64_Inr_iff)
  from payment_restore_valid [OF p] have ok: "payment_valid p"
    and st: "payment_state_of p =
        \<lparr>ps_ID = pr_id r, ps_Amount = m, ps_Status = status_of (pr_status r),
          ps_AuthorizedAmount = pr_authorized_amount r,
          ps_CapturedAmount = pr_captured_amount r,
          ps_RefundedAmount = pr_refunded_amount r, ps_Version = v\<rparr>" by simp_all
  show "payment_ok p"
    using ok st m by (simp add: payment_ok_def payment_state_of_def NewMoney_Inr_iff)
  show "version_storable p" using st v by (simp add: version_storable_def payment_state_of_def)
  show "r = payment_row_of p (uint (p_version p))"
    using st v m
    by (cases r) (simp add: payment_row_of_def payment_state_of_def NewMoney_Inr_iff
        AuthorizedAmount_def CapturedAmount_def RefundedAmount_def)
qed

lemma stored_paymentD:
  assumes "stored_payment d i = Some p"
  shows "payment_ok p" and "p_id p = i" and "version_storable p"
    and "find_row i d = Some (payment_row_of p (uint (p_version p)))"
proof -
  from assms obtain r where r: "find_row i d = Some r" and p: "restore_payment_row r = Inr p"
    by (auto simp: stored_payment_def split: option.splits sum.splits)
  note R = restore_payment_row_Inr [OF p]
  show "payment_ok p" and "version_storable p" by (fact R)+
  show "find_row i d = Some (payment_row_of p (uint (p_version p)))" using r R(2) by simp
  have "pr_id r = i" using r by (auto simp: find_row_def dest: row_at_SomeD)
  then show "p_id p = i" using R(2) by (simp add: payment_row_of_def)
qed

lemma Repository_FindByID_Inr:
  assumes "Repository_FindByID cx i w = (Inr p, w')"
  shows "stored_payment (w_db w) i = Some p" and "w_db w' = w_db w"
    and "surroundings w' = surroundings w"
  using assms
  by (auto simp: Repository_FindByID_def stored_payment_def find_row_def elim!: bindP_InrE
      dest!: query_InrD split: option.splits)

lemma FindByID_frame [local_intros, read_only_intros]:
  "db_local (Repository_FindByID cx i)" "read_only (Repository_FindByID cx i)"
  by (simp_all add: Repository_FindByID_def local_intros read_only_intros)

lemma Repository_FindByID_reliable:
  assumes "w_faults w = []"
  shows "Repository_FindByID cx i w =
           ((case find_row i (w_db w) of
               None \<Rightarrow> Inl (PaymentApp ErrPaymentNotFound)
             | Some r \<Rightarrow> restore_payment_row r), w)"
  using assms by (simp add: Repository_FindByID_def find_row_def bindP_apply split: option.splits)

section \<open>Optimistic locking\<close>

text \<open>
  \<open>Save\<close> succeeds exactly when the identity is new or the stored version is the one before,
  and then the stored row is that of the payment, up to the amount and currency of an existing
  row; when it fails nothing changes.
\<close>

definition save_accepts :: "payment \<Rightarrow> db \<Rightarrow> bool" where
  "save_accepts p d \<longleftrightarrow>
     (case find_row (p_id p) d of None \<Rightarrow> True | Some r \<Rightarrow> pr_version r = uint (p_version p) - 1)"

definition saved_row :: "payment \<Rightarrow> db \<Rightarrow> payment_row" where
  "saved_row p d =
     (case find_row (p_id p) d of
        None \<Rightarrow> payment_row_of p (uint (p_version p))
      | Some r \<Rightarrow> (payment_row_of p (uint (p_version p)))
                     \<lparr>pr_amount := pr_amount r, pr_currency := pr_currency r\<rparr>)"

lemma upsert_payment_eq:
  "upsert_payment (payment_row_of p (uint (p_version p))) d =
     (if save_accepts p d
      then (1, d\<lparr>t_payments := put_row pr_id (saved_row p d) (t_payments d)\<rparr>) else (0, d))"
proof (cases "find_row (p_id p) d")
  case None
  then show ?thesis
    by (simp add: upsert_payment_def save_accepts_def saved_row_def find_row_def payment_row_of_def)
next
  case (Some r)
  then have i: "pr_id r = p_id p" by (auto simp: find_row_def dest: row_at_SomeD)
  have "r\<lparr>pr_status := status_text (p_status p),
          pr_authorized_amount := money_amount (AuthorizedAmount p),
          pr_captured_amount := money_amount (CapturedAmount p),
          pr_refunded_amount := money_amount (RefundedAmount p),
          pr_version := uint (p_version p)\<rparr> = saved_row p d"
    using Some i by (cases r) (simp add: saved_row_def payment_row_of_def)
  with Some show ?thesis
    by (simp add: upsert_payment_def save_accepts_def find_row_def payment_row_of_def)
qed

lemma Repository_Save_Inr:
  assumes "Repository_Save cx p w = (Inr u, w')"
  shows "save_accepts p (w_db w)" and "version_storable p"
    and "w_db w' = (w_db w)\<lparr>t_payments := put_row pr_id (saved_row p (w_db w)) (t_payments (w_db w))\<rparr>"
    and "surroundings w' = surroundings w"
  using assms
  by (auto simp: Repository_Save_def version_storable_def uint64_arg_Inr upsert_payment_eq
      elim!: bindP_InrE dest!: statement_InrD split: if_splits)

lemma Repository_Save_Inl:
  assumes "Repository_Save cx p w = (Inl e, w')"
  shows "w_db w' = w_db w" and "surroundings w' = surroundings w"
    and "e = Driver \<or> (e = PaymentApp ErrPaymentVersionConflict \<and> \<not> save_accepts p (w_db w))"
  using assms
  by (auto simp: Repository_Save_def uint64_arg_Inr uint64_arg_Inl upsert_payment_eq
      elim!: bindP_InlE dest!: statement_InrD statement_InlD split: if_splits)

lemma Repository_Save_local [local_intros]: "db_local (Repository_Save cx p)"
  by (simp add: Repository_Save_def local_intros)

lemma Repository_Save_reliable:
  assumes "w_faults w = []" and "version_storable p"
  shows "Repository_Save cx p w =
     (if save_accepts p (w_db w)
      then (Inr (), w\<lparr>w_db := (w_db w)\<lparr>t_payments :=
              put_row pr_id (saved_row p (w_db w)) (t_payments (w_db w))\<rparr>\<rparr>)
      else (Inl (PaymentApp ErrPaymentVersionConflict), w))"
  using assms
  by (cases w) (simp add: Repository_Save_def version_storable_def upsert_payment_eq bindP_apply)

lemma pr_id_saved_row [simp]: "pr_id (saved_row p d) = p_id p"
  by (simp add: saved_row_def payment_row_of_def split: option.splits)

lemma find_row_put [simp]:
  "find_row i (d\<lparr>t_payments := put_row pr_id (saved_row p d) (t_payments d)\<rparr>) =
     (if i = p_id p then Some (saved_row p d) else find_row i d)"
  by (simp add: find_row_def)

text \<open>Saving a well-formed successor of the stored payment stores that payment.\<close>

lemma saved_row_successor:
  assumes "stored_payment d (p_id q) = Some p" and "p_amount q = p_amount p"
  shows "saved_row q d = payment_row_of q (uint (p_version q))"
  using stored_paymentD(4) [OF assms(1)] assms(2)
  by (simp add: saved_row_def payment_row_of_def)

lemma stored_after_save:
  assumes "payment_ok q" and "version_storable q"
    and "saved_row q d = payment_row_of q (uint (p_version q))"
  shows "stored_payment (d\<lparr>t_payments := put_row pr_id (saved_row q d) (t_payments d)\<rparr>) =
           (stored_payment d)(p_id q \<mapsto> q)"
  using restore_payment_row_of [OF assms(1,2)]
  by (intro ext, simp add: stored_payment_def, simp add: assms(3))

section \<open>The event log\<close>

definition event_type_of :: "string \<Rightarrow> event_type" where
  "event_type_of t =
     (case find (\<lambda>e. event_text e = t)
        [EventPaymentCreated, EventPaymentAuthorized, EventPaymentFailed, EventPaymentCancelled,
         EventPaymentCaptured, EventPaymentRefunded] of
        Some e \<Rightarrow> e | None \<Rightarrow> UnknownEvent t)"

lemma event_type_of_text: "EventType_Valid e \<Longrightarrow> event_type_of (event_text e) = e"
  by (cases e) (simp_all add: event_type_of_def)

definition event_row_of :: "business_event \<Rightarrow> int \<Rightarrow> int \<Rightarrow> event_row" where
  "event_row_of e version runtimeSequence =
     \<lparr>er_id = be_id e, er_aggregate_id = be_aggregateID e,
      er_event_type = event_text (be_eventType e), er_occurred_at = be_occurredAt e,
      er_aggregate_version = version, er_correlation_id = be_correlationID e,
      er_causation_id = be_causationID e, er_payload = be_payload e,
      er_runtime_sequence = runtimeSequence\<rparr>"

text \<open>\<open>INSERT ... ON CONFLICT(id) DO NOTHING\<close>, with the number of affected rows.\<close>

definition insert_event :: "event_row \<Rightarrow> db \<Rightarrow> nat \<times> db" where
  "insert_event r d =
     (if row_at er_id (er_id r) (t_event_log d) = None
      then (1, d\<lparr>t_event_log := t_event_log d @ [r]\<rparr>) else (0, d))"

definition EventLog_append :: "ctx \<Rightarrow> business_event \<Rightarrow> unit act" where
  "EventLog_append cx event =
     (case BusinessEvent_Validate event of
        Some e \<Rightarrow> raiseP (Payment e)
      | None \<Rightarrow>
          bindP NextRuntimeSequence (\<lambda>runtimeSequence.
          bindP (uint64_arg (be_aggregateVersion event)) (\<lambda>version.
          bindP (uint64_arg runtimeSequence) (\<lambda>n.
          bindP (statement (insert_event (event_row_of event version n))) (\<lambda>rowsAffected.
            if rowsAffected = 0 then raiseP (PaymentApp ErrEventAlreadyExists)
            else returnP ())))))"

definition EventLog_Append :: "ctx \<Rightarrow> business_event \<Rightarrow> unit act" where
  "EventLog_Append cx event = in_transaction cx (\<lambda>txctx. EventLog_append txctx event)"

definition restore_event_row :: "event_row \<Rightarrow> error + business_event" where
  "restore_event_row r =
     bindR (scan_uint64 (er_aggregate_version r)) (\<lambda>version.
     bindR (scan_uint64 (er_runtime_sequence r)) (\<lambda>runtimeSequence.
     bindR (parse_time (er_occurred_at r)) (\<lambda>parsedAt.
     bindR (mapErr Payment
              (NewBusinessEventWithPayload (er_id r) (er_aggregate_id r)
                 (event_type_of (er_event_type r)) parsedAt version
                 (er_correlation_id r) (er_causation_id r) (er_payload r))) (\<lambda>event.
       Inr (WithRuntimeSequence runtimeSequence event)))))"

text \<open>\<open>ORDER BY occurred_at ASC, aggregate_version ASC, id ASC\<close> of the rows of an aggregate.\<close>

definition event_order :: "event_row \<Rightarrow> int \<times> int \<times> string" where
  "event_order r = (er_occurred_at r, er_aggregate_version r, er_id r)"

definition aggregate_rows :: "string \<Rightarrow> db \<Rightarrow> event_row list" where
  "aggregate_rows i d = sort_key event_order (filter (\<lambda>r. er_aggregate_id r = i) (t_event_log d))"

fun collectR :: "('a \<Rightarrow> 'e + 'b) \<Rightarrow> 'a list \<Rightarrow> 'e + 'b list" where
  "collectR f [] = Inr []"
| "collectR f (x # xs) = bindR (f x) (\<lambda>y. bindR (collectR f xs) (\<lambda>ys. Inr (y # ys)))"

definition EventLog_ListByAggregate :: "ctx \<Rightarrow> string \<Rightarrow> business_event list act" where
  "EventLog_ListByAggregate cx aggregateID =
     bindP (query (aggregate_rows aggregateID)) (\<lambda>rows. liftP (collectR restore_event_row rows))"

section \<open>Facts about the event log\<close>

lemma collectR_Inr_iff:
  "collectR f xs = Inr ys \<longleftrightarrow>
     length ys = length xs \<and> (\<forall>k < length xs. f (xs ! k) = Inr (ys ! k))"
proof (induction xs arbitrary: ys)
  case Nil
  then show ?case by auto
next
  case (Cons x xs)
  have "collectR f (x # xs) = Inr ys \<longleftrightarrow>
      (\<exists>z zs. ys = z # zs \<and> f x = Inr z \<and> collectR f xs = Inr zs)"
    by (auto simp: bindR_Inr_iff)
  then show ?case by (cases ys) (auto simp: Cons.IH nth_Cons less_Suc_eq_0_disj split: nat.splits)
qed

lemma collectR_append:
  "collectR f (xs @ ys) =
     bindR (collectR f xs) (\<lambda>us. bindR (collectR f ys) (\<lambda>vs. Inr (us @ vs)))"
proof (induction xs)
  case Nil
  show ?case by (cases "collectR f ys") simp_all
next
  case (Cons x xs)
  then show ?case
    by (cases "f x"; cases "collectR f xs"; cases "collectR f ys") simp_all
qed

lemma collectR_Inr_append:
  assumes "collectR f xs = Inr us" and "f y = Inr v"
  shows "collectR f (xs @ [y]) = Inr (us @ [v])"
  using assms by (simp add: collectR_append)

lemma BusinessEvent_Validate_WithRuntimeSequence [simp]:
  "BusinessEvent_Validate (WithRuntimeSequence n e) = BusinessEvent_Validate e"
  by (simp add: BusinessEvent_Validate_def WithRuntimeSequence_def)

lemma restore_event_row_of:
  assumes "BusinessEvent_Validate e = None" and "time_in_range (be_occurredAt e)"
    and "uint (be_aggregateVersion e) < 2 ^ 63" and "uint n < 2 ^ 63"
  shows "restore_event_row (event_row_of e (uint (be_aggregateVersion e)) (uint n)) =
           Inr (WithRuntimeSequence n e)"
proof -
  have t: "EventType_Valid (be_eventType e)"
    using assms(1) by (auto simp: BusinessEvent_Validate_def split: if_splits)
  have "e\<lparr>be_runtimeSequence := 0\<rparr> =
      \<lparr>be_id = be_id e, be_aggregateID = be_aggregateID e, be_eventType = be_eventType e,
       be_occurredAt = be_occurredAt e, be_aggregateVersion = be_aggregateVersion e,
       be_correlationID = be_correlationID e, be_causationID = be_causationID e,
       be_payload = be_payload e, be_runtimeSequence = 0\<rparr>" by (cases e) simp
  with assms show ?thesis
    using event_type_of_text [OF t]
    by (cases e) (simp add: restore_event_row_def event_row_of_def NewBusinessEventWithPayload_def
        Let_def parse_time_def BusinessEvent_Validate_def WithRuntimeSequence_def split: if_splits)
qed

lemma EventLog_append_Inr:
  assumes "EventLog_append cx e w = (Inr u, w')"
  obtains n :: uint64 where "BusinessEvent_Validate e = None"
    and "row_at er_id (be_id e) (t_event_log (w_db w)) = None"
    and "uint n = t_runtime_sequence (w_db w) + 1" and "uint n < 2 ^ 63"
    and "uint (be_aggregateVersion e) < 2 ^ 63"
    and "w_db w' = (w_db w)
           \<lparr>t_runtime_sequence := uint n,
            t_event_log := t_event_log (w_db w) @
              [event_row_of e (uint (be_aggregateVersion e)) (uint n)]\<rparr>"
    and "surroundings w' = surroundings w"
proof -
  from assms have v: "BusinessEvent_Validate e = None"
    by (auto simp: EventLog_append_def split: option.splits)
  with assms obtain n w1 where n: "NextRuntimeSequence w = (Inr n, w1)"
    and av: "uint (be_aggregateVersion e) < 2 ^ 63"
    and r: "bindP (statement (insert_event (event_row_of e (uint (be_aggregateVersion e)) (uint n))))
          (\<lambda>rowsAffected. if rowsAffected = 0 then raiseP (PaymentApp ErrEventAlreadyExists)
            else returnP ()) w1 = (Inr u, w')"
    by (auto simp: EventLog_append_def uint64_arg_Inr elim!: bindP_InrE)
  note N = NextRuntimeSequence_Inr [OF n]
  from r have s: "row_at er_id (be_id e) (t_event_log (w_db w1)) = None \<and>
      w_db w' = (w_db w1)\<lparr>t_event_log := t_event_log (w_db w1) @
         [event_row_of e (uint (be_aggregateVersion e)) (uint n)]\<rparr> \<and>
      surroundings w' = surroundings w1"
    by (auto simp: insert_event_def event_row_of_def elim!: bindP_InrE dest!: statement_InrD
        split: if_splits)
  show thesis using v N av s by (intro that [of n]) simp_all
qed

lemma EventLog_append_local [local_intros]: "db_local (EventLog_append cx e)"
  by (simp add: EventLog_append_def local_intros)

lemma EventLog_Append_local [local_intros]: "db_local (EventLog_Append cx e)"
  by (simp add: EventLog_Append_def local_intros)

lemma ListByAggregate_frame [local_intros, read_only_intros]:
  "db_local (EventLog_ListByAggregate cx i)" "read_only (EventLog_ListByAggregate cx i)"
  by (simp_all add: EventLog_ListByAggregate_def local_intros read_only_intros)

lemma ListByAggregate_Inr:
  assumes "EventLog_ListByAggregate cx i w = (Inr es, w')"
  shows "collectR restore_event_row (aggregate_rows i (w_db w)) = Inr es"
    and "w_db w' = w_db w" and "surroundings w' = surroundings w"
  using assms by (auto simp: EventLog_ListByAggregate_def elim!: bindP_InrE dest!: query_InrD)

lemma ListByAggregate_reliable:
  "w_faults w = [] \<Longrightarrow> EventLog_ListByAggregate cx i w =
     (collectR restore_event_row (aggregate_rows i (w_db w)), w)"
  by (simp add: EventLog_ListByAggregate_def bindP_apply)

text \<open>Appending an event that sorts last extends the history of its aggregate at the end.\<close>

lemma insort_key_snoc: "f x \<le> f y \<Longrightarrow> insort_key f x (zs @ [y]) = insort_key f x zs @ [y]"
  by (induction zs) simp_all

lemma sort_key_snoc_max:
  "(\<And>x. x \<in> set xs \<Longrightarrow> f x \<le> f y) \<Longrightarrow> sort_key f (xs @ [y]) = sort_key f xs @ [y]"
  by (induction xs) (simp_all add: insort_key_snoc)

lemma aggregate_rows_append:
  assumes "\<And>x. x \<in> set (t_event_log d) \<Longrightarrow> er_aggregate_id x = er_aggregate_id r \<Longrightarrow>
             event_order x \<le> event_order r"
    and "t_event_log d' = t_event_log d @ [r]"
  shows "aggregate_rows i d' =
           (if i = er_aggregate_id r then aggregate_rows i d @ [r] else aggregate_rows i d)"
  using assms by (auto simp: aggregate_rows_def intro!: sort_key_snoc_max)

lemma set_aggregate_rows: "set (aggregate_rows i d) = {r \<in> set (t_event_log d). er_aggregate_id r = i}"
  by (auto simp: aggregate_rows_def)

section \<open>Properties\<close>

text \<open>
  C12. What \<open>Save\<close> stores is what \<open>FindByID\<close> returns: a successful save of a valid payment that is
  new, or that continues the stored one with the same amount, is read back unchanged, and every
  other payment is as before.
\<close>

theorem save_then_find:
  assumes "Repository_Save cx p w = (Inr u, w')" and "payment_ok p" and "w_faults w' = []"
    and "find_row (p_id p) (w_db w) = None \<or>
         (\<exists>old. stored_payment (w_db w) (p_id p) = Some old \<and> p_amount old = p_amount p)"
  shows "Repository_FindByID cx' (p_id p) w' = (Inr p, w') \<and>
         (\<forall>i. i \<noteq> p_id p \<longrightarrow> stored_payment (w_db w') i = stored_payment (w_db w) i)"
proof -
  note S = Repository_Save_Inr [OF assms(1)]
  have row: "saved_row p (w_db w) = payment_row_of p (uint (p_version p))"
    using assms(4)
  proof
    assume "find_row (p_id p) (w_db w) = None"
    then show ?thesis by (simp add: saved_row_def)
  qed (auto intro: saved_row_successor)
  have st: "stored_payment (w_db w') = (stored_payment (w_db w))(p_id p \<mapsto> p)"
    unfolding S(3) by (rule stored_after_save [OF assms(2) S(2) row])
  have "find_row (p_id p) (w_db w') = Some (payment_row_of p (uint (p_version p)))"
    unfolding S(3) find_row_put using row by simp
  with st restore_payment_row_of [OF assms(2) S(2)] assms(3) show ?thesis
    by (simp add: Repository_FindByID_reliable)
qed

theorem save_then_find_witness:
  "Repository_FindByID background ''p1'' (snd (Repository_Save background sample fresh_world)) =
     (Inr sample, snd (Repository_Save background sample fresh_world))"
proof -
  have new: "find_row (p_id sample) (w_db fresh_world) = None" by (simp add: find_row_def empty_db_def)
  then have run: "Repository_Save background sample fresh_world =
      (Inr (), fresh_world\<lparr>w_db := empty_db\<lparr>t_payments := put_row pr_id (saved_row sample empty_db) []\<rparr>\<rparr>)"
    by (simp add: Repository_Save_reliable version_storable_def sample_def save_accepts_def empty_db_def)
  from save_then_find [OF run sample_ok, of background] new show ?thesis
    by (simp add: run) (simp add: sample_def)
qed

text \<open>
  Optimistic locking: after one writer has saved a version of a payment, another writer that
  comes with the same version gets \<open>ErrPaymentVersionConflict\<close> (or a driver error) and changes
  nothing, so no update is lost.
\<close>

theorem second_writer_conflicts:
  assumes "Repository_Save cx p w = (Inr u, w1)" and "p_id q = p_id p" and "p_version q = p_version p"
    and "t_payments (w_db w2) = t_payments (w_db w1)" and "Repository_Save cx' q w2 = (r, w3)"
  shows "(r = Inl (PaymentApp ErrPaymentVersionConflict) \<or> r = Inl Driver) \<and>
         (w_faults w2 = [] \<longrightarrow> r = Inl (PaymentApp ErrPaymentVersionConflict)) \<and>
         w_db w3 = w_db w2"
proof -
  note S = Repository_Save_Inr [OF assms(1)]
  have "find_row (p_id q) (w_db w2) = Some (saved_row p (w_db w))"
    using assms(2,4) by (simp add: find_row_def S(3))
  then have no: "\<not> save_accepts q (w_db w2)"
    using assms(3) by (simp add: save_accepts_def saved_row_def payment_row_of_def split: option.splits)
  have "\<exists>e. r = Inl e"
    using assms(5) no Repository_Save_Inr(1) by (cases r) auto
  then obtain e where r: "r = Inl e" ..
  have "version_storable q" using S(2) assms(3) by (simp add: version_storable_def)
  with r no assms(5) Repository_Save_Inl [of cx' q w2 e w3] show ?thesis
    by (auto simp: Repository_Save_reliable)
qed

theorem second_writer_conflicts_witness:
  "fst (Repository_Save background sample (snd (Repository_Save background sample fresh_world))) =
     Inl (PaymentApp ErrPaymentVersionConflict)"
proof -
  let ?w = "snd (Repository_Save background sample fresh_world)"
  have run: "Repository_Save background sample fresh_world =
      (Inr (), fresh_world\<lparr>w_db := empty_db\<lparr>t_payments := put_row pr_id (saved_row sample empty_db) []\<rparr>\<rparr>)"
    by (simp add: Repository_Save_reliable version_storable_def sample_def save_accepts_def empty_db_def
        find_row_def)
  then have run': "Repository_Save background sample fresh_world = (Inr (), ?w)" and "w_faults ?w = []"
    by simp_all
  with second_writer_conflicts [OF run' refl refl refl] show ?thesis by (metis prod.collapse)
qed

end
