(* ===== verification/Payment_Services.thy ===== *)
theory Payment_Services
  imports Payment_Store
begin

text \<open>
  The application services of \<open>internal/payment/application\<close>, over the interfaces they are
  written against: the payment repository (\<open>repository.go\<close>, with the optional
  \<open>TransactionalRepository\<close> of \<open>transaction.go\<close>) and the event publisher (\<open>event_log.go\<close>).

  A service holds a \<open>*Payment\<close>; \<open>'h\<close> is what that pointer is. For the SQLite repository
  every pointer is to a fresh object, so \<open>'h\<close> is the payment itself; a repository that hands
  out its own objects has addresses instead.
\<close>

record ('s, 'h) payment_repository =
  rp_Save :: "ctx \<Rightarrow> 'h \<Rightarrow> ('s, error, unit) proc"
  rp_FindByID :: "ctx \<Rightarrow> string \<Rightarrow> ('s, error, 'h) proc"
  rp_WithinContext :: "(ctx \<Rightarrow> (ctx \<Rightarrow> ('s, error, 'h) proc) \<Rightarrow> ('s, error, 'h) proc) option"
  rp_allocate :: "payment \<Rightarrow> ('s, error, 'h) proc"
  rp_update :: "'h \<Rightarrow> (payment \<Rightarrow> payment_error + payment) \<Rightarrow> ('s, error, 'h) proc"
  rp_value :: "'h \<Rightarrow> 's \<Rightarrow> payment"

type_synonym 's publisher = "ctx \<Rightarrow> payment \<Rightarrow> event_type \<Rightarrow> ('s, error, unit) proc"

definition withinRepositoryTransaction ::
  "ctx \<Rightarrow> ('s, 'h) payment_repository \<Rightarrow> (ctx \<Rightarrow> ('s, error, 'h) proc) \<Rightarrow> ('s, error, 'h) proc" where
  "withinRepositoryTransaction cx repo fn =
     (case rp_WithinContext repo of Some within \<Rightarrow> within cx fn | None \<Rightarrow> fn cx)"

text \<open>The last statements of every service: save, then publish when there is a publisher.\<close>

definition save_and_publish ::
  "('s, 'h) payment_repository \<Rightarrow> 's publisher option \<Rightarrow> event_type \<Rightarrow> ctx \<Rightarrow> 'h \<Rightarrow>
     ('s, error, 'h) proc" where
  "save_and_publish repo publisher eventType cx p =
     bindP (rp_Save repo cx p) (\<lambda>_.
       case publisher of
         None \<Rightarrow> returnP p
       | Some publish \<Rightarrow>
           bindP (\<lambda>s. publish cx (rp_value repo p s) eventType s) (\<lambda>_. returnP p))"

section \<open>Create\<close>

record create_command =
  cc_ID :: string
  cc_Amount :: int64
  cc_Currency :: string

definition CreatePayment_execute ::
  "('s, 'h) payment_repository \<Rightarrow> 's publisher option \<Rightarrow> create_command \<Rightarrow> ctx \<Rightarrow>
     ('s, error, 'h) proc" where
  "CreatePayment_execute repo publisher command cx =
     bindP (liftP (mapErr Payment (NewMoney (cc_Amount command) (cc_Currency command)))) (\<lambda>amount.
     bindP (liftP (mapErr Payment (Payment_New (cc_ID command) amount))) (\<lambda>new.
     bindP (rp_allocate repo new) (\<lambda>p.
       save_and_publish repo publisher EventPaymentCreated cx p)))"

definition CreatePayment_Execute ::
  "('s, 'h) payment_repository \<Rightarrow> 's publisher option \<Rightarrow> ctx \<Rightarrow> create_command \<Rightarrow>
     ('s, error, 'h) proc" where
  "CreatePayment_Execute repo publisher cx command =
     (case rp_WithinContext repo of
        Some within \<Rightarrow> within cx (\<lambda>txctx. CreatePayment_execute repo publisher command txctx)
      | None \<Rightarrow> CreatePayment_execute repo publisher command cx)"

section \<open>Authorize, fail, cancel\<close>

definition AuthorizePayment_execute ::
  "('s, 'h) payment_repository \<Rightarrow> 's publisher option \<Rightarrow> string \<Rightarrow> ctx \<Rightarrow> ('s, error, 'h) proc" where
  "AuthorizePayment_execute repo publisher paymentID cx =
     bindP (rp_FindByID repo cx paymentID) (\<lambda>p.
     bindP (rp_update repo p Payment_Authorize) (\<lambda>p.
       save_and_publish repo publisher EventPaymentAuthorized cx p))"

definition AuthorizePayment_Execute ::
  "('s, 'h) payment_repository \<Rightarrow> 's publisher option \<Rightarrow> ctx \<Rightarrow> string \<Rightarrow> ('s, error, 'h) proc" where
  "AuthorizePayment_Execute repo publisher cx paymentID =
     withinRepositoryTransaction cx repo
       (\<lambda>txctx. AuthorizePayment_execute repo publisher paymentID txctx)"

definition FailPayment_execute ::
  "('s, 'h) payment_repository \<Rightarrow> 's publisher option \<Rightarrow> string \<Rightarrow> ctx \<Rightarrow> ('s, error, 'h) proc" where
  "FailPayment_execute repo publisher paymentID cx =
     bindP (rp_FindByID repo cx paymentID) (\<lambda>p.
     bindP (rp_update repo p Payment_Fail) (\<lambda>p.
       save_and_publish repo publisher EventPaymentFailed cx p))"

definition FailPayment_Execute ::
  "('s, 'h) payment_repository \<Rightarrow> 's publisher option \<Rightarrow> ctx \<Rightarrow> string \<Rightarrow> ('s, error, 'h) proc" where
  "FailPayment_Execute repo publisher cx paymentID =
     withinRepositoryTransaction cx repo
       (\<lambda>txctx. FailPayment_execute repo publisher paymentID txctx)"

definition CancelPayment_execute ::
  "('s, 'h) payment_repository \<Rightarrow> 's publisher option \<Rightarrow> string \<Rightarrow> ctx \<Rightarrow> ('s, error, 'h) proc" where
  "CancelPayment_execute repo publisher paymentID cx =
     bindP (rp_FindByID repo cx paymentID) (\<lambda>p.
     bindP (rp_update repo p Payment_Cancel) (\<lambda>p.
       save_and_publish repo publisher EventPaymentCancelled cx p))"

definition CancelPayment_Execute ::
  "('s, 'h) payment_repository \<Rightarrow> 's publisher option \<Rightarrow> ctx \<Rightarrow> string \<Rightarrow> ('s, error, 'h) proc" where
  "CancelPayment_Execute repo publisher cx paymentID =
     withinRepositoryTransaction cx repo
       (\<lambda>txctx. CancelPayment_execute repo publisher paymentID txctx)"

section \<open>Capture, refund\<close>

record amount_command =
  ac_PaymentID :: string
  ac_Amount :: int64
  ac_Currency :: string

definition CapturePayment_execute ::
  "('s, 'h) payment_repository \<Rightarrow> 's publisher option \<Rightarrow> amount_command \<Rightarrow> ctx \<Rightarrow>
     ('s, error, 'h) proc" where
  "CapturePayment_execute repo publisher command cx =
     bindP (rp_FindByID repo cx (ac_PaymentID command)) (\<lambda>p.
     bindP (liftP (mapErr Payment (NewMoney (ac_Amount command) (ac_Currency command)))) (\<lambda>amount.
     bindP (rp_update repo p (Payment_Capture amount)) (\<lambda>p.
       save_and_publish repo publisher EventPaymentCaptured cx p)))"

definition CapturePayment_Execute ::
  "('s, 'h) payment_repository \<Rightarrow> 's publisher option \<Rightarrow> ctx \<Rightarrow> amount_command \<Rightarrow>
     ('s, error, 'h) proc" where
  "CapturePayment_Execute repo publisher cx command =
     withinRepositoryTransaction cx repo
       (\<lambda>txctx. CapturePayment_execute repo publisher command txctx)"

definition RefundPayment_execute ::
  "('s, 'h) payment_repository \<Rightarrow> 's publisher option \<Rightarrow> amount_command \<Rightarrow> ctx \<Rightarrow>
     ('s, error, 'h) proc" where
  "RefundPayment_execute repo publisher command cx =
     bindP (rp_FindByID repo cx (ac_PaymentID command)) (\<lambda>p.
     bindP (liftP (mapErr Payment (NewMoney (ac_Amount command) (ac_Currency command)))) (\<lambda>amount.
     bindP (rp_update repo p (Payment_Refund amount)) (\<lambda>p.
       save_and_publish repo publisher EventPaymentRefunded cx p)))"

definition RefundPayment_Execute ::
  "('s, 'h) payment_repository \<Rightarrow> 's publisher option \<Rightarrow> ctx \<Rightarrow> amount_command \<Rightarrow>
     ('s, error, 'h) proc" where
  "RefundPayment_Execute repo publisher cx command =
     withinRepositoryTransaction cx repo
       (\<lambda>txctx. RefundPayment_execute repo publisher command txctx)"

definition GetPayment_Execute ::
  "('s, 'h) payment_repository \<Rightarrow> ctx \<Rightarrow> string \<Rightarrow> ('s, error, 'h) proc" where
  "GetPayment_Execute repo cx i = rp_FindByID repo cx i"

section \<open>One name for the five transitions\<close>

fun op_event :: "payment_op \<Rightarrow> event_type" where
  "op_event OpAuthorize = EventPaymentAuthorized"
| "op_event OpFail = EventPaymentFailed"
| "op_event OpCancel = EventPaymentCancelled"
| "op_event (OpCapture m) = EventPaymentCaptured"
| "op_event (OpRefund m) = EventPaymentRefunded"

text \<open>
  The request to one of the services: a command as the callers build it. \<open>service\<close> runs it;
  \<open>request_op\<close> is the operation of the aggregate that it asks for, when its money is valid.
\<close>

datatype request =
    RequestAuthorize string
  | RequestFail string
  | RequestCancel string
  | RequestCapture amount_command
  | RequestRefund amount_command

fun service ::
  "('s, 'h) payment_repository \<Rightarrow> 's publisher option \<Rightarrow> ctx \<Rightarrow> request \<Rightarrow> ('s, error, 'h) proc" where
  "service repo publisher cx (RequestAuthorize i) = AuthorizePayment_Execute repo publisher cx i"
| "service repo publisher cx (RequestFail i) = FailPayment_Execute repo publisher cx i"
| "service repo publisher cx (RequestCancel i) = CancelPayment_Execute repo publisher cx i"
| "service repo publisher cx (RequestCapture c) = CapturePayment_Execute repo publisher cx c"
| "service repo publisher cx (RequestRefund c) = RefundPayment_Execute repo publisher cx c"

fun request_payment :: "request \<Rightarrow> string" where
  "request_payment (RequestAuthorize i) = i"
| "request_payment (RequestFail i) = i"
| "request_payment (RequestCancel i) = i"
| "request_payment (RequestCapture c) = ac_PaymentID c"
| "request_payment (RequestRefund c) = ac_PaymentID c"

fun request_op :: "request \<Rightarrow> payment_error + payment_op" where
  "request_op (RequestAuthorize i) = Inr OpAuthorize"
| "request_op (RequestFail i) = Inr OpFail"
| "request_op (RequestCancel i) = Inr OpCancel"
| "request_op (RequestCapture c) = bindR (NewMoney (ac_Amount c) (ac_Currency c)) (\<lambda>m. Inr (OpCapture m))"
| "request_op (RequestRefund c) = bindR (NewMoney (ac_Amount c) (ac_Currency c)) (\<lambda>m. Inr (OpRefund m))"

definition request_body ::
  "('s, 'h) payment_repository \<Rightarrow> 's publisher option \<Rightarrow> request \<Rightarrow> ctx \<Rightarrow> ('s, error, 'h) proc" where
  "request_body repo publisher r cx =
     bindP (rp_FindByID repo cx (request_payment r)) (\<lambda>p.
     bindP (liftP (mapErr Payment (request_op r))) (\<lambda>op.
     bindP (rp_update repo p (payment_call op)) (\<lambda>p.
       save_and_publish repo publisher (op_event op) cx p)))"

lemma payment_call_eqs:
  "payment_call OpAuthorize = Payment_Authorize" "payment_call OpFail = Payment_Fail"
  "payment_call OpCancel = Payment_Cancel" "payment_call (OpCapture m) = Payment_Capture m"
  "payment_call (OpRefund m) = Payment_Refund m"
  by (simp_all add: fun_eq_iff)

lemma liftP_mapErr_bind:
  "bindP (liftP (mapErr Payment (bindR r (\<lambda>x. Inr (c x))))) f =
     bindP (liftP (mapErr Payment r)) (\<lambda>x. f (c x))"
  by (cases r) (simp_all add: fun_eq_iff bindP_def)

lemma service_body:
  "service repo publisher cx r =
     withinRepositoryTransaction cx repo (request_body repo publisher r)"
proof -
  have pure: "bindP (liftP (Inr x)) f = f x" for x f
    by (simp add: fun_eq_iff bindP_def)
  show ?thesis
    by (cases r)
      (simp_all add: AuthorizePayment_Execute_def AuthorizePayment_execute_def
        FailPayment_Execute_def FailPayment_execute_def CancelPayment_Execute_def
        CancelPayment_execute_def CapturePayment_Execute_def CapturePayment_execute_def
        RefundPayment_Execute_def RefundPayment_execute_def request_body_def [abs_def]
        liftP_mapErr_bind pure payment_call_eqs)
qed

section \<open>The contract of a payment repository\<close>

text \<open>
  What the services rely on. \<open>lookup\<close> is the abstract content of the repository, a map from
  identities to payments. \<open>FindByID\<close> returns what the map holds and changes nothing; updating
  an object may show through in the map only at its own identity; \<open>Save\<close> stores the object;
  running within a context does not change the map by itself.
\<close>

locale repository_contract =
  fixes repo :: "('s, 'h) payment_repository"
    and lookup :: "'s \<Rightarrow> string \<Rightarrow> payment option"
  assumes find_ok: "rp_FindByID repo cx i s = (Inr h, s') \<Longrightarrow>
      lookup s' = lookup s \<and> lookup s i = Some (rp_value repo h s') \<and> p_id (rp_value repo h s') = i"
    and update_ok: "rp_update repo h f s = (Inr h', s') \<Longrightarrow>
      f (rp_value repo h s) = Inr (rp_value repo h' s') \<and>
      (\<forall>j. lookup s' j = lookup s j \<or>
           (j = p_id (rp_value repo h s) \<and> lookup s' j = Some (rp_value repo h' s')))"
    and save_ok: "rp_Save repo cx h s = (Inr u, s') \<Longrightarrow> payment_ok (rp_value repo h s) \<Longrightarrow>
      lookup s (p_id (rp_value repo h s)) = Some p \<Longrightarrow> p_amount p = p_amount (rp_value repo h s) \<Longrightarrow>
      lookup s' = (lookup s)(p_id (rp_value repo h s) \<mapsto> rp_value repo h s) \<and>
      rp_value repo h s' = rp_value repo h s"
    and within_ok: "rp_WithinContext repo = Some within \<Longrightarrow> within cx body s = (Inr h, s') \<Longrightarrow>
      \<exists>cx' s1 s2. body cx' s1 = (Inr h, s2) \<and> lookup s1 = lookup s \<and> lookup s' = lookup s2 \<and>
        rp_value repo h s' = rp_value repo h s2"

text \<open>With a publisher that leaves the payments alone.\<close>

locale publishing_contract = repository_contract +
  fixes publisher :: "'s publisher option"
  assumes publish_frame: "publisher = Some publish \<Longrightarrow> publish cx p t s = (Inr u, s') \<Longrightarrow>
      lookup s' = lookup s \<and> (\<forall>h. rp_value repo h s' = rp_value repo h s)"
begin

lemma save_and_publish_effect:
  assumes "save_and_publish repo publisher t cx h s = (Inr h', s')"
    and "payment_ok (rp_value repo h s)"
    and "lookup s (p_id (rp_value repo h s)) = Some p" and "p_amount p = p_amount (rp_value repo h s)"
  shows "h' = h" and "rp_value repo h s' = rp_value repo h s"
    and "lookup s' = (lookup s)(p_id (rp_value repo h s) \<mapsto> rp_value repo h s)"
proof -
  from assms(1) obtain u s1 where sv: "rp_Save repo cx h s = (Inr u, s1)"
    and rest: "(case publisher of None \<Rightarrow> returnP h
         | Some publish \<Rightarrow> bindP (\<lambda>s. publish cx (rp_value repo h s) t s) (\<lambda>_. returnP h)) s1 =
         (Inr h', s')"
    unfolding save_and_publish_def by (elim bindP_InrE)
  note S = save_ok [OF sv assms(2,3,4)]
  have "h' = h \<and> lookup s' = lookup s1 \<and> rp_value repo h s' = rp_value repo h s1"
  proof (cases publisher)
    case None
    with rest show ?thesis by simp
  next
    case (Some publish)
    with rest obtain v s2 where p: "publish cx (rp_value repo h s1) t s1 = (Inr v, s2)"
      and "returnP h s2 = (Inr h', s')" by (auto elim: bindP_InrE)
    then have "h' = h" and "s' = s2" by simp_all
    with publish_frame [OF Some p] show ?thesis by simp
  qed
  with S show "h' = h" and "rp_value repo h s' = rp_value repo h s"
    and "lookup s' = (lookup s)(p_id (rp_value repo h s) \<mapsto> rp_value repo h s)" by simp_all
qed

lemma body_effect:
  assumes "request_body repo publisher r cx s = (Inr h, s')"
    and "\<And>p. lookup s (request_payment r) = Some p \<Longrightarrow> payment_ok p \<and> p_version p \<noteq> - 1"
  shows "\<exists>p op q. lookup s (request_payment r) = Some p \<and> request_op r = Inr op \<and>
           payment_call op p = Inr q \<and> lookup s' = (lookup s)(request_payment r \<mapsto> q) \<and>
           rp_value repo h s' = q"
proof -
  let ?i = "request_payment r"
  from assms(1) obtain h1 s1 op h2 s2 where f: "rp_FindByID repo cx ?i s = (Inr h1, s1)"
    and op: "request_op r = Inr op"
    and u: "rp_update repo h1 (payment_call op) s1 = (Inr h2, s2)"
    and sp: "save_and_publish repo publisher (op_event op) cx h2 s2 = (Inr h, s')"
    by (auto simp: request_body_def elim!: bindP_InrE)
  let ?p = "rp_value repo h1 s1" and ?q = "rp_value repo h2 s2"
  note F = find_ok [OF f] and U = update_ok [OF u]
  have call: "payment_call op ?p = Inr ?q" using U by simp
  have "payment_ok ?p" and v: "p_version ?p \<noteq> - 1" using assms(2) F by simp_all
  then have ok: "payment_ok ?q" by (rule payment_call_ok [OF _ _ call])
  note frame = payment_call_frame [OF call]
  have "lookup s2 ?i = Some ?p \<or> lookup s2 ?i = Some ?q"
    using F U by metis
  then obtain p' where p': "lookup s2 (p_id ?q) = Some p'" "p_amount p' = p_amount ?q"
    using F frame by auto
  note E = save_and_publish_effect [OF sp ok p']
  have "lookup s2 j = lookup s j" if "j \<noteq> ?i" for j
    using U F that by metis
  then have "lookup s' = (lookup s)(?i \<mapsto> ?q)"
    using E(3) F frame(1) by (auto simp: fun_eq_iff)
  with F op call E(1,2) show ?thesis by auto
qed

lemma service_effect:
  assumes "service repo publisher cx r s = (Inr h, s')"
    and "\<And>p. lookup s (request_payment r) = Some p \<Longrightarrow> payment_ok p \<and> p_version p \<noteq> - 1"
  shows "\<exists>p op q. lookup s (request_payment r) = Some p \<and> request_op r = Inr op \<and>
           payment_call op p = Inr q \<and> lookup s' = (lookup s)(request_payment r \<mapsto> q) \<and>
           rp_value repo h s' = q"
proof (cases "rp_WithinContext repo")
  case None
  with assms show ?thesis
    by (intro body_effect) (simp_all add: service_body withinRepositoryTransaction_def)
next
  case (Some within)
  with assms(1) have "within cx (request_body repo publisher r) s = (Inr h, s')"
    by (simp add: service_body withinRepositoryTransaction_def)
  from within_ok [OF Some this] obtain cx' s1 s2
    where "request_body repo publisher r cx' s1 = (Inr h, s2)" and l: "lookup s1 = lookup s"
      and l': "lookup s' = lookup s2" and v: "rp_value repo h s' = rp_value repo h s2" by blast
  from body_effect [OF this(1)] assms(2) show ?thesis by (simp add: l l' v)
qed

end

section \<open>The SQLite repository keeps the contract\<close>

definition sqlite_repository :: "(world, payment) payment_repository" where
  "sqlite_repository =
     \<lparr>rp_Save = Repository_Save, rp_FindByID = Repository_FindByID,
      rp_WithinContext = Some Repository_WithinContext,
      rp_allocate = returnP, rp_update = (\<lambda>p f. liftP (mapErr Payment (f p))),
      rp_value = (\<lambda>p w. p)\<rparr>"

definition stored :: "world \<Rightarrow> string \<Rightarrow> payment option" where
  "stored w = stored_payment (w_db w)"

lemma sqlite_repository_simps [simp]:
  "rp_Save sqlite_repository = Repository_Save"
  "rp_FindByID sqlite_repository = Repository_FindByID"
  "rp_WithinContext sqlite_repository = Some Repository_WithinContext"
  "rp_allocate sqlite_repository = returnP"
  "rp_update sqlite_repository p f = liftP (mapErr Payment (f p))"
  "rp_value sqlite_repository p w = p"
  by (simp_all add: sqlite_repository_def)

lemma Repository_WithinContext_eq: "Repository_WithinContext = in_transaction"
  by (simp add: fun_eq_iff Repository_WithinContext_def in_transaction_def)

interpretation sqlite: repository_contract sqlite_repository stored
proof
  fix cx i s h s' assume "rp_FindByID sqlite_repository cx i s = (Inr h, s')"
  then have "Repository_FindByID cx i s = (Inr h, s')" by simp
  note F = Repository_FindByID_Inr [OF this]
  show "stored s' = stored s \<and> stored s i = Some (rp_value sqlite_repository h s') \<and>
        p_id (rp_value sqlite_repository h s') = i"
    using F stored_paymentD(2) [OF F(1)] by (simp add: stored_def)
next
  fix h f s h' s' assume "rp_update sqlite_repository h f s = (Inr h', s')"
  then show "f (rp_value sqlite_repository h s) = Inr (rp_value sqlite_repository h' s') \<and>
      (\<forall>j. stored s' j = stored s j \<or> (j = p_id (rp_value sqlite_repository h s) \<and>
           stored s' j = Some (rp_value sqlite_repository h' s')))" by simp
next
  fix cx h s u s' p
  assume "rp_Save sqlite_repository cx h s = (Inr u, s')"
    and ok: "payment_ok (rp_value sqlite_repository h s)"
    and old: "stored s (p_id (rp_value sqlite_repository h s)) = Some p"
    and am: "p_amount p = p_amount (rp_value sqlite_repository h s)"
  then have "Repository_Save cx h s = (Inr u, s')" by simp
  note S = Repository_Save_Inr [OF this]
  have "saved_row h (w_db s) = payment_row_of h (uint (p_version h))"
    using old am by (intro saved_row_successor [of _ _ p]) (simp_all add: stored_def)
  from stored_after_save [OF _ S(2) this] ok S(3)
  show "stored s' = (stored s)(p_id (rp_value sqlite_repository h s) \<mapsto> rp_value sqlite_repository h s) \<and>
        rp_value sqlite_repository h s' = rp_value sqlite_repository h s"
    by (simp add: stored_def)
next
  fix within cx body s h s'
  assume "rp_WithinContext sqlite_repository = Some within" and "within cx body s = (Inr h, s')"
  then have "in_transaction cx body s = (Inr h, s')" by (simp add: Repository_WithinContext_eq)
  then obtain w1 w2 where "w_db w1 = w_db s" and "body (WithTx cx) w1 = (Inr h, w2)"
    and "w_db s' = w_db w2" by (rule in_transaction_InrE)
  then show "\<exists>cx' s1 s2. body cx' s1 = (Inr h, s2) \<and> stored s1 = stored s \<and> stored s' = stored s2 \<and>
      rp_value sqlite_repository h s' = rp_value sqlite_repository h s2"
    by (intro exI [of _ "WithTx cx"] exI [of _ w1] exI [of _ w2]) (simp add: stored_def)
qed

text \<open>Without a publisher, as the replay engine and the tests use the services.\<close>

interpretation quiet: publishing_contract sqlite_repository stored None
  by unfold_locales simp

lemma stored_ok:
  "stored w i = Some p \<Longrightarrow> payment_ok p \<and> p_version p \<noteq> - 1"
proof -
  assume "stored w i = Some p"
  then have "payment_ok p" and "version_storable p" by (auto simp: stored_def dest: stored_paymentD)
  then show ?thesis
    by (auto simp: version_storable_def unsigned_minus_1_eq_mask mask_eq_exp_minus_1)
qed

lemma service_Inl_unchanged:
  assumes "service sqlite_repository publisher cx r w = (Inl e, w')" and "\<not> cx_tx cx"
  shows "w_db w' = w_db w"
  using assms in_transaction_Inl
  by (auto simp: service_body withinRepositoryTransaction_def Repository_WithinContext_eq)

lemma CreatePayment_Inl_unchanged:
  assumes "CreatePayment_Execute sqlite_repository publisher cx c w = (Inl e, w')" and "\<not> cx_tx cx"
  shows "w_db w' = w_db w"
  using assms in_transaction_Inl
  by (auto simp: CreatePayment_Execute_def Repository_WithinContext_eq)

end
