(* ===== verification/Scheduler_Store.thy ===== *)
theory Scheduler_Store
  imports Database "HOL-Library.Sublist"
begin

text \<open>
  The SQLite repository of scheduler jobs, \<open>internal/scheduler/adapters/sqlite/repository.go\<close>:
  the fenced save, the selection and acquisition of executable jobs, and the append-only audit
  of job lifecycles. A job pointer given to the repository is never nil.
\<close>

section \<open>Rows\<close>

definition job_row_of :: "job \<Rightarrow> int \<Rightarrow> int \<Rightarrow> job_row" where
  "job_row_of j generation attempts =
     \<lparr>jr_id = j_id j, jr_type = j_jobType j, jr_payload = j_payload j,
      jr_scheduled_at = j_scheduledAt j, jr_next_attempt_at = j_nextAttemptAt j,
      jr_status = j_status j, jr_lease_owner = j_leaseOwner j,
      jr_lease_expires_at =
        (if IsZero (j_leaseExpiresAt j) then None else Some (j_leaseExpiresAt j)),
      jr_lease_generation = generation, jr_attempts = attempts,
      jr_aggregate_id = j_aggregateID j, jr_causation_id = j_causationID j\<rparr>"

fun parse_lease :: "time option \<Rightarrow> error + time" where
  "parse_lease None = Inr 0"
| "parse_lease (Some t) = parse_time t"

definition job_scan :: "job_row \<Rightarrow> error + job" where
  "job_scan r =
     bindR (scan_uint64 (jr_lease_generation r)) (\<lambda>generation.
     bindR (scan_uint64 (jr_attempts r)) (\<lambda>attempts.
     bindR (parse_time (jr_scheduled_at r)) (\<lambda>scheduledAt.
     bindR (parse_time (jr_next_attempt_at r)) (\<lambda>nextAt.
     bindR (parse_lease (jr_lease_expires_at r)) (\<lambda>leaseAt.
       mapErr JobErr
         (Job_Restore (jr_id r) (jr_type r) (jr_payload r) scheduledAt nextAt (jr_status r)
            (jr_lease_owner r) leaseAt generation attempts
            [\<lparr>jm_AggregateID = jr_aggregate_id r, jm_CausationID = jr_causation_id r\<rparr>]))))))"

definition find_job :: "string \<Rightarrow> db \<Rightarrow> job_row option" where
  "find_job i d = row_at jr_id i (t_scheduler_jobs d)"

definition SchedulerRepository_find :: "ctx \<Rightarrow> string \<Rightarrow> job act" where
  "SchedulerRepository_find cx i = bindP (query_row (find_job i)) (\<lambda>r. liftP (job_scan r))"

section \<open>The audit\<close>

text \<open>
  The text whose SHA-256 digest is the identity of an audit row: the columns separated by bars. A
  hexadecimal payload and a formatted instant are one token each (both determine, and are
  determined by, their text, and have no bar in it); the digest is taken to have no collisions, so
  the tokens themselves are the key.
\<close>

datatype audit_token = Letter char | Hex bytes | Formatted time

definition audit_text :: "string \<Rightarrow> audit_token list" where
  "audit_text s = map Letter s @ [Letter (CHR ''|'')]"

definition audit_key :: "job_row \<Rightarrow> audit_token list" where
  "audit_key r =
     audit_text (jr_id r) @ audit_text (jr_type r) @ [Hex (jr_payload r), Letter (CHR ''|'')] @
     audit_text (jr_aggregate_id r) @ audit_text (jr_causation_id r) @
     audit_text (job_status_text (jr_status r)) @
     audit_text (digits (nat (jr_lease_generation r))) @ audit_text (digits (nat (jr_attempts r))) @
     [Formatted (jr_scheduled_at r), Letter (CHR ''|''),
      Formatted (jr_next_attempt_at r), Letter (CHR ''|'')] @
     audit_text (jr_lease_owner r) @
     (case jr_lease_expires_at r of None \<Rightarrow> [] | Some t \<Rightarrow> [Formatted t])"

text \<open>\<open>INSERT ... ON CONFLICT(id) DO NOTHING\<close>.\<close>

definition insert_audit :: "audit_row \<Rightarrow> db \<Rightarrow> unit \<times> db" where
  "insert_audit r d =
     ((), if row_at (\<lambda>a. audit_key (ar_job a)) (audit_key (ar_job r)) (t_scheduler_job_audit d) = None
          then d\<lparr>t_scheduler_job_audit := t_scheduler_job_audit d @ [r]\<rparr> else d)"

definition appendAudit :: "ctx \<Rightarrow> job \<Rightarrow> unit act" where
  "appendAudit cx j =
     bindP NextRuntimeSequence (\<lambda>runtimeSequence.
     bindP (uint64_arg (j_leaseGeneration j)) (\<lambda>generation.
     bindP (uint64_arg (j_attempts j)) (\<lambda>attempts.
     bindP (uint64_arg runtimeSequence) (\<lambda>n.
       statement (insert_audit
         \<lparr>ar_job = job_row_of j generation attempts, ar_runtime_sequence = n\<rparr>)))))"

section \<open>The fenced save\<close>

text \<open>
  The upsert: a new identity is inserted; an existing row is overwritten unless it is completed
  or was leased again since (its generation differs). The result is the number of rows changed.
\<close>

definition upsert_job :: "job_row \<Rightarrow> db \<Rightarrow> nat \<times> db" where
  "upsert_job r d =
     (case find_job (jr_id r) d of
        None \<Rightarrow> (1, d\<lparr>t_scheduler_jobs := put_row jr_id r (t_scheduler_jobs d)\<rparr>)
      | Some old \<Rightarrow>
          if jr_status old \<noteq> JobCompleted \<and> jr_lease_generation old = jr_lease_generation r
          then (1, d\<lparr>t_scheduler_jobs := put_row jr_id r (t_scheduler_jobs d)\<rparr>)
          else (0, d))"

definition SchedulerRepository_save :: "ctx \<Rightarrow> job \<Rightarrow> unit act" where
  "SchedulerRepository_save cx j =
     bindP (uint64_arg (j_leaseGeneration j)) (\<lambda>generation.
     bindP (uint64_arg (j_attempts j)) (\<lambda>attempts.
     bindP (statement (upsert_job (job_row_of j generation attempts))) (\<lambda>changed.
       if changed = 0 then
         bindP (SchedulerRepository_find cx (j_id j)) (\<lambda>current.
           if j_status current = JobCompleted \<and> j_status j = JobPending then returnP ()
           else if j_leaseGeneration current \<noteq> j_leaseGeneration j
             then raiseP (JobErr ErrStaleLease)
           else returnP ())
       else appendAudit cx j)))"

definition SchedulerRepository_Save :: "ctx \<Rightarrow> job \<Rightarrow> unit act" where
  "SchedulerRepository_Save cx j = in_transaction cx (\<lambda>txctx. SchedulerRepository_save txctx j)"

section \<open>Executable jobs\<close>

definition executable :: "time \<Rightarrow> job_row \<Rightarrow> bool" where
  "executable at r \<longleftrightarrow>
     ((jr_status r = JobPending \<or> jr_status r = JobFailed) \<and> jr_next_attempt_at r \<le> at) \<or>
     ((jr_status r = JobLeased \<or> jr_status r = JobRunning) \<and>
      (case jr_lease_expires_at r of None \<Rightarrow> False | Some t \<Rightarrow> t \<le> at))"

definition limit_rows :: "int \<Rightarrow> 'r list \<Rightarrow> 'r list" where
  "limit_rows n rows = (if n < 0 then rows else take (nat n) rows)"

definition job_order :: "job_row \<Rightarrow> time \<times> string" where
  "job_order r = (jr_next_attempt_at r, jr_id r)"

definition executable_rows :: "time \<Rightarrow> int \<Rightarrow> db \<Rightarrow> job_row list" where
  "executable_rows at limit d =
     limit_rows limit (sort_key job_order (filter (executable at) (t_scheduler_jobs d)))"

fun scan_jobs :: "job_row list \<Rightarrow> error + job list" where
  "scan_jobs [] = Inr []"
| "scan_jobs (r # rs) = bindR (job_scan r) (\<lambda>j. bindR (scan_jobs rs) (\<lambda>js. Inr (j # js)))"

definition FindExecutable :: "ctx \<Rightarrow> time \<Rightarrow> int \<Rightarrow> job list act" where
  "FindExecutable cx at limit =
     bindP (query (executable_rows at limit)) (\<lambda>rows. liftP (scan_jobs rows))"

text \<open>
  The update of \<open>acquire\<close>: a pending or failed job, or a leased or running one whose lease has
  expired, is leased to the owner under the next generation.
\<close>

definition acquirable :: "time \<Rightarrow> job_row \<Rightarrow> bool" where
  "acquirable leaseCheckAt r \<longleftrightarrow>
     jr_status r = JobPending \<or> jr_status r = JobFailed \<or>
     ((jr_status r = JobLeased \<or> jr_status r = JobRunning) \<and>
      (case jr_lease_expires_at r of None \<Rightarrow> False | Some t \<Rightarrow> t \<le> leaseCheckAt))"

definition leased_row :: "string \<Rightarrow> time \<Rightarrow> job_row \<Rightarrow> job_row" where
  "leased_row owner expiresAt r =
     r\<lparr>jr_status := JobLeased, jr_lease_owner := owner, jr_lease_expires_at := Some expiresAt,
       jr_lease_generation := jr_lease_generation r + 1\<rparr>"

definition acquire_rows :: "string \<Rightarrow> string \<Rightarrow> time \<Rightarrow> time \<Rightarrow> db \<Rightarrow> nat \<times> db" where
  "acquire_rows i owner expiresAt leaseCheckAt d =
     (case find_job i d of
        None \<Rightarrow> (0, d)
      | Some r \<Rightarrow>
          if acquirable leaseCheckAt r
          then (1, d\<lparr>t_scheduler_jobs :=
                  put_row jr_id (leased_row owner expiresAt r) (t_scheduler_jobs d)\<rparr>)
          else (0, d))"

definition SchedulerRepository_acquire ::
  "ctx \<Rightarrow> string \<Rightarrow> string \<Rightarrow> time \<Rightarrow> time \<Rightarrow> job act" where
  "SchedulerRepository_acquire cx i owner expiresAt leaseCheckAt =
     bindP (statement (acquire_rows i owner expiresAt leaseCheckAt)) (\<lambda>changed.
       if changed = 0 then raiseP (JobErr ErrInvalidJobTransition)
       else bindP (SchedulerRepository_find cx i) (\<lambda>j.
            bindP (appendAudit cx j) (\<lambda>_. returnP j)))"

definition SchedulerRepository_Acquire ::
  "ctx \<Rightarrow> string \<Rightarrow> string \<Rightarrow> time \<Rightarrow> time \<Rightarrow> job act" where
  "SchedulerRepository_Acquire cx i owner expiresAt leaseCheckAt =
     in_transaction cx (\<lambda>txctx. SchedulerRepository_acquire txctx i owner expiresAt leaseCheckAt)"

section \<open>Reading the audit\<close>

text \<open>
  The order of \<open>ListAudit\<close>. Rows from before the runtime sequence (value 0) come last, by
  attempts, time and lifecycle order; the digest that breaks the remaining ties is not modelled.
\<close>

definition audit_order :: "audit_row \<Rightarrow> nat \<times> int \<times> int \<times> time \<times> job_status" where
  "audit_order r =
     (if ar_runtime_sequence r = 0 then 1 else 0, ar_runtime_sequence r,
      jr_attempts (ar_job r), jr_next_attempt_at (ar_job r), jr_status (ar_job r))"

definition audit_rows :: "string \<Rightarrow> db \<Rightarrow> audit_row list" where
  "audit_rows i d =
     sort_key audit_order (filter (\<lambda>r. jr_id (ar_job r) = i) (t_scheduler_job_audit d))"

definition audit_snapshot :: "audit_row \<Rightarrow> error + job_snapshot" where
  "audit_snapshot a =
     (let r = ar_job a in
      bindR (scan_uint64 (jr_lease_generation r)) (\<lambda>generation.
      bindR (scan_uint64 (jr_attempts r)) (\<lambda>attempts.
      bindR (scan_uint64 (ar_runtime_sequence a)) (\<lambda>runtimeSequence.
      bindR (parse_time (jr_scheduled_at r)) (\<lambda>scheduled.
      bindR (parse_time (jr_next_attempt_at r)) (\<lambda>next.
      bindR (parse_lease (jr_lease_expires_at r)) (\<lambda>lease.
        Inr \<lparr>js_ID = jr_id r, js_Type = jr_type r, js_Payload = jr_payload r,
             js_ScheduledAt = scheduled, js_NextAttemptAt = next, js_Status = jr_status r,
             js_LeaseOwner = jr_lease_owner r, js_LeaseExpiresAt = lease,
             js_LeaseGeneration = generation, js_Attempts = attempts,
             js_AggregateID = jr_aggregate_id r, js_CausationID = jr_causation_id r,
             js_RuntimeSequence = runtimeSequence\<rparr>)))))))"

fun audit_snapshots :: "audit_row list \<Rightarrow> error + job_snapshot list" where
  "audit_snapshots [] = Inr []"
| "audit_snapshots (r # rs) =
     bindR (audit_snapshot r) (\<lambda>s. bindR (audit_snapshots rs) (\<lambda>ss. Inr (s # ss)))"

definition ListAudit :: "ctx \<Rightarrow> string \<Rightarrow> job_snapshot list act" where
  "ListAudit cx i = bindP (query (audit_rows i)) (\<lambda>rows. liftP (audit_snapshots rows))"

text \<open>\<open>GROUP BY job_id ORDER BY CASE WHEN MIN(runtime_sequence) = 0 ..., MIN(runtime_sequence), job_id\<close>\<close>

fun minimum :: "int \<Rightarrow> int list \<Rightarrow> int" where
  "minimum m [] = m"
| "minimum m (n # ns) = minimum (min m n) ns"

definition first_sequence :: "audit_row list \<Rightarrow> string \<Rightarrow> int" where
  "first_sequence rows i =
     (case map ar_runtime_sequence (filter (\<lambda>r. jr_id (ar_job r) = i) rows) of
        [] \<Rightarrow> 0 | n # ns \<Rightarrow> minimum n ns)"

definition audited_jobs :: "string \<Rightarrow> db \<Rightarrow> string list" where
  "audited_jobs aggregateID d =
     (let rows = filter (\<lambda>r. jr_aggregate_id (ar_job r) = aggregateID) (t_scheduler_job_audit d) in
      sort_key (\<lambda>i. (if first_sequence rows i = 0 then 1 else 0 :: nat, first_sequence rows i, i))
        (remdups (map (\<lambda>r. jr_id (ar_job r)) rows)))"

definition ListAuditByAggregate :: "ctx \<Rightarrow> string \<Rightarrow> job_snapshot list act" where
  "ListAuditByAggregate cx aggregateID =
     bindP (query (audited_jobs aggregateID)) (\<lambda>ids.
     bindP (mapP (ListAudit cx) ids) (\<lambda>snapshots. returnP (concat snapshots)))"

section \<open>Facts about rows\<close>

text \<open>What the repository can store of a job: times of four-digit years, counters below \<open>2^63\<close>.\<close>

definition job_storable :: "job \<Rightarrow> bool" where
  "job_storable j \<longleftrightarrow>
     time_in_range (j_scheduledAt j) \<and> time_in_range (j_nextAttemptAt j) \<and>
     time_in_range (j_leaseExpiresAt j) \<and>
     uint (j_leaseGeneration j) < 2 ^ 63 \<and> uint (j_attempts j) < 2 ^ 63"

definition row_of :: "job \<Rightarrow> job_row" where
  "row_of j = job_row_of j (uint (j_leaseGeneration j)) (uint (j_attempts j))"

lemma jr_id_job_row_of [simp]: "jr_id (job_row_of j g a) = j_id j"
  by (simp add: job_row_of_def)

lemma row_of_fields [simp]:
  "jr_id (row_of j) = j_id j" "jr_status (row_of j) = j_status j"
  "jr_lease_generation (row_of j) = uint (j_leaseGeneration j)"
  by (simp_all add: row_of_def job_row_of_def)

lemma job_scan_row_of:
  assumes "job_wf j" and "job_storable j"
  shows "job_scan (row_of j) = Inr j"
  using assms
  by (cases j) (auto simp: job_scan_def row_of_def job_row_of_def job_storable_def job_wf_def
      Job_Restore_def parse_time_def)

lemma parse_lease_Inr_iff:
  "parse_lease l = Inr t \<longleftrightarrow>
     (case l of None \<Rightarrow> t = 0 | Some u \<Rightarrow> t = u \<and> time_in_range u)"
  by (cases l) (auto simp: parse_time_Inr_iff)

lemma job_scan_Inr:
  assumes "job_scan r = Inr j"
  shows "j_id j = jr_id r" and "j_jobType j = jr_type r" and "j_payload j = jr_payload r"
    and "j_status j = jr_status r" and "uint (j_leaseGeneration j) = jr_lease_generation r"
    and "uint (j_attempts j) = jr_attempts r" and "j_leaseOwner j = jr_lease_owner r"
    and "j_scheduledAt j = jr_scheduled_at r" and "j_nextAttemptAt j = jr_next_attempt_at r"
    and "j_leaseExpiresAt j = (case jr_lease_expires_at r of None \<Rightarrow> 0 | Some t \<Rightarrow> t)"
    and "j_aggregateID j = jr_aggregate_id r" and "j_causationID j = jr_causation_id r"
    and "uint (j_leaseGeneration j) < 2 ^ 63" and "uint (j_attempts j) < 2 ^ 63"
  using assms
  by (auto simp: job_scan_def bindR_Inr_iff scan_uint64_Inr_iff parse_time_Inr_iff
      parse_lease_Inr_iff Job_Restore_def split: if_splits option.splits)

lemma find_job_put [simp]:
  "find_job i (d\<lparr>t_scheduler_jobs := put_row jr_id r (t_scheduler_jobs d)\<rparr>) =
     (if i = jr_id r then Some r else find_job i d)"
  by (simp add: find_job_def)

lemma find_job_other [simp]:
  "find_job i (d\<lparr>t_scheduler_job_audit := x\<rparr>) = find_job i d"
  "find_job i (d\<lparr>t_runtime_sequence := n\<rparr>) = find_job i d"
  by (simp_all add: find_job_def)

lemma find_job_id: "find_job i d = Some r \<Longrightarrow> jr_id r = i"
  by (auto simp: find_job_def dest: row_at_SomeD)

lemma SchedulerRepository_find_Inr:
  assumes "SchedulerRepository_find cx i w = (Inr j, w')"
  obtains r where "find_job i (w_db w) = Some r" and "job_scan r = Inr j"
    and "w_db w' = w_db w" and "surroundings w' = surroundings w"
proof -
  from assms obtain r where q: "query_row (find_job i) w = (Inr r, w')" and s: "job_scan r = Inr j"
    by (auto simp: SchedulerRepository_find_def elim!: bindP_InrE)
  show thesis by (rule that [OF query_row_Inr(1) [OF q] s query_row_Inr(2,3) [OF q]])
qed

lemma SchedulerRepository_find_frame [local_intros, read_only_intros]:
  "db_local (SchedulerRepository_find cx i)" "read_only (SchedulerRepository_find cx i)"
  by (simp_all add: SchedulerRepository_find_def local_intros read_only_intros)

lemma FindExecutable_frame [local_intros, read_only_intros]:
  "db_local (FindExecutable cx at limit)" "read_only (FindExecutable cx at limit)"
  by (simp_all add: FindExecutable_def local_intros read_only_intros)

lemma ListAudit_frame [local_intros, read_only_intros]:
  "db_local (ListAudit cx i)" "read_only (ListAudit cx i)"
  by (simp_all add: ListAudit_def local_intros read_only_intros)

lemma ListAuditByAggregate_frame [local_intros, read_only_intros]:
  "db_local (ListAuditByAggregate cx i)" "read_only (ListAuditByAggregate cx i)"
  by (simp_all add: ListAuditByAggregate_def local_intros read_only_intros)

section \<open>What the operations do to the tables\<close>

text \<open>
  The audit grows at its end only, the sequence never falls, and the tables of the other
  components stay as they are.
\<close>

definition other_tables :: "db \<Rightarrow> db" where
  "other_tables d = d\<lparr>t_scheduler_jobs := [], t_scheduler_job_audit := [], t_runtime_sequence := 0\<rparr>"

definition audit_extends :: "db \<Rightarrow> db \<Rightarrow> bool" where
  "audit_extends d d' \<longleftrightarrow>
     prefix (t_scheduler_job_audit d) (t_scheduler_job_audit d') \<and>
     t_runtime_sequence d \<le> t_runtime_sequence d' \<and> other_tables d' = other_tables d"

lemma audit_extends_refl [simp]: "audit_extends d d"
  by (simp add: audit_extends_def)

lemma audit_extends_trans: "audit_extends a b \<Longrightarrow> audit_extends b c \<Longrightarrow> audit_extends a c"
  by (auto simp: audit_extends_def)

lemma appendAudit_Inr:
  assumes "appendAudit cx j w = (Inr u, w')"
  shows "t_scheduler_jobs (w_db w') = t_scheduler_jobs (w_db w)"
    and "audit_extends (w_db w) (w_db w')" and "surroundings w' = surroundings w"
    and "\<exists>a \<in> set (t_scheduler_job_audit (w_db w')). audit_key (ar_job a) = audit_key (row_of j)"
proof -
  from assms obtain n w1 where n: "NextRuntimeSequence w = (Inr n, w1)"
    and s: "statement (insert_audit \<lparr>ar_job = row_of j, ar_runtime_sequence = uint n\<rparr>) w1 = (Inr u, w')"
    by (auto simp: appendAudit_def row_of_def uint64_arg_Inr elim!: bindP_InrE)
  note N = NextRuntimeSequence_Inr [OF n] and S = statement_InrD [OF s]
  show "t_scheduler_jobs (w_db w') = t_scheduler_jobs (w_db w)"
    and "surroundings w' = surroundings w" using N S by (simp_all add: insert_audit_def)
  show "audit_extends (w_db w) (w_db w')"
    using N S by (simp add: insert_audit_def audit_extends_def other_tables_def)
  show "\<exists>a \<in> set (t_scheduler_job_audit (w_db w')). audit_key (ar_job a) = audit_key (row_of j)"
    using N S by (auto simp: insert_audit_def row_at_None_iff image_iff Bex_def)
qed

lemma appendAudit_local [local_intros]: "db_local (appendAudit cx j)"
  by (simp add: appendAudit_def local_intros)

lemma upsert_job_row_of:
  "upsert_job (row_of j) d =
     (if find_job (j_id j) d = None \<or>
         (\<exists>old. find_job (j_id j) d = Some old \<and> jr_status old \<noteq> JobCompleted \<and>
                jr_lease_generation old = uint (j_leaseGeneration j))
      then (1, d\<lparr>t_scheduler_jobs := put_row jr_id (row_of j) (t_scheduler_jobs d)\<rparr>)
      else (0, d))"
  by (auto simp: upsert_job_def split: option.splits)

text \<open>
  The fence. A save takes effect when the stored row is not completed and of the generation of
  the job being saved; otherwise the jobs stay as they are, and unless the stored job is
  completed the caller is told that its lease is stale.
\<close>

definition fence_open :: "job \<Rightarrow> db \<Rightarrow> bool" where
  "fence_open j d \<longleftrightarrow>
     (case find_job (j_id j) d of
        None \<Rightarrow> True
      | Some old \<Rightarrow> jr_status old \<noteq> JobCompleted \<and>
                    jr_lease_generation old = uint (j_leaseGeneration j))"

lemma save_open:
  assumes "SchedulerRepository_save cx j w = (Inr u, w')" and "fence_open j (w_db w)"
  shows "t_scheduler_jobs (w_db w') = put_row jr_id (row_of j) (t_scheduler_jobs (w_db w))"
    and "audit_extends (w_db w) (w_db w')"
    and "\<exists>a \<in> set (t_scheduler_job_audit (w_db w')). audit_key (ar_job a) = audit_key (row_of j)"
proof -
  have up: "upsert_job (row_of j) (w_db w) =
      (1, (w_db w)\<lparr>t_scheduler_jobs := put_row jr_id (row_of j) (t_scheduler_jobs (w_db w))\<rparr>)"
    using assms(2) by (auto simp: upsert_job_row_of fence_open_def split: option.splits)
  from assms(1) obtain c w1
    where s: "statement (upsert_job (row_of j)) w = (Inr c, w1)"
      and rest: "(if c = 0 then
         bindP (SchedulerRepository_find cx (j_id j)) (\<lambda>current.
           if j_status current = JobCompleted \<and> j_status j = JobPending then returnP ()
           else if j_leaseGeneration current \<noteq> j_leaseGeneration j
             then raiseP (JobErr ErrStaleLease)
           else returnP ())
       else appendAudit cx j) w1 = (Inr u, w')"
    unfolding SchedulerRepository_save_def
    by (elim bindP_InrE) (auto simp: uint64_arg_Inr row_of_def)
  from statement_InrD [OF s] up have c: "c = 1"
    and d1: "w_db w1 = (w_db w)\<lparr>t_scheduler_jobs :=
               put_row jr_id (row_of j) (t_scheduler_jobs (w_db w))\<rparr>" by simp_all
  from rest c have "appendAudit cx j w1 = (Inr u, w')" by simp
  note A = appendAudit_Inr [OF this]
  show "t_scheduler_jobs (w_db w') = put_row jr_id (row_of j) (t_scheduler_jobs (w_db w))"
    using A(1) d1 by simp
  show "audit_extends (w_db w) (w_db w')"
    using A(2) d1 by (simp add: audit_extends_def other_tables_def)
  show "\<exists>a \<in> set (t_scheduler_job_audit (w_db w')). audit_key (ar_job a) = audit_key (row_of j)" by (fact A(4))
qed

lemma save_closed:
  assumes "SchedulerRepository_save cx j w = (r, w')" and "\<not> fence_open j (w_db w)"
  shows "w_db w' = w_db w"
    and "r = Inr u \<Longrightarrow> \<exists>old. find_job (j_id j) (w_db w) = Some old \<and> jr_status old = JobCompleted"
proof -
  have up: "upsert_job (row_of j) (w_db w) = (0, w_db w)"
    using assms(2) by (auto simp: upsert_job_row_of fence_open_def split: option.splits)
  let ?tail = "bindP (SchedulerRepository_find cx (j_id j)) (\<lambda>current.
           if j_status current = JobCompleted \<and> j_status j = JobPending then returnP ()
           else if j_leaseGeneration current \<noteq> j_leaseGeneration j
             then raiseP (JobErr ErrStaleLease)
           else returnP ())"
  have ro: "read_only ?tail" by (intro read_only_intros)
  consider (early) e where "r = Inl e" and "w_db w' = w_db w"
    | (late) w1 where "w_db w1 = w_db w" and "?tail w1 = (r, w')"
  proof (cases "uint (j_leaseGeneration j) < 2 ^ 63 \<and> uint (j_attempts j) < 2 ^ 63")
    case False
    with assms(1) early show thesis
      by (auto simp: SchedulerRepository_save_def uint64_arg_def split: if_splits)
  next
    case True
    then have run: "bindP (statement (upsert_job (row_of j)))
        (\<lambda>changed. if changed = 0 then ?tail else appendAudit cx j) w = (r, w')"
      using assms(1) by (simp add: SchedulerRepository_save_def row_of_def)
    obtain q w1 where s: "statement (upsert_job (row_of j)) w = (q, w1)" by force
    show thesis
    proof (cases q)
      case (Inl e)
      with s run statement_Inl(2) [of _ w e w1] show thesis by (intro early) auto
    next
      case (Inr c)
      with s have "c = 0" and "w_db w1 = w_db w"
        using statement_InrD [of "upsert_job (row_of j)" w c w1] up by simp_all
      with s run Inr show thesis by (intro late) simp_all
    qed
  qed
  note cases = this
  show "w_db w' = w_db w"
  proof (cases rule: cases)
    case (late w1)
    with read_onlyD [OF ro late(2)] show ?thesis by simp
  qed
  assume r: "r = Inr u"
  show "\<exists>old. find_job (j_id j) (w_db w) = Some old \<and> jr_status old = JobCompleted"
  proof (cases rule: cases)
    case (late w1)
    with r obtain c w2 where f: "SchedulerRepository_find cx (j_id j) w1 = (Inr c, w2)"
      and g: "(j_status c = JobCompleted \<and> j_status j = JobPending) \<or>
              j_leaseGeneration c = j_leaseGeneration j"
      by (auto elim!: bindP_InrE split: if_splits)
    from f obtain old where o: "find_job (j_id j) (w_db w) = Some old" and sc: "job_scan old = Inr c"
      using late(1) by (auto elim: SchedulerRepository_find_Inr)
    from assms(2) o g job_scan_Inr(4,5) [OF sc] show ?thesis
      by (auto simp: fence_open_def)
  qed (use r in simp)
qed

lemma SchedulerRepository_save_local [local_intros]: "db_local (SchedulerRepository_save cx j)"
  by (simp add: SchedulerRepository_save_def local_intros)

lemma SchedulerRepository_Save_local [local_intros]: "db_local (SchedulerRepository_Save cx j)"
  by (simp add: SchedulerRepository_Save_def local_intros)

lemma SchedulerRepository_Acquire_local [local_intros]:
  "db_local (SchedulerRepository_Acquire cx i owner e c)"
  by (simp add: SchedulerRepository_Acquire_def SchedulerRepository_acquire_def local_intros)

section \<open>When nothing fails\<close>

text \<open>No statement fails, and the runtime sequence has room for \<open>n\<close> more values.\<close>

definition reliable :: "nat \<Rightarrow> world \<Rightarrow> bool" where
  "reliable n w \<longleftrightarrow>
     w_faults w = [] \<and> 0 \<le> t_runtime_sequence (w_db w) \<and>
     t_runtime_sequence (w_db w) + int n < 2 ^ 63"

lemma appendAudit_reliable:
  assumes "w_faults w = []" and "0 \<le> t_runtime_sequence (w_db w)"
    and "t_runtime_sequence (w_db w) + 1 < 2 ^ 63" and "job_storable j"
  shows "\<exists>d. appendAudit cx j w = (Inr (), w\<lparr>w_db := d\<rparr>) \<and>
           t_scheduler_jobs d = t_scheduler_jobs (w_db w) \<and>
           t_runtime_sequence d = t_runtime_sequence (w_db w) + 1"
proof -
  from NextRuntimeSequence_reliable [OF assms(1-3)] obtain n where
    "NextRuntimeSequence w =
      (Inr n, w\<lparr>w_db := (w_db w)\<lparr>t_runtime_sequence := t_runtime_sequence (w_db w) + 1\<rparr>\<rparr>)"
    and "uint n = t_runtime_sequence (w_db w) + 1" .
  with assms show ?thesis
    by (intro exI [of _ "snd (insert_audit \<lparr>ar_job = row_of j, ar_runtime_sequence = uint n\<rparr>
          ((w_db w)\<lparr>t_runtime_sequence := t_runtime_sequence (w_db w) + 1\<rparr>))"])
      (simp add: appendAudit_def bindP_apply job_storable_def insert_audit_def row_of_def)
qed

end
