(* ===== verification/Scheduler_Leases.thy ===== *)
theory Scheduler_Leases
  imports Scheduler_Store
begin

text \<open>
  What the lease operations of the scheduler repository promise: acquisition takes exactly the
  jobs that are free, one owner at a time, under a fresh generation; a holder of an older
  generation is fenced off; selection returns the due jobs in order. The audit only grows.
\<close>

section \<open>Acquisition\<close>

lemma acquire_rows_cases:
  "acquire_rows i owner e c d =
     (if \<exists>r. find_job i d = Some r \<and> acquirable c r
      then (1, d\<lparr>t_scheduler_jobs :=
              put_row jr_id (leased_row owner e (the (find_job i d))) (t_scheduler_jobs d)\<rparr>)
      else (0, d))"
  by (auto simp: acquire_rows_def split: option.splits)

lemma acquire_Inr:
  assumes "SchedulerRepository_acquire cx i owner e c w = (Inr j, w')"
  obtains r where "find_job i (w_db w) = Some r" and "acquirable c r"
    and "job_scan (leased_row owner e r) = Inr j"
    and "t_scheduler_jobs (w_db w') =
           put_row jr_id (leased_row owner e r) (t_scheduler_jobs (w_db w))"
    and "audit_extends (w_db w) (w_db w')" and "surroundings w' = surroundings w"
    and "\<exists>a \<in> set (t_scheduler_job_audit (w_db w')). audit_key (ar_job a) = audit_key (row_of j)"
proof -
  from assms obtain n w1 w2 where s: "statement (acquire_rows i owner e c) w = (Inr n, w1)"
    and n: "n \<noteq> 0" and f: "SchedulerRepository_find cx i w1 = (Inr j, w2)"
    and "bindP (appendAudit cx j) (\<lambda>_. returnP j) w2 = (Inr j, w')"
    by (auto simp: SchedulerRepository_acquire_def elim!: bindP_InrE split: if_splits)
  then obtain u where a: "appendAudit cx j w2 = (Inr u, w')" by (auto elim!: bindP_InrE)
  note S = statement_InrD [OF s]
  with n obtain r where r: "find_job i (w_db w) = Some r" "acquirable c r"
    and d1: "w_db w1 = (w_db w)\<lparr>t_scheduler_jobs :=
               put_row jr_id (leased_row owner e r) (t_scheduler_jobs (w_db w))\<rparr>"
    by (auto simp: acquire_rows_cases split: if_splits)
  have i: "jr_id (leased_row owner e r) = i"
    using find_job_id [OF r(1)] by (simp add: leased_row_def)
  from f obtain r1 where f1: "find_job i (w_db w1) = Some r1" and sc: "job_scan r1 = Inr j"
    and d2: "w_db w2 = w_db w1" and su2: "surroundings w2 = surroundings w1"
    by (rule SchedulerRepository_find_Inr)
  have "r1 = leased_row owner e r" using f1 d1 i by simp
  note A = appendAudit_Inr [OF a]
  show thesis
  proof (rule that [OF r])
    show "job_scan (leased_row owner e r) = Inr j" using sc \<open>r1 = _\<close> by simp
    show "t_scheduler_jobs (w_db w') =
        put_row jr_id (leased_row owner e r) (t_scheduler_jobs (w_db w))"
      using A(1) d1 d2 by simp
    show "audit_extends (w_db w) (w_db w')"
      using A(2) d1 d2 by (simp add: audit_extends_def other_tables_def)
    show "surroundings w' = surroundings w" using A(3) su2 S by simp
    show "\<exists>a \<in> set (t_scheduler_job_audit (w_db w')). audit_key (ar_job a) = audit_key (row_of j)" by (fact A(4))
  qed
qed

lemma Acquire_Inr:
  assumes "SchedulerRepository_Acquire cx i owner e c w = (Inr j, w')"
  obtains r where "find_job i (w_db w) = Some r" and "acquirable c r"
    and "job_scan (leased_row owner e r) = Inr j"
    and "t_scheduler_jobs (w_db w') =
           put_row jr_id (leased_row owner e r) (t_scheduler_jobs (w_db w))"
    and "audit_extends (w_db w) (w_db w')" and "surroundings w' = surroundings w"
proof -
  from assms obtain w1 w2 where "w_db w1 = w_db w" and "surroundings w1 = surroundings w"
    and a: "SchedulerRepository_acquire (WithTx cx) i owner e c w1 = (Inr j, w2)"
    and "w_db w' = w_db w2" and "surroundings w' = surroundings w2"
    unfolding SchedulerRepository_Acquire_def by (rule in_transaction_InrE)
  note eqs = this
  from a show thesis by (rule acquire_Inr) (use eqs in \<open>auto intro: that\<close>)
qed

lemma acquire_refused:
  assumes "find_job i (w_db w) = Some r" and "\<not> acquirable c r"
    and "SchedulerRepository_acquire cx i owner e c w = (x, w')"
  shows "\<exists>err. x = Inl err"
proof (rule ccontr)
  assume "\<not> ?thesis"
  then obtain j where "x = Inr j" by (cases x) auto
  with assms(3) have "SchedulerRepository_acquire cx i owner e c w = (Inr j, w')" by simp
  then show False by (rule acquire_Inr) (use assms(1,2) in auto)
qed

lemma leased_row_holds:
  assumes "t < e"
  shows "\<not> acquirable t (leased_row owner e r)"
  using assms by (simp add: acquirable_def leased_row_def)

lemma Acquire_exclusive:
  assumes "SchedulerRepository_Acquire cx i owner e c w = (Inr j, w1)"
    and "find_job i (w_db w2) = find_job i (w_db w1)" and "t < e"
    and "SchedulerRepository_Acquire cx' i owner' e' t w2 = (x, w3)"
  shows "\<exists>err. x = Inl err"
proof (rule ccontr)
  assume "\<not> ?thesis"
  then obtain k where "x = Inr k" by (cases x) auto
  with assms(4) have two: "SchedulerRepository_Acquire cx' i owner' e' t w2 = (Inr k, w3)" by simp
  from assms(1) obtain r where r: "find_job i (w_db w) = Some r"
    and jobs: "t_scheduler_jobs (w_db w1) =
        put_row jr_id (leased_row owner e r) (t_scheduler_jobs (w_db w))" by (rule Acquire_Inr)
  have "jr_id (leased_row owner e r) = i" using find_job_id [OF r] by (simp add: leased_row_def)
  then have held: "find_job i (w_db w2) = Some (leased_row owner e r)"
    using assms(2) jobs by (simp add: find_job_def)
  from two obtain r2 where "find_job i (w_db w2) = Some r2" and "acquirable t r2" by (rule Acquire_Inr)
  with held leased_row_holds [OF assms(3)] show False by simp
qed

lemma Acquire_reliable:
  assumes "reliable 1 w" and "find_job i (w_db w) = Some r" and "acquirable c r"
    and "job_scan (leased_row owner e r) = Inr j" and "job_storable j"
  shows "\<exists>d. SchedulerRepository_Acquire cx i owner e c w = (Inr j, w\<lparr>w_db := d\<rparr>)"
proof -
  let ?d = "(w_db w)\<lparr>t_scheduler_jobs := put_row jr_id (leased_row owner e r) (t_scheduler_jobs (w_db w))\<rparr>"
  have faults: "w_faults w = []" using assms(1) by (simp add: reliable_def)
  have i: "jr_id (leased_row owner e r) = i" using find_job_id [OF assms(2)] by (simp add: leased_row_def)
  have s: "statement (acquire_rows i owner e c) w = (Inr 1, w\<lparr>w_db := ?d\<rparr>)"
    using faults assms(2,3) by (cases w) (simp add: statement_reliable acquire_rows_cases)
  have f: "SchedulerRepository_find (WithTx cx) i (w\<lparr>w_db := ?d\<rparr>) = (Inr j, w\<lparr>w_db := ?d\<rparr>)"
    using faults i assms(4) by (simp add: SchedulerRepository_find_def bindP_apply)
  from appendAudit_reliable [of "w\<lparr>w_db := ?d\<rparr>" j "WithTx cx"] assms(1,5)
  obtain d where "appendAudit (WithTx cx) j (w\<lparr>w_db := ?d\<rparr>) = (Inr (), w\<lparr>w_db := d\<rparr>)"
    by (auto simp: reliable_def)
  with s f have "SchedulerRepository_acquire (WithTx cx) i owner e c w = (Inr j, w\<lparr>w_db := d\<rparr>)"
    by (simp add: SchedulerRepository_acquire_def bindP_apply)
  with faults have "SchedulerRepository_Acquire cx i owner e c w = (Inr j, w\<lparr>w_db := d\<rparr>)"
    unfolding SchedulerRepository_Acquire_def by (intro in_transaction_reliable) simp_all
  then show ?thesis by blast
qed

section \<open>Fencing\<close>

text \<open>Whoever holds a job as it was before the last acquisition cannot save it any more.\<close>

lemma stale_holder_fenced:
  assumes "SchedulerRepository_Acquire cx i owner e c w = (Inr j, w1)"
    and "find_job i (w_db w) = Some old" and "j_id k = i"
    and "uint (j_leaseGeneration k) \<le> jr_lease_generation old"
  shows "\<not> fence_open k (w_db w1)"
proof -
  from assms(1) obtain r where r: "find_job i (w_db w) = Some r"
    and jobs: "t_scheduler_jobs (w_db w1) =
        put_row jr_id (leased_row owner e r) (t_scheduler_jobs (w_db w))" by (rule Acquire_Inr)
  have "jr_id (leased_row owner e r) = i" using find_job_id [OF r] by (simp add: leased_row_def)
  then have "find_job i (w_db w1) = Some (leased_row owner e r)"
    using jobs by (simp add: find_job_def)
  with assms(2-4) r show ?thesis by (simp add: fence_open_def leased_row_def)
qed

lemma Save_Inr_cases:
  assumes "SchedulerRepository_Save cx j w = (Inr u, w')"
  shows "if fence_open j (w_db w)
         then t_scheduler_jobs (w_db w') = put_row jr_id (row_of j) (t_scheduler_jobs (w_db w)) \<and>
              audit_extends (w_db w) (w_db w') \<and>
              (\<exists>a \<in> set (t_scheduler_job_audit (w_db w')). audit_key (ar_job a) = audit_key (row_of j))
         else w_db w' = w_db w \<and>
              (\<exists>old. find_job (j_id j) (w_db w) = Some old \<and> jr_status old = JobCompleted)"
proof -
  from assms obtain w1 w2 where "w_db w1 = w_db w"
    and s: "SchedulerRepository_save (WithTx cx) j w1 = (Inr u, w2)" and "w_db w' = w_db w2"
    unfolding SchedulerRepository_Save_def by (rule in_transaction_InrE)
  note eqs = this
  show ?thesis
  proof (cases "fence_open j (w_db w)")
    case True
    then show ?thesis using save_open [OF s] eqs by simp
  next
    case False
    then show ?thesis using save_closed [OF s] eqs by simp
  qed
qed

lemma Save_fenced:
  assumes "SchedulerRepository_Save cx j w = (r, w')" and "\<not> fence_open j (w_db w)"
    and "\<not> cx_tx cx"
  shows "w_db w' = w_db w"
proof (cases r)
  case (Inl e)
  with assms show ?thesis
    using in_transaction_Inl by (simp add: SchedulerRepository_Save_def)
next
  case (Inr u)
  with assms Save_Inr_cases show ?thesis by metis
qed

text \<open>A failed save or acquisition outside a transaction leaves everything as it was.\<close>

lemma Save_Inl: "SchedulerRepository_Save cx j w = (Inl e, w') \<Longrightarrow> \<not> cx_tx cx \<Longrightarrow> w_db w' = w_db w"
  unfolding SchedulerRepository_Save_def by (rule in_transaction_Inl)

lemma Acquire_Inl:
  "SchedulerRepository_Acquire cx i owner e c w = (Inl err, w') \<Longrightarrow> \<not> cx_tx cx \<Longrightarrow> w_db w' = w_db w"
  unfolding SchedulerRepository_Acquire_def by (rule in_transaction_Inl)

lemma Save_audit:
  assumes "SchedulerRepository_Save cx j w = (r, w')" and "\<not> cx_tx cx"
  shows "audit_extends (w_db w) (w_db w')"
proof (cases r)
  case (Inl e)
  with assms show ?thesis by (simp add: Save_Inl)
next
  case (Inr u)
  with assms(1) Save_Inr_cases [of cx j w u w'] show ?thesis by (auto split: if_splits)
qed

lemma Acquire_audit:
  assumes "SchedulerRepository_Acquire cx i owner e c w = (r, w')" and "\<not> cx_tx cx"
  shows "audit_extends (w_db w) (w_db w')"
proof (cases r)
  case (Inl e)
  with assms show ?thesis by (simp add: Acquire_Inl)
next
  case (Inr u)
  with assms(1) show ?thesis by (auto elim: Acquire_Inr)
qed

text \<open>A new job is stored, and reading it back gives it.\<close>

lemma Save_then_find:
  assumes "SchedulerRepository_Save cx j w = (Inr u, w')" and "fence_open j (w_db w)"
    and "job_wf j" and "job_storable j" and "w_faults w' = []"
  shows "SchedulerRepository_find cx (j_id j) w' = (Inr j, w')"
proof -
  have "find_job (j_id j) (w_db w') = Some (row_of j)"
    using Save_Inr_cases [OF assms(1)] assms(2) by (simp add: find_job_def)
  then show ?thesis
    using job_scan_row_of [OF assms(3,4)] assms(5)
    by (simp add: SchedulerRepository_find_def bindP_apply)
qed

section \<open>Selection\<close>

lemma set_limit_rows: "set (limit_rows n rows) \<subseteq> set rows"
  by (auto simp: limit_rows_def dest: in_set_takeD)

lemma sorted_limit_rows: "sorted (map f rows) \<Longrightarrow> sorted (map f (limit_rows n rows))"
  by (simp add: limit_rows_def take_map [symmetric] sorted_wrt_take)

lemma scan_jobs_rows:
  "scan_jobs rs = Inr js \<Longrightarrow>
     map j_id js = map jr_id rs \<and> map j_nextAttemptAt js = map jr_next_attempt_at rs \<and>
     map j_status js = map jr_status rs"
  by (induction rs arbitrary: js) (auto simp: bindR_Inr_iff job_scan_Inr(1,4,9))

lemma scan_jobs_set:
  "scan_jobs rs = Inr js \<Longrightarrow>
     (\<forall>j \<in> set js. \<exists>r \<in> set rs. job_scan r = Inr j) \<and> (\<forall>r \<in> set rs. \<exists>j \<in> set js. job_scan r = Inr j)"
proof (induction rs arbitrary: js)
  case (Cons r rs)
  then obtain j ks where "js = j # ks" and "job_scan r = Inr j" and "scan_jobs rs = Inr ks"
    by (auto simp: bindR_Inr_iff)
  with Cons.IH [of ks] show ?case by auto
qed simp

lemma FindExecutable_Inr:
  assumes "FindExecutable cx at limit w = (Inr js, w')"
  obtains rows where "rows = executable_rows at limit (w_db w)" and "scan_jobs rows = Inr js"
    and "w_db w' = w_db w"
  using assms by (auto simp: FindExecutable_def elim!: bindP_InrE dest!: query_InrD)

lemma executable_rows_facts:
  shows "set (executable_rows at limit d) \<subseteq> {r \<in> set (t_scheduler_jobs d). executable at r}"
    and "sorted (map job_order (executable_rows at limit d))"
    and "0 \<le> limit \<Longrightarrow> int (length (executable_rows at limit d)) \<le> limit"
    and "length (filter (executable at) (t_scheduler_jobs d)) \<le> nat limit \<Longrightarrow>
           set (executable_rows at limit d) = {r \<in> set (t_scheduler_jobs d). executable at r}"
proof -
  show "set (executable_rows at limit d) \<subseteq> {r \<in> set (t_scheduler_jobs d). executable at r}"
    using set_limit_rows by (force simp: executable_rows_def)
  show "sorted (map job_order (executable_rows at limit d))"
    unfolding executable_rows_def by (intro sorted_limit_rows sorted_sort_key)
  show "0 \<le> limit \<Longrightarrow> int (length (executable_rows at limit d)) \<le> limit"
    by (simp add: executable_rows_def limit_rows_def)
  show "length (filter (executable at) (t_scheduler_jobs d)) \<le> nat limit \<Longrightarrow>
      set (executable_rows at limit d) = {r \<in> set (t_scheduler_jobs d). executable at r}"
    by (auto simp: executable_rows_def limit_rows_def)
qed

text \<open>The jobs a scheduler selects by one clock and may acquire by another.\<close>

lemma due_pending_acquirable:
  "executable at r \<Longrightarrow> jr_status r = JobPending \<or> jr_status r = JobFailed \<Longrightarrow> acquirable t r"
  by (auto simp: acquirable_def)

lemma expired_by_same_clock_acquirable: "executable at r \<Longrightarrow> acquirable at r"
  by (auto simp: acquirable_def executable_def)

section \<open>Properties\<close>

text \<open>A pending job, and a world whose only job it is.\<close>

definition sample_job :: job where
  "sample_job = \<lparr>j_id = ''j1'', j_jobType = ''t'', j_payload = NoBytes, j_scheduledAt = 1,
     j_nextAttemptAt = 1, j_status = JobPending, j_leaseOwner = [], j_leaseExpiresAt = 0,
     j_leaseGeneration = 0, j_attempts = 0, j_aggregateID = [], j_causationID = []\<rparr>"

definition job_world :: world where
  "job_world = fresh_world\<lparr>w_db := empty_db\<lparr>t_scheduler_jobs := [row_of sample_job]\<rparr>\<rparr>"

lemma job_world_simps [simp]:
  "w_faults job_world = []" "t_scheduler_jobs (w_db job_world) = [row_of sample_job]"
  "t_scheduler_job_audit (w_db job_world) = []" "t_runtime_sequence (w_db job_world) = 0"
  "find_job ''j1'' (w_db job_world) = Some (row_of sample_job)"
  "business_now job_world = 60000000000" "w_wall job_world = 60000000000"
  by (simp_all add: job_world_def fresh_world_def empty_db_def find_job_def row_of_def job_row_of_def
      sample_job_def business_now_def)

definition sample_leased :: job where
  "sample_leased = sample_job\<lparr>j_status := JobLeased, j_leaseOwner := ''w1'', j_leaseExpiresAt := 9,
     j_leaseGeneration := 1\<rparr>"

lemma job_world_reliable: "reliable 9 job_world"
  by (simp add: reliable_def)

lemma sample_leased_row: "leased_row ''w1'' 9 (row_of sample_job) = row_of sample_leased"
  by (simp add: leased_row_def row_of_def job_row_of_def sample_leased_def sample_job_def)

lemma sample_leased_fits: "job_wf sample_leased" "job_storable sample_leased"
  by (simp_all add: job_wf_def job_storable_def sample_leased_def sample_job_def time_in_range_def second_def)

lemma job_world_acquire:
  obtains w where "SchedulerRepository_Acquire background ''j1'' ''w1'' 9 5 job_world = (Inr sample_leased, w)"
    and "w_faults w = []"
proof -
  have "reliable 1 job_world" by (simp add: reliable_def)
  moreover have "acquirable 5 (row_of sample_job)" by (simp add: acquirable_def sample_job_def)
  ultimately obtain d where "SchedulerRepository_Acquire background ''j1'' ''w1'' 9 5 job_world =
      (Inr sample_leased, job_world\<lparr>w_db := d\<rparr>)"
    using Acquire_reliable [of job_world "''j1''" "row_of sample_job" 5 "''w1''" 9 sample_leased background]
      job_scan_row_of [OF sample_leased_fits] sample_leased_fits(2) sample_leased_row by auto
  then show thesis by (rule that) simp
qed







text \<open>
  The audit is append-only: whatever statements fail, saving and acquiring a job leave every
  audit row where it is, add rows at the end only, and touch no table but the jobs, the audit and
  the runtime sequence.
\<close>

theorem audit_is_append_only:
  assumes "\<not> cx_tx cx"
  shows "prefix (t_scheduler_job_audit (w_db w))
           (t_scheduler_job_audit (w_db (snd (SchedulerRepository_Save cx j w)))) \<and>
         prefix (t_scheduler_job_audit (w_db w))
           (t_scheduler_job_audit (w_db (snd (SchedulerRepository_Acquire cx i owner expiry check w)))) \<and>
         other_tables (w_db (snd (SchedulerRepository_Save cx j w))) = other_tables (w_db w) \<and>
         other_tables (w_db (snd (SchedulerRepository_Acquire cx i owner expiry check w))) =
           other_tables (w_db w)"
  using Save_audit [OF prod.collapse [symmetric] assms] Acquire_audit [OF prod.collapse [symmetric] assms]
  by (simp add: audit_extends_def)

theorem audit_is_append_only_witness:
  "prefix (t_scheduler_job_audit (w_db job_world))
     (t_scheduler_job_audit (w_db (snd (SchedulerRepository_Save background sample_job job_world))))"
  using audit_is_append_only [of background] by (simp add: background_def)

end
