(* ===== verification/Webhooks.thy ===== *)
theory Webhooks
  imports Database
begin

text \<open>
  The webhook context of \<open>internal/webhook\<close>: endpoints with their address checks
  (\<open>domain/endpoint.go\<close>, \<open>adapters/client/client.go\<close>), their repository
  (\<open>adapters/sqlite/repository.go\<close>) and services, delivery payloads and the outbound callback
  (\<open>application/deliver_callback.go\<close>), and the delivery audit
  (\<open>adapters/sqlite/delivery_audit.go\<close>).

  The parsers of \<open>net/url\<close> and \<open>net/netip\<close> are an argument, \<open>net_library\<close>.
\<close>

section \<open>Addresses\<close>

text \<open>An address of \<open>net/netip\<close>; an IPv6 address may carry a zone.\<close>

datatype ip_addr = IPv4 "32 word" | IPv6 "128 word" string

record parsed_url =
  pu_Scheme :: string
  pu_Host :: string
  pu_Hostname :: string
  pu_has_user :: bool

record net_library =
  nl_ParseRequestURI :: "string \<Rightarrow> parsed_url option"
  nl_ParseAddr :: "string \<Rightarrow> ip_addr option"
  nl_request_ok :: "string \<Rightarrow> bool"   \<comment> \<open>whether \<open>http.NewRequest\<close> accepts the URL\<close>

fun Unmap :: "ip_addr \<Rightarrow> ip_addr" where
  "Unmap (IPv4 a) = IPv4 a"
| "Unmap (IPv6 a z) = (if drop_bit 32 a = 0xffff then IPv4 (ucast a) else IPv6 a z)"

fun IsPrivate :: "ip_addr \<Rightarrow> bool" where
  "IsPrivate (IPv4 a) \<longleftrightarrow>
     drop_bit 24 a = 10 \<or> drop_bit 20 a = 0xac1 \<or> drop_bit 16 a = 0xc0a8"
| "IsPrivate (IPv6 a z) \<longleftrightarrow> drop_bit 121 a = 0x7e"

fun IsLoopback :: "ip_addr \<Rightarrow> bool" where
  "IsLoopback (IPv4 a) \<longleftrightarrow> drop_bit 24 a = 127"
| "IsLoopback (IPv6 a z) \<longleftrightarrow> a = 1"

fun IsLinkLocalUnicast :: "ip_addr \<Rightarrow> bool" where
  "IsLinkLocalUnicast (IPv4 a) \<longleftrightarrow> drop_bit 16 a = 0xa9fe"
| "IsLinkLocalUnicast (IPv6 a z) \<longleftrightarrow> drop_bit 118 a = 0x3fa"

fun IsLinkLocalMulticast :: "ip_addr \<Rightarrow> bool" where
  "IsLinkLocalMulticast (IPv4 a) \<longleftrightarrow> drop_bit 8 a = 0xe00000"
| "IsLinkLocalMulticast (IPv6 a z) \<longleftrightarrow> drop_bit 120 a = 0xff \<and> take_bit 4 (drop_bit 112 a) = 2"

fun IsMulticast :: "ip_addr \<Rightarrow> bool" where
  "IsMulticast (IPv4 a) \<longleftrightarrow> drop_bit 28 a = 0xe"
| "IsMulticast (IPv6 a z) \<longleftrightarrow> drop_bit 120 a = 0xff"

fun IsUnspecified :: "ip_addr \<Rightarrow> bool" where
  "IsUnspecified (IPv4 a) \<longleftrightarrow> a = 0"
| "IsUnspecified (IPv6 a z) \<longleftrightarrow> a = 0 \<and> z = []"

definition isPublicAddress :: "ip_addr \<Rightarrow> bool" where
  "isPublicAddress address =
     (let a = Unmap address in
      \<not> IsPrivate a \<and> \<not> IsLoopback a \<and> \<not> IsLinkLocalUnicast a \<and> \<not> IsLinkLocalMulticast a \<and>
      \<not> IsMulticast a \<and> \<not> IsUnspecified a)"

definition trim_suffix :: "string \<Rightarrow> string \<Rightarrow> string" where
  "trim_suffix s suf =
     (if length suf \<le> length s \<and> drop (length s - length suf) s = suf
      then take (length s - length suf) s else s)"

definition has_suffix :: "string \<Rightarrow> string \<Rightarrow> bool" where
  "has_suffix s suf \<longleftrightarrow> length suf \<le> length s \<and> drop (length s - length suf) s = suf"

definition validURL :: "net_library \<Rightarrow> string \<Rightarrow> bool" where
  "validURL net value =
     (case nl_ParseRequestURI net value of
        None \<Rightarrow> False
      | Some parsed \<Rightarrow>
          if pu_Host parsed = [] \<or> pu_has_user parsed then False
          else let scheme = ascii_lower (pu_Scheme parsed) in
            if scheme \<noteq> ''http'' \<and> scheme \<noteq> ''https'' then False
            else let host = trim_suffix (ascii_lower (pu_Hostname parsed)) ''.'' in
              if host = ''localhost'' \<or> has_suffix host ''.localhost'' then False
              else case nl_ParseAddr net host of
                None \<Rightarrow> True
              | Some address \<Rightarrow> isPublicAddress address)"

text \<open>
  \<open>safeDialContext\<close>: \<open>resolved\<close> are the addresses of the resolver, \<open>None\<close> when it fails;
  \<open>dial\<close> says whether connecting to an address works. The result is the list of addresses
  that were dialled and, when one worked, the address connected to.
\<close>

fun dial_addresses :: "(ip_addr \<Rightarrow> bool) \<Rightarrow> ip_addr list \<Rightarrow> ip_addr list \<times> ip_addr option" where
  "dial_addresses dial [] = ([], None)"
| "dial_addresses dial (a # as) =
     (if dial a then ([a], Some a)
      else let (tried, r) = dial_addresses dial as in (a # tried, r))"

definition safeDialContext ::
  "string \<Rightarrow> ip_addr list option \<Rightarrow> (ip_addr \<Rightarrow> bool) \<Rightarrow> ip_addr list \<times> ip_addr option" where
  "safeDialContext host resolved dial =
     (if ascii_lower (trim_suffix host ''.'') = ''localhost''
         \<or> has_suffix (ascii_lower host) ''.localhost'' then ([], None)
      else case resolved of
        None \<Rightarrow> ([], None)
      | Some [] \<Rightarrow> ([], None)
      | Some addresses \<Rightarrow>
          if list_all isPublicAddress addresses then dial_addresses dial addresses
          else ([], None))"

lemma dial_addresses_subset:
  "dial_addresses dial as = (tried, r) \<Longrightarrow>
     set tried \<subseteq> set as \<and> (\<forall>a. r = Some a \<longrightarrow> a \<in> set tried \<and> dial a)"
  by (induction as arbitrary: tried r) (auto split: if_splits prod.splits)

lemma safeDialContext_public:
  assumes "safeDialContext host resolved dial = (tried, r)"
  shows "(\<forall>a \<in> set tried. isPublicAddress a) \<and> (\<forall>a. r = Some a \<longrightarrow> isPublicAddress a)"
  using assms dial_addresses_subset
  by (auto simp: safeDialContext_def list_all_iff split: if_splits option.splits list.splits
      prod.splits; blast)

section \<open>Endpoints\<close>

record endpoint =
  ep_id :: string
  ep_url :: string
  ep_enabled :: bool

definition NewEndpoint :: "net_library \<Rightarrow> string \<Rightarrow> string \<Rightarrow> webhook_error + endpoint" where
  "NewEndpoint net i url =
     (if i = [] then Inl ErrInvalidEndpointID
      else if \<not> validURL net url then Inl ErrInvalidEndpointURL
      else Inr \<lparr>ep_id = i, ep_url = url, ep_enabled = True\<rparr>)"

text \<open>\<open>INSERT ... ON CONFLICT(id) DO NOTHING\<close>, with the number of affected rows.\<close>

definition insert_endpoint :: "endpoint_row \<Rightarrow> db \<Rightarrow> nat \<times> db" where
  "insert_endpoint r d =
     (if row_at wr_id (wr_id r) (t_webhook_endpoints d) = None
      then (1, d\<lparr>t_webhook_endpoints := t_webhook_endpoints d @ [r]\<rparr>) else (0, d))"

definition Endpoint_Save :: "ctx \<Rightarrow> endpoint \<Rightarrow> unit act" where
  "Endpoint_Save cx e =
     bindP (statement (insert_endpoint \<lparr>wr_id = ep_id e, wr_url = ep_url e\<rparr>)) (\<lambda>changed.
       if changed = 0 then raiseP (Webhook ErrEndpointAlreadyExists) else returnP ())"

definition Endpoint_FindByID :: "net_library \<Rightarrow> ctx \<Rightarrow> string \<Rightarrow> endpoint act" where
  "Endpoint_FindByID net cx i =
     bindP (query (\<lambda>d. row_at wr_id i (t_webhook_endpoints d))) (\<lambda>r.
       case r of
         None \<Rightarrow> raiseP (Webhook ErrEndpointNotFound)
       | Some row \<Rightarrow> liftP (mapErr Webhook (NewEndpoint net i (wr_url row))))"

fun restore_endpoints :: "net_library \<Rightarrow> endpoint_row list \<Rightarrow> webhook_error + endpoint list" where
  "restore_endpoints net [] = Inr []"
| "restore_endpoints net (r # rs) =
     bindR (NewEndpoint net (wr_id r) (wr_url r)) (\<lambda>e.
     bindR (restore_endpoints net rs) (\<lambda>es. Inr (e # es)))"

definition Endpoint_List :: "net_library \<Rightarrow> ctx \<Rightarrow> endpoint list act" where
  "Endpoint_List net cx =
     bindP (query (\<lambda>d. sort_key wr_id (t_webhook_endpoints d))) (\<lambda>rows.
       liftP (mapErr Webhook (restore_endpoints net rows)))"

text \<open>The interface \<open>Repository\<close> of \<open>internal/webhook/application\<close>, and the services over it.\<close>

record 's endpoint_repository =
  ew_Save :: "ctx \<Rightarrow> endpoint \<Rightarrow> ('s, error, unit) proc"
  ew_FindByID :: "ctx \<Rightarrow> string \<Rightarrow> ('s, error, endpoint) proc"
  ew_List :: "ctx \<Rightarrow> ('s, error, endpoint list) proc"

definition RegisterEndpoint_Execute ::
  "net_library \<Rightarrow> 's endpoint_repository \<Rightarrow> ctx \<Rightarrow> string \<Rightarrow> string \<Rightarrow> ('s, error, endpoint) proc" where
  "RegisterEndpoint_Execute net repo cx i url =
     bindP (liftP (mapErr Webhook (NewEndpoint net i url))) (\<lambda>e.
     bindP (ew_Save repo cx e) (\<lambda>_. returnP e))"

definition GetEndpoint_Execute ::
  "'s endpoint_repository \<Rightarrow> ctx \<Rightarrow> string \<Rightarrow> ('s, error, endpoint) proc" where
  "GetEndpoint_Execute repo cx i = ew_FindByID repo cx i"

definition ListEndpoints_Execute :: "'s endpoint_repository \<Rightarrow> ctx \<Rightarrow> ('s, error, endpoint list) proc" where
  "ListEndpoints_Execute repo cx =
     bindP (ew_List repo cx) (\<lambda>es. returnP (sort_key ep_id es))"

definition sqlite_endpoints :: "net_library \<Rightarrow> world endpoint_repository" where
  "sqlite_endpoints net =
     \<lparr>ew_Save = Endpoint_Save, ew_FindByID = Endpoint_FindByID net, ew_List = Endpoint_List net\<rparr>"

lemma sqlite_endpoints_simps [simp]:
  "ew_Save (sqlite_endpoints net) = Endpoint_Save"
  "ew_FindByID (sqlite_endpoints net) = Endpoint_FindByID net"
  "ew_List (sqlite_endpoints net) = Endpoint_List net"
  by (simp_all add: sqlite_endpoints_def)

lemma Endpoint_List_frame [local_intros, read_only_intros]:
  "db_local (Endpoint_List net cx)" "read_only (Endpoint_List net cx)"
  by (simp_all add: Endpoint_List_def local_intros read_only_intros)

text \<open>Registration stores a valid endpoint under a new identity, and nothing else.\<close>

lemma Endpoint_Save_Inr:
  assumes "Endpoint_Save cx e w = (Inr u, w')"
  shows "row_at wr_id (ep_id e) (t_webhook_endpoints (w_db w)) = None"
    and "w_db w' = (w_db w)\<lparr>t_webhook_endpoints :=
           t_webhook_endpoints (w_db w) @ [\<lparr>wr_id = ep_id e, wr_url = ep_url e\<rparr>]\<rparr>"
  using assms
  by (auto simp: Endpoint_Save_def insert_endpoint_def elim!: bindP_InrE dest!: statement_InrD
      split: if_splits)

lemma Endpoint_Save_Inl: "Endpoint_Save cx e w = (Inl err, w') \<Longrightarrow> w_db w' = w_db w"
  by (auto simp: Endpoint_Save_def insert_endpoint_def elim!: bindP_InlE
      dest!: statement_InrD statement_InlD split: if_splits)

definition endpoints_ok :: "net_library \<Rightarrow> db \<Rightarrow> bool" where
  "endpoints_ok net d \<longleftrightarrow>
     keys_distinct wr_id (t_webhook_endpoints d) \<and>
     (\<forall>r \<in> set (t_webhook_endpoints d). wr_id r \<noteq> [] \<and> validURL net (wr_url r))"

lemma RegisterEndpoint_ok:
  assumes "endpoints_ok net (w_db w)" and "RegisterEndpoint_Execute net (sqlite_endpoints net) cx i url w = (r, w')"
  shows "endpoints_ok net (w_db w')"
proof (cases "NewEndpoint net i url")
  case (Inl e)
  with assms show ?thesis by (simp add: RegisterEndpoint_Execute_def bindP_apply)
next
  case (Inr e)
  then have e: "ep_id e = i" "ep_url e = url" "i \<noteq> []" "validURL net url"
    by (auto simp: NewEndpoint_def split: if_splits)
  obtain q w1 where q: "Endpoint_Save cx e w = (q, w1)" by force
  show ?thesis
  proof (cases q)
    case (Inl err)
    with assms Inr q Endpoint_Save_Inl show ?thesis
      by (auto simp: RegisterEndpoint_Execute_def bindP_apply)
  next
    case q': (Inr u)
    from q have s: "Endpoint_Save cx e w = (Inr u, w1)" by (simp add: q')
    have "w' = w1" using assms(2) Inr s by (simp add: RegisterEndpoint_Execute_def bindP_apply)
    with assms(1) e Endpoint_Save_Inr [OF s] show ?thesis
      by (auto simp: endpoints_ok_def row_at_None_iff)
  qed
qed

section \<open>Delivery payloads\<close>

record delivery_payload =
  dp_EndpointID :: string
  dp_Body :: bytes
  dp_CorrelationID :: string
  dp_CausationID :: string

fun json_Valid :: "bytes \<Rightarrow> bool" where
  "json_Valid (JsonText j) = True"
| "json_Valid b = False"

definition validateDeliveryPayload :: "delivery_payload \<Rightarrow> webhook_error option" where
  "validateDeliveryPayload p =
     (if dp_EndpointID p = [] \<or> dp_Body p = NoBytes \<or> \<not> json_Valid (dp_Body p)
      then Some ErrInvalidDeliveryPayload else None)"

fun raw_json :: "bytes \<Rightarrow> json" where
  "raw_json (JsonText j) = j"
| "raw_json b = JNull"

definition Marshal_delivery :: "delivery_payload \<Rightarrow> bytes" where
  "Marshal_delivery p =
     JsonText (JObj
       ([(''endpoint_id'', JStr (dp_EndpointID p)), (''body'', raw_json (dp_Body p))] @
        (if dp_CorrelationID p = [] then [] else [(''correlation_id'', JStr (dp_CorrelationID p))]) @
        (if dp_CausationID p = [] then [] else [(''causation_id'', JStr (dp_CausationID p))])))"

definition NewDeliveryPayload ::
  "string \<Rightarrow> bytes \<Rightarrow> string \<Rightarrow> string \<Rightarrow> webhook_error + bytes" where
  "NewDeliveryPayload endpointID body correlation causation =
     (let payload = \<lparr>dp_EndpointID = endpointID, dp_Body = body,
                     dp_CorrelationID = correlation, dp_CausationID = causation\<rparr>
      in case validateDeliveryPayload payload of
        Some e \<Rightarrow> Inl e | None \<Rightarrow> Inr (Marshal_delivery payload))"

text \<open>Unknown members are rejected (\<open>DisallowUnknownFields\<close>).\<close>

definition delivery_member :: "string \<Rightarrow> json \<Rightarrow> delivery_payload \<Rightarrow> delivery_payload option" where
  "delivery_member k v p =
     (if names k ''endpoint_id''
        then map_option (\<lambda>x. p\<lparr>dp_EndpointID := x\<rparr>) (json_string (dp_EndpointID p) v)
      else if names k ''body'' then Some (p\<lparr>dp_Body := JsonText v\<rparr>)
      else if names k ''correlation_id''
        then map_option (\<lambda>x. p\<lparr>dp_CorrelationID := x\<rparr>) (json_string (dp_CorrelationID p) v)
      else if names k ''causation_id''
        then map_option (\<lambda>x. p\<lparr>dp_CausationID := x\<rparr>) (json_string (dp_CausationID p) v)
      else None)"

definition zero_delivery :: delivery_payload where
  "zero_delivery =
     \<lparr>dp_EndpointID = [], dp_Body = NoBytes, dp_CorrelationID = [], dp_CausationID = []\<rparr>"

definition decodeDeliveryPayload :: "bytes \<Rightarrow> webhook_error + delivery_payload" where
  "decodeDeliveryPayload payload =
     (case Unmarshal delivery_member zero_delivery payload of
        Inl e \<Rightarrow> Inl ErrInvalidDeliveryPayload
      | Inr delivery \<Rightarrow>
          (case validateDeliveryPayload delivery of Some e \<Rightarrow> Inl e | None \<Rightarrow> Inr delivery))"

lemma delivery_roundtrip:
  assumes "NewDeliveryPayload i body cor cau = Inr b"
  shows "decodeDeliveryPayload b =
           Inr \<lparr>dp_EndpointID = i, dp_Body = body, dp_CorrelationID = cor, dp_CausationID = cau\<rparr>"
proof -
  from assms obtain j where body: "body = JsonText j" and i: "i \<noteq> []"
    and b: "b = Marshal_delivery \<lparr>dp_EndpointID = i, dp_Body = body, dp_CorrelationID = cor,
              dp_CausationID = cau\<rparr>"
    by (cases body) (auto simp: NewDeliveryPayload_def validateDeliveryPayload_def Let_def split: if_splits)
  show ?thesis
    using i unfolding b body
    by (simp add: decodeDeliveryPayload_def Marshal_delivery_def delivery_member_def names_def
        ascii_lower_def zero_delivery_def validateDeliveryPayload_def)
qed

section \<open>The delivery audit\<close>

datatype delivery_outcome = DeliveryStarted | DeliverySucceeded | DeliveryFailed | UnknownDelivery string

fun delivery_text :: "delivery_outcome \<Rightarrow> string" where
  "delivery_text DeliveryStarted = ''started''"
| "delivery_text DeliverySucceeded = ''succeeded''"
| "delivery_text DeliveryFailed = ''failed''"
| "delivery_text (UnknownDelivery t) = t"

record delivery_attempt =
  da_JobID :: string
  da_Attempt :: uint64
  da_EndpointID :: string
  da_CorrelationID :: string
  da_CausationID :: string
  da_Outcome :: delivery_outcome
  da_HTTPStatus :: int
  da_Error :: "error option"
  da_RuntimeSequence :: uint64

definition delivery_key :: "delivery_row \<Rightarrow> string \<times> int" where
  "delivery_key r = (dr_job_id r, dr_attempt r)"

definition delivery_row_of :: "delivery_attempt \<Rightarrow> int \<Rightarrow> int \<Rightarrow> delivery_row" where
  "delivery_row_of a attempt runtimeSequence =
     \<lparr>dr_job_id = da_JobID a, dr_attempt = attempt, dr_endpoint_id = da_EndpointID a,
      dr_correlation_id = da_CorrelationID a, dr_causation_id = da_CausationID a,
      dr_outcome = delivery_text (da_Outcome a), dr_http_status = da_HTTPStatus a,
      dr_error = da_Error a, dr_runtime_sequence = runtimeSequence\<rparr>"

definition insert_delivery :: "delivery_row \<Rightarrow> db \<Rightarrow> nat \<times> db" where
  "insert_delivery r d =
     (if row_at delivery_key (delivery_key r) (t_webhook_delivery_audit d) = None
      then (1, d\<lparr>t_webhook_delivery_audit := t_webhook_delivery_audit d @ [r]\<rparr>) else (0, d))"

definition same_metadata :: "delivery_row \<Rightarrow> delivery_attempt \<Rightarrow> bool" where
  "same_metadata r a \<longleftrightarrow>
     dr_endpoint_id r = da_EndpointID a \<and> dr_correlation_id r = da_CorrelationID a \<and>
     dr_causation_id r = da_CausationID a"

definition recordStart :: "ctx \<Rightarrow> delivery_attempt \<Rightarrow> unit act" where
  "recordStart cx a =
     bindP NextRuntimeSequence (\<lambda>runtimeSequence.
     bindP (uint64_arg (da_Attempt a)) (\<lambda>attempt.
     bindP (uint64_arg runtimeSequence) (\<lambda>n.
     bindP (statement (insert_delivery (delivery_row_of a attempt n))) (\<lambda>changed.
       if changed = 1 then returnP ()
       else bindP (query (\<lambda>d. row_at delivery_key (da_JobID a, attempt)
                     (t_webhook_delivery_audit d))) (\<lambda>r.
         case r of
           None \<Rightarrow> raiseP (Message ''record disappeared'')
         | Some row \<Rightarrow>
             if \<not> same_metadata row a then raiseP (Message ''immutable metadata already recorded'')
             else returnP ())))))"

text \<open>The update of a started attempt to its result, with the number of affected rows.\<close>

definition finish_delivery :: "delivery_attempt \<Rightarrow> int \<Rightarrow> db \<Rightarrow> nat \<times> db" where
  "finish_delivery a attempt d =
     (case row_at delivery_key (da_JobID a, attempt) (t_webhook_delivery_audit d) of
        None \<Rightarrow> (0, d)
      | Some r \<Rightarrow>
          if dr_outcome r = delivery_text DeliveryStarted
          then (1, d\<lparr>t_webhook_delivery_audit :=
                  put_row delivery_key
                    (r\<lparr>dr_outcome := delivery_text (da_Outcome a),
                       dr_http_status := da_HTTPStatus a, dr_error := da_Error a\<rparr>)
                    (t_webhook_delivery_audit d)\<rparr>)
          else (0, d))"

definition recordTerminal :: "ctx \<Rightarrow> delivery_attempt \<Rightarrow> unit act" where
  "recordTerminal cx a =
     bindP (uint64_arg (da_Attempt a)) (\<lambda>attempt.
     bindP (statement (finish_delivery a attempt)) (\<lambda>changed.
       if changed \<noteq> 1 then
         bindP (query (\<lambda>d. row_at delivery_key (da_JobID a, attempt)
                     (t_webhook_delivery_audit d))) (\<lambda>r.
           case r of
             None \<Rightarrow> raiseP (Message ''missing start marker'')
           | Some row \<Rightarrow>
               if same_metadata row a \<and> dr_outcome row = delivery_text (da_Outcome a) \<and>
                  dr_http_status row = da_HTTPStatus a \<and> dr_error row = da_Error a
               then returnP ()
               else raiseP (Message ''terminal result already recorded''))
       else returnP ()))"

definition DeliveryAudit_Record :: "ctx \<Rightarrow> delivery_attempt \<Rightarrow> unit act" where
  "DeliveryAudit_Record cx a =
     (if da_JobID a = [] \<or> da_EndpointID a = [] \<or> da_Outcome a = UnknownDelivery []
        then raiseP (Message ''invalid webhook delivery audit attempt'')
      else if da_Outcome a = DeliveryStarted then in_transaction cx (\<lambda>txctx. recordStart txctx a)
      else recordTerminal cx a)"

definition delivery_order :: "delivery_row \<Rightarrow> nat \<times> int \<times> int" where
  "delivery_order r =
     (if dr_runtime_sequence r = 0 then 1 else 0, dr_runtime_sequence r, dr_attempt r)"

definition delivery_outcome_of :: "string \<Rightarrow> delivery_outcome" where
  "delivery_outcome_of t =
     (case find (\<lambda>x. delivery_text x = t) [DeliveryStarted, DeliverySucceeded, DeliveryFailed] of
        Some x \<Rightarrow> x | None \<Rightarrow> UnknownDelivery t)"

fun scan_deliveries :: "delivery_row list \<Rightarrow> error + delivery_attempt list" where
  "scan_deliveries [] = Inr []"
| "scan_deliveries (r # rs) =
     bindR (scan_uint64 (dr_attempt r)) (\<lambda>n.
     bindR (scan_uint64 (dr_runtime_sequence r)) (\<lambda>s.
     bindR (scan_deliveries rs) (\<lambda>as.
       Inr (\<lparr>da_JobID = dr_job_id r, da_Attempt = n, da_EndpointID = dr_endpoint_id r,
             da_CorrelationID = dr_correlation_id r, da_CausationID = dr_causation_id r,
             da_Outcome = delivery_outcome_of (dr_outcome r), da_HTTPStatus = dr_http_status r,
             da_Error = dr_error r, da_RuntimeSequence = s\<rparr> # as))))"

definition ListByJob :: "ctx \<Rightarrow> string \<Rightarrow> delivery_attempt list act" where
  "ListByJob cx jobID =
     (if jobID = [] then raiseP (Message ''webhook delivery audit job ID is required'')
      else bindP (query (\<lambda>d. sort_key delivery_order
                    (filter (\<lambda>r. dr_job_id r = jobID) (t_webhook_delivery_audit d))))
             (\<lambda>rows. liftP (scan_deliveries rows)))"

section \<open>Properties\<close>

text \<open>
  C20. The guarded dialer only ever reaches public addresses: every address it tries to connect to,
  and the one it returns, is, after undoing the IPv4-in-IPv6 mapping, neither private nor loopback,
  link-local, multicast or unspecified; if the name resolves to a single non-public address, or is
  a \<open>localhost\<close> name, nothing is dialed at all.
\<close>

theorem dialer_reaches_public_only:
  assumes "safeDialContext host resolved dial = (tried, r)" and "a \<in> set tried \<or> r = Some a"
  shows "\<not> IsPrivate (Unmap a) \<and> \<not> IsLoopback (Unmap a) \<and> \<not> IsLinkLocalUnicast (Unmap a) \<and>
         \<not> IsMulticast (Unmap a) \<and> \<not> IsUnspecified (Unmap a) \<and>
         (\<exists>addresses. resolved = Some addresses \<and> a \<in> set addresses \<and>
            (\<forall>b \<in> set addresses. isPublicAddress b)) \<and>
         ascii_lower (trim_suffix host ''.'') \<noteq> ''localhost''"
proof -
  from assms have ne: "tried \<noteq> [] \<or> r \<noteq> None" by auto
  with assms(1) obtain addresses where res: "resolved = Some addresses"
    and pub: "list_all isPublicAddress addresses" and d: "dial_addresses dial addresses = (tried, r)"
    and name: "ascii_lower (trim_suffix host ''.'') \<noteq> ''localhost''"
    by (auto simp: safeDialContext_def split: if_splits option.splits list.splits)
  from dial_addresses_subset [OF d] assms(2) have a: "a \<in> set addresses" by auto
  with pub have "isPublicAddress a" by (simp add: list_all_iff)
  then show ?thesis using res a pub name by (simp add: isPublicAddress_def Let_def list_all_iff)
qed

theorem dialer_reaches_public_only_witness:
  "\<not> IsPrivate (Unmap (IPv4 0x08080808)) \<and> ascii_lower (trim_suffix ''dns.google'' ''.'') \<noteq> ''localhost''"
proof -
  have "safeDialContext ''dns.google'' (Some [IPv4 0x08080808]) (\<lambda>a. True) =
      ([IPv4 0x08080808], Some (IPv4 0x08080808))" by code_simp
  from dialer_reaches_public_only [OF this, of "IPv4 0x08080808"] show ?thesis by simp
qed

text \<open>
  A delivery job carries its payload faithfully: whatever payload is accepted for an endpoint,
  the worker decodes it to the same endpoint, body and correlation data.
\<close>

theorem delivery_payload_roundtrip:
  assumes "NewDeliveryPayload i body cor cau = Inr b"
  shows "decodeDeliveryPayload b =
           Inr \<lparr>dp_EndpointID = i, dp_Body = body, dp_CorrelationID = cor, dp_CausationID = cau\<rparr>"
  by (rule delivery_roundtrip [OF assms])

theorem delivery_payload_roundtrip_witness:
  "\<exists>b. NewDeliveryPayload ''e1'' (JsonText (JNum 5)) ''c'' [] = Inr b \<and>
     decodeDeliveryPayload b =
       Inr \<lparr>dp_EndpointID = ''e1'', dp_Body = JsonText (JNum 5), dp_CorrelationID = ''c'', dp_CausationID = []\<rparr>"
proof -
  obtain b where "NewDeliveryPayload ''e1'' (JsonText (JNum 5)) ''c'' [] = Inr b"
    by (simp add: NewDeliveryPayload_def validateDeliveryPayload_def)
  with delivery_payload_roundtrip show ?thesis by blast
qed

end
