(* ===== verification/Event_Publisher.thy ===== *)
theory Event_Publisher
  imports Payment_Services Scheduler_Leases Webhooks
begin

text \<open>
  The publisher of \<open>internal/app/payment_events.go\<close>: it appends the business event of a
  transition to the event log and schedules one webhook delivery per endpoint, in the
  transaction of the payment command.
\<close>

section \<open>The publisher\<close>

definition event_identity :: "string \<Rightarrow> event_type \<Rightarrow> uint64 \<Rightarrow> string" where
  "event_identity i t version = i @ '':'' @ event_text t @ '':'' @ digits (unat version)"

text \<open>
  The loop over the earlier events: the event with the highest version below that of the
  payment is the cause of the new one.
\<close>

fun latest_before :: "uint64 \<Rightarrow> string \<times> uint64 \<Rightarrow> business_event list \<Rightarrow> string \<times> uint64" where
  "latest_before version c [] = c"
| "latest_before version c (candidate # rest) =
     latest_before version
       (if be_aggregateVersion candidate < version \<and> be_aggregateVersion candidate > snd c
        then (be_id candidate, be_aggregateVersion candidate) else c) rest"

definition Marshal_webhook_event :: "business_event \<Rightarrow> payment \<Rightarrow> time \<Rightarrow> error + bytes" where
  "Marshal_webhook_event event p at =
     (if \<not> time_in_range at then Inl Decoding
      else Inr (JsonText (JObj
        [(''id'', JStr (be_id event)), (''type'', JStr (event_text (be_eventType event))),
         (''payment_id'', JStr (p_id p)), (''amount'', JNum (sint (money_amount (p_amount p)))),
         (''currency'', JStr (money_currency (p_amount p))),
         (''status'', JStr (status_text (p_status p))), (''version'', JNum (uint (p_version p))),
         (''occurred_at'', JTime at), (''correlation_id'', JStr (be_correlationID event)),
         (''causation_id'', JStr (be_causationID event))])))"

definition DeliveryJobType :: string where
  "DeliveryJobType = ''webhook.delivery''"

definition scheduleDelivery :: "ctx \<Rightarrow> business_event \<Rightarrow> bytes \<Rightarrow> time \<Rightarrow> endpoint \<Rightarrow> unit act" where
  "scheduleDelivery cx event body at e =
     bindP (liftP (mapErr Webhook
              (NewDeliveryPayload (ep_id e) body (be_correlationID event) (be_causationID event)))) (\<lambda>payload.
     bindP (liftP (mapErr JobErr
              (NewJob (''webhook:'' @ be_id event @ '':'' @ ep_id e) DeliveryJobType payload at
                 [\<lparr>jm_AggregateID = be_aggregateID event, jm_CausationID = be_id event\<rparr>]))) (\<lambda>job.
       SchedulerRepository_Save cx job))"

definition correlation_of :: "ctx \<Rightarrow> string act" where
  "correlation_of cx =
     (let given = md_CorrelationID (MetadataFromContext cx)
      in if given = [] then NewCorrelationID else returnP given)"

definition next_event :: "ctx \<Rightarrow> payment \<Rightarrow> event_type \<Rightarrow> time \<Rightarrow> business_event act" where
  "next_event cx p eventType at =
     bindP (correlation_of cx) (\<lambda>correlation.
     bindP (EventLog_ListByAggregate cx (p_id p)) (\<lambda>previous.
       liftP (mapErr Payment
         (NewBusinessEventWithPayload (event_identity (p_id p) eventType (p_version p)) (p_id p)
            eventType at (p_version p) correlation
            (fst (latest_before (p_version p) ([], 0) previous))
            (Marshal_snapshot (NewEventSnapshot p))))))"

definition PaymentEventPublisher_Publish :: "net_library \<Rightarrow> ctx \<Rightarrow> payment \<Rightarrow> event_type \<Rightarrow> unit act" where
  "PaymentEventPublisher_Publish net cx p eventType =
     bindP (readP business_now) (\<lambda>at.
     bindP (next_event cx p eventType at) (\<lambda>event.
     bindP (EventLog_Append cx event) (\<lambda>_.
     bindP (Endpoint_List net cx) (\<lambda>endpoints.
     bindP (liftP (Marshal_webhook_event event p at)) (\<lambda>body.
       eachP (scheduleDelivery cx event body at) (sort_key ep_id endpoints))))))"

section \<open>Event identities do not collide\<close>

lemma digits_no_colon: "CHR '':'' \<notin> set (digits n)"
proof (induction n rule: less_induct)
  case (less n)
  have units: "CHR '':'' \<noteq> char_of (48 + k)" if "k < 10" for k :: nat
  proof
    assume "CHR '':'' = char_of (48 + k)"
    then have "char_of (48 + k) = CHR '':''" by (rule sym)
    then have "of_char (char_of (48 + k) :: char) = (of_char (CHR '':'') :: nat)" by simp
    with that show False by simp
  qed
  show ?case
  proof (cases "n < 10")
    case True
    with units show ?thesis by (simp add: digits.simps [of n])
  next
    case False
    with less units show ?thesis by (simp add: digits.simps [of n])
  qed
qed

lemma event_text_no_colon: "EventType_Valid t \<Longrightarrow> CHR '':'' \<notin> set (event_text t)"
  by (cases t) simp_all

text \<open>Splitting a text at its first or last occurrence of a character is unique.\<close>

lemma split_first_unique:
  "x @ c # a = y @ c # b \<Longrightarrow> c \<notin> set x \<Longrightarrow> c \<notin> set y \<Longrightarrow> x = y \<and> a = b"
proof (induction x arbitrary: y)
  case Nil
  then show ?case by (cases y) auto
next
  case (Cons z x)
  then show ?case by (cases y) auto
qed

lemma split_last_unique:
  assumes "a @ c # x = b @ c # y" and "c \<notin> set x" and "c \<notin> set y"
  shows "a = b \<and> x = y"
proof -
  have "rev x @ c # rev a = rev y @ c # rev b" using arg_cong [OF assms(1), of rev] by simp
  from split_first_unique [OF this] assms(2,3) show ?thesis by simp
qed

lemma event_identity_inj:
  assumes "event_identity i t v = event_identity j u n" and "EventType_Valid t" and "EventType_Valid u"
  shows "i = j \<and> event_text t = event_text u \<and> v = n"
proof -
  have "(i @ '':'' @ event_text t) @ CHR '':'' # digits (unat v) =
        (j @ '':'' @ event_text u) @ CHR '':'' # digits (unat n)"
    using assms(1) by (simp add: event_identity_def)
  from split_last_unique [OF this digits_no_colon digits_no_colon]
  have "i @ CHR '':'' # event_text t = j @ CHR '':'' # event_text u"
    and "digits (unat v) = digits (unat n)" by simp_all
  moreover from split_last_unique [OF this(1) event_text_no_colon [OF assms(2)]
      event_text_no_colon [OF assms(3)]] have "i = j \<and> event_text t = event_text u" .
  ultimately show ?thesis using digits_inj word_unat_eq_iff by blast
qed

section \<open>What publishing does to the tables\<close>

text \<open>The payments and, once the event is appended, the event log stay as they are.\<close>

lemma correlation_of_frame:
  "correlation_of cx w = (r, w') \<Longrightarrow> w_db w' = w_db w \<and> business_now w' = business_now w"
  by (auto simp: correlation_of_def NewCorrelationID_def Let_def business_now_def
      split: if_splits list.splits option.splits)

definition payment_tables :: "db \<Rightarrow> payment_row list \<times> event_row list" where
  "payment_tables d = (t_payments d, t_event_log d)"

lemma payment_tables_other:
  "other_tables d' = other_tables d \<Longrightarrow> payment_tables d' = payment_tables d"
  by (drule arg_cong [where f = "\<lambda>d. (t_payments d, t_event_log d)"])
    (simp add: other_tables_def payment_tables_def)

lemma Save_payment_tables:
  assumes "SchedulerRepository_Save cx j w = (Inr u, w')"
  shows "payment_tables (w_db w') = payment_tables (w_db w)"
proof (cases "fence_open j (w_db w)")
  case True
  with Save_Inr_cases [OF assms] have "other_tables (w_db w') = other_tables (w_db w)"
    by (simp add: audit_extends_def)
  then show ?thesis by (rule payment_tables_other)
next
  case False
  with Save_Inr_cases [OF assms] show ?thesis by simp
qed

lemma scheduleDelivery_frame:
  assumes "scheduleDelivery cx event body at e w = (Inr u, w')"
  shows "payment_tables (w_db w') = payment_tables (w_db w)" and "surroundings w' = surroundings w"
proof -
  from assms obtain job where s: "SchedulerRepository_Save cx job w = (Inr u, w')"
    by (auto simp: scheduleDelivery_def elim!: bindP_InrE)
  show "payment_tables (w_db w') = payment_tables (w_db w)" by (rule Save_payment_tables [OF s])
  show "surroundings w' = surroundings w" by (rule db_localD [OF SchedulerRepository_Save_local s])
qed

lemma schedule_all_frame:
  assumes "eachP (scheduleDelivery cx event body at) es w = (Inr u, w')"
  shows "payment_tables (w_db w') = payment_tables (w_db w) \<and> surroundings w' = surroundings w"
  using assms
proof (induction es arbitrary: w)
  case Nil
  then show ?case by simp
next
  case (Cons e es)
  from Cons.prems obtain v w1 where s: "scheduleDelivery cx event body at e w = (Inr v, w1)"
    and r: "eachP (scheduleDelivery cx event body at) es w1 = (Inr u, w')"
    by (auto elim!: bindP_InrE)
  from scheduleDelivery_frame [OF s] Cons.IH [OF r] show ?case by simp
qed

text \<open>
  A successful publication appends one event: the event of this transition, at the business
  time, recording the payment.
\<close>

definition event_of :: "payment \<Rightarrow> event_type \<Rightarrow> time \<Rightarrow> business_event \<Rightarrow> bool" where
  "event_of p t at e \<longleftrightarrow>
     BusinessEvent_Validate e = None \<and> be_id e = event_identity (p_id p) t (p_version p) \<and>
     be_aggregateID e = p_id p \<and> be_eventType e = t \<and> be_occurredAt e = at \<and>
     be_aggregateVersion e = p_version p \<and>
     be_payload e = Marshal_snapshot (NewEventSnapshot p)"

lemma next_event_Inr:
  assumes "next_event cx p t at w = (Inr e, w')"
  shows "event_of p t at e" and "w_db w' = w_db w" and "business_now w' = business_now w"
proof -
  from assms obtain cor w1 previous where c: "correlation_of cx w = (Inr cor, w1)"
    and l: "EventLog_ListByAggregate cx (p_id p) w1 = (Inr previous, w')"
    and nb: "NewBusinessEventWithPayload (event_identity (p_id p) t (p_version p)) (p_id p) t at
               (p_version p) cor (fst (latest_before (p_version p) ([], 0) previous))
               (Marshal_snapshot (NewEventSnapshot p)) = Inr e"
    by (auto simp: next_event_def elim!: bindP_InrE)
  note C = correlation_of_frame [OF c] and L = ListByAggregate_Inr [OF l]
  show "w_db w' = w_db w" using C L by simp
  show "business_now w' = business_now w" using C L(3) by (metis surroundings_now)
  show "event_of p t at e"
    using nb by (auto simp: NewBusinessEventWithPayload_def Let_def event_of_def split: option.splits)
qed

lemma Append_Inr:
  assumes "EventLog_Append cx e w = (Inr u, w')"
  obtains n :: uint64 where "row_at er_id (be_id e) (t_event_log (w_db w)) = None"
    and "uint n < 2 ^ 63" and "uint (be_aggregateVersion e) < 2 ^ 63"
    and "t_payments (w_db w') = t_payments (w_db w)"
    and "t_event_log (w_db w') =
           t_event_log (w_db w) @ [event_row_of e (uint (be_aggregateVersion e)) (uint n)]"
    and "business_now w' = business_now w"
proof -
  from assms obtain v1 v2 where v: "w_db v1 = w_db w" "surroundings v1 = surroundings w"
    and ap: "EventLog_append (WithTx cx) e v1 = (Inr u, v2)"
    and v': "w_db w' = w_db v2" "surroundings w' = surroundings v2"
    unfolding EventLog_Append_def by (rule in_transaction_InrE)
  from ap obtain n :: uint64 where "row_at er_id (be_id e) (t_event_log (w_db v1)) = None"
    "uint n < 2 ^ 63" "uint (be_aggregateVersion e) < 2 ^ 63"
    "w_db v2 = (w_db v1)\<lparr>t_runtime_sequence := uint n,
            t_event_log := t_event_log (w_db v1) @
              [event_row_of e (uint (be_aggregateVersion e)) (uint n)]\<rparr>"
    "surroundings v2 = surroundings v1" by (rule EventLog_append_Inr) (rule that)
  moreover from this have "business_now w' = business_now w"
    using v v' by (metis surroundings_now)
  ultimately show thesis using v v' by (intro that [of n]) simp_all
qed

lemma Publish_Inr:
  assumes "PaymentEventPublisher_Publish net cx p t w = (Inr u, w')"
  obtains e and n :: uint64 where "event_of p t (business_now w) e" and "uint n < 2 ^ 63"
    and "version_storable p"
    and "row_at er_id (be_id e) (t_event_log (w_db w)) = None"
    and "t_payments (w_db w') = t_payments (w_db w)"
    and "t_event_log (w_db w') =
           t_event_log (w_db w) @ [event_row_of e (uint (p_version p)) (uint n)]"
    and "business_now w' = business_now w" and "time_in_range (business_now w)"
proof -
  from assms obtain e w1 v w2 es w3 body
    where ne: "next_event cx p t (business_now w) w = (Inr e, w1)"
      and ap: "EventLog_Append cx e w1 = (Inr v, w2)"
      and l: "Endpoint_List net cx w2 = (Inr es, w3)"
      and b: "Marshal_webhook_event e p (business_now w) = Inr body"
      and s: "eachP (scheduleDelivery cx e body (business_now w)) (sort_key ep_id es) w3 = (Inr u, w')"
    by (auto simp: PaymentEventPublisher_Publish_def elim!: bindP_InrE)
  note N = next_event_Inr [OF ne] and S = schedule_all_frame [OF s]
  have L: "w_db w3 = w_db w2" "surroundings w3 = surroundings w2"
    using read_onlyD [OF Endpoint_List_frame(2) l] db_localD [OF Endpoint_List_frame(1) l] by simp_all
  have now: "business_now w' = business_now w2" using S L by (metis surroundings_now)
  have av: "be_aggregateVersion e = p_version p" using N(1) by (simp add: event_of_def)
  from ap obtain n :: uint64 where n: "row_at er_id (be_id e) (t_event_log (w_db w1)) = None"
    "uint n < 2 ^ 63" "uint (be_aggregateVersion e) < 2 ^ 63"
    "t_payments (w_db w2) = t_payments (w_db w1)"
    "t_event_log (w_db w2) =
       t_event_log (w_db w1) @ [event_row_of e (uint (be_aggregateVersion e)) (uint n)]"
    "business_now w2 = business_now w1" by (rule Append_Inr) (rule that)
  have "time_in_range (business_now w)" using b by (auto simp: Marshal_webhook_event_def split: if_splits)
  with n N S L now av show thesis
    by (intro that [of e n]) (simp_all add: payment_tables_def version_storable_def)
qed

text \<open>The publisher fits the contract of the services.\<close>

lemma Publish_stored:
  assumes "PaymentEventPublisher_Publish net cx p t w = (Inr u, w')"
  shows "stored w' = stored w"
  using assms by (rule Publish_Inr) (simp add: stored_def stored_payment_def find_row_def fun_eq_iff)

interpretation published: publishing_contract sqlite_repository stored
    "Some (PaymentEventPublisher_Publish net)" for net
  by unfold_locales (auto dest: Publish_stored)

end
