(* ===== verification/Frames.thy ===== *)
theory Frames
  imports Event_Publisher
begin

text \<open>
  What the operations on payments, events and jobs leave alone: any part of the database that does
  not depend on the tables they write, on every path, failures and rolled back transactions
  included.
\<close>

section \<open>Procedures that keep a part of the database\<close>

named_theorems keeps_intros \<open>rules for procedures that keep a part of the database\<close>

definition keeps :: "(db \<Rightarrow> 'x) \<Rightarrow> 'a act \<Rightarrow> bool" where
  "keeps g m \<longleftrightarrow> (\<forall>w. g (w_db (snd (m w))) = g (w_db w))"

lemma keepsI: "(\<And>w r w'. m w = (r, w') \<Longrightarrow> g (w_db w') = g (w_db w)) \<Longrightarrow> keeps g m"
  unfolding keeps_def by (metis prod.collapse)

lemma keepsD: "keeps g m \<Longrightarrow> m w = (r, w') \<Longrightarrow> g (w_db w') = g (w_db w)"
  unfolding keeps_def by (metis snd_conv)

lemma keeps_read_only: "read_only m \<Longrightarrow> keeps g m"
  by (simp add: keeps_def read_only_def)

lemma keeps_bind [keeps_intros]:
  "keeps g m \<Longrightarrow> (\<And>x. keeps g (f x)) \<Longrightarrow> keeps g (bindP m f)"
  unfolding keeps_def bindP_def by (auto split: prod.splits sum.splits) (metis snd_conv)+

lemma keeps_statement [keeps_intros]: "(\<And>d. g (snd (f d)) = g d) \<Longrightarrow> keeps g (statement f)"
  by (auto simp: keeps_def statement_def split: list.split bool.split)

lemma keeps_basic [keeps_intros]:
  "keeps g (returnP x)" "keeps g (raiseP e)" "keeps g (liftP r)" "keeps g (readP h)"
  "keeps g (query q)" "keeps g (query_row qr)" "keeps g (uint64_arg v)"
  by (simp_all add: keeps_read_only read_only_intros)

lemma keeps_Pair [keeps_intros]: "keeps g (Pair r)"
  by (simp add: keeps_def)

lemma keeps_cases [keeps_intros]:
  "(c \<Longrightarrow> keeps g m) \<Longrightarrow> (\<not> c \<Longrightarrow> keeps g n) \<Longrightarrow> keeps g (if c then m else n)"
  "keeps g m \<Longrightarrow> (\<And>y. keeps g (f y)) \<Longrightarrow> keeps g (case x of None \<Rightarrow> m | Some y \<Rightarrow> f y)"
  "(\<And>y. keeps g (k y)) \<Longrightarrow> (\<And>y. keeps g (f y)) \<Longrightarrow>
     keeps g (case s of Inl y \<Rightarrow> k y | Inr y \<Rightarrow> f y)"
  by (auto split: option.splits sum.splits)

lemma keeps_attempt [keeps_intros]: "keeps g m \<Longrightarrow> keeps g (attemptP m)"
  by (simp add: keeps_def)

lemma keeps_each [keeps_intros]: "(\<And>x. keeps g (f x)) \<Longrightarrow> keeps g (eachP f xs)"
  by (induction xs) (auto intro!: keeps_intros)

lemma keeps_mapP [keeps_intros]: "(\<And>x. keeps g (f x)) \<Longrightarrow> keeps g (mapP f xs)"
  by (induction xs) (auto intro!: keeps_intros)

lemma keeps_NewCorrelationID [keeps_intros]: "keeps g NewCorrelationID"
  by (auto simp: keeps_def NewCorrelationID_def split: list.split option.split)

lemma keeps_WithinTransaction [keeps_intros]:
  assumes "keeps g m" shows "keeps g (WithinTransaction m)"
proof (rule keepsI)
  fix w r w' assume "WithinTransaction m w = (r, w')"
  then show "g (w_db w') = g (w_db w)"
    using keepsD [OF assms]
    by (auto simp: WithinTransaction_def dest!: control_Inr control_Inl split: prod.splits sum.splits)
qed

lemma keeps_in_transaction [keeps_intros]:
  "(\<And>c. keeps g (m c)) \<Longrightarrow> keeps g (in_transaction cx m)"
  by (simp add: in_transaction_def WithinContext_def keeps_WithinTransaction)

section \<open>The operations on payments, events and jobs\<close>

text \<open>A part of the database that does not depend on the tables that payment commands write.\<close>

definition apart :: "(db \<Rightarrow> 'x) \<Rightarrow> bool" where
  "apart g \<longleftrightarrow>
     (\<forall>d x. g (d\<lparr>t_payments := x\<rparr>) = g d) \<and> (\<forall>d x. g (d\<lparr>t_event_log := x\<rparr>) = g d) \<and>
     (\<forall>d x. g (d\<lparr>t_scheduler_jobs := x\<rparr>) = g d) \<and>
     (\<forall>d x. g (d\<lparr>t_scheduler_job_audit := x\<rparr>) = g d) \<and>
     (\<forall>d x. g (d\<lparr>t_runtime_sequence := x\<rparr>) = g d)"

lemma apart_tables [simp]:
  "apart t_saga_instances" "apart t_idempotency_records" "apart t_webhook_endpoints"
  "apart t_replay_scenarios"
  "apart t_webhook_delivery_audit" "apart t_runtime_state"
  by (simp_all add: apart_def)

lemma keeps_NextRuntimeSequence [keeps_intros]: "apart g \<Longrightarrow> keeps g NextRuntimeSequence"
  by (auto simp: NextRuntimeSequence_def apart_def intro!: keeps_intros)

lemma keeps_SchedulerRepository_Save [keeps_intros]:
  "apart g \<Longrightarrow> keeps g (SchedulerRepository_Save cx j)"
  by (auto simp: SchedulerRepository_Save_def SchedulerRepository_save_def appendAudit_def
      SchedulerRepository_find_def upsert_job_def insert_audit_def apart_def
      intro!: keeps_intros keeps_NextRuntimeSequence split: option.splits)

lemma keeps_Repository_FindByID [keeps_intros]: "keeps g (Repository_FindByID cx i)"
  by (auto simp: Repository_FindByID_def intro!: keeps_intros)

lemma keeps_Repository_Save [keeps_intros]: "apart g \<Longrightarrow> keeps g (Repository_Save cx p)"
  by (auto simp: Repository_Save_def upsert_payment_def apart_def intro!: keeps_intros split: option.splits)

lemma keeps_EventLog_Append [keeps_intros]: "apart g \<Longrightarrow> keeps g (EventLog_Append cx e)"
  by (auto simp: EventLog_Append_def EventLog_append_def insert_event_def apart_def
      intro!: keeps_intros keeps_NextRuntimeSequence)

lemma keeps_Publish [keeps_intros]: "apart g \<Longrightarrow> keeps g (PaymentEventPublisher_Publish net cx p t)"
  by (auto simp: PaymentEventPublisher_Publish_def next_event_def correlation_of_def
      EventLog_ListByAggregate_def Endpoint_List_def scheduleDelivery_def Let_def
      intro!: keeps_intros)

text \<open>The payment services over the SQLite repository.\<close>

definition publisher_keeps :: "(db \<Rightarrow> 'x) \<Rightarrow> world publisher option \<Rightarrow> bool" where
  "publisher_keeps g publisher \<longleftrightarrow>
     (case publisher of None \<Rightarrow> True | Some publish \<Rightarrow> (\<forall>cx p t. keeps g (publish cx p t)))"

lemma publisher_keeps_simps [simp]:
  "publisher_keeps g None"
  "apart g \<Longrightarrow> publisher_keeps g (Some (PaymentEventPublisher_Publish net))"
  by (simp_all add: publisher_keeps_def keeps_Publish)

lemma keeps_save_and_publish [keeps_intros]:
  "apart g \<Longrightarrow> publisher_keeps g publisher \<Longrightarrow>
     keeps g (save_and_publish sqlite_repository publisher t cx p)"
  by (auto simp: save_and_publish_def publisher_keeps_def intro!: keeps_intros
      split: option.splits)

lemma keeps_service [keeps_intros]:
  "apart g \<Longrightarrow> publisher_keeps g publisher \<Longrightarrow> keeps g (service sqlite_repository publisher cx r)"
  by (auto simp: service_body withinRepositoryTransaction_def Repository_WithinContext_eq
      request_body_def intro!: keeps_intros)

lemma keeps_CreatePayment [keeps_intros]:
  "apart g \<Longrightarrow> publisher_keeps g publisher \<Longrightarrow>
     keeps g (CreatePayment_Execute sqlite_repository publisher cx c)"
  by (auto simp: CreatePayment_Execute_def CreatePayment_execute_def Repository_WithinContext_eq
      intro!: keeps_intros)

end
