(* ===== verification/Idempotency.thy ===== *)
theory Idempotency
  imports Frames
begin

text \<open>
  Idempotency records: the interface of \<open>internal/idempotency/application/repository.go\<close> with the
  contract that its clients rely on, and the SQLite repository of
  \<open>internal/idempotency/adapters/sqlite/repository.go\<close> as its provider.
\<close>

section \<open>Records and the interface\<close>

record idem_record =
  id_Scope :: string
  id_Key :: string
  id_Fingerprint :: string
  id_Status :: string
  id_ResponseStatus :: int
  id_ResponseBody :: bytes
  id_ResponseHeaders :: "(string \<times> string list) list"

record 's idempotency_repository =
  ip_Reserve :: "ctx \<Rightarrow> idem_record \<Rightarrow> ('s, error, bool) proc"
  ip_Find :: "ctx \<Rightarrow> string \<Rightarrow> string \<Rightarrow> ('s, error, idem_record) proc"
  ip_Complete :: "ctx \<Rightarrow> idem_record \<Rightarrow> ('s, error, unit) proc"
  ip_Release :: "ctx \<Rightarrow> string \<Rightarrow> string \<Rightarrow> string \<Rightarrow> ('s, error, unit) proc"

abbreviation record_key :: "idem_record \<Rightarrow> string \<times> string" where
  "record_key r \<equiv> (id_Scope r, id_Key r)"

section \<open>The SQLite repository\<close>

definition idem_key :: "idempotency_row \<Rightarrow> string \<times> string" where
  "idem_key r = (ir_scope r, ir_key r)"

text \<open>The insert leaves \<open>response_headers\<close> at its default, the empty object.\<close>

definition idem_row_of :: "idem_record \<Rightarrow> idempotency_row" where
  "idem_row_of r =
     \<lparr>ir_scope = id_Scope r, ir_key = id_Key r, ir_fingerprint = id_Fingerprint r,
      ir_status = id_Status r, ir_response_status = id_ResponseStatus r,
      ir_response_body = id_ResponseBody r, ir_response_headers = []\<rparr>"

definition insert_idem :: "idempotency_row \<Rightarrow> db \<Rightarrow> nat \<times> db" where
  "insert_idem r d =
     (case row_at idem_key (idem_key r) (t_idempotency_records d) of
        None \<Rightarrow> (1, d\<lparr>t_idempotency_records := t_idempotency_records d @ [r]\<rparr>)
      | Some old \<Rightarrow> (0, d))"

definition scan_idem :: "idempotency_row \<Rightarrow> idem_record" where
  "scan_idem r =
     \<lparr>id_Scope = ir_scope r, id_Key = ir_key r, id_Fingerprint = ir_fingerprint r,
      id_Status = ir_status r, id_ResponseStatus = ir_response_status r,
      id_ResponseBody = ir_response_body r, id_ResponseHeaders = ir_response_headers r\<rparr>"

definition Idempotency_Find :: "ctx \<Rightarrow> string \<Rightarrow> string \<Rightarrow> idem_record act" where
  "Idempotency_Find cx scope key =
     bindP (query (\<lambda>d. row_at idem_key (scope, key) (t_idempotency_records d))) (\<lambda>r.
       case r of
         None \<Rightarrow> raiseP (Idempotency ErrRecordNotFound)
       | Some r \<Rightarrow> returnP (scan_idem r))"

definition Idempotency_Reserve :: "ctx \<Rightarrow> idem_record \<Rightarrow> bool act" where
  "Idempotency_Reserve cx r =
     bindP (statement (insert_idem (idem_row_of r))) (\<lambda>affected.
       if affected = 1 then returnP True
       else bindP (Idempotency_Find cx (id_Scope r) (id_Key r)) (\<lambda>existing.
         if id_Fingerprint existing \<noteq> id_Fingerprint r
           then raiseP (Idempotency ErrFingerprintConflict)
         else returnP False))"

definition update_idem :: "idem_record \<Rightarrow> db \<Rightarrow> nat \<times> db" where
  "update_idem r d =
     (case row_at idem_key (record_key r) (t_idempotency_records d) of
        None \<Rightarrow> (0, d)
      | Some old \<Rightarrow>
          if ir_fingerprint old = id_Fingerprint r
          then (1, d\<lparr>t_idempotency_records :=
                  put_row idem_key
                    (old\<lparr>ir_status := id_Status r, ir_response_status := id_ResponseStatus r,
                        ir_response_body := id_ResponseBody r,
                        ir_response_headers := id_ResponseHeaders r\<rparr>)
                    (t_idempotency_records d)\<rparr>)
          else (0, d))"

definition Idempotency_Complete :: "ctx \<Rightarrow> idem_record \<Rightarrow> unit act" where
  "Idempotency_Complete cx r =
     bindP (statement (update_idem r)) (\<lambda>affected.
       if affected \<noteq> 1 then raiseP (Idempotency ErrRecordNotFound) else returnP ())"

definition delete_idem :: "string \<Rightarrow> string \<Rightarrow> string \<Rightarrow> db \<Rightarrow> unit \<times> db" where
  "delete_idem scope key fingerprint d =
     ((), d\<lparr>t_idempotency_records :=
        filter (\<lambda>r. \<not> (ir_scope r = scope \<and> ir_key r = key \<and> ir_fingerprint r = fingerprint \<and>
                      ir_status r = ''processing''))
          (t_idempotency_records d)\<rparr>)"

definition Idempotency_Release :: "ctx \<Rightarrow> string \<Rightarrow> string \<Rightarrow> string \<Rightarrow> unit act" where
  "Idempotency_Release cx scope key fingerprint = statement (delete_idem scope key fingerprint)"

definition sqlite_idempotency :: "world idempotency_repository" where
  "sqlite_idempotency =
     \<lparr>ip_Reserve = Idempotency_Reserve, ip_Find = Idempotency_Find,
      ip_Complete = Idempotency_Complete, ip_Release = Idempotency_Release\<rparr>"

section \<open>The contract\<close>

text \<open>
  \<open>durable\<close> is what the repository keeps, and \<open>records\<close> reads it as a map from scope and key. A
  reservation succeeds at a free place only; at a taken one it tells whether the fingerprint is the
  same, or fails, and changes nothing. \<open>Complete\<close> stores the response of the reservation with its
  fingerprint.
\<close>

locale idempotency_contract =
  fixes repo :: "'s idempotency_repository"
    and durable :: "'s \<Rightarrow> 'd"
    and records :: "'d \<Rightarrow> string \<times> string \<Rightarrow> idem_record option"
  assumes reserve_new: "ip_Reserve repo cx r s = (Inr True, s') \<Longrightarrow>
      records (durable s) (record_key r) = None \<and>
      records (durable s') = (records (durable s))(record_key r \<mapsto> r\<lparr>id_ResponseHeaders := []\<rparr>)"
    and reserve_taken: "ip_Reserve repo cx r s = (Inr False, s') \<Longrightarrow>
      durable s' = durable s \<and>
      (\<exists>e. records (durable s) (record_key r) = Some e \<and> id_Fingerprint e = id_Fingerprint r)"
    and reserve_conflict: "ip_Reserve repo cx r s = (Inl (Idempotency ErrFingerprintConflict), s') \<Longrightarrow>
      \<exists>e. records (durable s) (record_key r) = Some e \<and> id_Fingerprint e \<noteq> id_Fingerprint r"
    and reserve_fail: "ip_Reserve repo cx r s = (Inl err, s') \<Longrightarrow> durable s' = durable s \<and>
      (errors_Is err (Idempotency ErrFingerprintConflict) \<longrightarrow> err = Idempotency ErrFingerprintConflict)"
    and find_ok: "ip_Find repo cx scope key s = (Inr e, s') \<Longrightarrow>
      records (durable s) (scope, key) = Some e"
    and find_frame: "ip_Find repo cx scope key s = (x, s') \<Longrightarrow> durable s' = durable s"
    and complete_ok: "ip_Complete repo cx r s = (Inr u, s') \<Longrightarrow>
      records (durable s') = (records (durable s))(record_key r \<mapsto> r)"

text \<open>What the table says.\<close>

definition idem_records :: "db \<Rightarrow> string \<times> string \<Rightarrow> idem_record option" where
  "idem_records d k = map_option scan_idem (row_at idem_key k (t_idempotency_records d))"

lemma idem_key_row_of [simp]: "idem_key (idem_row_of r) = record_key r"
  by (simp add: idem_key_def idem_row_of_def)

lemma scan_idem_row_of [simp]: "scan_idem (idem_row_of r) = r\<lparr>id_ResponseHeaders := []\<rparr>"
  by (simp add: scan_idem_def idem_row_of_def)

lemma Idempotency_Find_cases:
  assumes "Idempotency_Find cx scope key w = (x, w')"
  shows "w_db w' = w_db w"
    and "x = Inr e \<Longrightarrow> idem_records (w_db w) (scope, key) = Some e"
    and "idem_records (w_db w) (scope, key) = Some e \<Longrightarrow> x = Inr e \<or> x = Inl Driver"
  using assms
  by (cases "row_at idem_key (scope, key) (t_idempotency_records (w_db w))";
      auto simp: Idempotency_Find_def idem_records_def bindP_apply split: prod.splits sum.splits
        option.splits dest!: query_InrD query_InlD)+

lemma insert_idem_records:
  assumes "statement (insert_idem (idem_row_of r)) w = (Inr n, w')"
  shows "if idem_records (w_db w) (record_key r) = None
         then n = 1 \<and> idem_records (w_db w') = (idem_records (w_db w))(record_key r \<mapsto> r\<lparr>id_ResponseHeaders := []\<rparr>)
         else n = 0 \<and> w_db w' = w_db w"
  using statement_InrD [OF assms]
  by (auto simp: insert_idem_def idem_records_def fun_eq_iff row_at_append split: option.split)

lemma Idempotency_Reserve_cases:
  assumes "Idempotency_Reserve cx r w = (x, w')"
  shows "(w_db w' = w_db w \<and> x = Inl Driver) \<or>
    (idem_records (w_db w) (record_key r) = None \<and> x = Inr True \<and>
       idem_records (w_db w') = (idem_records (w_db w))(record_key r \<mapsto> r\<lparr>id_ResponseHeaders := []\<rparr>)) \<or>
    (w_db w' = w_db w \<and> (\<exists>e. idem_records (w_db w) (record_key r) = Some e \<and>
       x = (if id_Fingerprint e = id_Fingerprint r then Inr False
            else Inl (Idempotency ErrFingerprintConflict))))"
proof -
  obtain y w1 where st: "statement (insert_idem (idem_row_of r)) w = (y, w1)" by force
  show ?thesis
  proof (cases y)
    case (Inl e)
    with st assms show ?thesis
      by (auto simp: Idempotency_Reserve_def dest: statement_InlD)
  next
    case (Inr n)
    note I = insert_idem_records [OF st [unfolded Inr]]
    show ?thesis
    proof (cases "idem_records (w_db w) (record_key r)")
      case None
      with I st Inr assms show ?thesis by (simp add: Idempotency_Reserve_def)
    next
      case (Some e)
      with I have n: "n = 0" and same: "w_db w1 = w_db w" by simp_all
      obtain f w2 where f: "Idempotency_Find cx (id_Scope r) (id_Key r) w1 = (f, w2)" by force
      with Idempotency_Find_cases [OF f] Some have "f = Inr e \<or> f = Inl Driver" and "w_db w2 = w_db w"
        using same by simp_all
      moreover have "(x, w') = (case f of Inl err \<Rightarrow> (Inl err, w2)
          | Inr e \<Rightarrow> (if id_Fingerprint e \<noteq> id_Fingerprint r
              then Inl (Idempotency ErrFingerprintConflict) else Inr False, w2))"
      proof -
        from assms have "bindP (Idempotency_Find cx (id_Scope r) (id_Key r)) (\<lambda>existing.
            if id_Fingerprint existing \<noteq> id_Fingerprint r
              then raiseP (Idempotency ErrFingerprintConflict) else returnP False) w1 = (x, w')"
          using st n by (simp add: Idempotency_Reserve_def Inr)
        then show ?thesis by (simp add: bindP_apply f split: sum.splits if_splits)
      qed
      ultimately show ?thesis using Some by auto
    qed
  qed
qed

lemma Idempotency_Complete_Inr:
  assumes "Idempotency_Complete cx r w = (Inr u, w')"
  shows "(\<exists>e. idem_records (w_db w) (record_key r) = Some e \<and> id_Fingerprint e = id_Fingerprint r) \<and>
    idem_records (w_db w') = (idem_records (w_db w))(record_key r \<mapsto> r)"
proof -
  from assms have up: "fst (update_idem r (w_db w)) = 1" and db: "w_db w' = snd (update_idem r (w_db w))"
    by (auto simp: Idempotency_Complete_def elim!: bindP_InrE dest!: statement_InrD split: if_splits)
  from up obtain old where old: "row_at idem_key (record_key r) (t_idempotency_records (w_db w)) = Some old"
    and fp: "ir_fingerprint old = id_Fingerprint r"
    by (auto simp: update_idem_def split: option.splits if_splits)
  let ?new = "old\<lparr>ir_status := id_Status r, ir_response_status := id_ResponseStatus r,
      ir_response_body := id_ResponseBody r, ir_response_headers := id_ResponseHeaders r\<rparr>"
  have key: "idem_key old = record_key r" using row_at_SomeD [OF old] by simp
  then have new: "idem_key ?new = record_key r" and "scan_idem ?new = r"
    using fp by (simp_all add: idem_key_def scan_idem_def)
  have "t_idempotency_records (w_db w') = put_row idem_key ?new (t_idempotency_records (w_db w))"
    using db old fp by (simp add: update_idem_def)
  then have "idem_records (w_db w') = (idem_records (w_db w))(record_key r \<mapsto> r)"
    using new \<open>scan_idem ?new = r\<close> by (auto simp: idem_records_def fun_eq_iff)
  moreover have "id_Fingerprint (scan_idem old) = id_Fingerprint r" using fp by (simp add: scan_idem_def)
  ultimately show ?thesis using old by (simp add: idem_records_def)
qed

interpretation sqlite_idem: idempotency_contract sqlite_idempotency w_db idem_records
proof
  fix cx r s s' assume "ip_Reserve sqlite_idempotency cx r s = (Inr True, s')"
  then have "Idempotency_Reserve cx r s = (Inr True, s')" by (simp add: sqlite_idempotency_def)
  from Idempotency_Reserve_cases [OF this] show "idem_records (w_db s) (record_key r) = None \<and>
      idem_records (w_db s') = (idem_records (w_db s))(record_key r \<mapsto> r\<lparr>id_ResponseHeaders := []\<rparr>)"
    by (auto split: if_splits)
next
  fix cx r s s' assume "ip_Reserve sqlite_idempotency cx r s = (Inr False, s')"
  then have "Idempotency_Reserve cx r s = (Inr False, s')" by (simp add: sqlite_idempotency_def)
  from Idempotency_Reserve_cases [OF this] show "w_db s' = w_db s \<and>
      (\<exists>e. idem_records (w_db s) (record_key r) = Some e \<and> id_Fingerprint e = id_Fingerprint r)"
    by (auto split: if_splits)
next
  fix cx r s s' assume "ip_Reserve sqlite_idempotency cx r s = (Inl (Idempotency ErrFingerprintConflict), s')"
  then have "Idempotency_Reserve cx r s = (Inl (Idempotency ErrFingerprintConflict), s')"
    by (simp add: sqlite_idempotency_def)
  from Idempotency_Reserve_cases [OF this]
  show "\<exists>e. idem_records (w_db s) (record_key r) = Some e \<and> id_Fingerprint e \<noteq> id_Fingerprint r"
    by (auto split: if_splits)
next
  fix cx r s err s' assume "ip_Reserve sqlite_idempotency cx r s = (Inl err, s')"
  then have "Idempotency_Reserve cx r s = (Inl err, s')" by (simp add: sqlite_idempotency_def)
  from Idempotency_Reserve_cases [OF this] show "w_db s' = w_db s \<and>
      (errors_Is err (Idempotency ErrFingerprintConflict) \<longrightarrow> err = Idempotency ErrFingerprintConflict)"
    by (auto split: if_splits)
next
  fix cx scope key s e s' assume "ip_Find sqlite_idempotency cx scope key s = (Inr e, s')"
  then have "Idempotency_Find cx scope key s = (Inr e, s')" by (simp add: sqlite_idempotency_def)
  from Idempotency_Find_cases(2) [OF this] show "idem_records (w_db s) (scope, key) = Some e" by simp
next
  fix cx scope key s x s' assume "ip_Find sqlite_idempotency cx scope key s = (x, s')"
  then have "Idempotency_Find cx scope key s = (x, s')" by (simp add: sqlite_idempotency_def)
  then show "w_db s' = w_db s" by (rule Idempotency_Find_cases(1))
next
  fix cx r s u s' assume "ip_Complete sqlite_idempotency cx r s = (Inr u, s')"
  then have "Idempotency_Complete cx r s = (Inr u, s')" by (simp add: sqlite_idempotency_def)
  from Idempotency_Complete_Inr [OF this]
  show "idem_records (w_db s') = (idem_records (w_db s))(record_key r \<mapsto> r)" by simp
qed

end
