(* ===== verification/Http.thy ===== *)
theory Http
  imports Database
begin

text \<open>
  HTTP as the handlers see it: requests, responses, the parts of \<open>net/http\<close>, \<open>net/url\<close> and
  \<open>strings\<close> that they use, and \<open>internal/api\<close>: the router, the bearer token middleware and the
  server with its health checks.

  A handler gets a fresh response writer and answers once, so it is a function from the context,
  the request and the state to the response and the new state. Header names are in canonical form,
  as \<open>net/http\<close> stores them. A body that cannot be read is \<open>None\<close>.
\<close>

section \<open>Requests and responses\<close>

type_synonym header = "(string \<times> string list) list"

record http_req =
  rq_Method :: string
  rq_Path :: string
  rq_EscapedPath :: string
  rq_RawQuery :: string
  rq_Header :: header
  rq_Body :: "bytes option"

record http_response =
  rs_Status :: int
  rs_Header :: header
  rs_Body :: bytes

type_synonym 's handler = "ctx \<Rightarrow> http_req \<Rightarrow> 's \<Rightarrow> http_response \<times> 's"

definition header_values :: "header \<Rightarrow> string \<Rightarrow> string list" where
  "header_values h name = (case map_of h name of None \<Rightarrow> [] | Some vs \<Rightarrow> vs)"

definition header_get :: "header \<Rightarrow> string \<Rightarrow> string" where
  "header_get h name = (case header_values h name of [] \<Rightarrow> [] | v # _ \<Rightarrow> v)"

definition header_set :: "string \<Rightarrow> string \<Rightarrow> header \<Rightarrow> header" where
  "header_set name v h = put_row fst (name, [v]) h"

lemma map_of_put_header: "map_of (put_row fst (k, v) rows) = (map_of rows)(k \<mapsto> v)"
  by (induction rows) (auto simp: fun_eq_iff)

lemma header_values_set [simp]:
  "header_values (header_set name v h) k = (if k = name then [v] else header_values h k)"
  by (simp add: header_values_def header_set_def map_of_put_header)

section \<open>strings\<close>

text \<open>The encodings of the white space that \<open>strings.TrimSpace\<close> removes.\<close>

definition space_texts :: "string list" where
  "space_texts =
     [[CHR 0x09], [CHR 0x0A], [CHR 0x0B], [CHR 0x0C], [CHR 0x0D], '' '',
      [CHR 0xC2, CHR 0x85], [CHR 0xC2, CHR 0xA0], [CHR 0xE1, CHR 0x9A, CHR 0x80],
      [CHR 0xE2, CHR 0x80, CHR 0x80], [CHR 0xE2, CHR 0x80, CHR 0x81], [CHR 0xE2, CHR 0x80, CHR 0x82],
      [CHR 0xE2, CHR 0x80, CHR 0x83], [CHR 0xE2, CHR 0x80, CHR 0x84], [CHR 0xE2, CHR 0x80, CHR 0x85],
      [CHR 0xE2, CHR 0x80, CHR 0x86], [CHR 0xE2, CHR 0x80, CHR 0x87], [CHR 0xE2, CHR 0x80, CHR 0x88],
      [CHR 0xE2, CHR 0x80, CHR 0x89], [CHR 0xE2, CHR 0x80, CHR 0x8A], [CHR 0xE2, CHR 0x80, CHR 0xA8],
      [CHR 0xE2, CHR 0x80, CHR 0xA9], [CHR 0xE2, CHR 0x80, CHR 0xAF], [CHR 0xE2, CHR 0x81, CHR 0x9F],
      [CHR 0xE3, CHR 0x80, CHR 0x80]]"

definition has_prefix :: "string \<Rightarrow> string \<Rightarrow> bool" where
  "has_prefix s p \<longleftrightarrow> take (length p) s = p"

definition trim_prefix :: "string \<Rightarrow> string \<Rightarrow> string" where
  "trim_prefix s p = (if has_prefix s p then drop (length p) s else s)"

function trim_left :: "string list \<Rightarrow> string \<Rightarrow> string" where
  "trim_left seps s =
     (case find (\<lambda>p. p \<noteq> [] \<and> has_prefix s p) seps of
        None \<Rightarrow> s
      | Some p \<Rightarrow> trim_left seps (drop (length p) s))"
  by pat_completeness auto
termination
proof (relation "measure (\<lambda>(seps, s). length s)")
  fix seps s p assume "find (\<lambda>p. p \<noteq> [] \<and> has_prefix s p) seps = Some p"
  then have "p \<noteq> []" and "take (length p) s = p"
    by (auto simp: find_Some_iff has_prefix_def)
  then have "s \<noteq> []" and "0 < length p" by auto
  then show "((seps, drop (length p) s), seps, s) \<in> measure (\<lambda>(seps, s). length s)" by simp
qed simp

declare trim_left.simps [simp del]

definition TrimSpace :: "string \<Rightarrow> string" where
  "TrimSpace s = rev (trim_left (map rev space_texts) (rev (trim_left space_texts s)))"

fun split_at :: "char \<Rightarrow> string \<Rightarrow> string list" where
  "split_at c [] = [[]]"
| "split_at c (x # xs) =
     (if x = c then [] # split_at c xs
      else (case split_at c xs of [] \<Rightarrow> [[x]] | w # ws \<Rightarrow> (x # w) # ws))"

section \<open>net/url\<close>

definition unhex :: "char \<Rightarrow> nat option" where
  "unhex c =
     (let n = of_char c :: nat in
      if 48 \<le> n \<and> n \<le> 57 then Some (n - 48)
      else if 97 \<le> n \<and> n \<le> 102 then Some (n - 87)
      else if 65 \<le> n \<and> n \<le> 70 then Some (n - 55)
      else None)"

text \<open>\<open>url.PathUnescape\<close>.\<close>

fun PathUnescape :: "string \<Rightarrow> string option" where
  "PathUnescape [] = Some []"
| "PathUnescape (c # s) =
     (if c = CHR ''%'' then
        (case s of
           a # b # rest \<Rightarrow>
             (case (unhex a, unhex b) of
                (Some m, Some n) \<Rightarrow> map_option ((#) (char_of (16 * m + n))) (PathUnescape rest)
              | _ \<Rightarrow> None)
         | _ \<Rightarrow> None)
      else map_option ((#) c) (PathUnescape s))"

text \<open>The characters of a path segment that \<open>url.PathEscape\<close> leaves as they are.\<close>

definition unescaped_in_segment :: "char \<Rightarrow> bool" where
  "unescaped_in_segment c \<longleftrightarrow>
     (let n = of_char c :: nat in
      (97 \<le> n \<and> n \<le> 122) \<or> (65 \<le> n \<and> n \<le> 90) \<or> (48 \<le> n \<and> n \<le> 57) \<or>
      c \<in> set ''-_.~$&+:=@'')"

definition upper_hex :: "nat \<Rightarrow> char" where
  "upper_hex n = char_of (if n < 10 then 48 + n else 55 + n)"

fun PathEscape :: "string \<Rightarrow> string" where
  "PathEscape [] = []"
| "PathEscape (c # s) =
     (if unescaped_in_segment c then c # PathEscape s
      else [CHR ''%'', upper_hex (of_char c div 16), upper_hex (of_char c mod 16)] @ PathEscape s)"

text \<open>
  How the handlers take an identity out of a path below a prefix, with \<open>strings.TrimPrefix\<close>,
  \<open>strings.Split\<close> and \<open>url.PathUnescape\<close>: a path with nothing after the identity, or with one more
  segment, the action.
\<close>

definition unescaped_id :: "string \<Rightarrow> string option" where
  "unescaped_id part =
     (if part = [] then None
      else case PathUnescape part of Some i \<Rightarrow> if i = [] then None else Some i | None \<Rightarrow> None)"

definition path_id :: "string \<Rightarrow> string \<Rightarrow> string option" where
  "path_id prefix path =
     (case split_at CHR ''/'' (trim_prefix path prefix) of
        [part] \<Rightarrow> unescaped_id part
      | _ \<Rightarrow> None)"

definition path_action_id :: "string \<Rightarrow> string \<Rightarrow> string \<Rightarrow> string option" where
  "path_action_id prefix action path =
     (case split_at CHR ''/'' (trim_prefix path prefix) of
        [part, a] \<Rightarrow> if a = action then unescaped_id part else None
      | _ \<Rightarrow> None)"

section \<open>internal/api: answers\<close>

definition WriteJSON :: "header \<Rightarrow> int \<Rightarrow> json \<Rightarrow> http_response" where
  "WriteJSON h status v =
     \<lparr>rs_Status = status, rs_Header = header_set ''Content-Type'' ''application/json'' h,
      rs_Body = JsonText v\<rparr>"

definition WriteError :: "header \<Rightarrow> int \<Rightarrow> string \<Rightarrow> string \<Rightarrow> http_response" where
  "WriteError h status code message =
     WriteJSON h status
       (JObj [(''error'', JObj [(''code'', JStr code), (''message'', JStr message)])])"

section \<open>internal/api: the bearer token\<close>

definition BearerToken :: "string \<Rightarrow> 's handler \<Rightarrow> 's handler" where
  "BearerToken token next cx rq s =
     (let provided = TrimSpace (trim_prefix (header_get (rq_Header rq) ''Authorization'') ''Bearer '') in
      if token = [] \<or> provided \<noteq> token then
        (WriteError (header_set ''Www-Authenticate'' ''Bearer realm=\"payment-sandbox-admin\"'' []) 401
           ''authentication_required'' ''a valid bearer token is required'', s)
      else next cx rq s)"

section \<open>internal/api: the router\<close>

datatype api_error =
  ErrInvalidAddress | ErrInvalidMethod | ErrInvalidPath | ErrNilHandler | ErrDuplicateRoute

type_synonym 'h routes = "(string \<times> (string \<times> 'h) list) list"

record 'h router =
  rt_routes :: "'h routes"
  rt_prefixRoutes :: "'h routes"

definition NewRouter :: "'h router" where
  "NewRouter = \<lparr>rt_routes = [], rt_prefixRoutes = []\<rparr>"

definition route_methods :: "'h routes \<Rightarrow> string \<Rightarrow> (string \<times> 'h) list" where
  "route_methods r path = (case map_of r path of None \<Rightarrow> [] | Some ms \<Rightarrow> ms)"

definition add_route :: "string \<Rightarrow> string \<Rightarrow> 'h option \<Rightarrow> 'h routes \<Rightarrow> api_error + 'h routes" where
  "add_route method path handler r =
     (if method = [] then Inl ErrInvalidMethod
      else if path = [] \<or> hd path \<noteq> CHR ''/'' then Inl ErrInvalidPath
      else case handler of
        None \<Rightarrow> Inl ErrNilHandler
      | Some f \<Rightarrow>
          if map_of (route_methods r path) method \<noteq> None then Inl ErrDuplicateRoute
          else Inr (put_row fst (path, route_methods r path @ [(method, f)]) r))"

definition Router_Handle :: "string \<Rightarrow> string \<Rightarrow> 'h option \<Rightarrow> 'h router \<Rightarrow> api_error + 'h router" where
  "Router_Handle method path handler r =
     bindR (add_route method path handler (rt_routes r)) (\<lambda>rs. Inr (r\<lparr>rt_routes := rs\<rparr>))"

definition Router_HandlePrefix :: "string \<Rightarrow> string \<Rightarrow> 'h option \<Rightarrow> 'h router \<Rightarrow> api_error + 'h router" where
  "Router_HandlePrefix method prefix handler r =
     bindR (add_route method prefix handler (rt_prefixRoutes r)) (\<lambda>rs. Inr (r\<lparr>rt_prefixRoutes := rs\<rparr>))"

text \<open>The loop over the registered prefixes, in any order.\<close>

fun select_prefix :: "string \<Rightarrow> string list \<Rightarrow> string \<Rightarrow> string" where
  "select_prefix path [] selected = selected"
| "select_prefix path (prefix # ps) selected =
     select_prefix path ps
       (if length prefix > length selected \<and> has_prefix path prefix then prefix else selected)"

definition prefixMethods :: "'h router \<Rightarrow> string \<Rightarrow> (string \<times> 'h) list option" where
  "prefixMethods r path =
     (let selected = select_prefix path (map fst (rt_prefixRoutes r)) [] in
      if selected = [] then None else Some (route_methods (rt_prefixRoutes r) selected))"

fun joinMethods :: "string list \<Rightarrow> string" where
  "joinMethods [] = []"
| "joinMethods [m] = m"
| "joinMethods (m # ms) = m @ '', '' @ joinMethods ms"

definition Router_ServeHTTP :: "'s handler router \<Rightarrow> 's handler" where
  "Router_ServeHTTP r cx rq s =
     (let methods = (case map_of (rt_routes r) (rq_Path rq) of
                       Some ms \<Rightarrow> Some ms | None \<Rightarrow> prefixMethods r (rq_Path rq)) in
      case methods of
        None \<Rightarrow> (WriteError [] 404 ''not_found'' ''route not found'', s)
      | Some ms \<Rightarrow>
          (case map_of ms (rq_Method rq) of
             None \<Rightarrow>
               (WriteError (header_set ''Allow'' (joinMethods (sort (map fst ms))) []) 405
                  ''method_not_allowed'' ''method not allowed'', s)
           | Some handler \<Rightarrow> handler cx rq s))"

section \<open>internal/api: the server\<close>

text \<open>The readiness flag is a part of the server that handlers read.\<close>

record 's server =
  sv_router :: "'s handler router"

definition health_live :: "'s handler" where
  "health_live cx rq s = (WriteJSON [] 200 (JObj [(''status'', JStr ''alive'')]), s)"

definition health_ready :: "('s \<Rightarrow> bool) \<Rightarrow> 's handler" where
  "health_ready ready cx rq s =
     (if \<not> ready s then (WriteJSON [] 503 (JObj [(''status'', JStr ''not_ready'')]), s)
      else (WriteJSON [] 200 (JObj [(''status'', JStr ''ready'')]), s))"

definition NewServer :: "('s \<Rightarrow> bool) \<Rightarrow> string \<Rightarrow> api_error + 's server" where
  "NewServer ready address =
     (if address = [] then Inl ErrInvalidAddress
      else bindR (Router_Handle ''GET'' ''/health/live'' (Some health_live) NewRouter) (\<lambda>r.
           bindR (Router_Handle ''GET'' ''/health/ready'' (Some (health_ready ready)) r) (\<lambda>r.
             Inr \<lparr>sv_router = r\<rparr>)))"

definition Server_Handle :: "string \<Rightarrow> string \<Rightarrow> 's handler \<Rightarrow> 's server \<Rightarrow> api_error + 's server" where
  "Server_Handle method path handler sv =
     bindR (Router_Handle method path (Some handler) (sv_router sv)) (\<lambda>r. Inr (sv\<lparr>sv_router := r\<rparr>))"

definition Server_HandlePrefix :: "string \<Rightarrow> string \<Rightarrow> 's handler \<Rightarrow> 's server \<Rightarrow> api_error + 's server" where
  "Server_HandlePrefix method prefix handler sv =
     bindR (Router_HandlePrefix method prefix (Some handler) (sv_router sv))
       (\<lambda>r. Inr (sv\<lparr>sv_router := r\<rparr>))"

definition HandleAdmin :: "string \<Rightarrow> string \<Rightarrow> 's handler \<Rightarrow> string \<Rightarrow> 's server \<Rightarrow> api_error + 's server" where
  "HandleAdmin method path handler token sv = Server_Handle method path (BearerToken token handler) sv"

definition HandleAdminPrefix ::
  "string \<Rightarrow> string \<Rightarrow> 's handler \<Rightarrow> string \<Rightarrow> 's server \<Rightarrow> api_error + 's server" where
  "HandleAdminPrefix method prefix handler token sv =
     Server_HandlePrefix method prefix (BearerToken token handler) sv"

definition Server_ServeHTTP :: "'s server \<Rightarrow> 's handler" where
  "Server_ServeHTTP sv = Router_ServeHTTP (sv_router sv)"

end
