(* ===== verification/Payment_Http.thy ===== *)
theory Payment_Http
  imports Idempotency Http
begin

text \<open>
  The HTTP interface of payments, \<open>internal/payment/adapters/http/handler.go\<close>: its routes, request
  decoding, answers, and the two layers around every command, the transaction and the replay of
  answers by idempotency key.

  Two parts of a handler stand for the standard library's rendering: \<open>ph_sha256\<close> is the hexadecimal
  SHA-256 digest of a text followed by a body, \<open>ph_text\<close> the text of an error.
\<close>

section \<open>The handler\<close>

record ('s, 'h) payment_handler =
  ph_repository :: "('s, 'h) payment_repository"
  ph_publisher :: "'s publisher option"
  ph_idempotency :: "'s idempotency_repository option"
  ph_transaction ::
    "(ctx \<Rightarrow> (ctx \<Rightarrow> ('s, error, http_response) proc) \<Rightarrow> ('s, error, http_response) proc) option"
  ph_sha256 :: "string \<Rightarrow> bytes \<Rightarrow> string"
  ph_text :: "error \<Rightarrow> string"

datatype payment_http_error = ErrNilRepository

definition NewHandlerWithPublisherAndIdempotencyAndTransaction ::
  "(string \<Rightarrow> bytes \<Rightarrow> string) \<Rightarrow> (error \<Rightarrow> string) \<Rightarrow> ('s, 'h) payment_repository option \<Rightarrow>
     's publisher option \<Rightarrow> 's idempotency_repository option \<Rightarrow>
     (ctx \<Rightarrow> (ctx \<Rightarrow> ('s, error, http_response) proc) \<Rightarrow> ('s, error, http_response) proc) option \<Rightarrow>
     payment_http_error + ('s, 'h) payment_handler" where
  "NewHandlerWithPublisherAndIdempotencyAndTransaction sha256 render repository publisher idempotency
       transaction =
     (case repository of
        None \<Rightarrow> Inl ErrNilRepository
      | Some r \<Rightarrow>
          Inr \<lparr>ph_repository = r, ph_publisher = publisher, ph_idempotency = idempotency,
               ph_transaction = transaction, ph_sha256 = sha256, ph_text = render\<rparr>)"

definition NewHandlerWithPublisherAndIdempotency ::
  "(string \<Rightarrow> bytes \<Rightarrow> string) \<Rightarrow> (error \<Rightarrow> string) \<Rightarrow> ('s, 'h) payment_repository option \<Rightarrow>
     's publisher option \<Rightarrow> 's idempotency_repository option \<Rightarrow>
     payment_http_error + ('s, 'h) payment_handler" where
  "NewHandlerWithPublisherAndIdempotency sha256 render repository publisher idempotency =
     NewHandlerWithPublisherAndIdempotencyAndTransaction sha256 render repository publisher idempotency None"

definition NewHandlerWithPublisher ::
  "(string \<Rightarrow> bytes \<Rightarrow> string) \<Rightarrow> (error \<Rightarrow> string) \<Rightarrow> ('s, 'h) payment_repository option \<Rightarrow>
     's publisher option \<Rightarrow> payment_http_error + ('s, 'h) payment_handler" where
  "NewHandlerWithPublisher sha256 render repository publisher =
     NewHandlerWithPublisherAndIdempotencyAndTransaction sha256 render repository publisher None None"

definition NewHandler ::
  "(string \<Rightarrow> bytes \<Rightarrow> string) \<Rightarrow> (error \<Rightarrow> string) \<Rightarrow> ('s, 'h) payment_repository option \<Rightarrow>
     payment_http_error + ('s, 'h) payment_handler" where
  "NewHandler sha256 render repository = NewHandlerWithPublisher sha256 render repository None"

text \<open>The replayable headers: the name in a record and the canonical name in a response.\<close>

definition replayableResponseHeaders :: "(string \<times> string) list" where
  "replayableResponseHeaders =
     [(''Content-Type'', ''Content-Type''), (''Location'', ''Location''),
      (''X-Correlation-ID'', ''X-Correlation-Id'')]"

section \<open>The transaction\<close>

definition transactional :: "('s, 'h) payment_handler \<Rightarrow> 's handler \<Rightarrow> 's handler" where
  "transactional h next cx rq =
     (case ph_transaction h of
        None \<Rightarrow> next cx rq
      | Some within \<Rightarrow>
         (\<lambda>s. case within cx (\<lambda>cx s. case next cx rq s of (resp, s') \<Rightarrow>
                    if rs_Status resp \<ge> 500
                      then (Inl (Message ''payment request failed; transaction rolled back''), s')
                    else (Inr resp, s')) s of
               (Inl e, s') \<Rightarrow> (WriteError [] 500 ''internal_error'' (ph_text h e), s')
             | (Inr resp, s') \<Rightarrow> (resp, s')))"

section \<open>Idempotency\<close>

definition idempotency_key :: "http_req \<Rightarrow> string" where
  "idempotency_key rq = TrimSpace (header_get (rq_Header rq) ''Idempotency-Key'')"

definition request_scope :: "http_req \<Rightarrow> string" where
  "request_scope rq = rq_Method rq @ '' '' @ rq_Path rq"

definition request_fingerprint :: "('s, 'h) payment_handler \<Rightarrow> http_req \<Rightarrow> bytes \<Rightarrow> string" where
  "request_fingerprint h rq body = ph_sha256 h (rq_Method rq @ '' '' @ rq_Path rq @ [CHR 0x0A]) body"

definition new_record :: "('s, 'h) payment_handler \<Rightarrow> http_req \<Rightarrow> bytes \<Rightarrow> idem_record" where
  "new_record h rq body =
     \<lparr>id_Scope = request_scope rq, id_Key = idempotency_key rq,
      id_Fingerprint = request_fingerprint h rq body, id_Status = ''processing'',
      id_ResponseStatus = 0, id_ResponseBody = NoBytes, id_ResponseHeaders = []\<rparr>"

definition completed_record :: "idem_record \<Rightarrow> http_response \<Rightarrow> idem_record" where
  "completed_record r resp =
     r\<lparr>id_Status := ''completed'', id_ResponseStatus := rs_Status resp, id_ResponseBody := rs_Body resp,
       id_ResponseHeaders :=
         filter (\<lambda>(name, vs). vs \<noteq> [])
           (map (\<lambda>(name, canonical). (name, header_values (rs_Header resp) canonical))
             replayableResponseHeaders)\<rparr>"

definition replay_response :: "idem_record \<Rightarrow> http_response" where
  "replay_response e =
     \<lparr>rs_Status = id_ResponseStatus e,
      rs_Header =
        filter (\<lambda>(name, vs). vs \<noteq> [])
          (map (\<lambda>(name, canonical). (canonical, header_values (id_ResponseHeaders e) name))
            replayableResponseHeaders),
      rs_Body = id_ResponseBody e\<rparr>"

text \<open>The request runs, with the reservation made.\<close>

definition run_reserved ::
  "('s, 'h) payment_handler \<Rightarrow> 's idempotency_repository \<Rightarrow> 's handler \<Rightarrow> ctx \<Rightarrow> http_req \<Rightarrow>
     idem_record \<Rightarrow> 's \<Rightarrow> http_response \<times> 's" where
  "run_reserved h repo next cx rq r s =
     (case next cx rq s of
        (resp, s1) \<Rightarrow>
          if rs_Status resp \<ge> 500
            then (resp, snd (ip_Release repo cx (id_Scope r) (id_Key r) (id_Fingerprint r) s1))
          else (case ip_Complete repo cx (completed_record r resp) s1 of
                  (Inl e, s2) \<Rightarrow> (WriteError [] 500 ''internal_error'' (ph_text h e), s2)
                | (Inr u, s2) \<Rightarrow> (resp, s2)))"

text \<open>The place is taken by the same request: its answer, when there is one.\<close>

definition replay_stored ::
  "('s, 'h) payment_handler \<Rightarrow> 's idempotency_repository \<Rightarrow> ctx \<Rightarrow> idem_record \<Rightarrow> 's \<Rightarrow>
     http_response \<times> 's" where
  "replay_stored h repo cx r s =
     (case ip_Find repo cx (id_Scope r) (id_Key r) s of
        (Inl e, s1) \<Rightarrow> (WriteError [] 500 ''internal_error'' (ph_text h e), s1)
      | (Inr existing, s1) \<Rightarrow>
          if id_Status existing \<noteq> ''completed''
            then (WriteError [] 409 ''idempotency_in_progress''
                    ''an identical request is already being processed'', s1)
          else (replay_response existing, s1))"

definition idempotent :: "('s, 'h) payment_handler \<Rightarrow> 's handler \<Rightarrow> 's handler" where
  "idempotent h next cx rq s =
     (case ph_idempotency h of
        None \<Rightarrow> next cx rq s
      | Some repo \<Rightarrow>
          if idempotency_key rq = [] then next cx rq s
          else if length (idempotency_key rq) > 255
            then (WriteError [] 400 ''invalid_request'' ''Idempotency-Key is too long'', s)
          else (case rq_Body rq of
            None \<Rightarrow> (WriteError [] 400 ''invalid_request'' ''cannot read request body'', s)
          | Some body \<Rightarrow>
              let r = new_record h rq body in
              (case ip_Reserve repo cx r s of
                 (Inl e, s1) \<Rightarrow>
                   if errors_Is e (Idempotency ErrFingerprintConflict)
                     then (WriteError [] 409 ''idempotency_conflict'' (ph_text h e), s1)
                   else (WriteError [] 500 ''internal_error'' (ph_text h e), s1)
               | (Inr reserved, s1) \<Rightarrow>
                   if \<not> reserved then replay_stored h repo cx r s1
                   else run_reserved h repo next cx rq r s1)))"

section \<open>Request metadata and bodies\<close>

definition derivedCorrelationID :: "('s, 'h) payment_handler \<Rightarrow> http_req \<Rightarrow> error + string" where
  "derivedCorrelationID h rq =
     (case rq_Body rq of
        None \<Rightarrow> Inl (Message ''read request body for correlation id'')
      | Some body \<Rightarrow>
          Inr (''derived-'' @ ph_sha256 h
            (rq_Method rq @ '' '' @ rq_EscapedPath rq @ ''?'' @ rq_RawQuery rq @ [CHR 0x0A]) body))"

definition printable :: "string \<Rightarrow> bool" where
  "printable s \<longleftrightarrow> (\<forall>c \<in> set s. \<not> ((of_char c :: nat) < 32 \<or> (of_char c :: nat) = 127))"

text \<open>The headers set so far and the context of the request, or an answer.\<close>

definition withRequestMetadata ::
  "('s, 'h) payment_handler \<Rightarrow> ctx \<Rightarrow> http_req \<Rightarrow> http_response + header \<times> ctx" where
  "withRequestMetadata h cx rq =
     (let given = TrimSpace (header_get (rq_Header rq) ''X-Correlation-Id'') in
      case (if given = [] then derivedCorrelationID h rq else Inr given) of
        Inl e \<Rightarrow> Inl (WriteError [] 500 ''internal_error'' (ph_text h e))
      | Inr correlationID \<Rightarrow>
          if length correlationID > 128 \<or> \<not> printable correlationID
            then Inl (WriteError [] 400 ''invalid_request''
              ''X-Correlation-ID must be a printable value of at most 128 characters'')
          else Inr (header_set ''X-Correlation-Id'' correlationID [],
                    WithMetadata \<lparr>md_CorrelationID = correlationID, md_CausationID = []\<rparr> cx))"

text \<open>Decoding rejects unknown members and anything after the first value.\<close>

definition decodeJSON ::
  "(string \<Rightarrow> json \<Rightarrow> 'a \<Rightarrow> 'a option) \<Rightarrow> 'a \<Rightarrow> header \<Rightarrow> http_req \<Rightarrow> http_response + 'a" where
  "decodeJSON member zero hdr rq =
     (if \<not> has_prefix (header_get (rq_Header rq) ''Content-Type'') ''application/json''
        then Inl (WriteError hdr 415 ''unsupported_media_type'' ''Content-Type must be application/json'')
      else (case rq_Body rq of
        None \<Rightarrow> Inl (WriteError hdr 400 ''invalid_request'' ''invalid JSON request body'')
      | Some body \<Rightarrow>
          mapErr (WriteError hdr 400 ''invalid_request'') (decode_document (json_struct member zero) body)))"

definition create_member :: "string \<Rightarrow> json \<Rightarrow> create_command \<Rightarrow> create_command option" where
  "create_member k v x =
     (if names k ''id'' then map_option (\<lambda>a. x\<lparr>cc_ID := a\<rparr>) (json_string (cc_ID x) v)
      else if names k ''amount'' then map_option (\<lambda>a. x\<lparr>cc_Amount := a\<rparr>) (json_int64 (cc_Amount x) v)
      else if names k ''currency''
        then map_option (\<lambda>a. x\<lparr>cc_Currency := a\<rparr>) (json_string (cc_Currency x) v)
      else None)"

definition amount_member :: "string \<Rightarrow> json \<Rightarrow> amount_command \<Rightarrow> amount_command option" where
  "amount_member k v x =
     (if names k ''amount'' then map_option (\<lambda>a. x\<lparr>ac_Amount := a\<rparr>) (json_int64 (ac_Amount x) v)
      else if names k ''currency''
        then map_option (\<lambda>a. x\<lparr>ac_Currency := a\<rparr>) (json_string (ac_Currency x) v)
      else None)"

section \<open>Answers\<close>

definition newPaymentResponse :: "payment \<Rightarrow> json" where
  "newPaymentResponse p =
     JObj [(''id'', JStr (p_id p)), (''amount'', JNum (sint (money_amount (p_amount p)))),
       (''currency'', JStr (money_currency (p_amount p))), (''status'', JStr (status_text (p_status p))),
       (''authorized_amount'', JNum (sint (money_amount (AuthorizedAmount p)))),
       (''captured_amount'', JNum (sint (money_amount (CapturedAmount p)))),
       (''refunded_amount'', JNum (sint (money_amount (RefundedAmount p)))),
       (''version'', JNum (uint (p_version p)))]"

definition payment_error_status :: "error \<Rightarrow> int \<times> string" where
  "payment_error_status e =
     (if errors_Is e (PaymentApp ErrPaymentNotFound) then (404, ''payment_not_found'')
      else if errors_Is e (Payment ErrInvalidTransition) \<or>
              errors_Is e (Payment ErrInvalidCapturedAmount) \<or>
              errors_Is e (Payment ErrInvalidRefundedAmount) \<or>
              errors_Is e (PaymentApp ErrPaymentVersionConflict)
        then (409, ''payment_operation_rejected'')
      else if errors_Is e (Payment ErrInvalidPaymentID) \<or>
              errors_Is e (Payment ErrInvalidMoneyAmount) \<or>
              errors_Is e (Payment ErrInvalidCurrency)
        then (400, ''invalid_request'')
      else (500, ''internal_error''))"

definition writePaymentError :: "('s, 'h) payment_handler \<Rightarrow> header \<Rightarrow> error \<Rightarrow> http_response" where
  "writePaymentError h hdr e =
     WriteError hdr (fst (payment_error_status e)) (snd (payment_error_status e)) (ph_text h e)"

definition answer_payment ::
  "('s, 'h) payment_handler \<Rightarrow> header \<Rightarrow> (error + 'h) \<times> 's \<Rightarrow> http_response \<times> 's" where
  "answer_payment h hdr result =
     (case result of
        (Inl e, s') \<Rightarrow> (writePaymentError h hdr e, s')
      | (Inr p, s') \<Rightarrow> (WriteJSON hdr 200 (newPaymentResponse (rp_value (ph_repository h) p s')), s'))"

definition answer_created ::
  "('s, 'h) payment_handler \<Rightarrow> header \<Rightarrow> (error + 'h) \<times> 's \<Rightarrow> http_response \<times> 's" where
  "answer_created h hdr result =
     (case result of
        (Inl e, s') \<Rightarrow> (writePaymentError h hdr e, s')
      | (Inr p, s') \<Rightarrow>
          let v = rp_value (ph_repository h) p s' in
          (WriteJSON (header_set ''Location'' (''/payments/'' @ PathEscape (p_id v)) hdr) 201
             (newPaymentResponse v), s'))"

section \<open>The routes\<close>

definition createPayment :: "('s, 'h) payment_handler \<Rightarrow> 's handler" where
  "createPayment h cx rq s =
     (case withRequestMetadata h cx rq of
        Inl resp \<Rightarrow> (resp, s)
      | Inr (hdr, cx) \<Rightarrow>
          (case decodeJSON create_member \<lparr>cc_ID = [], cc_Amount = 0, cc_Currency = []\<rparr> hdr rq of
             Inl resp \<Rightarrow> (resp, s)
           | Inr input \<Rightarrow>
               answer_created h hdr
                 (CreatePayment_Execute (ph_repository h) (ph_publisher h) cx input s)))"

definition paymentID :: "string \<Rightarrow> string option" where
  "paymentID path =
     (case split_at CHR ''/'' (trim_prefix path ''/payments/'') of
        [part] \<Rightarrow>
          if part = [] then None
          else (case PathUnescape part of Some i \<Rightarrow> if i = [] then None else Some i | None \<Rightarrow> None)
      | _ \<Rightarrow> None)"

definition getPayment :: "('s, 'h) payment_handler \<Rightarrow> 's handler" where
  "getPayment h cx rq s =
     (case withRequestMetadata h cx rq of
        Inl resp \<Rightarrow> (resp, s)
      | Inr (hdr, cx) \<Rightarrow>
          (case paymentID (rq_Path rq) of
             None \<Rightarrow> (WriteError hdr 404 ''not_found'' ''payment route not found'', s)
           | Some i \<Rightarrow> answer_payment h hdr (GetPayment_Execute (ph_repository h) cx i s)))"

definition amount_command_of :: "string \<Rightarrow> header \<Rightarrow> http_req \<Rightarrow> http_response + amount_command" where
  "amount_command_of i hdr rq =
     decodeJSON amount_member \<lparr>ac_PaymentID = i, ac_Amount = 0, ac_Currency = []\<rparr> hdr rq"

text \<open>The service that the action names, or an answer.\<close>

definition command_request :: "string \<Rightarrow> string \<Rightarrow> header \<Rightarrow> http_req \<Rightarrow> http_response + request" where
  "command_request action i hdr rq =
     (if action = ''authorize'' then Inr (RequestAuthorize i)
      else if action = ''capture'' then bindR (amount_command_of i hdr rq) (\<lambda>c. Inr (RequestCapture c))
      else if action = ''refund'' then bindR (amount_command_of i hdr rq) (\<lambda>c. Inr (RequestRefund c))
      else if action = ''cancel'' then Inr (RequestCancel i)
      else Inl (WriteError hdr 404 ''not_found'' ''payment route not found''))"

definition command :: "('s, 'h) payment_handler \<Rightarrow> 's handler" where
  "command h cx rq s =
     (case withRequestMetadata h cx rq of
        Inl resp \<Rightarrow> (resp, s)
      | Inr (hdr, cx) \<Rightarrow>
          (case split_at CHR ''/'' (trim_prefix (rq_Path rq) ''/payments/'') of
             [part, action] \<Rightarrow>
               if part = [] \<or> action = []
                 then (WriteError hdr 404 ''not_found'' ''payment route not found'', s)
               else (case PathUnescape part of
                   None \<Rightarrow> (WriteError hdr 400 ''invalid_request'' ''invalid payment id'', s)
                 | Some i \<Rightarrow>
                     if i = [] then (WriteError hdr 400 ''invalid_request'' ''invalid payment id'', s)
                     else (case command_request action i hdr rq of
                         Inl resp \<Rightarrow> (resp, s)
                       | Inr r \<Rightarrow>
                           answer_payment h hdr (service (ph_repository h) (ph_publisher h) cx r s)))
           | _ \<Rightarrow> (WriteError hdr 404 ''not_found'' ''payment route not found'', s)))"

definition Payment_Register :: "('s, 'h) payment_handler \<Rightarrow> 's server \<Rightarrow> api_error + 's server" where
  "Payment_Register h sv =
     bindR (Server_Handle ''POST'' ''/payments'' (transactional h (idempotent h (createPayment h))) sv) (\<lambda>sv.
     bindR (Server_HandlePrefix ''GET'' ''/payments/'' (getPayment h) sv) (\<lambda>sv.
       Server_HandlePrefix ''POST'' ''/payments/'' (transactional h (idempotent h (command h))) sv))"

text \<open>The handler of the running program.\<close>

definition runtime_payments ::
  "net_library \<Rightarrow> (string \<Rightarrow> bytes \<Rightarrow> string) \<Rightarrow> (error \<Rightarrow> string) \<Rightarrow> (world, payment) payment_handler" where
  "runtime_payments net sha256 render =
     \<lparr>ph_repository = sqlite_repository, ph_publisher = Some (PaymentEventPublisher_Publish net),
      ph_idempotency = Some sqlite_idempotency, ph_transaction = Some WithinContext,
      ph_sha256 = sha256, ph_text = render\<rparr>"

lemma runtime_payments_composed:
  "NewHandlerWithPublisherAndIdempotencyAndTransaction sha256 render (Some sqlite_repository)
     (Some (PaymentEventPublisher_Publish net)) (Some sqlite_idempotency) (Some WithinContext) =
   Inr (runtime_payments net sha256 render)"
  by (simp add: NewHandlerWithPublisherAndIdempotencyAndTransaction_def runtime_payments_def)

text \<open>
  The layers only do something when they are asked for: a handler made without a transaction and an
  idempotency repository runs its routes as they are.
\<close>

lemma plain_handler_layers:
  assumes "NewHandler sha256 render repository = Inr h"
  shows "transactional h (idempotent h next) cx rq s = next cx rq s"
  using assms
  by (auto simp: NewHandler_def NewHandlerWithPublisher_def transactional_def idempotent_def
      NewHandlerWithPublisherAndIdempotencyAndTransaction_def split: option.splits)

end
