(* ===== verification/Payment_History.thy ===== *)
theory Payment_History
  imports Event_Publisher
begin

text \<open>
  The link between the two durable forms of a payment: its row in \<open>payments\<close> and its events in
  \<open>event_log\<close>. Every payment command of the running program (a service over the SQLite
  repository with the publisher) keeps the log a complete history of each payment, whatever
  statements fail, so that replaying the log gives the stored payment.
\<close>

section \<open>The invariant\<close>

text \<open>
  The log tells the history of \<open>i\<close>: an identity without a row has no events; the events of one
  with a row are numbered from 1 without a gap and the last of them records the stored payment.
\<close>

definition history_recorded :: "db \<Rightarrow> string \<Rightarrow> bool" where
  "history_recorded d i \<longleftrightarrow>
     (case find_row i d of
        None \<Rightarrow> aggregate_rows i d = []
      | Some r \<Rightarrow>
          (\<exists>es ps. collectR restore_event_row (aggregate_rows i d) = Inr es \<and> history i 1 es ps \<and>
             ps \<noteq> [] \<and> int (length ps) < 2 ^ 63 \<and> stored_payment d i = Some (last ps)))"

definition log_consistent :: "world \<Rightarrow> bool" where
  "log_consistent w \<longleftrightarrow>
     (\<forall>i. history_recorded (w_db w) i) \<and>
     (\<forall>r \<in> set (t_event_log (w_db w)). er_occurred_at r \<le> business_now w)"

lemma history_recorded_tables:
  assumes "t_payments d' = t_payments d" and "t_event_log d' = t_event_log d"
  shows "history_recorded d' i = history_recorded d i"
proof -
  have "find_row i d' = find_row i d" and "aggregate_rows i d' = aggregate_rows i d"
    using assms by (simp_all add: find_row_def aggregate_rows_def)
  moreover from this(1) have "stored_payment d' i = stored_payment d i"
    by (simp add: stored_payment_def)
  ultimately show ?thesis by (simp add: history_recorded_def split: option.split)
qed

lemma log_consistent_tables:
  assumes "t_payments (w_db w') = t_payments (w_db w)"
    and "t_event_log (w_db w') = t_event_log (w_db w)" and "business_now w' = business_now w"
  shows "log_consistent w' = log_consistent w"
  using history_recorded_tables [OF assms(1,2)] assms(2,3) by (simp add: log_consistent_def)

lemma restore_event_row_fields:
  assumes "restore_event_row r = Inr e"
  shows "er_aggregate_version r = uint (be_aggregateVersion e)"
  using assms
  by (auto simp: restore_event_row_def bindR_Inr_iff scan_uint64_Inr_iff WithRuntimeSequence_def
      NewBusinessEventWithPayload_def Let_def split: option.splits)

lemma uint_word_of_nat_small: "int n < 2 ^ 63 \<Longrightarrow> uint (word_of_nat n :: uint64) = int n"
  by (simp add: uint_nat unat_of_nat)

lemma uint_inc_storable:
  assumes "version_storable p"
  shows "uint (p_version p + 1) = uint (p_version p) + 1"
proof -
  have "p_version p \<noteq> - 1"
  proof
    assume "p_version p = - 1"
    then have "uint (p_version p) = 2 ^ 64 - 1"
      by (simp add: unsigned_minus_1_eq_mask mask_eq_exp_minus_1)
    with assms show False by (simp add: version_storable_def)
  qed
  from arg_cong [OF unat_inc_exact [OF this], of int] show ?thesis by simp
qed

text \<open>In a recorded history the versions of the rows are below that of the stored payment.\<close>

lemma history_recorded_versions:
  assumes "history_recorded d i" and "stored_payment d i = Some p" and "r \<in> set (aggregate_rows i d)"
  shows "er_aggregate_version r \<le> uint (p_version p)"
    and "uint (p_version p) = int (length (aggregate_rows i d))"
proof -
  from stored_paymentD(4) [OF assms(2)] assms(1,2) obtain es ps
    where c: "collectR restore_event_row (aggregate_rows i d) = Inr es" and h: "history i 1 es ps"
      and ne: "ps \<noteq> []" and len: "int (length ps) < 2 ^ 63" and p: "p = last ps"
    by (auto simp: history_recorded_def)
  note lens = history_length [OF h]
  from c have le: "length es = length (aggregate_rows i d)" by (simp add: collectR_Inr_iff)
  have ver: "be_aggregateVersion (es ! k) = word_of_nat (k + 1)" "p_version (ps ! k) = word_of_nat (k + 1)"
    if "k < length es" for k using event_recordsD(3,5) [OF history_nth [OF h that]] by simp_all
  have "0 < length ps" using ne by simp
  with lens ver(2) [of "length ps - 1"] have "p_version p = word_of_nat (length ps)"
    by (simp add: p last_conv_nth [OF ne] del: of_nat_Suc)
  then show v: "uint (p_version p) = int (length (aggregate_rows i d))"
    using len lens le by (simp add: uint_word_of_nat_small)
  from assms(3) obtain k where k: "k < length es" and r: "r = aggregate_rows i d ! k"
    using le by (metis in_set_conv_nth)
  with c have "restore_event_row r = Inr (es ! k)" by (simp add: collectR_Inr_iff)
  then have "er_aggregate_version r = int (k + 1)"
    using ver(1) [OF k] k len lens uint_word_of_nat_small [of "k + 1"]
    by (simp add: restore_event_row_fields del: of_nat_Suc of_nat_add)
  with k le v show "er_aggregate_version r \<le> uint (p_version p)" by simp
qed

section \<open>Recording one transition\<close>

lemma event_of_records:
  assumes "event_of q t at e" and "payment_ok q" and "p_version q = word_of_nat n"
  shows "event_records (p_id q) n (WithRuntimeSequence m e) q"
proof -
  have "Unmarshal_snapshot (Marshal_snapshot (NewEventSnapshot q)) = Inr (NewEventSnapshot q)"
    using payment_ok_status [OF assms(2)]
    by (intro Unmarshal_Marshal_snapshot) (simp add: NewEventSnapshot_def)
  with assms EventSnapshot_Restore_New [OF assms(2)] show ?thesis
    by (simp add: event_records_def event_of_def BusinessEvent_Validate_WithRuntimeSequence)
       (simp add: WithRuntimeSequence_def NewEventSnapshot_def)
qed

text \<open>
  The event of the next version extends the history of its payment, and the other histories
  stay as they are.
\<close>

lemma history_recorded_extend:
  assumes rec: "\<And>i. history_recorded d i"
    and old: "find_row (p_id q) d = None \<and> p_version q = 1 \<or>
              (\<exists>p. stored_payment d (p_id q) = Some p \<and> p_version q = p_version p + 1)"
    and ok: "payment_ok q" and ver: "version_storable q"
    and row: "restore_event_row r = Inr e" and ev: "\<And>n. p_version q = word_of_nat n \<Longrightarrow> event_records (p_id q) n e q"
    and agg: "er_aggregate_id r = p_id q"
    and times: "\<And>x. x \<in> set (t_event_log d) \<Longrightarrow> er_occurred_at x \<le> er_occurred_at r"
    and log': "t_event_log d' = t_event_log d @ [r]"
    and row': "find_row (p_id q) d' = Some (payment_row_of q (uint (p_version q)))"
    and rows': "\<And>i. i \<noteq> p_id q \<Longrightarrow> find_row i d' = find_row i d"
  shows "history_recorded d' i"
proof -
  let ?rows = "aggregate_rows (p_id q) d"
  have len: "uint (p_version q) = int (length ?rows) + 1 \<and>
      (\<forall>x \<in> set ?rows. er_aggregate_version x < uint (p_version q)) \<and>
      (\<exists>es ps. collectR restore_event_row ?rows = Inr es \<and> history (p_id q) 1 es ps)"
  proof (cases "find_row (p_id q) d")
    case None
    with rec [of "p_id q"] have "?rows = []" by (simp add: history_recorded_def)
    moreover from None old have "p_version q = 1" by (auto simp: stored_payment_def)
    ultimately show ?thesis by auto
  next
    case (Some x)
    with old obtain p where p: "stored_payment d (p_id q) = Some p" and v: "p_version q = p_version p + 1"
      by auto
    have "uint (p_version q) = uint (p_version p) + 1"
      unfolding v by (rule uint_inc_storable) (rule stored_paymentD(3) [OF p])
    with history_recorded_versions [OF rec p] rec [of "p_id q"] Some show ?thesis
      by (force simp: history_recorded_def)
  qed
  then have vq: "p_version q = word_of_nat (length ?rows + 1)"
    by (metis of_nat_1 of_nat_add of_int_of_nat_eq word_of_int_uint)
  show ?thesis
  proof (cases "i = p_id q")
    case False
    have "aggregate_rows i d' = aggregate_rows i d"
      using False agg by (simp add: aggregate_rows_def log')
    moreover have "find_row i d' = find_row i d" using rows' [OF False] .
    ultimately show ?thesis
      using rec [of i] by (simp add: history_recorded_def stored_payment_def split: option.splits)
  next
    case True
    have "restore_event_row r = Inr e" by (fact row)
    then have rv: "er_aggregate_version r = uint (p_version q)"
      using event_recordsD(5) [OF ev [OF vq]] vq by (simp add: restore_event_row_fields)
    have "aggregate_rows i d' = ?rows @ [r]"
    proof -
      have "event_order x \<le> event_order r"
        if "x \<in> set (t_event_log d)" and "er_aggregate_id x = er_aggregate_id r" for x
      proof -
        from that agg have "x \<in> set ?rows" by (simp add: set_aggregate_rows)
        with len rv have "er_aggregate_version x < er_aggregate_version r" by auto
        with times [OF that(1)] show ?thesis by (auto simp: event_order_def less_eq_prod_def)
      qed
      from aggregate_rows_append [OF this log'] True agg show ?thesis by simp
    qed
    moreover from len obtain es ps where c: "collectR restore_event_row ?rows = Inr es"
      and h: "history (p_id q) 1 es ps" by blast
    have "history (p_id q) 1 (es @ [e]) (ps @ [q])"
      using h ev [OF vq] c by (simp add: history_snoc collectR_Inr_iff)
    moreover have "collectR restore_event_row (?rows @ [r]) = Inr (es @ [e])"
      using c row by (rule collectR_Inr_append)
    moreover have "int (length (ps @ [q])) < 2 ^ 63"
      using history_length [OF h] c len ver by (simp add: collectR_Inr_iff version_storable_def)
    moreover have "stored_payment d' i = Some q"
      using row' restore_payment_row_of [OF ok ver] True by (simp add: stored_payment_def)
    ultimately show ?thesis
      using row' True by (force simp: history_recorded_def)
  qed
qed

section \<open>Procedures that leave the clock alone\<close>

definition clock_kept :: "'a act \<Rightarrow> bool" where
  "clock_kept m \<longleftrightarrow> (\<forall>w. w_clock (snd (m w)) = w_clock w)"

named_theorems clock_intros \<open>procedures that leave the virtual clock alone\<close>

lemma clock_keptD: "clock_kept m \<Longrightarrow> m w = (r, w') \<Longrightarrow> business_now w' = business_now w"
  unfolding clock_kept_def business_now_def by (metis snd_conv)

lemma clock_kept_same: "clock_kept m \<Longrightarrow> m w = (r, w') \<Longrightarrow> w_clock w' = w_clock w"
  unfolding clock_kept_def by (metis snd_conv)

lemma clock_keptI: "(\<And>w r w'. m w = (r, w') \<Longrightarrow> w_clock w' = w_clock w) \<Longrightarrow> clock_kept m"
  unfolding clock_kept_def by (metis prod.collapse)

lemma db_local_clock: "db_local m \<Longrightarrow> clock_kept m"
  by (simp add: db_local_def clock_kept_def surroundings_def)

lemma clock_kept_bind [clock_intros]:
  "clock_kept m \<Longrightarrow> (\<And>x. clock_kept (f x)) \<Longrightarrow> clock_kept (bindP m f)"
  unfolding clock_kept_def bindP_def by (auto split: prod.splits sum.splits) (metis snd_conv)+

lemma clock_kept_cases [clock_intros]:
  "(c \<Longrightarrow> clock_kept m) \<Longrightarrow> (\<not> c \<Longrightarrow> clock_kept n) \<Longrightarrow> clock_kept (if c then m else n)"
  by simp

lemma clock_kept_basic [clock_intros]:
  "clock_kept (returnP x)" "clock_kept (liftP r)" "clock_kept (readP g)"
  by (simp_all add: clock_kept_def)

lemma clock_kept_each [clock_intros]: "(\<And>x. clock_kept (f x)) \<Longrightarrow> clock_kept (eachP f xs)"
  by (induction xs) (auto intro!: clock_intros)

lemma clock_kept_NewCorrelationID [clock_intros]: "clock_kept NewCorrelationID"
  by (simp add: clock_kept_def NewCorrelationID_def split: list.split option.split)

lemma clock_kept_in_transaction [clock_intros]:
  assumes "\<And>c. clock_kept (fn c)" shows "clock_kept (in_transaction cx fn)"
proof -
  have "clock_kept (WithinTransaction m)" if "clock_kept m" for m :: "'a act"
  proof -
    have "clock_kept control" by (simp add: control_def db_local_clock local_intros)
    note kept = clock_kept_same [OF this] clock_kept_same [OF that]
    show ?thesis
    proof (rule clock_keptI)
      fix w r w' assume "WithinTransaction m w = (r, w')"
      then show "w_clock w' = w_clock w"
        by (auto simp: WithinTransaction_def split: prod.splits sum.splits dest!: kept)
    qed
  qed
  with assms show ?thesis by (simp add: in_transaction_def WithinContext_def)
qed

lemma scheduleDelivery_clock [clock_intros]: "clock_kept (scheduleDelivery cx event body at e)"
  by (simp add: scheduleDelivery_def db_local_clock local_intros)

lemma next_event_clock [clock_intros]: "clock_kept (next_event cx p t at)"
  by (simp add: next_event_def correlation_of_def Let_def clock_intros db_local_clock local_intros)

lemma Publish_clock [clock_intros]: "clock_kept (PaymentEventPublisher_Publish net cx p t)"
  by (simp add: PaymentEventPublisher_Publish_def clock_intros db_local_clock local_intros
      Endpoint_List_frame)

lemma save_and_publish_clock [clock_intros]:
  "clock_kept (save_and_publish sqlite_repository (Some (PaymentEventPublisher_Publish net)) t cx q)"
  by (simp add: save_and_publish_def clock_intros db_local_clock local_intros)

lemma service_clock:
  "clock_kept (service sqlite_repository (Some (PaymentEventPublisher_Publish net)) cx r)"
  by (simp add: service_body withinRepositoryTransaction_def Repository_WithinContext_eq
      request_body_def clock_intros db_local_clock local_intros)

lemma CreatePayment_clock:
  "clock_kept (CreatePayment_Execute sqlite_repository (Some (PaymentEventPublisher_Publish net)) cx c)"
  by (simp add: CreatePayment_Execute_def Repository_WithinContext_eq CreatePayment_execute_def
      clock_intros db_local_clock local_intros)

section \<open>The commands keep the log consistent\<close>

lemma find_row_same: "t_payments d' = t_payments d \<Longrightarrow> find_row i d' = find_row i d"
  by (simp add: find_row_def)

lemma save_and_publish_records:
  assumes run: "save_and_publish sqlite_repository (Some (PaymentEventPublisher_Publish net)) t cx q w =
                  (Inr h, w')"
    and con: "log_consistent w" and ok: "payment_ok q"
    and old: "stored w (p_id q) = None \<and> p_version q = 1 \<or>
              (\<exists>p. stored w (p_id q) = Some p \<and> p_amount q = p_amount p \<and> p_version q = p_version p + 1)"
  shows "log_consistent w'"
proof -
  let ?d = "w_db w" and ?d' = "w_db w'"
  from run obtain u w1 v where sv: "Repository_Save cx q w = (Inr u, w1)"
    and pub: "PaymentEventPublisher_Publish net cx q t w1 = (Inr v, w')"
    by (auto simp: save_and_publish_def elim!: bindP_InrE)
  note S = Repository_Save_Inr [OF sv]
  have now: "business_now w1 = business_now w" using S(4) by (rule surroundings_now)
  from pub obtain e and n :: uint64 where e: "event_of q t (business_now w1) e" and n: "uint n < 2 ^ 63"
    and p': "t_payments ?d' = t_payments (w_db w1)"
    and l': "t_event_log ?d' = t_event_log (w_db w1) @ [event_row_of e (uint (p_version q)) (uint n)]"
    and now': "business_now w' = business_now w1" and range: "time_in_range (business_now w1)"
    by (rule Publish_Inr) (rule that)
  let ?r = "event_row_of e (uint (p_version q)) (uint n)"
  have fresh: "find_row (p_id q) ?d = None" if "stored w (p_id q) = None"
    using that con by (force simp: log_consistent_def history_recorded_def stored_def split: option.splits)
  have srow: "saved_row q ?d = payment_row_of q (uint (p_version q))"
    using old
  proof
    assume "stored w (p_id q) = None \<and> p_version q = 1"
    with fresh show ?thesis by (simp add: saved_row_def)
  next
    assume "\<exists>p. stored w (p_id q) = Some p \<and> p_amount q = p_amount p \<and> p_version q = p_version p + 1"
    then show ?thesis by (auto simp: stored_def intro: saved_row_successor)
  qed
  have rows: "find_row i ?d' = (if i = p_id q then Some (saved_row q ?d) else find_row i ?d)" for i
    using find_row_same [OF p', of i] by (simp add: S(3))
  have at: "be_occurredAt e = business_now w1" and val: "BusinessEvent_Validate e = None"
    and ver: "be_aggregateVersion e = p_version q" and agg: "be_aggregateID e = p_id q"
    using e by (simp_all add: event_of_def)
  have restore: "restore_event_row ?r = Inr (WithRuntimeSequence n e)"
    using restore_event_row_of [OF val _ _ n] S(2) range by (simp add: at ver version_storable_def)
  have rec': "history_recorded ?d' i" for i
  proof (rule history_recorded_extend [of ?d q ?r "WithRuntimeSequence n e"])
    show "find_row (p_id q) ?d = None \<and> p_version q = 1 \<or>
        (\<exists>p. stored_payment ?d (p_id q) = Some p \<and> p_version q = p_version p + 1)"
      using old fresh by (auto simp: stored_def)
    show "event_records (p_id q) k (WithRuntimeSequence n e) q" if "p_version q = word_of_nat k" for k
      by (rule event_of_records [OF e ok that])
    show "find_row (p_id q) ?d' = Some (payment_row_of q (uint (p_version q)))"
      using rows srow by simp
    show "find_row j ?d' = find_row j ?d" if "j \<noteq> p_id q" for j
      using rows that by simp
    show "er_occurred_at x \<le> er_occurred_at ?r" if "x \<in> set (t_event_log ?d)" for x
      using con that by (simp add: log_consistent_def event_row_of_def at now)
    show "t_event_log ?d' = t_event_log ?d @ [?r]" by (simp add: l' S(3))
    show "history_recorded ?d j" for j using con by (simp add: log_consistent_def)
  qed (use ok S(2) restore agg in \<open>simp_all add: event_row_of_def\<close>)
  have "er_occurred_at x \<le> business_now w'" if "x \<in> set (t_event_log ?d')" for x
    using con that by (auto simp: log_consistent_def l' S(3) event_row_of_def at now now')
  with rec' show ?thesis by (simp add: log_consistent_def)
qed

text \<open>A failed command outside a transaction leaves every table as it was; a command keeps the clock.\<close>

lemma unchanged_consistent:
  assumes "log_consistent w" and "w_db w' = w_db w" and "business_now w' = business_now w"
  shows "log_consistent w'"
  using assms by (simp add: log_consistent_def)

lemma same_consistent:
  assumes "log_consistent w" and "w_db w' = w_db w" and "surroundings w' = surroundings w"
  shows "log_consistent w'"
  by (rule unchanged_consistent [OF assms(1,2) surroundings_now [OF assms(3)]])

text \<open>A success in a transaction of its own or inside another one extends the log.\<close>

lemma service_records_success:
  assumes con: "log_consistent w"
    and run: "service sqlite_repository (Some (PaymentEventPublisher_Publish net)) cx r w = (Inr h, w')"
  shows "log_consistent w'"
proof -
  from run obtain w1 w2 where w1: "w_db w1 = w_db w" "surroundings w1 = surroundings w"
    and body: "request_body sqlite_repository (Some (PaymentEventPublisher_Publish net)) r (WithTx cx) w1 =
                 (Inr h, w2)"
    and w2: "w_db w' = w_db w2" "surroundings w' = surroundings w2"
    by (auto simp: service_body withinRepositoryTransaction_def Repository_WithinContext_eq
        elim: in_transaction_InrE)
  from body obtain p op q w3 where f: "Repository_FindByID (WithTx cx) (request_payment r) w1 = (Inr p, w3)"
    and c: "payment_call op p = Inr q"
    and sp: "save_and_publish sqlite_repository (Some (PaymentEventPublisher_Publish net)) (op_event op)
               (WithTx cx) q w3 = (Inr h, w2)"
    by (auto simp: request_body_def elim!: bindP_InrE)
  note F = Repository_FindByID_Inr [OF f]
  have same: "w_db w3 = w_db w" "business_now w3 = business_now w"
    using F w1 by (auto dest: surroundings_now)
  from F have st: "stored w (request_payment r) = Some p" using w1 by (simp add: stored_def)
  note ok = stored_ok [OF st]
  have "payment_ok q" using ok by (auto intro: payment_call_ok [OF _ _ c])
  moreover have "log_consistent w3" by (rule unchanged_consistent [OF con same])
  moreover have "p_id p = request_payment r" using st by (simp add: stored_def stored_paymentD)
  moreover have "\<exists>p. stored w3 (p_id q) = Some p \<and> p_amount q = p_amount p \<and>
      p_version q = p_version p + 1"
    using payment_call_frame [OF c] st \<open>p_id p = request_payment r\<close> same(1) by (simp add: stored_def)
  ultimately have "log_consistent w2" by (intro save_and_publish_records [OF sp]) simp_all
  then show ?thesis by (rule same_consistent) (fact w2)+
qed

lemma service_records:
  assumes con: "log_consistent w" and tx: "\<not> cx_tx cx"
    and run: "service sqlite_repository (Some (PaymentEventPublisher_Publish net)) cx r w = (x, w')"
  shows "log_consistent w'"
proof (cases x)
  case (Inl e)
  have "w_db w' = w_db w" by (rule service_Inl_unchanged [OF run [unfolded Inl] tx])
  then show ?thesis by (rule unchanged_consistent [OF con _ clock_keptD [OF service_clock run]])
next
  case (Inr h)
  then show ?thesis using run by (intro service_records_success [OF con]) simp
qed

lemma CreatePayment_records_success:
  assumes con: "log_consistent w"
    and run: "CreatePayment_Execute sqlite_repository (Some (PaymentEventPublisher_Publish net)) cx c w =
                (Inr h, w')"
  shows "log_consistent w'"
proof -
  from run obtain w1 w2 where w1: "w_db w1 = w_db w" "surroundings w1 = surroundings w"
    and body: "CreatePayment_execute sqlite_repository (Some (PaymentEventPublisher_Publish net)) c
                 (WithTx cx) w1 = (Inr h, w2)"
    and w2: "w_db w' = w_db w2" "surroundings w' = surroundings w2"
    by (auto simp: CreatePayment_Execute_def Repository_WithinContext_eq elim: in_transaction_InrE)
  from body obtain m q where m: "NewMoney (cc_Amount c) (cc_Currency c) = Inr m"
    and q: "Payment_New (cc_ID c) m = Inr q"
    and sp: "save_and_publish sqlite_repository (Some (PaymentEventPublisher_Publish net))
               EventPaymentCreated (WithTx cx) q w1 = (Inr h, w2)"
    by (auto simp: CreatePayment_execute_def elim!: bindP_InrE)
  note N = Payment_New_fields [OF q]
  have ok: "payment_ok q"
    using Payment_New_valid [OF q] m N by (simp add: payment_ok_def NewMoney_Inr_iff)
  have con1: "log_consistent w1" by (rule same_consistent [OF con w1])
  from sp obtain u w3 where "Repository_Save (WithTx cx) q w1 = (Inr u, w3)"
    by (auto simp: save_and_publish_def elim!: bindP_InrE)
  then have "save_accepts q (w_db w1)" by (rule Repository_Save_Inr)
  then have "stored w1 (p_id q) = None"
  proof (rule contrapos_pp)
    assume "stored w1 (p_id q) \<noteq> None"
    then obtain p where p: "stored_payment (w_db w1) (p_id q) = Some p" by (auto simp: stored_def)
    from stored_paymentD(1) [OF p] have "p_version p \<noteq> 0" by (simp add: payment_ok_def payment_valid_iff)
    then have "uint (p_version p) \<noteq> 0" by (simp add: uint_0_iff)
    with stored_paymentD(4) [OF p] N(3) show "\<not> save_accepts q (w_db w1)"
      by (simp add: save_accepts_def payment_row_of_def)
  qed
  with N con1 ok have "log_consistent w2" by (intro save_and_publish_records [OF sp]) simp_all
  then show ?thesis by (rule same_consistent) (fact w2)+
qed

lemma CreatePayment_records:
  assumes con: "log_consistent w" and tx: "\<not> cx_tx cx"
    and run: "CreatePayment_Execute sqlite_repository (Some (PaymentEventPublisher_Publish net)) cx c w =
                (x, w')"
  shows "log_consistent w'"
proof (cases x)
  case (Inl e)
  have "w_db w' = w_db w" by (rule CreatePayment_Inl_unchanged [OF run [unfolded Inl] tx])
  then show ?thesis by (rule unchanged_consistent [OF con _ clock_keptD [OF CreatePayment_clock run]])
next
  case (Inr h)
  then show ?thesis using run by (intro CreatePayment_records_success [OF con]) simp
qed

lemma advance_time_records:
  assumes "log_consistent w" and "advance_time by w = (x, w')"
  shows "log_consistent w'"
proof -
  have "t_payments (w_db w') = t_payments (w_db w) \<and> t_event_log (w_db w') = t_event_log (w_db w) \<and>
        business_now w \<le> business_now w'"
    using assms(2)
    by (auto simp: advance_time_def TimeAdvancer_Execute_def PersistentVirtualClock_Advance_def
        RuntimeStateStore_def RuntimeStateStore_Save_def Let_def business_now_def surroundings_def
        dest!: statement_InrD statement_InlD elim!: bindP_InrE bindP_InlE
        split: prod.splits sum.splits if_splits)
  with assms(1) history_recorded_tables [of "w_db w'" "w_db w"] show ?thesis
    by (force simp: log_consistent_def)
qed

section \<open>The running program\<close>

text \<open>
  The steps that reach payments and their events: commands with any context outside a
  transaction, any number of failing statements (\<open>w_faults\<close>, which a step may also set anew),
  and advances of the virtual clock.
\<close>

inductive payment_step :: "net_library \<Rightarrow> world \<Rightarrow> world \<Rightarrow> bool" for net where
  create: "payment_step net w w'" if "\<not> cx_tx cx"
    and "CreatePayment_Execute sqlite_repository (Some (PaymentEventPublisher_Publish net)) cx c w = (x, w')"
| transition: "payment_step net w w'" if "\<not> cx_tx cx"
    and "service sqlite_repository (Some (PaymentEventPublisher_Publish net)) cx r w = (x, w')"
| advance: "payment_step net w w'" if "advance_time by w = (x, w')"
| surroundings: "payment_step net w (w\<lparr>w_faults := faults, w_entropy := entropy, w_wall := wall\<rparr>)"

lemma payment_step_consistent: "payment_step net w w' \<Longrightarrow> log_consistent w \<Longrightarrow> log_consistent w'"
proof (induction rule: payment_step.induct)
  case (create cx c w x w')
  show ?case by (rule CreatePayment_records [OF create.prems create.hyps])
next
  case (transition cx r w x w')
  show ?case by (rule service_records [OF transition.prems transition.hyps])
next
  case (advance "by" w x w')
  show ?case by (rule advance_time_records [OF advance.prems advance.hyps])
next
  case (surroundings w faults entropy wall)
  then show ?case by (rule unchanged_consistent) (simp_all add: business_now_def)
qed

lemma payment_steps_consistent:
  "(payment_step net)\<^sup>*\<^sup>* w w' \<Longrightarrow> log_consistent w \<Longrightarrow> log_consistent w'"
  by (induction rule: rtranclp_induct) (auto intro: payment_step_consistent)

lemma empty_consistent:
  "t_payments (w_db w) = [] \<Longrightarrow> t_event_log (w_db w) = [] \<Longrightarrow> log_consistent w"
  by (simp add: log_consistent_def history_recorded_def find_row_def aggregate_rows_def)

text \<open>Reading the log back and replaying it gives what the repository finds.\<close>

lemma consistent_replay:
  assumes "log_consistent w" and "w_faults w = []"
  shows "case Repository_FindByID cx i w of
           (Inr p, _) \<Rightarrow> (\<exists>es. EventLog_ListByAggregate cx i w = (Inr es, w) \<and>
                           ReconstructFromEvents es = Inr (Some p))
         | (Inl e, _) \<Rightarrow> e = PaymentApp ErrPaymentNotFound \<and>
                          EventLog_ListByAggregate cx i w = (Inr [], w)"
proof (cases "find_row i (w_db w)")
  case None
  moreover have "history_recorded (w_db w) i" using assms(1) by (simp add: log_consistent_def)
  ultimately have "aggregate_rows i (w_db w) = []" by (simp add: history_recorded_def)
  with None assms(2) show ?thesis
    by (simp add: Repository_FindByID_reliable ListByAggregate_reliable)
next
  case (Some r)
  have "history_recorded (w_db w) i" using assms(1) by (simp add: log_consistent_def)
  with Some obtain es ps where c: "collectR restore_event_row (aggregate_rows i (w_db w)) = Inr es"
    and h: "history i 1 es ps" and ne: "ps \<noteq> []" and p: "stored_payment (w_db w) i = Some (last ps)"
    by (auto simp: history_recorded_def)
  from history_length [OF h] ne have "es \<noteq> []" by auto
  with reconstruct_history [OF h] have "ReconstructFromEvents es = Inr (Some (last ps))" by simp
  with Some c p assms(2) show ?thesis
    by (simp add: Repository_FindByID_reliable ListByAggregate_reliable stored_payment_def
        split: sum.splits)
qed

section \<open>Properties\<close>

text \<open>The world after the sample payment has been created.\<close>

definition no_net :: net_library where
  "no_net = \<lparr>nl_ParseRequestURI = (\<lambda>u. None), nl_ParseAddr = (\<lambda>u. None), nl_request_ok = (\<lambda>u. False)\<rparr>"

definition named :: ctx where
  "named = WithMetadata \<lparr>md_CorrelationID = ''c1'', md_CausationID = []\<rparr> background"

definition created_world :: world where
  "created_world = snd (CreatePayment_Execute sqlite_repository (Some (PaymentEventPublisher_Publish no_net))
     named \<lparr>cc_ID = ''p1'', cc_Amount = 1000, cc_Currency = ''EUR''\<rparr> fresh_world)"

text \<open>
  The event log is a complete history of every payment. Start from a database without payments
  and events, and run any sequence of payment commands (create, authorize, fail, cancel, capture,
  refund) and clock advances, with any statements failing along the way. Then for every identity:
  if the repository finds a payment, the events of the aggregate are listed and replaying them
  reconstructs exactly that payment; if it finds none, the error is \<open>ErrPaymentNotFound\<close> and the
  list of events is empty.
\<close>

theorem log_replays_to_stored_payment:
  assumes "t_payments (w_db w0) = []" and "t_event_log (w_db w0) = []"
    and "(payment_step net)\<^sup>*\<^sup>* w0 w" and "w_faults w = []"
  shows "case Repository_FindByID cx i w of
           (Inr p, _) \<Rightarrow> (\<exists>es. EventLog_ListByAggregate cx i w = (Inr es, w) \<and>
                           ReconstructFromEvents es = Inr (Some p))
         | (Inl e, _) \<Rightarrow> e = PaymentApp ErrPaymentNotFound \<and>
                          EventLog_ListByAggregate cx i w = (Inr [], w)"
  by (rule consistent_replay [OF payment_steps_consistent [OF assms(3)
        empty_consistent [OF assms(1,2)]] assms(4)])

theorem log_replays_to_stored_payment_witness:
  "\<exists>es. EventLog_ListByAggregate background ''p1'' created_world = (Inr es, created_world) \<and>
     ReconstructFromEvents es = Inr (Some sample)"
proof -
  let ?run = "CreatePayment_Execute sqlite_repository (Some (PaymentEventPublisher_Publish no_net))
      named \<lparr>cc_ID = ''p1'', cc_Amount = 1000, cc_Currency = ''EUR''\<rparr> fresh_world"
  have "\<not> cx_tx named" by (simp add: named_def WithMetadata_def background_def)
  then have "payment_step no_net fresh_world created_world"
    by (rule payment_step.create) (simp add: created_world_def prod_eq_iff)
  then have steps: "(payment_step no_net)\<^sup>*\<^sup>* fresh_world created_world" by (rule r_into_rtranclp)
  have "fst (Repository_FindByID background ''p1'' created_world) = Inr sample"
    and calm: "w_faults created_world = []" by code_simp+
  then obtain w' where "Repository_FindByID background ''p1'' created_world = (Inr sample, w')"
    by (metis prod.collapse)
  with log_replays_to_stored_payment [OF _ _ steps calm, of background "''p1''"] show ?thesis
    by (simp add: empty_db_def)
qed

text \<open>
  C19. A payment command is atomic: when it fails, at whatever statement (reading, saving,
  appending the event, scheduling a delivery, committing), no table has changed. When a
  transition succeeds, exactly the requested operation of the aggregate has happened to exactly
  that payment.
\<close>

theorem command_is_atomic:
  assumes "\<not> cx_tx cx"
    and "service sqlite_repository (Some (PaymentEventPublisher_Publish net)) cx r w = (x, w')"
  shows "case x of
           Inl e \<Rightarrow> w_db w' = w_db w
         | Inr q \<Rightarrow> (\<exists>p op. stored w (request_payment r) = Some p \<and> request_op r = Inr op \<and>
                     payment_call op p = Inr q \<and> stored w' = (stored w)(request_payment r \<mapsto> q))"
proof (cases x)
  case (Inl e)
  with assms service_Inl_unchanged show ?thesis by simp
next
  case (Inr q)
  with published.service_effect [of net cx r w q w'] assms(2) stored_ok show ?thesis by auto
qed

theorem command_is_atomic_witness:
  "case service sqlite_repository (Some (PaymentEventPublisher_Publish no_net)) named
          (RequestAuthorize ''p1'') fresh_world of
     (x, w') \<Rightarrow> (case x of Inl e \<Rightarrow> w_db w' = empty_db | Inr q \<Rightarrow> q = sample_authorized)"
proof -
  obtain x w' where run: "service sqlite_repository (Some (PaymentEventPublisher_Publish no_net)) named
      (RequestAuthorize ''p1'') fresh_world = (x, w')" by force
  have "\<not> cx_tx named" by (simp add: named_def WithMetadata_def background_def)
  from command_is_atomic [OF this run] run show ?thesis
    by (cases x) (auto simp: stored_def stored_payment_def find_row_def empty_db_def fresh_world_def)
qed

end
