(* ===== verification/Payment_Requests.thy ===== *)
theory Payment_Requests
  imports Payment_Http Payment_History
begin

text \<open>
  What clients of the payment HTTP interface can rely on: a request with an idempotency key runs
  once, a rejected request changes nothing, and where the location of a created payment leads.
\<close>

section \<open>Idempotent requests\<close>

text \<open>A request whose key is in use, with its body.\<close>

definition keyed :: "http_req \<Rightarrow> bytes \<Rightarrow> bool" where
  "keyed rq body \<longleftrightarrow>
     idempotency_key rq \<noteq> [] \<and> length (idempotency_key rq) \<le> 255 \<and> rq_Body rq = Some body"

abbreviation request_key :: "http_req \<Rightarrow> string \<times> string" where
  "request_key rq \<equiv> (request_scope rq, idempotency_key rq)"

text \<open>Equal answers: status, body and the replayable headers.\<close>

definition same_answer :: "http_response \<Rightarrow> http_response \<Rightarrow> bool" where
  "same_answer a b \<longleftrightarrow> rs_Status a = rs_Status b \<and> rs_Body a = rs_Body b \<and>
     (\<forall>c \<in> set (map snd replayableResponseHeaders).
        header_values (rs_Header a) c = header_values (rs_Header b) c)"

lemma same_answer_refl [simp]: "same_answer a a"
  by (simp add: same_answer_def)

lemma header_values_Nil [simp]: "header_values [] k = []"
  and header_values_Cons [simp]: "header_values ((n, v) # h) k = (if k = n then v else header_values h k)"
  by (simp_all add: header_values_def)

lemma header_values_absent: "k \<notin> fst ` set h \<Longrightarrow> header_values h k = []"
  by (induction h) auto

lemma header_values_filter:
  "distinct (map fst h) \<Longrightarrow> header_values (filter (\<lambda>(n, vs). vs \<noteq> []) h) k = header_values h k"
proof (induction h)
  case (Cons a h)
  obtain n v where a: "a = (n, v)" by (cases a)
  show ?case
  proof (cases "v = [] \<and> k = n")
    case True
    then have "k \<notin> fst ` set h" using Cons.prems a by simp
    then have "header_values h k = []" by (rule header_values_absent)
    with True Cons a show ?thesis by simp
  qed (use Cons a in auto)
qed simp

lemma replay_completed: "same_answer (replay_response (completed_record r resp)) resp"
proof -
  let ?f = "\<lambda>(name, canonical). (name, header_values (rs_Header resp) canonical)"
  let ?stored = "id_ResponseHeaders (completed_record r resp)"
  let ?g = "\<lambda>(name, canonical). (canonical, header_values ?stored name)"
  have "distinct (map fst (map ?f replayableResponseHeaders))"
    and d: "distinct (map fst (map ?g replayableResponseHeaders))"
    by (simp_all add: replayableResponseHeaders_def)
  then have stored: "header_values ?stored n = header_values (map ?f replayableResponseHeaders) n" for n
    by (simp add: completed_record_def header_values_filter)
  have "rs_Header (replay_response (completed_record r resp)) =
      filter (\<lambda>(name, vs). vs \<noteq> []) (map ?g replayableResponseHeaders)"
    by (simp add: replay_response_def)
  then have hd: "header_values (rs_Header (replay_response (completed_record r resp))) c =
      header_values (map ?g replayableResponseHeaders) c" for c
    using d by (simp only: header_values_filter)
  have "header_values (map ?g replayableResponseHeaders) c = header_values (rs_Header resp) c"
    if "c \<in> set (map snd replayableResponseHeaders)" for c
    using that by (auto simp: replayableResponseHeaders_def stored)
  with hd show ?thesis
    by (simp add: same_answer_def) (simp add: replay_response_def completed_record_def)
qed

lemma new_record_fields [simp]:
  "id_Scope (new_record h rq b) = request_scope rq" "id_Key (new_record h rq b) = idempotency_key rq"
  "id_Fingerprint (new_record h rq b) = request_fingerprint h rq b"
  by (simp_all add: new_record_def)

lemma completed_record_fields [simp]:
  "id_Scope (completed_record r resp) = id_Scope r" "id_Key (completed_record r resp) = id_Key r"
  "id_Fingerprint (completed_record r resp) = id_Fingerprint r"
  "id_Status (completed_record r resp) = ''completed''"
  by (simp_all add: completed_record_def)

lemma WriteError_status [simp]: "rs_Status (WriteError hdr n c t) = n"
  by (simp add: WriteError_def WriteJSON_def)

text \<open>The answer that a stored record makes to a request with its key.\<close>

definition stored_answer :: "('s, 'h) payment_handler \<Rightarrow> idem_record \<Rightarrow> string \<Rightarrow> http_response" where
  "stored_answer h e fingerprint =
     (if id_Fingerprint e \<noteq> fingerprint
        then WriteError [] 409 ''idempotency_conflict'' (ph_text h (Idempotency ErrFingerprintConflict))
      else if id_Status e \<noteq> ''completed''
        then WriteError [] 409 ''idempotency_in_progress''
               ''an identical request is already being processed''
      else replay_response e)"

context idempotency_contract
begin

text \<open>With a record at its key, a request only gets the answer of the record.\<close>

lemma answered_from_record:
  assumes "ph_idempotency h = Some repo" and "keyed rq body"
    and "records (durable s) (request_key rq) = Some e"
    and "idempotent h next cx rq s = (resp, s')"
  shows "durable s' = durable s \<and>
    (resp = stored_answer h e (request_fingerprint h rq body) \<or> rs_Status resp = 500)"
proof -
  let ?r = "new_record h rq body"
  obtain x s1 where rv: "ip_Reserve repo cx ?r s = (x, s1)" by force
  show ?thesis
  proof (cases x)
    case (Inl err)
    from rv Inl assms reserve_fail [OF rv [unfolded Inl]] reserve_conflict [of cx ?r s s1]
    show ?thesis by (auto simp: idempotent_def keyed_def Let_def stored_answer_def)
  next
    case (Inr reserved)
    have "reserved \<noteq> True" using reserve_new [of cx ?r s s1] rv Inr assms(3) by auto
    then have no: "x = Inr False" using Inr by simp
    note taken = reserve_taken [OF rv [unfolded no]]
    then have fp: "id_Fingerprint e = request_fingerprint h rq body" using assms(3) by simp
    obtain y s2 where f: "ip_Find repo cx (request_scope rq) (idempotency_key rq) s1 = (y, s2)" by force
    have y: "y = Inr e \<or> (\<exists>err. y = Inl err)"
      using find_ok [of cx "request_scope rq" "idempotency_key rq" s1 _ s2] f taken assms(3)
      by (cases y) auto
    have same: "durable s2 = durable s" using find_frame [OF f] taken by simp
    show ?thesis
    proof -
      have "replay_stored h repo cx ?r s1 = (resp, s')"
        using assms(1,2,4) rv no by (auto simp: idempotent_def keyed_def Let_def)
      with f have "s' = s2" and "resp = (case y of Inl e \<Rightarrow> WriteError [] 500 ''internal_error'' (ph_text h e)
          | Inr existing \<Rightarrow> if id_Status existing \<noteq> ''completed''
              then WriteError [] 409 ''idempotency_in_progress''
                    ''an identical request is already being processed''
              else replay_response existing)"
        by (auto simp: replay_stored_def split: sum.splits if_splits)
      then show ?thesis using fp y same by (auto simp: stored_answer_def)
    qed
  qed
qed

text \<open>An answer below 500 is on record afterwards.\<close>

lemma answer_recorded:
  assumes "ph_idempotency h = Some repo" and "keyed rq body"
    and "idempotent h next cx rq s = (resp, s')" and "rs_Status resp < 500"
  obtains e where "records (durable s') (request_key rq) = Some e"
    and "same_answer (stored_answer h e (request_fingerprint h rq body)) resp"
proof (cases "records (durable s) (request_key rq)")
  case (Some e)
  from answered_from_record [OF assms(1,2) Some assms(3)] assms(4) that [of e] Some
  show thesis by auto
next
  case None
  let ?r = "new_record h rq body"
  obtain x s1 where rv: "ip_Reserve repo cx ?r s = (x, s1)" by force
  have "x = Inr True"
  proof (cases x)
    case (Inl err)
    have "resp = (if errors_Is err (Idempotency ErrFingerprintConflict)
          then WriteError [] 409 ''idempotency_conflict'' (ph_text h err)
        else WriteError [] 500 ''internal_error'' (ph_text h err))"
      using assms(1-3) rv Inl by (simp add: idempotent_def keyed_def Let_def split: if_splits)
    with assms(4) have "errors_Is err (Idempotency ErrFingerprintConflict)" by (auto split: if_splits)
    with reserve_fail [OF rv [unfolded Inl]] have "err = Idempotency ErrFingerprintConflict" by blast
    from reserve_conflict [OF rv [unfolded Inl this]] None show ?thesis by simp
  next
    case (Inr reserved)
    with rv reserve_taken [of cx ?r s s1] None show ?thesis by (cases reserved) auto
  qed
  with rv assms(1-3) have run: "run_reserved h repo next cx rq ?r s1 = (resp, s')"
    by (simp add: idempotent_def keyed_def Let_def)
  obtain ans s2 where n: "next cx rq s1 = (ans, s2)" by force
  obtain y s3 where cm: "ip_Complete repo cx (completed_record ?r ans) s2 = (y, s3)" by force
  from run n cm have out: "(resp, s') =
      (if rs_Status ans \<ge> 500
         then (ans, snd (ip_Release repo cx (id_Scope ?r) (id_Key ?r) (id_Fingerprint ?r) s2))
       else case y of Inl e \<Rightarrow> (WriteError [] 500 ''internal_error'' (ph_text h e), s3) | Inr u \<Rightarrow> (ans, s3))"
    by (cases "rs_Status ans \<ge> 500"; cases y) (simp_all add: run_reserved_def)
  have "\<not> rs_Status ans \<ge> 500"
  proof
    assume "rs_Status ans \<ge> 500"
    with out assms(4) show False by simp
  qed
  moreover from this out assms(4) obtain u where "y = Inr u" by (cases y) auto
  ultimately have c: "ip_Complete repo cx (completed_record ?r ans) s2 = (Inr u, s')" and "resp = ans"
    using out cm by simp_all
  from complete_ok [OF c] have "records (durable s') (request_key rq) = Some (completed_record ?r ans)"
    by simp
  moreover have "same_answer (stored_answer h (completed_record ?r ans) (request_fingerprint h rq body)) resp"
    using replay_completed \<open>resp = ans\<close> by (simp add: stored_answer_def)
  ultimately show thesis by (rule that)
qed

end

section \<open>The transaction around a request\<close>

lemma transactional_cases:
  assumes "ph_transaction h = Some WithinContext" and "transactional h next cx rq w = (resp, w')"
  shows "(rs_Status resp = 500 \<and> w_db w' = w_db w) \<or>
    (\<exists>w1 w2. next (WithTx cx) rq w1 = (resp, w2) \<and> rs_Status resp < 500 \<and>
       w_db w1 = w_db w \<and> surroundings w1 = surroundings w \<and> w_db w' = w_db w2)"
proof -
  let ?fn = "\<lambda>s. case next (WithTx cx) rq s of (resp, s') \<Rightarrow>
      if rs_Status resp \<ge> 500 then (Inl (Message ''payment request failed; transaction rolled back''), s')
      else (Inr resp, s')"
  obtain x v where run: "WithinTransaction ?fn w = (x, v)" by force
  show ?thesis
  proof (cases x)
    case (Inl e)
    with run assms WithinTransaction_Inl [of ?fn w e v] show ?thesis
      by (auto simp: transactional_def WithinContext_def)
  next
    case (Inr a)
    with run assms have "WithinTransaction ?fn w = (Inr resp, w')"
      by (auto simp: transactional_def WithinContext_def)
    then obtain w1 w2 where "w_db w1 = w_db w" and "surroundings w1 = surroundings w"
      and "?fn w1 = (Inr resp, w2)" and "w_db w' = w_db w2"
      by (rule WithinTransaction_InrE)
    then show ?thesis by (auto split: prod.splits if_splits)
  qed
qed

section \<open>Which errors a command can end with\<close>

text \<open>Errors that the client is answered with a status of 500 for.\<close>

definition server_error :: "error \<Rightarrow> bool" where
  "server_error e \<longleftrightarrow> payment_error_status e = (500, ''internal_error'')"

named_theorems raises_intros \<open>rules for the errors that a procedure can end with\<close>

definition raises :: "(error \<Rightarrow> bool) \<Rightarrow> 'a act \<Rightarrow> bool" where
  "raises P m \<longleftrightarrow> (\<forall>w e w'. m w = (Inl e, w') \<longrightarrow> P e)"

lemma raisesI: "(\<And>w e w'. m w = (Inl e, w') \<Longrightarrow> P e) \<Longrightarrow> raises P m"
  by (simp add: raises_def)

lemma raisesD: "raises P m \<Longrightarrow> m w = (Inl e, w') \<Longrightarrow> P e"
  unfolding raises_def by blast

lemma raises_bind [raises_intros]: "raises P m \<Longrightarrow> (\<And>x. raises P (f x)) \<Longrightarrow> raises P (bindP m f)"
  by (intro raisesI) (auto elim!: bindP_InlE dest: raisesD)

lemma raises_basic [raises_intros]:
  "raises P (returnP x)" "raises P (readP g)"
  "P e \<Longrightarrow> raises P (raiseP e)" "(\<And>e. r = Inl e \<Longrightarrow> P e) \<Longrightarrow> raises P (liftP r)"
  "P Driver \<Longrightarrow> raises P (statement f)" "P Driver \<Longrightarrow> raises P (query q)"
  "P Driver \<Longrightarrow> raises P (uint64_arg v)"
  by (auto simp: raises_def uint64_arg_Inl dest: statement_Inl(1) query_Inl(1))

lemma raises_cases [raises_intros]:
  "(c \<Longrightarrow> raises P m) \<Longrightarrow> (\<not> c \<Longrightarrow> raises P n) \<Longrightarrow> raises P (if c then m else n)"
  "(x = None \<Longrightarrow> raises P m) \<Longrightarrow> (\<And>y. x = Some y \<Longrightarrow> raises P (f y)) \<Longrightarrow>
     raises P (case x of None \<Rightarrow> m | Some y \<Rightarrow> f y)"
  by (auto split: option.splits)

lemma raises_each [raises_intros]: "(\<And>x. raises P (f x)) \<Longrightarrow> raises P (eachP f xs)"
  by (induction xs) (auto intro!: raises_intros)

lemma server_errors [simp]:
  "server_error Driver" "server_error NoRows" "server_error Decoding" "server_error (Message t)" "server_error (JobErr j)"
  "server_error (Webhook v)" "server_error (PaymentApp ErrEventAlreadyExists)"
  by (simp_all add: server_error_def payment_error_status_def)

lemma bindR_Inl_iff: "bindR r f = Inl e \<longleftrightarrow> r = Inl e \<or> (\<exists>x. r = Inr x \<and> f x = Inl e)"
  by (cases r) auto

lemma raises_NextRuntimeSequence [raises_intros]: "raises server_error NextRuntimeSequence"
  by (auto simp: NextRuntimeSequence_def scan_uint64_def intro!: raises_intros split: if_splits)

lemma raises_correlation [raises_intros]: "raises server_error NewCorrelationID"
  by (auto simp: raises_def NewCorrelationID_def split: list.splits option.splits)

lemma event_errors: "BusinessEvent_Validate e = Some x \<Longrightarrow> server_error (Payment x)"
  by (auto simp: BusinessEvent_Validate_def server_error_def payment_error_status_def split: if_splits)

lemma new_event_errors:
  "NewBusinessEventWithPayload a b t at v c d p = Inl x \<Longrightarrow> server_error (Payment x)"
  by (auto simp: NewBusinessEventWithPayload_def Let_def split: option.splits dest: event_errors)

lemma restore_event_errors: "restore_event_row r = Inl x \<Longrightarrow> server_error x"
  by (auto simp: restore_event_row_def bindR_Inl_iff scan_uint64_def parse_time_def mapErr_Inl_iff
      split: if_splits dest: new_event_errors)

lemma collect_errors: "collectR restore_event_row rs = Inl e \<Longrightarrow> server_error e"
  by (induction rs) (auto simp: bindR_Inl_iff dest: restore_event_errors)

lemma raises_SchedulerRepository_Save [raises_intros]:
  "cx_tx cx \<Longrightarrow> raises server_error (SchedulerRepository_Save cx j)"
proof -
  assume cx: "cx_tx cx"
  have lease: "server_error e" if "parse_lease l = Inl e" for l e
    using that by (cases l) (auto simp: parse_time_def split: if_splits)
  have scan: "server_error e" if "job_scan r = Inl e" for r e
    using that by (auto simp: job_scan_def bindR_Inl_iff scan_uint64_def parse_time_def
        mapErr_Inl_iff split: if_splits option.splits dest: lease)
  have find: "raises server_error (SchedulerRepository_find cx i)" for i
    unfolding SchedulerRepository_find_def query_row_def
    by (intro raises_intros) (auto dest: scan)
  show ?thesis
    using cx
    by (auto simp: SchedulerRepository_Save_def in_transaction_def SchedulerRepository_save_def
        appendAudit_def intro!: raises_intros find)
qed

lemma raises_Publish [raises_intros]:
  "cx_tx cx \<Longrightarrow> raises server_error (PaymentEventPublisher_Publish net cx p t)"
  by (auto simp: PaymentEventPublisher_Publish_def next_event_def correlation_of_def Let_def
      EventLog_ListByAggregate_def Endpoint_List_def scheduleDelivery_def EventLog_Append_def
      EventLog_append_def in_transaction_def mapErr_Inl_iff Marshal_webhook_event_def
      intro!: raises_intros
      dest: event_errors new_event_errors collect_errors
      split: if_splits)

section \<open>A rejected command changes nothing\<close>

text \<open>
  Inside the transaction of a request there is no transaction of the command: that a command
  rejected with a client error leaves nothing behind rests on where such errors arise.
\<close>

lemma save_and_publish_client_error:
  assumes "save_and_publish sqlite_repository (Some (PaymentEventPublisher_Publish net)) t cx p w = (Inl e, w')"
    and "cx_tx cx" and "\<not> server_error e"
  shows "w_db w' = w_db w"
proof -
  have "w_db w' = w_db w \<or> (\<exists>w1. PaymentEventPublisher_Publish net cx p t w1 = (Inl e, w'))"
    using assms(1)
    by (auto simp: save_and_publish_def Repository_Save_def uint64_arg_Inr uint64_arg_Inl upsert_payment_def
        elim!: bindP_InlE bindP_InrE dest!: statement_InlD statement_InrD split: if_splits option.splits)
  with raisesD [OF raises_Publish [OF assms(2)]] assms(3) show ?thesis by blast
qed

lemma service_client_error:
  assumes "service sqlite_repository (Some (PaymentEventPublisher_Publish net)) cx r w = (Inl e, w')"
    and "cx_tx cx" and "\<not> server_error e"
  shows "w_db w' = w_db w"
  using assms read_onlyD [OF FindByID_frame(2)] save_and_publish_client_error [OF _ assms(2,3)]
  by (auto simp: service_body withinRepositoryTransaction_def Repository_WithinContext_def request_body_def
      elim!: bindP_InlE)

lemma CreatePayment_client_error:
  assumes "CreatePayment_Execute sqlite_repository (Some (PaymentEventPublisher_Publish net)) cx c w = (Inl e, w')"
    and "cx_tx cx" and "\<not> server_error e"
  shows "w_db w' = w_db w"
  using assms(1,2) save_and_publish_client_error [OF _ assms(2,3)]
  by (auto simp: CreatePayment_Execute_def CreatePayment_execute_def Repository_WithinContext_def
      elim!: bindP_InlE)

lemma runtime_payments_simps [simp]:
  "ph_repository (runtime_payments net sha256 render) = sqlite_repository"
  "ph_publisher (runtime_payments net sha256 render) = Some (PaymentEventPublisher_Publish net)"
  "ph_idempotency (runtime_payments net sha256 render) = Some sqlite_idempotency"
  "ph_transaction (runtime_payments net sha256 render) = Some WithinContext"
  by (simp_all add: runtime_payments_def)

lemma metadata_context:
  "withRequestMetadata h cx rq = Inr (hdr, cx') \<Longrightarrow> cx_tx cx' = cx_tx cx"
  by (auto simp: withRequestMetadata_def Let_def WithMetadata_def split: sum.splits if_splits)

lemma writePaymentError_status: "rs_Status (writePaymentError h hdr e) < 500 \<Longrightarrow> \<not> server_error e"
  by (auto simp: writePaymentError_def server_error_def)

lemma WriteJSON_status [simp]: "rs_Status (WriteJSON hdr n v) = n"
  by (simp add: WriteJSON_def)

lemma command_rejected:
  assumes "command (runtime_payments net sha256 render) cx rq w = (resp, w')" and "cx_tx cx"
    and "rs_Status resp < 500" and "rs_Status resp \<noteq> 200"
  shows "w_db w' = w_db w"
proof (cases "w' = w")
  case False
  let ?h = "runtime_payments net sha256 render"
  from assms(1) False obtain hdr cx' r where m: "withRequestMetadata ?h cx rq = Inr (hdr, cx')"
    and a: "answer_payment ?h hdr (service sqlite_repository (Some (PaymentEventPublisher_Publish net)) cx' r w) =
        (resp, w')"
    by (auto simp: command_def split: sum.splits list.splits option.splits if_splits)
  obtain x w1 where run: "service sqlite_repository (Some (PaymentEventPublisher_Publish net)) cx' r w = (x, w1)"
    by force
  show ?thesis
  proof (cases x)
    case (Inl e)
    with a run have "resp = writePaymentError ?h hdr e" and "w' = w1" by (simp_all add: answer_payment_def)
    with assms(3) writePaymentError_status have "\<not> server_error e" by blast
    with service_client_error run Inl \<open>w' = w1\<close> metadata_context [OF m] assms(2) show ?thesis by blast
  next
    case (Inr p)
    with a run assms(4) show ?thesis by (auto simp: answer_payment_def)
  qed
qed simp

lemma createPayment_rejected:
  assumes "createPayment (runtime_payments net sha256 render) cx rq w = (resp, w')" and "cx_tx cx"
    and "rs_Status resp < 500" and "rs_Status resp \<noteq> 201"
  shows "w_db w' = w_db w"
proof (cases "w' = w")
  case False
  let ?h = "runtime_payments net sha256 render"
  from assms(1) False obtain hdr cx' c where m: "withRequestMetadata ?h cx rq = Inr (hdr, cx')"
    and a: "answer_created ?h hdr
        (CreatePayment_Execute sqlite_repository (Some (PaymentEventPublisher_Publish net)) cx' c w) = (resp, w')"
    by (auto simp: createPayment_def split: sum.splits)
  obtain x w1 where run: "CreatePayment_Execute sqlite_repository (Some (PaymentEventPublisher_Publish net)) cx' c w =
      (x, w1)" by force
  show ?thesis
  proof (cases x)
    case (Inl e)
    with a run have "resp = writePaymentError ?h hdr e" and "w' = w1" by (simp_all add: answer_created_def)
    with assms(3) writePaymentError_status have "\<not> server_error e" by blast
    with CreatePayment_client_error run Inl \<open>w' = w1\<close> metadata_context [OF m] assms(2) show ?thesis by blast
  next
    case (Inr p)
    with a run assms(4) show ?thesis by (auto simp: answer_created_def Let_def)
  qed
qed simp

text \<open>The layer of idempotency itself writes its own table only.\<close>

definition other_than_records :: "db \<Rightarrow> db" where
  "other_than_records d = d\<lparr>t_idempotency_records := []\<rparr>"

lemma other_than_records_eq:
  assumes "other_than_records d' = other_than_records d"
  shows "d' = d\<lparr>t_idempotency_records := t_idempotency_records d'\<rparr>"
proof -
  have "d' = (other_than_records d')\<lparr>t_idempotency_records := t_idempotency_records d'\<rparr>"
    by (simp add: other_than_records_def)
  also have "\<dots> = d\<lparr>t_idempotency_records := t_idempotency_records d'\<rparr>"
    unfolding assms by (simp add: other_than_records_def)
  finally show ?thesis .
qed

lemma keeps_idempotency [keeps_intros]:
  "keeps other_than_records (Idempotency_Reserve cx r)"
  "keeps other_than_records (Idempotency_Find cx scope key)"
  "keeps other_than_records (Idempotency_Complete cx r)"
  "keeps other_than_records (Idempotency_Release cx scope key fp)"
  by (auto simp: Idempotency_Reserve_def Idempotency_Find_def Idempotency_Complete_def
      Idempotency_Release_def insert_idem_def update_idem_def delete_idem_def other_than_records_def
      intro!: keeps_intros split: option.splits)

lemma idempotency_clock:
  "clock_kept (Idempotency_Reserve cx r)" "clock_kept (Idempotency_Find cx scope key)"
  "clock_kept (Idempotency_Complete cx r)" "clock_kept (Idempotency_Release cx scope key fp)"
  by (auto simp: Idempotency_Reserve_def Idempotency_Find_def Idempotency_Complete_def
      Idempotency_Release_def intro!: db_local_clock local_intros split: option.splits)

text \<open>
  An answer below 500 behind the layer is that of the layer, which has written its own table at most,
  or that of the handler, run between two such writes.
\<close>

lemma idempotent_cases:
  assumes "ph_idempotency h = Some sqlite_idempotency"
    and "idempotent h next cx rq w = (resp, w')" and "rs_Status resp < 500"
  obtains "other_than_records (w_db w') = other_than_records (w_db w)"
  | v v' where "next cx rq v = (resp, v')" and "other_than_records (w_db v) = other_than_records (w_db w)"
      and "other_than_records (w_db w') = other_than_records (w_db v')"
      and "w_clock v = w_clock w" and "w_clock w' = w_clock v'"
proof (cases "\<exists>body. keyed rq body")
  case False
  with assms(1,2) consider "w' = w" | "next cx rq w = (resp, w')"
    by (auto simp: idempotent_def keyed_def split: if_splits option.splits)
  then show thesis by cases (use that in simp_all)
next
  case True
  then obtain body where k: "keyed rq body" ..
  let ?r = "new_record h rq body"
  note simps = idempotent_def keyed_def Let_def sqlite_idempotency_def
  obtain x s1 where rv: "Idempotency_Reserve cx ?r w = (x, s1)" by force
  have 1: "other_than_records (w_db s1) = other_than_records (w_db w)"
    by (rule keepsD [OF keeps_idempotency(1) rv])
  show thesis
  proof (cases "x = Inr True")
    case False
    have "other_than_records (w_db w') = other_than_records (w_db s1)"
    proof (cases x)
      case (Inl e)
      with assms(1,2) k rv show ?thesis by (simp add: simps split: if_splits)
    next
      case (Inr reserved)
      obtain y s2 where f: "Idempotency_Find cx (request_scope rq) (idempotency_key rq) s1 = (y, s2)" by force
      have "w' = s2"
        using assms(1,2) k rv Inr False f
        by (cases y) (simp_all add: simps replay_stored_def split: if_splits)
      with keepsD [OF keeps_idempotency(2) f] show ?thesis by simp
    qed
    with 1 that(1) show thesis by simp
  next
    case reserved: True
    obtain ans s2 where n: "next cx rq s1 = (ans, s2)" by force
    obtain y s3 where c: "Idempotency_Complete cx (completed_record ?r ans) s2 = (y, s3)" by force
    have run: "run_reserved h sqlite_idempotency next cx rq ?r s1 = (resp, w')"
      using assms(1,2) k rv reserved by (simp add: simps)
    have "\<not> rs_Status ans \<ge> 500"
    proof
      assume "rs_Status ans \<ge> 500"
      with run n assms(3) show False by (simp add: run_reserved_def)
    qed
    with run n c have out: "(resp, w') =
        (case y of Inl e \<Rightarrow> (WriteError [] 500 ''internal_error'' (ph_text h e), s3) | Inr u \<Rightarrow> (ans, s3))"
      by (cases y) (simp_all add: run_reserved_def sqlite_idempotency_def)
    then have eq: "resp = ans" "w' = s3" using assms(3) by (cases y; simp)+
    show thesis
    proof (rule that(2))
      show "next cx rq s1 = (resp, s2)" using n eq by simp
      show "other_than_records (w_db s1) = other_than_records (w_db w)" by (rule 1)
      show "other_than_records (w_db w') = other_than_records (w_db s2)"
        using keepsD [OF keeps_idempotency(3) c] eq by simp
      show "w_clock s1 = w_clock w" by (rule clock_kept_same [OF idempotency_clock(1) rv])
      show "w_clock w' = w_clock s2" using clock_kept_same [OF idempotency_clock(3) c] eq by simp
    qed
  qed
qed

lemma idempotent_frame:
  assumes "ph_idempotency h = Some sqlite_idempotency"
    and "idempotent h next cx rq w = (resp, w')" and "rs_Status resp < 500"
    and "\<And>v v'. next cx rq v = (resp, v') \<Longrightarrow> w_db v' = w_db v"
  shows "other_than_records (w_db w') = other_than_records (w_db w)"
  using assms(1-3) by (rule idempotent_cases) (auto dest: assms(4))

section \<open>Properties\<close>

text \<open>
  C30. A request with an idempotency key runs once. After an answer below 500, the same request
  (method, path, body and key) sent again, in any state that has the same record at this key and to
  any handler behind the layer, runs nothing and changes nothing; it gets the same status, body and
  replayable headers, or a 500 when a statement fails.
\<close>

theorem repeated_request_runs_once:
  fixes net :: net_library and sha256 :: "string \<Rightarrow> bytes \<Rightarrow> string" and render :: "error \<Rightarrow> string"
  defines "h \<equiv> runtime_payments net sha256 render"
  assumes "keyed rq body" and "rq_Method rq' = rq_Method rq" and "rq_Path rq' = rq_Path rq"
    and "rq_Body rq' = rq_Body rq" and "idempotency_key rq' = idempotency_key rq"
    and "transactional h (idempotent h next) cx rq w = (resp, w1)" and "rs_Status resp < 500"
    and "idem_records (w_db w2) (request_key rq) = idem_records (w_db w1) (request_key rq)"
    and "transactional h (idempotent h next') cx' rq' w2 = (resp', w3)"
  shows "w_db w3 = w_db w2 \<and> (same_answer resp' resp \<or> rs_Status resp' = 500)"
proof -
  have h: "ph_idempotency h = Some sqlite_idempotency" "ph_transaction h = Some WithinContext"
    by (simp_all add: h_def)
  have k': "keyed rq' body" and key: "request_key rq' = request_key rq"
    and fp: "request_fingerprint h rq' body = request_fingerprint h rq body"
    using assms(2-6) by (simp_all add: keyed_def request_scope_def request_fingerprint_def)
  from transactional_cases [OF h(2) assms(7)] assms(8) obtain u1 u2
    where run: "idempotent h next (WithTx cx) rq u1 = (resp, u2)" and db: "w_db w1 = w_db u2" by auto
  obtain e where rec: "idem_records (w_db u2) (request_key rq) = Some e"
    and ans: "same_answer (stored_answer h e (request_fingerprint h rq body)) resp"
    by (rule sqlite_idem.answer_recorded [OF h(1) assms(2) run assms(8)])
  from transactional_cases [OF h(2) assms(10)] show ?thesis
  proof
    assume "rs_Status resp' = 500 \<and> w_db w3 = w_db w2"
    then show ?thesis by simp
  next
    assume "\<exists>v1 v2. idempotent h next' (WithTx cx') rq' v1 = (resp', v2) \<and> rs_Status resp' < 500 \<and>
       w_db v1 = w_db w2 \<and> surroundings v1 = surroundings w2 \<and> w_db w3 = w_db v2"
    then obtain v1 v2 where run': "idempotent h next' (WithTx cx') rq' v1 = (resp', v2)"
      and lt: "rs_Status resp' < 500" and v1: "w_db v1 = w_db w2" and w3: "w_db w3 = w_db v2" by blast
    have "idem_records (w_db v1) (request_key rq') = Some e" using rec db assms(9) v1 key by simp
    from sqlite_idem.answered_from_record [OF h(1) k' this run'] ans v1 w3 fp lt show ?thesis by auto
  qed
qed

text \<open>A creation request with a key, and a handler whose digests and texts are fixed.\<close>

definition create_request :: http_req where
  "create_request =
     \<lparr>rq_Method = ''POST'', rq_Path = ''/payments'', rq_EscapedPath = ''/payments'', rq_RawQuery = [],
      rq_Header = [(''Content-Type'', [''application/json'']), (''Idempotency-Key'', [''k1'']),
        (''X-Correlation-Id'', [''corr''])],
      rq_Body = Some (JsonText (JObj [(''id'', JStr ''p1''), (''amount'', JNum 1000),
        (''currency'', JStr ''EUR'')]))\<rparr>"

definition sample_handler :: "(world, payment) payment_handler" where
  "sample_handler = runtime_payments no_net (\<lambda>t b. t) (\<lambda>e. ''error'')"

abbreviation create_route :: "world handler" where
  "create_route \<equiv> transactional sample_handler (idempotent sample_handler (createPayment sample_handler))"

theorem repeated_request_runs_once_witness:
  "rs_Status (fst (create_route background create_request fresh_world)) = 201 \<and>
   w_db (snd (create_route background create_request (snd (create_route background create_request fresh_world)))) =
     w_db (snd (create_route background create_request fresh_world))"
proof -
  let ?run = "create_route background create_request fresh_world"
  have status: "rs_Status (fst ?run) = 201"
    and keyed: "keyed create_request (the (rq_Body create_request))" by code_simp+
  note run = prod.collapse [of ?run, symmetric, unfolded sample_handler_def]
    and again = prod.collapse [of "create_route background create_request (snd ?run)", symmetric,
      unfolded sample_handler_def]
  from repeated_request_runs_once [OF keyed refl refl refl refl run _ refl again] status
  show ?thesis by (simp add: sample_handler_def)
qed

text \<open>
  C32. A rejected command changes nothing: whatever statements fail, when a creation is not answered
  with 201, or another command not with 200, then every table but that of the idempotency records is
  as it was; and when the answer is 500 that one is too.
\<close>

theorem rejected_request_changes_nothing:
  fixes net :: net_library and sha256 :: "string \<Rightarrow> bytes \<Rightarrow> string" and render :: "error \<Rightarrow> string"
  defines "h \<equiv> runtime_payments net sha256 render"
  assumes "(route, success) \<in> {(createPayment h, 201), (command h, 200)}"
    and "transactional h (idempotent h route) cx rq w = (resp, w')" and "rs_Status resp \<noteq> success"
  shows "w_db w' = (w_db w)\<lparr>t_idempotency_records := t_idempotency_records (w_db w')\<rparr> \<and>
    (500 \<le> rs_Status resp \<longrightarrow> w_db w' = w_db w)"
proof -
  let ?only = "\<lambda>d d'. d' = d\<lparr>t_idempotency_records := t_idempotency_records d'\<rparr>"
  have h: "ph_idempotency h = Some sqlite_idempotency" "ph_transaction h = Some WithinContext"
    by (simp_all add: h_def)
  from transactional_cases [OF h(2) assms(3)] show ?thesis
  proof
    assume "rs_Status resp = 500 \<and> w_db w' = w_db w"
    then show ?thesis by simp
  next
    assume "\<exists>w1 w2. idempotent h route (WithTx cx) rq w1 = (resp, w2) \<and> rs_Status resp < 500 \<and>
       w_db w1 = w_db w \<and> surroundings w1 = surroundings w \<and> w_db w' = w_db w2"
    then obtain w1 w2 where run: "idempotent h route (WithTx cx) rq w1 = (resp, w2)"
      and lt: "rs_Status resp < 500" and w1: "w_db w1 = w_db w" and w': "w_db w' = w_db w2" by blast
    have route: "w_db v' = w_db v" if "route (WithTx cx) rq v = (resp, v')" for v v'
      using assms(2,4) that lt command_rejected [of net sha256 render "WithTx cx" rq v resp v']
        createPayment_rejected [of net sha256 render "WithTx cx" rq v resp v']
      by (auto simp: h_def WithTx_def)
    have "other_than_records (w_db w2) = other_than_records (w_db w1)"
      using run lt by (intro idempotent_frame [OF h(1) run lt] route)
    then have frame: "?only (w_db w1) (w_db w2)" by (rule other_than_records_eq)
    with lt w1 w' show ?thesis by simp
  qed
qed

theorem rejected_request_changes_nothing_witness:
  "rs_Status (fst (create_route background (create_request\<lparr>rq_Body := Some NoBytes\<rparr>) fresh_world)) = 400 \<and>
   t_payments (w_db (snd (create_route background (create_request\<lparr>rq_Body := Some NoBytes\<rparr>) fresh_world))) = []"
proof -
  let ?run = "create_route background (create_request\<lparr>rq_Body := Some NoBytes\<rparr>) fresh_world"
  have status: "rs_Status (fst ?run) = 400" by code_simp
  note run = prod.collapse [of ?run, symmetric, unfolded sample_handler_def]
  from rejected_request_changes_nothing [OF _ run, of 201] status
  have "w_db (snd ?run) = empty_db\<lparr>t_idempotency_records := t_idempotency_records (w_db (snd ?run))\<rparr>"
    by (simp add: sample_handler_def)
  then have "t_payments (w_db (snd ?run)) =
      t_payments (empty_db\<lparr>t_idempotency_records := t_idempotency_records (w_db (snd ?run))\<rparr>)"
    by (rule arg_cong)
  with status show ?thesis by (simp add: empty_db_def)
qed

section \<open>Locations\<close>

lemma unhex_upper: "n < 16 \<Longrightarrow> unhex (upper_hex n) = Some n"
  by (auto simp: unhex_def upper_hex_def Let_def)

lemma unescape_char:
  "map_option ((#) (char_of (16 * (of_char c div 16) + of_char c mod 16 :: nat))) x = map_option ((#) c) x"
proof -
  have "16 * (of_char c div 16) + of_char c mod 16 = (of_char c :: nat)" by (rule mult_div_mod_eq)
  then show ?thesis by simp
qed

lemma PathUnescape_escape: "PathUnescape (PathEscape s) = Some s"
proof (induction s)
  case (Cons c s)
  have "unescaped_in_segment c \<Longrightarrow> c \<noteq> CHR ''%''"
    by (auto simp: unescaped_in_segment_def Let_def)
  moreover have "(of_char c :: nat) < 256"
    by (metis mod_less_divisor of_char_mod_256 zero_less_numeral)
  then have "(of_char c div 16 :: nat) < 16" by linarith
  ultimately show ?case
    using Cons.IH unescape_char [of c "Some s"] by (auto simp: unhex_upper)
qed simp

lemma PathUnescape_append:
  "CHR ''%'' \<notin> set xs \<Longrightarrow> PathUnescape (xs @ ys) = map_option ((@) xs) (PathUnescape ys)"
  by (cases "PathUnescape ys"; induction xs) auto

lemma split_at_single_iff: "split_at c s = [t] \<longleftrightarrow> c \<notin> set s \<and> t = s"
proof (induction s arbitrary: t)
  case (Cons x s)
  have "split_at c s \<noteq> []" by (induction s) (auto split: list.splits)
  with Cons show ?case by (cases "split_at c s"; cases "tl (split_at c s)") auto
qed auto

lemma PathUnescape_length: "PathUnescape s = Some t \<Longrightarrow> length t \<le> length s \<and> (CHR ''%'' \<in> set s \<longrightarrow> length t < length s)"
proof (induction s arbitrary: t rule: PathUnescape.induct)
  case (2 c s)
  then show ?case
    by (cases "c = CHR ''%''") (fastforce split: list.splits option.splits)+
qed simp

lemma paymentID_location:
  assumes "i \<noteq> []"
  shows "paymentID (''/payments/'' @ i) = Some i \<longleftrightarrow> CHR ''/'' \<notin> set i \<and> CHR ''%'' \<notin> set i"
proof -
  have trim: "trim_prefix (''/payments/'' @ i) ''/payments/'' = i"
    by (simp add: trim_prefix_def has_prefix_def)
  show ?thesis
  proof (cases "CHR ''/'' \<in> set i")
    case True
    then have "split_at CHR ''/'' i \<noteq> [t]" for t by (simp add: split_at_single_iff)
    with True show ?thesis
      unfolding paymentID_def trim by (auto split: list.split)
  next
    case False
    then have "split_at CHR ''/'' i = [i]" by (simp add: split_at_single_iff)
    moreover have "PathUnescape i = Some i \<longleftrightarrow> CHR ''%'' \<notin> set i"
      using PathUnescape_length [of i i] PathUnescape_append [of i "[]"] by auto
    ultimately show ?thesis
      using False assms unfolding paymentID_def trim by (auto split: option.split)
  qed
qed

text \<open>
  C33. The location that the answer to a creation names leads to the payment exactly when its
  identity contains neither a slash nor a percent sign: the path of a request for the location is
  its decoding, and the handler splits that at slashes and decodes the part again.
\<close>

theorem location_leads_to_payment:
  assumes "p_id (rp_value (ph_repository h) p s) = i" and "i \<noteq> []"
    and "resp = fst (answer_created h hdr (Inr p, s))"
  shows "\<exists>path. PathUnescape (header_get (rs_Header resp) ''Location'') = Some path \<and>
    (paymentID path = Some i \<longleftrightarrow> CHR ''/'' \<notin> set i \<and> CHR ''%'' \<notin> set i)"
proof (intro exI conjI)
  have "header_get (rs_Header resp) ''Location'' = ''/payments/'' @ PathEscape i"
    using assms by (simp add: answer_created_def Let_def WriteJSON_def header_get_def)
  then show "PathUnescape (header_get (rs_Header resp) ''Location'') = Some (''/payments/'' @ i)"
    using PathUnescape_append [of "''/payments/''" "PathEscape i"] by (simp add: PathUnescape_escape)
  show "paymentID (''/payments/'' @ i) = Some i \<longleftrightarrow> CHR ''/'' \<notin> set i \<and> CHR ''%'' \<notin> set i"
    by (rule paymentID_location [OF assms(2)])
qed

theorem location_leads_to_payment_witness:
  "\<exists>path. PathUnescape (header_get (rs_Header (fst (answer_created sample_handler []
        (Inr (sample\<lparr>p_id := ''50%''\<rparr>), fresh_world)))) ''Location'') = Some path \<and>
     paymentID path \<noteq> Some ''50%''"
  using location_leads_to_payment [of sample_handler "sample\<lparr>p_id := ''50%''\<rparr>" fresh_world "''50%''", OF _ _ refl,
      of "[]"]
  by (auto simp: sample_handler_def)

end
