(* ===== verification/Scheduler_Runtime.thy ===== *)
theory Scheduler_Runtime
  imports Scheduler_Leases
begin

text \<open>
  The scheduler and the worker of \<open>internal/scheduler/application\<close>, over the job repository
  they are written against, with the contract that they rely on and the SQLite repository as
  its provider. As for payments, \<open>'h\<close> is what a \<open>*Job\<close> is: the job itself for SQLite, an
  address for a repository that hands out its own objects. A nil pointer is \<open>None\<close>.
\<close>

record ('s, 'h) job_repository =
  jb_Save :: "ctx \<Rightarrow> 'h \<Rightarrow> ('s, error, unit) proc"
  jb_FindExecutable :: "ctx \<Rightarrow> time \<Rightarrow> int \<Rightarrow> ('s, error, 'h option list) proc"
  jb_Acquire :: "ctx \<Rightarrow> string \<Rightarrow> string \<Rightarrow> time \<Rightarrow> time \<Rightarrow> ('s, error, 'h option) proc"
  jb_update :: "'h \<Rightarrow> (job \<Rightarrow> job_error + job) \<Rightarrow> ('s, error, 'h) proc"
  jb_value :: "'h \<Rightarrow> 's \<Rightarrow> job"

section \<open>The worker\<close>

type_synonym 's job_handler = "ctx \<Rightarrow> bytes \<Rightarrow> ('s, error, unit) proc"

record ('s, 'h) worker =
  wk_repository :: "('s, 'h) job_repository"
  wk_handlers :: "(string \<times> 's job_handler) list"
  wk_retryPolicy :: "retry_policy option"
  wk_clock :: "('s \<Rightarrow> time) option"

fun worker_handlers ::
  "(string \<times> 's job_handler option) list \<Rightarrow> scheduler_error + (string \<times> 's job_handler) list" where
  "worker_handlers [] = Inr []"
| "worker_handlers ((t, None) # rest) = Inl ErrInvalidHandler"
| "worker_handlers ((t, Some f) # rest) = bindR (worker_handlers rest) (\<lambda>hs. Inr ((t, f) # hs))"

definition NewWorker ::
  "('s, 'h) job_repository option \<Rightarrow> (string \<times> 's job_handler option) list \<Rightarrow>
     scheduler_error + ('s, 'h) worker" where
  "NewWorker repository handlers =
     (case repository of
        None \<Rightarrow> Inl ErrInvalidWorkerRepository
      | Some r \<Rightarrow> bindR (worker_handlers handlers) (\<lambda>hs.
          Inr \<lparr>wk_repository = r, wk_handlers = hs, wk_retryPolicy = None, wk_clock = None\<rparr>))"

definition NewWorkerWithRetry ::
  "('s, 'h) job_repository option \<Rightarrow> (string \<times> 's job_handler option) list \<Rightarrow>
     retry_policy option \<Rightarrow> ('s \<Rightarrow> time) option \<Rightarrow> error + ('s, 'h) worker" where
  "NewWorkerWithRetry repository handlers policy businessClock =
     bindR (mapErr Scheduler (NewWorker repository handlers)) (\<lambda>w.
       if policy = None \<or> businessClock = None
         then Inl (Message ''invalid scheduler retry configuration'')
       else Inr (w\<lparr>wk_retryPolicy := policy, wk_clock := businessClock\<rparr>))"

text \<open>\<open>errors.Join(executionErr, err)\<close>, where \<open>err\<close> may be nil.\<close>

fun join_execution :: "error \<Rightarrow> error + unit \<Rightarrow> error" where
  "join_execution e (Inl d) = Joined [e, d]"
| "join_execution e (Inr u) = Joined [e]"

definition save_and_report :: "('s, 'h) worker \<Rightarrow> ctx \<Rightarrow> error \<Rightarrow> 'h \<Rightarrow> ('s, error, unit) proc" where
  "save_and_report wk cx executionErr h =
     bindP (attemptP (jb_Save (wk_repository wk) cx h)) (\<lambda>r. raiseP (join_execution executionErr r))"

definition persistFailure :: "('s, 'h) worker \<Rightarrow> ctx \<Rightarrow> 'h \<Rightarrow> error \<Rightarrow> ('s, error, unit) proc" where
  "persistFailure wk cx h executionErr =
     bindP (attemptP (jb_update (wk_repository wk) h Job_Fail)) (\<lambda>r. case r of
       Inl e \<Rightarrow> raiseP (Joined [executionErr, e])
     | Inr h \<Rightarrow>
        (case wk_retryPolicy wk of
           None \<Rightarrow> save_and_report wk cx executionErr h
         | Some decide \<Rightarrow>
            bindP (readP (jb_value (wk_repository wk) h)) (\<lambda>j.
              case decide (j_attempts j) of
                Inl e \<Rightarrow> raiseP (Joined [executionErr, JobErr e])
              | Inr decision \<Rightarrow>
                 if rd_Retry decision then
                   (case wk_clock wk of
                      None \<Rightarrow> raiseP (Joined [executionErr, Message ''invalid scheduler retry clock''])
                    | Some now \<Rightarrow>
                       bindP (readP now) (\<lambda>t.
                       bindP (attemptP (jb_update (wk_repository wk) h
                                (Job_ScheduleRetry (time_Add t (rd_RetryAfter decision))))) (\<lambda>r.
                         case r of
                           Inl e \<Rightarrow> raiseP (Joined [executionErr, e])
                         | Inr h \<Rightarrow> save_and_report wk cx executionErr h)))
                 else
                   bindP (attemptP (jb_update (wk_repository wk) h Job_Exhaust)) (\<lambda>r.
                     case r of
                       Inl e \<Rightarrow> raiseP (Joined [executionErr, e])
                     | Inr h \<Rightarrow> save_and_report wk cx executionErr h))))"

text \<open>Whether the retries were used up before this attempt.\<close>

definition retries_used_up :: "retry_policy option \<Rightarrow> job \<Rightarrow> job_error + bool" where
  "retries_used_up policy j =
     (case policy of
        None \<Rightarrow> Inr False
      | Some decide \<Rightarrow>
          if j_attempts j > 0 then bindR (decide (j_attempts j)) (\<lambda>d. Inr (\<not> rd_Retry d))
          else Inr False)"

definition Worker_Execute :: "('s, 'h) worker \<Rightarrow> ctx \<Rightarrow> 'h option \<Rightarrow> ('s, error, unit) proc" where
  "Worker_Execute wk cx job =
     (case job of
        None \<Rightarrow> raiseP (Scheduler ErrNilJob)
      | Some h \<Rightarrow>
         bindP (readP (jb_value (wk_repository wk) h)) (\<lambda>j.
           case map_of (wk_handlers wk) (j_jobType j) of
             None \<Rightarrow> raiseP (Scheduler ErrUnknownJobType)
           | Some handler \<Rightarrow>
              bindP (liftP (mapErr JobErr (retries_used_up (wk_retryPolicy wk) j))) (\<lambda>usedUp.
                if usedUp then
                  bindP (jb_update (wk_repository wk) h Job_Exhaust) (\<lambda>h.
                    jb_Save (wk_repository wk) cx h)
                else
                  bindP (jb_update (wk_repository wk) h Job_Start) (\<lambda>h.
                  bindP (jb_Save (wk_repository wk) cx h) (\<lambda>_.
                  bindP (readP (jb_value (wk_repository wk) h)) (\<lambda>j.
                  bindP (attemptP (handler (WithExecutionMetadata (j_id j) (j_attempts j) cx)
                           (j_payload j))) (\<lambda>r.
                    case r of
                      Inl err \<Rightarrow> persistFailure wk cx h err
                    | Inr _ \<Rightarrow>
                        bindP (jb_update (wk_repository wk) h Job_Complete) (\<lambda>h.
                          jb_Save (wk_repository wk) cx h))))))))"

section \<open>The scheduler\<close>

record scheduler_config =
  cf_Owner :: string
  cf_BatchSize :: int
  cf_LeaseDuration :: duration

record ('s, 'h) scheduler =
  sc_repository :: "('s, 'h) job_repository"
  sc_dispatch :: "ctx \<Rightarrow> 'h option \<Rightarrow> ('s, error, unit) proc"
  sc_businessClock :: "'s \<Rightarrow> time"
  sc_operationalClock :: "'s \<Rightarrow> time"
  sc_owner :: string
  sc_batchSize :: int
  sc_leaseDuration :: duration

definition NewScheduler ::
  "('s, 'h) job_repository option \<Rightarrow> (ctx \<Rightarrow> 'h option \<Rightarrow> ('s, error, unit) proc) option \<Rightarrow>
     ('s \<Rightarrow> time) option \<Rightarrow> ('s \<Rightarrow> time) option \<Rightarrow> scheduler_config \<Rightarrow>
     scheduler_error + ('s, 'h) scheduler" where
  "NewScheduler repository dispatcher businessClock operationalClock config =
     (case repository of None \<Rightarrow> Inl ErrInvalidRepository | Some r \<Rightarrow>
     (case dispatcher of None \<Rightarrow> Inl ErrInvalidDispatcher | Some d \<Rightarrow>
     (case businessClock of None \<Rightarrow> Inl ErrInvalidSchedulerClock | Some b \<Rightarrow>
     (case operationalClock of None \<Rightarrow> Inl ErrInvalidOperationalClock | Some t \<Rightarrow>
        if cf_Owner config = [] then Inl ErrInvalidOwner
        else if cf_BatchSize config \<le> 0 then Inl ErrInvalidBatchSize
        else if sint (cf_LeaseDuration config) \<le> 0 then Inl ErrInvalidLeaseDuration
        else Inr \<lparr>sc_repository = r, sc_dispatch = d, sc_businessClock = b,
                  sc_operationalClock = t, sc_owner = cf_Owner config,
                  sc_batchSize = cf_BatchSize config,
                  sc_leaseDuration = cf_LeaseDuration config\<rparr>))))"

text \<open>One turn of the loop of \<open>Tick\<close>: the error that it adds, if any.\<close>

definition tick_job ::
  "('s, 'h) scheduler \<Rightarrow> ctx \<Rightarrow> time \<Rightarrow> 'h option \<Rightarrow> ('s, error, error option) proc" where
  "tick_job sc cx operationalNow job =
     (case job of
        None \<Rightarrow> returnP (Some (Scheduler ErrNilAcquiredJob))
      | Some h \<Rightarrow>
         bindP (readP (jb_value (sc_repository sc) h)) (\<lambda>j.
         bindP (attemptP (jb_Acquire (sc_repository sc) cx (j_id j) (sc_owner sc)
                  (time_Add operationalNow (sc_leaseDuration sc)) operationalNow)) (\<lambda>r.
           case r of
             Inl e \<Rightarrow> returnP (Some e)
           | Inr None \<Rightarrow> returnP (Some (Scheduler ErrNilAcquiredJob))
           | Inr (Some acquired) \<Rightarrow>
               bindP (attemptP (sc_dispatch sc cx (Some acquired))) (\<lambda>r.
                 returnP (case r of Inl e \<Rightarrow> Some e | Inr _ \<Rightarrow> None)))))"

definition Scheduler_Tick :: "('s, 'h) scheduler \<Rightarrow> ctx \<Rightarrow> ('s, error, unit) proc" where
  "Scheduler_Tick sc cx =
     bindP (readP (sc_businessClock sc)) (\<lambda>now.
     bindP (readP (sc_operationalClock sc)) (\<lambda>operationalNow.
     bindP (jb_FindExecutable (sc_repository sc) cx now (sc_batchSize sc)) (\<lambda>jobs.
     bindP (mapP (tick_job sc cx operationalNow) jobs) (\<lambda>tickErrors.
       case errors_Join tickErrors of None \<Rightarrow> returnP () | Some e \<Rightarrow> raiseP e))))"

section \<open>One attempt, as a function\<close>

text \<open>
  What one attempt makes of a leased job, given the retry policy, the business time and whether
  the handler succeeded.
\<close>

definition attempt_outcome :: "retry_policy option \<Rightarrow> time \<Rightarrow> bool \<Rightarrow> job \<Rightarrow> job_error + job" where
  "attempt_outcome policy now ok j =
     bindR (retries_used_up policy j) (\<lambda>usedUp.
       if usedUp then Job_Exhaust j
       else bindR (Job_Start j) (\<lambda>j.
         if ok then Job_Complete j
         else bindR (Job_Fail j) (\<lambda>j.
           case policy of
             None \<Rightarrow> Inr j
           | Some decide \<Rightarrow> bindR (decide (j_attempts j)) (\<lambda>d.
               if rd_Retry d then Job_ScheduleRetry (time_Add now (rd_RetryAfter d)) j
               else Job_Exhaust j))))"

lemma job_frame:
  assumes "Job_Start j = Inr k \<or> Job_Complete j = Inr k \<or> Job_Fail j = Inr k \<or>
           Job_Exhaust j = Inr k \<or> Job_ScheduleRetry t j = Inr k"
  shows "j_id k = j_id j" and "j_leaseGeneration k = j_leaseGeneration j"
    and "j_jobType k = j_jobType j" and "j_payload k = j_payload j"
  using assms by (auto simp: job_op_defs split: if_splits)

text \<open>The five ways an attempt goes.\<close>

lemma attempt_outcomeE:
  assumes "attempt_outcome policy now ok j = Inr k"
  obtains (used_up) "retries_used_up policy j = Inr True" and "Job_Exhaust j = Inr k"
  | (completed) l where "retries_used_up policy j = Inr False" and "Job_Start j = Inr l" and ok
      and "Job_Complete l = Inr k"
  | (failed) l where "retries_used_up policy j = Inr False" and "Job_Start j = Inr l" and "\<not> ok"
      and "policy = None" and "Job_Fail l = Inr k"
  | (retried) l m decide d where "retries_used_up policy j = Inr False" and "Job_Start j = Inr l"
      and "\<not> ok" and "policy = Some decide" and "Job_Fail l = Inr m"
      and "decide (j_attempts m) = Inr d" and "rd_Retry d"
      and "Job_ScheduleRetry (time_Add now (rd_RetryAfter d)) m = Inr k"
  | (exhausted) l m decide d where "retries_used_up policy j = Inr False" and "Job_Start j = Inr l"
      and "\<not> ok" and "policy = Some decide" and "Job_Fail l = Inr m"
      and "decide (j_attempts m) = Inr d" and "\<not> rd_Retry d" and "Job_Exhaust m = Inr k"
proof -
  from assms obtain usedUp where u: "retries_used_up policy j = Inr usedUp"
    by (auto simp: attempt_outcome_def bindR_Inr_iff)
  show thesis
  proof (cases usedUp)
    case True
    with assms u show thesis by (intro used_up) (simp_all add: attempt_outcome_def)
  next
    case False
    with assms u obtain l where s: "Job_Start j = Inr l"
      by (auto simp: attempt_outcome_def bindR_Inr_iff)
    note u = u [unfolded False [THEN Eq_FalseI]]
    show thesis
    proof (cases ok)
      case True
      with assms u s show thesis by (intro completed) (simp_all add: attempt_outcome_def)
    next
      case not_ok: False
      with assms u s obtain m where f: "Job_Fail l = Inr m"
        by (auto simp: attempt_outcome_def bindR_Inr_iff)
      show thesis
      proof (cases policy)
        case None
        with assms u s f not_ok show thesis by (intro failed) (simp_all add: attempt_outcome_def)
      next
        case (Some decide)
        with assms u s f not_ok obtain d where d: "decide (j_attempts m) = Inr d"
          by (auto simp: attempt_outcome_def bindR_Inr_iff)
        with assms u s f not_ok Some retried exhausted show thesis
          by (cases "rd_Retry d") (simp_all add: attempt_outcome_def)
      qed
    qed
  qed
qed

lemma attempt_frame:
  assumes "attempt_outcome policy now ok j = Inr k"
  shows "j_id k = j_id j \<and> j_leaseGeneration k = j_leaseGeneration j \<and>
         j_jobType k = j_jobType j \<and> j_payload k = j_payload j"
  using assms by (cases rule: attempt_outcomeE) (auto simp: job_op_defs split: if_splits)

lemma attempt_wf:
  assumes "job_wf j" and "attempt_outcome policy now ok j = Inr k"
  shows "job_wf k"
  using assms(2) by (cases rule: attempt_outcomeE) (use assms(1) job_ops_wf in blast)+

text \<open>The status that an attempt leaves: completed, failed without policy, pending, or exhausted.\<close>

lemma attempt_status:
  assumes "attempt_outcome (Some decide) now ok j = Inr k"
  shows "j_status k \<in> {JobCompleted, JobPending, JobExhausted} \<and>
         (j_status k = JobCompleted \<longrightarrow> ok)"
  using assms
  by (cases rule: attempt_outcomeE)
    (auto simp: Job_Exhaust_def Job_Complete_def Job_ScheduleRetry_def clearLease_def split: if_splits)

section \<open>The number of attempts is bounded\<close>

text \<open>
  The life of a job under a policy: it is created, leased (also when it was left leased or
  running by a worker that died), and attempted.
\<close>

inductive job_life :: "retry_policy \<Rightarrow> job \<Rightarrow> bool" for decide where
  created: "NewJob i t b at m = Inr j \<Longrightarrow> job_life decide j"
| leased: "job_life decide j \<Longrightarrow> owner \<noteq> [] \<Longrightarrow> e \<noteq> 0 \<Longrightarrow> j_status j \<noteq> JobCompleted \<Longrightarrow>
    j_status j \<noteq> JobExhausted \<Longrightarrow>
    job_life decide (j\<lparr>j_status := JobLeased, j_leaseOwner := owner, j_leaseExpiresAt := e,
                       j_leaseGeneration := j_leaseGeneration j + 1\<rparr>)"
| crashed: "job_life decide j \<Longrightarrow> Job_Start j = Inr k \<Longrightarrow>
    retries_used_up (Some decide) j = Inr False \<Longrightarrow> job_life decide k"
| attempted: "job_life decide j \<Longrightarrow> attempt_outcome (Some decide) now ok j = Inr k \<Longrightarrow>
    job_life decide k"

text \<open>A policy limits the attempts to \<open>n\<close> when it refuses every retry from the \<open>n\<close>th on.\<close>

definition limits_attempts :: "retry_policy \<Rightarrow> uint64 \<Rightarrow> bool" where
  "limits_attempts decide n \<longleftrightarrow>
     0 < n \<and> (\<forall>a d. decide a = Inr d \<longrightarrow> rd_Retry d \<longrightarrow> a < n)"

lemma fixed_limits:
  "NewFixedDelayPolicy n delay = Inr p \<Longrightarrow> limits_attempts (FixedDelayPolicy_Decide p) n"
  by (auto simp: NewFixedDelayPolicy_def limits_attempts_def FixedDelayPolicy_Decide_def no_retry_def
      word_neq_0_conv split: if_splits)

lemma exponential_limits:
  "NewExponentialBackoffPolicy n i m = Inr p \<Longrightarrow> limits_attempts (ExponentialBackoffPolicy_Decide p) n"
  by (auto simp: NewExponentialBackoffPolicy_def limits_attempts_def
      ExponentialBackoffPolicy_Decide_def no_retry_def word_neq_0_conv split: if_splits)

lemma start_within_limit:
  assumes "limits_attempts decide n" and "retries_used_up (Some decide) j = Inr False"
    and "Job_Start j = Inr k"
  shows "j_attempts k \<le> n"
proof -
  have k: "j_attempts k = j_attempts j + 1"
    using assms(3) by (auto simp: Job_Start_def split: if_splits)
  have "j_attempts j < n"
    using assms(1,2)
    by (cases "j_attempts j = 0")
      (auto simp: limits_attempts_def retries_used_up_def bindR_Inr_iff word_gt_0 split: if_splits)
  then show ?thesis by (simp add: k inc_le)
qed

lemma attempt_within_limit:
  assumes "limits_attempts decide n" and "j_attempts j \<le> n"
    and "attempt_outcome (Some decide) now ok j = Inr k"
  shows "j_attempts k \<le> n"
proof -
  have keep: "j_attempts b = j_attempts a" if "Job_Exhaust a = Inr b \<or> Job_Complete a = Inr b \<or>
      Job_Fail a = Inr b \<or> Job_ScheduleRetry t a = Inr b" for a b t
    using that by (auto simp: Job_Exhaust_def Job_Complete_def Job_Fail_def
        Job_ScheduleRetry_def clearLease_def split: if_splits)
  from assms(3) show ?thesis
  proof (cases rule: attempt_outcomeE)
    case used_up
    with keep assms(2) show ?thesis by metis
  next
    case (completed l)
    with keep start_within_limit [OF assms(1)] show ?thesis by metis
  next
    case (retried l m decide' d)
    with keep start_within_limit [OF assms(1)] show ?thesis by (metis option.inject)
  next
    case (exhausted l m decide' d)
    with keep start_within_limit [OF assms(1)] show ?thesis by (metis option.inject)
  qed simp
qed

lemma life_within_limit:
  assumes "limits_attempts decide n" and "job_life decide j"
  shows "j_attempts j \<le> n"
  using assms(2)
proof (induction rule: job_life.induct)
  case (created i t b at m j)
  then show ?case by (auto simp: NewJob_def split: if_splits)
next
  case (crashed j k)
  then show ?case using start_within_limit [OF assms(1)] by blast
next
  case (attempted j now ok k)
  then show ?case using attempt_within_limit [OF assms(1)] by blast
qed simp

section \<open>The contract of a job repository\<close>

text \<open>
  \<open>holds\<close> is the abstract content of the repository. \<open>calm n\<close> says that nothing will fail and
  that there is room for \<open>n\<close> more saves. A job can be saved when it fits the repository and the
  stored job is of the same generation and not completed, or is that very job.
\<close>

locale job_contract =
  fixes repo :: "('s, 'h) job_repository"
    and holds :: "'s \<Rightarrow> string \<Rightarrow> job option"
    and calm :: "nat \<Rightarrow> 's \<Rightarrow> bool"
    and now :: "'s \<Rightarrow> time"
  assumes update_ok: "calm n s \<Longrightarrow> f (jb_value repo h s) = Inr k \<Longrightarrow>
      \<exists>h' s'. jb_update repo h f s = (Inr h', s') \<and> jb_value repo h' s' = k \<and> calm n s' \<and>
        now s' = now s \<and> (holds s' = holds s \<or> holds s' = (holds s)(j_id k \<mapsto> k))"
    and save_ok: "calm (Suc n) s \<Longrightarrow> jb_value repo h s = j \<Longrightarrow> job_wf j \<Longrightarrow> job_storable j \<Longrightarrow>
      holds s (j_id j) = Some old \<Longrightarrow> j_leaseGeneration old = j_leaseGeneration j \<Longrightarrow>
      j_status old \<noteq> JobCompleted \<or> old = j \<Longrightarrow>
      \<exists>s'. jb_Save repo cx h s = (Inr (), s') \<and> jb_value repo h s' = j \<and> calm n s' \<and>
        now s' = now s \<and> holds s' = (holds s)(j_id j \<mapsto> j)"
begin

text \<open>Updating a stored, uncompleted job and saving it stores the update.\<close>

lemma update_and_save:
  assumes "calm (Suc n) s" and "jb_value repo h s = j" and "f j = Inr k"
    and "job_wf k" and "job_storable k" and "j_id k = j_id j"
    and "j_leaseGeneration k = j_leaseGeneration j"
    and "holds s (j_id j) = Some old" and "j_leaseGeneration old = j_leaseGeneration j"
    and "j_status old \<noteq> JobCompleted"
  shows "\<exists>h' s1 s'. jb_update repo h f s = (Inr h', s1) \<and> jb_Save repo cx h' s1 = (Inr (), s') \<and>
           jb_value repo h' s' = k \<and> calm n s' \<and> now s' = now s \<and>
           holds s' = (holds s)(j_id j \<mapsto> k)"
proof -
  from update_ok [OF assms(1)] assms(2,3) obtain h' s1
    where u: "jb_update repo h f s = (Inr h', s1)" and v: "jb_value repo h' s1 = k"
      and c: "calm (Suc n) s1" and t: "now s1 = now s" and hs: "holds s1 = holds s \<or> holds s1 = (holds s)(j_id k \<mapsto> k)"
    by blast
  from hs assms(6,8) obtain old' where "holds s1 (j_id k) = Some old'" and "old' = old \<or> old' = k"
    by auto
  with save_ok [OF c v assms(4,5), of old' cx] assms(7,9,10) obtain s'
    where sv: "jb_Save repo cx h' s1 = (Inr (), s')" and "jb_value repo h' s' = k" and "calm n s'"
      and "now s' = now s1" and "holds s' = (holds s1)(j_id k \<mapsto> k)" by auto
  with u sv t hs assms(6) show ?thesis by auto
qed

text \<open>
  The worker implements \<open>attempt_outcome\<close>: it returns, and the repository then holds what the
  attempt makes of the job. The handler may do anything but touch this job or the clock.
\<close>

lemma execute_success:
  assumes "wk_repository wk = repo" and "calm 2 s" and "jb_value repo h s = j" and "holds s (j_id j) = Some j"
    and "map_of (wk_handlers wk) (j_jobType j) = Some handler"
    and "retries_used_up (wk_retryPolicy wk) j = Inr False"
    and "Job_Start j = Inr started" and "Job_Complete started = Inr k"
    and "job_wf j" and "job_storable started" and "job_storable k"
    and handler: "\<And>cx' s1 h1. calm 1 s1 \<Longrightarrow> \<exists>s2.
        handler cx' (j_payload j) s1 = (Inr (), s2) \<and> calm 1 s2 \<and>
        holds s2 (j_id j) = holds s1 (j_id j) \<and> jb_value repo h1 s2 = jb_value repo h1 s1"
  shows "\<exists>s'. Worker_Execute wk cx (Some h) s = (Inr (), s') \<and> holds s' (j_id j) = Some k"
proof -
  have wf1: "job_wf started" using assms(7,9) job_ops_wf(2) by blast
  then have wf2: "job_wf k" using assms(8) job_ops_wf(3) by blast
  have st: "j_status j = JobLeased" "j_status started = JobRunning"
    using assms(7) by (auto simp: Job_Start_def split: if_splits)
  have f1: "j_id started = j_id j" "j_leaseGeneration started = j_leaseGeneration j"
      "j_payload started = j_payload j" using assms(7) job_frame by blast+
  have f2: "j_id k = j_id started" "j_leaseGeneration k = j_leaseGeneration started"
    using assms(8) job_frame by blast+
  from update_and_save [where f = Job_Start and cx = cx,
      OF assms(2) [unfolded numeral_2_eq_2] assms(3,7) wf1 assms(10) f1(1,2) assms(4)]
  obtain h1 s1 s2 where a: "jb_update repo h Job_Start s = (Inr h1, s1)"
    and b: "jb_Save repo cx h1 s1 = (Inr (), s2)" and v: "jb_value repo h1 s2 = started"
    and c: "calm 1 s2" and hs: "holds s2 = (holds s)(j_id j \<mapsto> started)"
    using st by auto
  from handler [OF c, of "WithExecutionMetadata (j_id started) (j_attempts started) cx" h1]
  obtain s3 where hd: "handler (WithExecutionMetadata (j_id started) (j_attempts started) cx)
        (j_payload j) s2 = (Inr (), s3)" and c3: "calm 1 s3"
    and h3: "holds s3 (j_id j) = Some started" and v3: "jb_value repo h1 s3 = started"
    using v hs by auto
  from update_and_save [where f = Job_Complete and cx = cx and old = started,
      OF c3 [unfolded One_nat_def] v3 assms(8) wf2 assms(11) f2] h3 f1 st
  obtain h4 s4 s5 where d: "jb_update repo h1 Job_Complete s3 = (Inr h4, s4)"
    and e: "jb_Save repo cx h4 s4 = (Inr (), s5)" and "holds s5 = (holds s3)(j_id started \<mapsto> k)"
    by auto
  then have "holds s5 (j_id j) = Some k" using f1 by simp
  moreover have "Worker_Execute wk cx (Some h) s = (Inr (), s5)"
    using assms(1,3,5,6) a b v hd d e f1(3)
    by (simp add: Worker_Execute_def bindP_apply)
  ultimately show ?thesis by blast
qed

lemma execute_used_up:
  assumes "wk_repository wk = repo" and "calm 1 s" and "jb_value repo h s = j" and "holds s (j_id j) = Some j"
    and "map_of (wk_handlers wk) (j_jobType j) = Some handler"
    and "retries_used_up (wk_retryPolicy wk) j = Inr True"
    and "j_status j = JobLeased" and "Job_Exhaust j = Inr k" and "job_wf j" and "job_storable k"
  shows "\<exists>s'. Worker_Execute wk cx (Some h) s = (Inr (), s') \<and> holds s' (j_id j) = Some k"
proof -
  have wf: "job_wf k" using assms(8,9) job_ops_wf(5) by blast
  have f: "j_id k = j_id j" "j_leaseGeneration k = j_leaseGeneration j"
    using assms(8) job_frame by blast+
  from update_and_save [where f = Job_Exhaust and cx = cx,
      OF assms(2) [unfolded One_nat_def] assms(3,8) wf assms(10) f assms(4)] assms(7)
  obtain h1 s1 s2 where "jb_update repo h Job_Exhaust s = (Inr h1, s1)"
    and "jb_Save repo cx h1 s1 = (Inr (), s2)" and "holds s2 = (holds s)(j_id j \<mapsto> k)" by auto
  then show ?thesis
    using assms(1,3,5,6) by (intro exI [of _ s2]) (simp add: Worker_Execute_def bindP_apply)
qed

text \<open>
  When the handler fails, the failure is reported and the job is stored as the policy decides.
\<close>

lemma persist_failure:
  assumes "wk_repository wk = repo" and "wk_retryPolicy wk = Some decide" and "wk_clock wk = Some now"
    and "calm 1 s" and "jb_value repo h s = l" and "holds s (j_id l) = Some l"
    and "Job_Fail l = Inr m" and "decide (j_attempts m) = Inr d"
    and "(if rd_Retry d then Job_ScheduleRetry (time_Add (now s) (rd_RetryAfter d)) m
          else Job_Exhaust m) = Inr k"
    and "job_wf l" and "job_storable k"
  shows "\<exists>s'. persistFailure wk cx h err s = (Inl (Joined [err]), s') \<and> holds s' (j_id l) = Some k"
proof -
  let ?f = "if rd_Retry d then Job_ScheduleRetry (time_Add (now s) (rd_RetryAfter d)) else Job_Exhaust"
  have k: "?f m = Inr k" using assms(9) by (cases "rd_Retry d") simp_all
  have wf: "job_wf k" using assms(7,9,10) job_ops_wf(4,5,6) by (metis (full_types))
  have st: "j_status l = JobRunning" "j_status m = JobFailed"
    using assms(7) by (auto simp: Job_Fail_def clearLease_def split: if_splits)
  have fm: "j_id m = j_id l" "j_leaseGeneration m = j_leaseGeneration l"
    using assms(7) job_frame by blast+
  have fk: "j_id k = j_id m" "j_leaseGeneration k = j_leaseGeneration m"
    using assms(9) job_frame by (metis (full_types))+
  from update_ok [OF assms(4), of Job_Fail h m] assms(5,7) obtain h1 s1
    where u: "jb_update repo h Job_Fail s = (Inr h1, s1)" and v1: "jb_value repo h1 s1 = m"
      and c1: "calm 1 s1" and n1: "now s1 = now s"
      and hs: "holds s1 = holds s \<or> holds s1 = (holds s)(j_id m \<mapsto> m)" by blast
  from hs assms(6) fm obtain old where old: "holds s1 (j_id m) = Some old" and "old = l \<or> old = m"
    by auto
  then have g: "j_leaseGeneration old = j_leaseGeneration m" and nc: "j_status old \<noteq> JobCompleted"
    using fm st by auto
  from update_and_save [where f = ?f and cx = cx,
      OF c1 [unfolded One_nat_def] v1 k wf assms(11) fk old g nc]
  obtain h2 s2 s3 where w: "jb_update repo h1 ?f s1 = (Inr h2, s2)"
    and sv: "jb_Save repo cx h2 s2 = (Inr (), s3)" and h3: "holds s3 = (holds s1)(j_id m \<mapsto> k)" by blast
  have "persistFailure wk cx h err s = (Inl (Joined [err]), s3)"
    using assms(1-3,8) u v1 n1 w sv
    by (simp add: persistFailure_def save_and_report_def bindP_apply split: if_splits)
  then show ?thesis using h3 fm by (intro exI [of _ s3]) simp
qed

lemma execute_failure:
  assumes "wk_repository wk = repo" and "wk_retryPolicy wk = Some decide" and "wk_clock wk = Some now"
    and "calm 2 s" and "jb_value repo h s = j" and "holds s (j_id j) = Some j"
    and "map_of (wk_handlers wk) (j_jobType j) = Some handler"
    and "attempt_outcome (Some decide) (now s) False j = Inr k"
    and "retries_used_up (Some decide) j = Inr False"
    and "Job_Start j = Inr started" and "job_wf j" and "job_storable started" and "job_storable k"
    and handler: "\<And>cx' s1 h1. calm 1 s1 \<Longrightarrow> \<exists>s2.
        handler cx' (j_payload j) s1 = (Inl err, s2) \<and> calm 1 s2 \<and> now s2 = now s1 \<and>
        holds s2 (j_id j) = holds s1 (j_id j) \<and> jb_value repo h1 s2 = jb_value repo h1 s1"
  shows "\<exists>s'. Worker_Execute wk cx (Some h) s = (Inl (Joined [err]), s') \<and>
           holds s' (j_id j) = Some k"
proof -
  have wf: "job_wf started" using assms(10,11) job_ops_wf(2) by blast
  have st: "j_status j = JobLeased" using assms(10) by (auto simp: Job_Start_def split: if_splits)
  have f: "j_id started = j_id j" "j_leaseGeneration started = j_leaseGeneration j"
      "j_payload started = j_payload j" using assms(10) job_frame by blast+
  from update_and_save [where f = Job_Start and cx = cx,
      OF assms(4) [unfolded numeral_2_eq_2] assms(5,10) wf assms(12) f(1,2) assms(6)] st
  obtain h1 s1 s2 where a: "jb_update repo h Job_Start s = (Inr h1, s1)"
    and b: "jb_Save repo cx h1 s1 = (Inr (), s2)" and v: "jb_value repo h1 s2 = started"
    and c: "calm 1 s2" and n: "now s2 = now s" and hs: "holds s2 = (holds s)(j_id j \<mapsto> started)"
    by auto
  from handler [OF c, of "WithExecutionMetadata (j_id started) (j_attempts started) cx" h1]
  obtain s3 where hd: "handler (WithExecutionMetadata (j_id started) (j_attempts started) cx)
        (j_payload j) s2 = (Inl err, s3)" and c3: "calm 1 s3" and n3: "now s3 = now s"
    and h3: "holds s3 (j_id started) = Some started" and v3: "jb_value repo h1 s3 = started"
    using v n hs f by auto
  from assms(8) obtain m d where fm: "Job_Fail started = Inr m" and d: "decide (j_attempts m) = Inr d"
    and k: "(if rd_Retry d then Job_ScheduleRetry (time_Add (now s3) (rd_RetryAfter d)) m
             else Job_Exhaust m) = Inr k"
    by (cases rule: attempt_outcomeE) (use assms(9,10) n3 in auto)
  from persist_failure [OF assms(1-3) c3 v3 h3 fm d k wf assms(13)] obtain s4
    where "persistFailure wk cx h1 err s3 = (Inl (Joined [err]), s4)" and "holds s4 (j_id started) = Some k"
    by blast
  then show ?thesis
    using assms(1,2,5,7,9) a b v hd f by (intro exI [of _ s4]) (simp add: Worker_Execute_def bindP_apply)
qed

end

section \<open>Properties\<close>



end
