(* ===== verification/Scheduler_Sqlite.thy ===== *)
theory Scheduler_Sqlite
  imports Scheduler_Runtime
begin

text \<open>
  The SQLite repository keeps the contract of the worker, and the scheduler and worker of
  \<open>internal/app/app.go\<close>: what a tick does to the tables.
\<close>

section \<open>The repository as the worker sees it\<close>

definition sqlite_jobs :: "(world, job) job_repository" where
  "sqlite_jobs =
     \<lparr>jb_Save = SchedulerRepository_Save,
      jb_FindExecutable = (\<lambda>cx at limit. bindP (FindExecutable cx at limit) (\<lambda>js. returnP (map Some js))),
      jb_Acquire = (\<lambda>cx i owner e c. bindP (SchedulerRepository_Acquire cx i owner e c) (\<lambda>j. returnP (Some j))),
      jb_update = (\<lambda>j f. liftP (mapErr JobErr (f j))),
      jb_value = (\<lambda>j w. j)\<rparr>"

lemma sqlite_jobs_simps [simp]:
  "jb_Save sqlite_jobs = SchedulerRepository_Save"
  "jb_update sqlite_jobs j f = liftP (mapErr JobErr (f j))"
  "jb_value sqlite_jobs j w = j"
  by (simp_all add: sqlite_jobs_def)

definition held_job :: "db \<Rightarrow> string \<Rightarrow> job option" where
  "held_job d i =
     (case find_job i d of
        None \<Rightarrow> None
      | Some r \<Rightarrow> (case job_scan r of Inl e \<Rightarrow> None | Inr j \<Rightarrow> Some j))"

definition held :: "world \<Rightarrow> string \<Rightarrow> job option" where
  "held w = held_job (w_db w)"

lemma held_jobD:
  assumes "held_job d i = Some j"
  obtains r where "find_job i d = Some r" and "job_scan r = Inr j" and "j_id j = i"
proof -
  from assms obtain r where r: "find_job i d = Some r" and s: "job_scan r = Inr j"
    by (auto simp: held_job_def split: option.splits sum.splits)
  with job_scan_Inr(1) [OF s] find_job_id [OF r] show thesis by (intro that) simp_all
qed

lemma save_reliable_open:
  assumes "reliable (Suc n) w" and "job_storable j" and "fence_open j (w_db w)"
  shows "\<exists>d. SchedulerRepository_save cx j w = (Inr (), w\<lparr>w_db := d\<rparr>) \<and>
           t_scheduler_jobs d = put_row jr_id (row_of j) (t_scheduler_jobs (w_db w)) \<and>
           t_runtime_sequence d = t_runtime_sequence (w_db w) + 1"
proof -
  let ?d = "(w_db w)\<lparr>t_scheduler_jobs := put_row jr_id (row_of j) (t_scheduler_jobs (w_db w))\<rparr>"
  have up: "upsert_job (row_of j) (w_db w) = (1, ?d)"
    using assms(3) by (auto simp: upsert_job_row_of fence_open_def split: option.splits)
  have "SchedulerRepository_save cx j w = appendAudit cx j (w\<lparr>w_db := ?d\<rparr>)"
    using assms(1,2) up
    by (simp add: SchedulerRepository_save_def bindP_apply job_storable_def reliable_def row_of_def)
  moreover have "\<exists>d. appendAudit cx j (w\<lparr>w_db := ?d\<rparr>) = (Inr (), (w\<lparr>w_db := ?d\<rparr>)\<lparr>w_db := d\<rparr>) \<and>
      t_scheduler_jobs d = t_scheduler_jobs ?d \<and> t_runtime_sequence d = t_runtime_sequence (w_db w) + 1"
    using appendAudit_reliable [of "w\<lparr>w_db := ?d\<rparr>" j cx] assms(1,2) by (simp add: reliable_def)
  ultimately show ?thesis by auto
qed

lemma save_reliable_same:
  assumes "w_faults w = []" and "job_storable j" and "held w (j_id j) = Some j"
    and "\<not> fence_open j (w_db w)"
  shows "SchedulerRepository_save cx j w = (Inr (), w)"
proof -
  have up: "upsert_job (row_of j) (w_db w) = (0, w_db w)"
    using assms(4) by (auto simp: upsert_job_row_of fence_open_def split: option.splits)
  from assms(3) obtain r where "find_job (j_id j) (w_db w) = Some r" and "job_scan r = Inr j"
    by (auto simp: held_def elim: held_jobD)
  then have "SchedulerRepository_find cx (j_id j) w = (Inr j, w)"
    using assms(1) by (simp add: SchedulerRepository_find_def bindP_apply)
  with up assms(1,2) show ?thesis
    by (simp add: SchedulerRepository_save_def bindP_apply job_storable_def row_of_def)
qed

interpretation sqlite_worker: job_contract sqlite_jobs held reliable business_now
proof
  fix n s h k and f :: "job \<Rightarrow> job_error + job"
  assume "reliable n s" and "f (jb_value sqlite_jobs h s) = Inr k"
  then show "\<exists>h' s'. jb_update sqlite_jobs h f s = (Inr h', s') \<and> jb_value sqlite_jobs h' s' = k \<and>
      reliable n s' \<and> business_now s' = business_now s \<and> (held s' = held s \<or> held s' = (held s)(j_id k \<mapsto> k))"
    by simp
next
  fix n s h j old cx
  assume rel: "reliable (Suc n) s" and h: "jb_value sqlite_jobs h s = j" and wf: "job_wf j"
    and fits: "job_storable j" and old: "held s (j_id j) = Some old"
    and gen: "j_leaseGeneration old = j_leaseGeneration j"
    and nc: "j_status old \<noteq> JobCompleted \<or> old = j"
  have [simp]: "h = j" using h by simp
  have faults: "w_faults s = []" using rel by (simp add: reliable_def)
  have "\<exists>s'. SchedulerRepository_Save cx j s = (Inr (), s') \<and> reliable n s' \<and>
      business_now s' = business_now s \<and> held s' = (held s)(j_id j \<mapsto> j)"
  proof (cases "fence_open j (w_db s)")
    case True
    from save_reliable_open [OF rel fits True, of "WithTx cx"] obtain d
      where sv: "SchedulerRepository_save (WithTx cx) j s = (Inr (), s\<lparr>w_db := d\<rparr>)"
        and jobs: "t_scheduler_jobs d = put_row jr_id (row_of j) (t_scheduler_jobs (w_db s))"
        and sq: "t_runtime_sequence d = t_runtime_sequence (w_db s) + 1" by blast
    from sv faults have "SchedulerRepository_Save cx j s = (Inr (), s\<lparr>w_db := d\<rparr>)"
      unfolding SchedulerRepository_Save_def by (intro in_transaction_reliable) simp_all
    moreover have "held (s\<lparr>w_db := d\<rparr>) = (held s)(j_id j \<mapsto> j)"
      using job_scan_row_of [OF wf fits]
      by (auto simp: held_def held_job_def find_job_def jobs fun_eq_iff)
    moreover have "reliable n (s\<lparr>w_db := d\<rparr>)" using rel sq by (simp add: reliable_def)
    ultimately show ?thesis by (auto simp: business_now_def)
  next
    case False
    from old obtain r where r: "find_job (j_id j) (w_db s) = Some r" and sc: "job_scan r = Inr old"
      by (auto simp: held_def elim: held_jobD)
    have "old = j"
      using False r gen nc job_scan_Inr(4,5) [OF sc] by (auto simp: fence_open_def)
    with save_reliable_same [OF faults fits _ False] old
    have "SchedulerRepository_save (WithTx cx) j s = (Inr (), s)" by simp
    with faults have "SchedulerRepository_Save cx j s = (Inr (), s)"
      unfolding SchedulerRepository_Save_def by (intro in_transaction_reliable) simp_all
    moreover have "reliable n s" using rel by (simp add: reliable_def)
    ultimately show ?thesis using old \<open>old = j\<close> by auto
  qed
  then show "\<exists>s'. jb_Save sqlite_jobs cx h s = (Inr (), s') \<and> jb_value sqlite_jobs h s' = j \<and>
      reliable n s' \<and> business_now s' = business_now s \<and> held s' = (held s)(j_id j \<mapsto> j)" by auto
qed

section \<open>Ticks\<close>

text \<open>
  The scheduler of the running program: the virtual clock selects, the wall clock leases.
\<close>

definition runtime_scheduler ::
  "(ctx \<Rightarrow> job option \<Rightarrow> unit act) \<Rightarrow> string \<Rightarrow> int \<Rightarrow> duration \<Rightarrow> (world, job) scheduler" where
  "runtime_scheduler dispatch owner batchSize leaseDuration =
     \<lparr>sc_repository = sqlite_jobs, sc_dispatch = dispatch, sc_businessClock = business_now,
      sc_operationalClock = w_wall, sc_owner = owner, sc_batchSize = batchSize,
      sc_leaseDuration = leaseDuration\<rparr>"

text \<open>When nothing is due by the virtual clock, a tick changes no table.\<close>

lemma Tick_idle:
  assumes "\<And>r. r \<in> set (t_scheduler_jobs (w_db w)) \<Longrightarrow> \<not> executable (business_now w) r"
  shows "w_db (snd (Scheduler_Tick (runtime_scheduler dispatch owner n d) cx w)) = w_db w"
proof -
  have none: "executable_rows (business_now w) n (w_db w) = []"
    using executable_rows_facts(1) [of "business_now w" n "w_db w"] assms
    by (cases "executable_rows (business_now w) n (w_db w)") auto
  obtain r w1 where f: "FindExecutable cx (business_now w) n w = (r, w1)" by force
  have same: "w_db w1 = w_db w" using read_onlyD [OF FindExecutable_frame(2) f] .
  show ?thesis
  proof (cases r)
    case (Inl e)
    with f same show ?thesis
      by (simp add: Scheduler_Tick_def runtime_scheduler_def sqlite_jobs_def bindP_apply)
  next
    case (Inr js)
    with f none have "js = []" by (auto elim!: FindExecutable_Inr)
    with f same Inr show ?thesis
      by (simp add: Scheduler_Tick_def runtime_scheduler_def sqlite_jobs_def bindP_apply
          errors_Join_def map_filter_simps)
  qed
qed

text \<open>
  A lease that has expired by the wall clock is recovered only once the virtual clock has
  passed its expiry too: until then the expired job is not selected, and a table of such jobs
  stays as it is however often the scheduler ticks.
\<close>

lemma Tick_expired_lease_not_recovered:
  assumes "t_scheduler_jobs (w_db w) = [r]" and "jr_status r = JobRunning"
    and "jr_lease_expires_at r = Some e" and "business_now w < e"
  shows "w_db (snd (Scheduler_Tick (runtime_scheduler dispatch owner n d) cx w)) = w_db w"
  using assms by (intro Tick_idle) (simp add: executable_def)

section \<open>Properties\<close>

lemma attempt_storable:
  assumes "job_storable j" and "uint (j_attempts j) + 1 < 2 ^ 63" and "Job_Start j = Inr k"
  shows "job_storable k"
proof -
  have "j_attempts j \<noteq> - 1"
  proof
    assume "j_attempts j = - 1"
    then have "uint (j_attempts j) = 2 ^ 64 - 1" by (simp add: unsigned_minus_1_eq_mask mask_eq_exp_minus_1)
    with assms(2) show False by simp
  qed
  from arg_cong [OF unat_inc_exact [OF this], of int] assms show ?thesis
    by (auto simp: Job_Start_def job_storable_def split: if_splits)
qed

lemma completed_storable:
  "job_storable j \<Longrightarrow> Job_Complete j = Inr k \<Longrightarrow> job_storable k"
  by (auto simp: Job_Complete_def clearLease_def job_storable_def time_in_range_def second_def split: if_splits)





end
