(* ===== verification/Saga_Orchestration.thy ===== *)
theory Saga_Orchestration
  imports Payment_Services
begin

text \<open>
  The saga orchestrator of \<open>internal/paymentworkflow/application/orchestrator.go\<close>, over the
  interfaces that it is written against: the saga store, the message publisher and the executor.
  The contract of a saga store, and what the orchestrator makes of it.
\<close>

section \<open>Interfaces\<close>

record 's saga_store =
  gs_Save :: "ctx \<Rightarrow> saga_instance \<Rightarrow> ('s, error, unit) proc"
  gs_Find :: "ctx \<Rightarrow> string \<Rightarrow> ('s, error, saga_instance) proc"

datatype execution_outcome =
  ExecutionSucceeded | ExecutionPending | ExecutionFailed | UnknownExecution string

fun ExecutionOutcome_Valid :: "execution_outcome \<Rightarrow> bool" where
  "ExecutionOutcome_Valid (UnknownExecution t) = False"
| "ExecutionOutcome_Valid x = True"

record execution =
  ex_Outcome :: execution_outcome
  ex_AsyncOperations :: "async_operation list"

type_synonym 's saga_publisher = "ctx \<Rightarrow> saga_message \<Rightarrow> ('s, error, unit) proc"
type_synonym 's saga_executor = "ctx \<Rightarrow> saga_message \<Rightarrow> ('s, error, execution) proc"

section \<open>The orchestrator\<close>

text \<open>
  \<open>oc_newCorrelationID\<close> is \<open>observability.NewCorrelationID\<close> on the state that the orchestrator
  runs in.
\<close>

record 's orchestrator =
  oc_store :: "'s saga_store"
  oc_publish :: "'s saga_publisher"
  oc_clock :: "'s \<Rightarrow> time"
  oc_newCorrelationID :: "('s, error, string) proc"

definition NewOrchestrator ::
  "'s saga_store option \<Rightarrow> 's saga_publisher option \<Rightarrow> ('s \<Rightarrow> time) option \<Rightarrow>
     ('s, error, string) proc \<Rightarrow> error + 's orchestrator" where
  "NewOrchestrator store publisher now newCorrelationID =
     (case (store, publisher, now) of
        (Some s, Some p, Some n) \<Rightarrow>
          Inr \<lparr>oc_store = s, oc_publish = p, oc_clock = n, oc_newCorrelationID = newCorrelationID\<rparr>
      | _ \<Rightarrow> Inl (Message ''invalid saga orchestrator''))"

text \<open>The decimal digits of a version, filled in from the last to the first.\<close>

fun itoa_digits :: "nat \<Rightarrow> string \<Rightarrow> string" where
  "itoa_digits v result =
     (if v = 0 then result else itoa_digits (v div 10) (char_of (48 + v mod 10) # result))"

declare itoa_digits.simps [simp del]

definition itoa :: "uint64 \<Rightarrow> string" where
  "itoa v = (if v = 0 then ''0'' else itoa_digits (unat v) [])"

definition publishCurrent :: "'s orchestrator \<Rightarrow> ctx \<Rightarrow> saga_instance \<Rightarrow> time \<Rightarrow> ('s, error, unit) proc" where
  "publishCurrent oc cx i at =
     (let m = MetadataFromContext cx in
      bindP (if md_CorrelationID m = [] then oc_newCorrelationID oc else returnP (md_CorrelationID m))
        (\<lambda>correlationID.
          oc_publish oc cx
            \<lparr>sm_ID = si_ID i @ '':'' @ step_text (si_CurrentStep i) @ '':'' @ itoa (si_Version i),
             sm_SagaID = si_ID i, sm_PaymentID = si_PaymentID i, sm_Step = si_CurrentStep i,
             sm_OperationID = [], sm_Payload = si_Payload i, sm_Seed = si_Seed i,
             sm_ScheduledAt = at, sm_VirtualAt = at, sm_Attempt = 1,
             sm_CorrelationID = correlationID, sm_CausationID = md_CausationID m\<rparr>))"

definition StartWithPayload ::
  "'s orchestrator \<Rightarrow> ctx \<Rightarrow> string \<Rightarrow> string \<Rightarrow> bytes \<Rightarrow> uint64 \<Rightarrow> ('s, error, unit) proc" where
  "StartWithPayload oc cx sid paymentID payload seed =
     bindP (readP (oc_clock oc)) (\<lambda>at.
     bindP (liftP (mapErr Saga (Saga_NewWithPayload sid paymentID payload seed at))) (\<lambda>i.
     bindP (gs_Save (oc_store oc) cx i) (\<lambda>_.
       publishCurrent oc cx i at)))"

definition Start :: "'s orchestrator \<Rightarrow> ctx \<Rightarrow> string \<Rightarrow> string \<Rightarrow> uint64 \<Rightarrow> ('s, error, unit) proc" where
  "Start oc cx sid paymentID seed = StartWithPayload oc cx sid paymentID NoBytes seed"

text \<open>The message that runs an asynchronous operation later.\<close>

definition async_message :: "saga_message \<Rightarrow> async_operation \<Rightarrow> bytes \<Rightarrow> saga_message" where
  "async_message m operation payload =
     \<lparr>sm_ID = ao_ID operation, sm_SagaID = sm_SagaID m, sm_PaymentID = sm_PaymentID m,
      sm_Step = sm_Step m, sm_OperationID = ao_ID operation, sm_Payload = payload,
      sm_Seed = sm_Seed m, sm_ScheduledAt = ao_ScheduledAt operation,
      sm_VirtualAt = ao_ScheduledAt operation, sm_Attempt = 1,
      sm_CorrelationID = sm_CorrelationID m, sm_CausationID = sm_ID m\<rparr>"

definition publish_async ::
  "'s orchestrator \<Rightarrow> ctx \<Rightarrow> saga_message \<Rightarrow> async_operation \<Rightarrow> ('s, error, unit) proc" where
  "publish_async oc cx m operation =
     bindP (liftP (Marshal_async operation)) (\<lambda>payload.
       oc_publish oc cx (async_message m operation payload))"

text \<open>The transition that a settled outcome makes.\<close>

definition advance_saga ::
  "execution_outcome \<Rightarrow> saga_step \<Rightarrow> time \<Rightarrow> saga_instance \<Rightarrow> error + saga_instance" where
  "advance_saga outcome step at i =
     (if si_Status i = SagaCompensating then
        if outcome \<noteq> ExecutionSucceeded then Inl (Message ''compensation failed'')
        else mapErr Saga (ApplyCompensationSuccess step at i)
      else if outcome = ExecutionSucceeded then mapErr Saga (ApplySuccess step at i)
      else mapErr Saga (BeginCompensation step at i))"

definition Handle ::
  "'s orchestrator \<Rightarrow> ctx \<Rightarrow> saga_message \<Rightarrow> 's saga_executor \<Rightarrow> ('s, error, unit) proc" where
  "Handle oc cx m executor =
     (case Message_Validate m of
        Some e \<Rightarrow> raiseP (Saga e)
      | None \<Rightarrow>
         bindP (gs_Find (oc_store oc) cx (sm_SagaID m)) (\<lambda>i.
           if si_Status i = SagaCompleted \<or> si_Status i = SagaFailed then returnP ()
           else if si_CurrentStep i \<noteq> sm_Step m then returnP ()
           else
             let cx = WithMetadata \<lparr>md_CorrelationID = sm_CorrelationID m, md_CausationID = sm_ID m\<rparr> cx in
             bindP (executor cx m) (\<lambda>execution.
               if \<not> ExecutionOutcome_Valid (ex_Outcome execution)
                 then raiseP (Message ''invalid saga execution outcome'')
               else if ex_Outcome execution = ExecutionPending
                 then eachP (publish_async oc cx m) (ex_AsyncOperations execution)
               else
                 bindP (readP (oc_clock oc)) (\<lambda>at.
                 bindP (liftP (advance_saga (ex_Outcome execution) (sm_Step m) at i)) (\<lambda>j.
                 bindP (gs_Save (oc_store oc) cx j) (\<lambda>_.
                   if si_Status j = SagaRunning \<or> si_Status j = SagaCompensating
                     then publishCurrent oc cx j at else returnP ()))))))"

section \<open>Message identities\<close>

lemma itoa_digits_eq: "0 < v \<Longrightarrow> itoa_digits v result = digits v @ result"
proof (induction v arbitrary: result rule: less_induct)
  case (less v)
  show ?case
  proof (cases "v < 10")
    case True
    with less.prems show ?thesis
      by (simp add: itoa_digits.simps [of v] itoa_digits.simps [of 0] digits.simps [of v])
  next
    case False
    with less.prems less.IH [of "v div 10"] show ?thesis
      by (simp add: itoa_digits.simps [of v] digits.simps [of v])
  qed
qed

lemma itoa_eq_digits: "itoa v = digits (unat v)"
proof -
  have "CHR ''0'' = char_of (48 :: nat)" by code_simp
  then show ?thesis by (simp add: itoa_def itoa_digits_eq unat_gt_0 digits.simps [of 0])
qed

section \<open>The contract of a saga store\<close>

text \<open>An executor that leaves the sagas, as \<open>recorded\<close> shows them, alone.\<close>

definition leaves_sagas :: "('s \<Rightarrow> string \<Rightarrow> saga_instance option) \<Rightarrow> 's saga_executor \<Rightarrow> bool" where
  "leaves_sagas recorded executor \<longleftrightarrow>
     (\<forall>c k s. recorded (snd (executor c k s)) = recorded s)"

text \<open>
  \<open>recorded\<close> is the abstract content of the store, a map from identities to instances. \<open>Find\<close>
  returns what the map holds. A \<open>Save\<close> that succeeds creates the instance, or overwrites the
  version before it; the payment of an instance is never overwritten. Nothing else changes the
  map, and publishing leaves it alone.
\<close>

locale saga_contract =
  fixes oc :: "'s orchestrator"
    and recorded :: "'s \<Rightarrow> string \<Rightarrow> saga_instance option"
  assumes find_ok: "gs_Find (oc_store oc) cx i s = (Inr j, s') \<Longrightarrow>
      recorded s i = Some j \<and> si_ID j = i"
    and find_frame: "gs_Find (oc_store oc) cx i s = (r, s') \<Longrightarrow> recorded s' = recorded s"
    and save_ok: "gs_Save (oc_store oc) cx j s = (Inr u, s') \<Longrightarrow>
      (case recorded s (si_ID j) of
         None \<Rightarrow> recorded s' = (recorded s)(si_ID j \<mapsto> j)
       | Some i \<Rightarrow> si_Version j = si_Version i + 1 \<and>
           recorded s' = (recorded s)(si_ID j \<mapsto> j\<lparr>si_PaymentID := si_PaymentID i\<rparr>))"
    and save_fail: "gs_Save (oc_store oc) cx j s = (Inl e, s') \<Longrightarrow> recorded s' = recorded s"
    and publish_frame: "oc_publish oc cx m s = (x, s') \<Longrightarrow> recorded s' = recorded s"
    and correlation_frame: "oc_newCorrelationID oc s = (y, s') \<Longrightarrow> recorded s' = recorded s"
begin

lemma publishCurrent_frame: "publishCurrent oc cx i at s = (r, s') \<Longrightarrow> recorded s' = recorded s"
  by (auto simp: publishCurrent_def Let_def bindP_def
      split: if_splits prod.splits sum.splits dest!: publish_frame correlation_frame)

lemma publish_async_frame: "publish_async oc cx m x s = (r, s') \<Longrightarrow> recorded s' = recorded s"
  by (auto simp: publish_async_def bindP_def split: prod.splits sum.splits dest!: publish_frame)

lemma publish_all_frame:
  "eachP (publish_async oc cx m) xs s = (r, s') \<Longrightarrow> recorded s' = recorded s"
proof (induction xs arbitrary: s)
  case (Cons x xs)
  then show ?case
    by (auto simp: bindP_apply split: prod.splits sum.splits dest!: publish_async_frame)
qed simp

text \<open>A message of a saga that is finished or has passed the step is only acknowledged.\<close>

lemma Handle_passed:
  assumes "Message_Validate m = None" and "recorded s (sm_SagaID m) = Some i"
    and "si_Status i = SagaCompleted \<or> si_Status i = SagaFailed \<or> si_CurrentStep i \<noteq> sm_Step m"
  shows "Handle oc cx m executor s =
     (case gs_Find (oc_store oc) cx (sm_SagaID m) s of (Inl e, s') \<Rightarrow> (Inl e, s') | (Inr j, s') \<Rightarrow> (Inr (), s'))"
  using assms find_ok [of cx "sm_SagaID m" s]
  by (auto simp: Handle_def bindP_apply split: prod.split sum.split)

text \<open>Handling a message moves its own saga by at most one transition, and touches no other.\<close>

lemma Handle_effect:
  assumes "Handle oc cx m executor s = (r, s')"
    and "leaves_sagas recorded executor"
  shows "recorded s' = recorded s \<or>
    (\<exists>i j. recorded s (sm_SagaID m) = Some i \<and> si_CurrentStep i = sm_Step m \<and> saga_moves i j \<and>
       recorded s' = (recorded s)(sm_SagaID m \<mapsto> j))"
proof (cases "recorded s' = recorded s")
  case False
  let ?cx = "WithMetadata \<lparr>md_CorrelationID = sm_CorrelationID m, md_CausationID = sm_ID m\<rparr> cx"
  from assms(1) False obtain i s1 where f: "gs_Find (oc_store oc) cx (sm_SagaID m) s = (Inr i, s1)"
    and step: "si_CurrentStep i = sm_Step m"
    and rest: "bindP (executor ?cx m) (\<lambda>execution.
               if \<not> ExecutionOutcome_Valid (ex_Outcome execution)
                 then raiseP (Message ''invalid saga execution outcome'')
               else if ex_Outcome execution = ExecutionPending
                 then eachP (publish_async oc ?cx m) (ex_AsyncOperations execution)
               else
                 bindP (readP (oc_clock oc)) (\<lambda>at.
                 bindP (liftP (advance_saga (ex_Outcome execution) (sm_Step m) at i)) (\<lambda>j.
                 bindP (gs_Save (oc_store oc) ?cx j) (\<lambda>_.
                   if si_Status j = SagaRunning \<or> si_Status j = SagaCompensating
                     then publishCurrent oc ?cx j at else returnP ())))) s1 = (r, s')"
    by (auto simp: Handle_def Let_def bindP_apply [of "gs_Find (oc_store oc) cx (sm_SagaID m)"]
        split: option.splits prod.splits sum.splits if_splits dest: find_frame)
  have rec: "recorded s1 = recorded s" and i: "recorded s (sm_SagaID m) = Some i" "si_ID i = sm_SagaID m"
    using find_frame [OF f] find_ok [OF f] by simp_all
  obtain x s2 where e: "executor ?cx m s1 = (x, s2)" by force
  have rec2: "recorded s2 = recorded s" using assms(2) e rec unfolding leaves_sagas_def by (metis snd_conv)
  from rest e False rec2 obtain j s3 u where
    adv: "advance_saga (ex_Outcome (projr x)) (sm_Step m) (oc_clock oc s2) i = Inr j"
    and sv: "gs_Save (oc_store oc) ?cx j s2 = (Inr u, s3)" and rec3: "recorded s' = recorded s3"
    by (auto simp: bindP_apply split: sum.splits prod.splits if_splits
        dest: publish_all_frame save_fail publishCurrent_frame)
  have mv: "saga_moves i j"
    using adv by (auto simp: advance_saga_def split: if_splits intro: saga_moves.intros)
  note frame = saga_moves_frame [OF mv]
  have "recorded s3 = (recorded s)(sm_SagaID m \<mapsto> j\<lparr>si_PaymentID := si_PaymentID i\<rparr>)"
    using save_ok [OF sv] frame i rec2 by simp
  then have "recorded s' = (recorded s)(sm_SagaID m \<mapsto> j)"
    using rec3 frame by (metis saga_instance.surjective saga_instance.update_convs(2))
  with i step mv show ?thesis by blast
qed simp

lemma Start_effect:
  assumes "StartWithPayload oc cx sid pid payload seed s = (r, s')"
  shows "recorded s' = recorded s \<or>
    (\<exists>at i. Saga_NewWithPayload sid pid payload seed at = Inr i \<and>
       (case recorded s sid of None \<Rightarrow> recorded s' = (recorded s)(sid \<mapsto> i)
        | Some k \<Rightarrow> si_Version k = 0))"
proof (cases "recorded s' = recorded s")
  case False
  from assms False obtain i u s1 where
    n: "Saga_NewWithPayload sid pid payload seed (oc_clock oc s) = Inr i"
    and sv: "gs_Save (oc_store oc) cx i s = (Inr u, s1)" and rec: "recorded s' = recorded s1"
    by (auto simp: StartWithPayload_def bindP_apply split: sum.splits prod.splits
        dest: save_fail publishCurrent_frame)
  have "si_ID i = sid" and "si_Version i = 1"
    using n by (auto simp: Saga_NewWithPayload_def Saga_New_def bindR_Inr_iff split: if_splits)
  with save_ok [OF sv] rec n show ?thesis by (auto split: option.splits)
qed simp

end

section \<open>Stored sagas follow the state machine\<close>

text \<open>
  A step of the system, seen from the saga store \<open>recorded\<close>: a saga is started, a message is
  handled by any executor that leaves the sagas alone, or something else happens that leaves them
  alone. Calls that fail at any point are steps too.
\<close>

inductive saga_step_of ::
  "'s orchestrator \<Rightarrow> ('s \<Rightarrow> string \<Rightarrow> saga_instance option) \<Rightarrow> 's \<Rightarrow> 's \<Rightarrow> bool"
  for oc recorded where
  start: "StartWithPayload oc cx sid pid payload seed s = (r, s') \<Longrightarrow> saga_step_of oc recorded s s'"
| handle: "Handle oc cx m executor s = (r, s') \<Longrightarrow>
    leaves_sagas recorded executor \<Longrightarrow> saga_step_of oc recorded s s'"
| elsewhere: "recorded s' = recorded s \<Longrightarrow> saga_step_of oc recorded s s'"

definition sagas_reachable :: "(string \<Rightarrow> saga_instance option) \<Rightarrow> bool" where
  "sagas_reachable f \<longleftrightarrow> (\<forall>i j. f i = Some j \<longrightarrow> saga_reachable j \<and> si_ID j = i)"

context saga_contract
begin

lemma step_effect:
  assumes "saga_step_of oc recorded s s'" and "sagas_reachable (recorded s)"
  shows "sagas_reachable (recorded s')"
    and "recorded s i = Some j \<Longrightarrow> \<exists>k. recorded s' i = Some k \<and> (k = j \<or> saga_moves j k)"
proof -
  have "sagas_reachable (recorded s') \<and>
    (\<forall>i j. recorded s i = Some j \<longrightarrow> (\<exists>k. recorded s' i = Some k \<and> (k = j \<or> saga_moves j k)))"
    using assms(1)
  proof cases
    case (start cx sid pid payload seed r)
    have "si_Version k \<noteq> 0" if "recorded s sid = Some k" for k
    proof -
      from assms(2) that have "saga_reachable k" by (auto simp: sagas_reachable_def)
      then obtain p where "in_phase p k" using saga_reachable_phase by blast
      then show ?thesis by (cases p) (simp_all add: in_phase_def)
    qed
    with Start_effect [OF start] consider "recorded s' = recorded s"
      | at i where "Saga_NewWithPayload sid pid payload seed at = Inr i" "recorded s sid = None"
          "recorded s' = (recorded s)(sid \<mapsto> i)"
      by (auto split: option.splits)
    then show ?thesis
    proof cases
      case (2 at i)
      then have "saga_reachable i" and "si_ID i = sid"
        by (auto intro: saga_reachable.started
            simp: Saga_NewWithPayload_def Saga_New_def bindR_Inr_iff split: if_splits)
      with 2 assms(2) show ?thesis by (auto simp: sagas_reachable_def)
    qed (use assms(2) in auto)
  next
    case (handle cx m executor r)
    from Handle_effect [OF handle(1) handle(2)] show ?thesis
    proof
      assume "recorded s' = recorded s"
      with assms(2) show ?thesis by simp
    next
      assume "\<exists>i j. recorded s (sm_SagaID m) = Some i \<and> si_CurrentStep i = sm_Step m \<and> saga_moves i j \<and>
         recorded s' = (recorded s)(sm_SagaID m \<mapsto> j)"
      then obtain i j where i: "recorded s (sm_SagaID m) = Some i" and mv: "saga_moves i j"
        and rec: "recorded s' = (recorded s)(sm_SagaID m \<mapsto> j)" by blast
      from i assms(2) have "saga_reachable i" and "si_ID i = sm_SagaID m"
        by (auto simp: sagas_reachable_def)
      with mv have "saga_reachable j" and "si_ID j = sm_SagaID m"
        using saga_moves_frame [OF mv] by (auto intro: saga_reachable.moved)
      with assms(2) i mv rec show ?thesis by (auto simp: sagas_reachable_def)
    qed
  qed (use assms(2) in simp)
  then show "sagas_reachable (recorded s')"
    and "recorded s i = Some j \<Longrightarrow> \<exists>k. recorded s' i = Some k \<and> (k = j \<or> saga_moves j k)" by blast+
qed

lemma steps_effect:
  assumes "(saga_step_of oc recorded)\<^sup>*\<^sup>* s s'" and "sagas_reachable (recorded s)"
  shows "sagas_reachable (recorded s')"
    and "recorded s i = Some j \<Longrightarrow> \<exists>k. recorded s' i = Some k \<and> saga_moves\<^sup>*\<^sup>* j k"
proof -
  have "sagas_reachable (recorded s') \<and>
    (recorded s i = Some j \<longrightarrow> (\<exists>k. recorded s' i = Some k \<and> saga_moves\<^sup>*\<^sup>* j k))"
    using assms
  proof (induction rule: rtranclp_induct)
    case (step t u)
    then show ?case
      by (metis step_effect rtranclp.rtrancl_into_rtrancl)
  qed simp
  then show "sagas_reachable (recorded s')"
    and "recorded s i = Some j \<Longrightarrow> \<exists>k. recorded s' i = Some k \<and> saga_moves\<^sup>*\<^sup>* j k" by blast+
qed

end

end
