(* ===== verification/Saga_Executor.thy ===== *)
theory Saga_Executor
  imports Saga_Orchestration Payment_History
begin

text \<open>
  The payment executor of \<open>internal/paymentworkflow/application/payment_executor.go\<close>, over a
  payment repository, its publisher and a provider: one message makes at most one provider call
  and at most one payment command, and a step that took effect is not repeated.
\<close>

section \<open>The step of a message\<close>

record saga_input =
  in_Amount :: int64
  in_Currency :: string

definition input_member :: "string \<Rightarrow> json \<Rightarrow> saga_input \<Rightarrow> saga_input option" where
  "input_member k v x =
     (if names k ''amount'' then map_option (\<lambda>a. x\<lparr>in_Amount := a\<rparr>) (json_int64 (in_Amount x) v)
      else if names k ''currency''
        then map_option (\<lambda>a. x\<lparr>in_Currency := a\<rparr>) (json_string (in_Currency x) v)
      else Some x)"

definition decode_input :: "bytes \<Rightarrow> error + saga_input" where
  "decode_input payload =
     (if payload = NoBytes then Inr \<lparr>in_Amount = 0, in_Currency = []\<rparr>
      else Unmarshal input_member \<lparr>in_Amount = 0, in_Currency = []\<rparr> payload)"

fun stepAlreadyApplied :: "payment \<Rightarrow> saga_step \<Rightarrow> saga_input \<Rightarrow> bool" where
  "stepAlreadyApplied p StepAuthorize x \<longleftrightarrow>
     money_amount (AuthorizedAmount p) = money_amount (p_amount p)"
| "stepAlreadyApplied p StepCapture x \<longleftrightarrow>
     sint (in_Amount x) > 0 \<and> sint (money_amount (CapturedAmount p)) \<ge> sint (in_Amount x)"
| "stepAlreadyApplied p StepRefund x \<longleftrightarrow>
     sint (in_Amount x) > 0 \<and> sint (money_amount (RefundedAmount p)) \<ge> sint (in_Amount x)"
| "stepAlreadyApplied p StepCancel x \<longleftrightarrow> p_status p = StatusCancelled"
| "stepAlreadyApplied p (UnknownStep t) x \<longleftrightarrow> False"

text \<open>The call of the provider: an asynchronous operation, or that of the step.\<close>

definition provider_call ::
  "provider_interface \<Rightarrow> saga_message \<Rightarrow> payment_snapshot \<Rightarrow> saga_input \<Rightarrow> time \<Rightarrow>
     error + operation_result" where
  "provider_call provider m snapshot input now =
     (if sm_OperationID m \<noteq> [] then
        (case pv_ExecuteAsync provider of
           None \<Rightarrow> Inl (Message ''provider does not support async execution'')
         | Some executeAsync \<Rightarrow> bindR (Unmarshal_async (sm_Payload m)) executeAsync)
      else
        (case sm_Step m of
           StepAuthorize \<Rightarrow> pv_Authorize provider snapshot now
         | StepCapture \<Rightarrow>
             bindR (mapErr Payment (NewMoney (in_Amount input) (in_Currency input))) (\<lambda>amount.
               pv_Capture provider snapshot amount now)
         | StepRefund \<Rightarrow>
             bindR (mapErr Payment (NewMoney (in_Amount input) (in_Currency input))) (\<lambda>amount.
               pv_Refund provider snapshot amount now)
         | StepCancel \<Rightarrow> pv_Cancel provider snapshot now
         | UnknownStep t \<Rightarrow> Inl (Saga SagaErrInvalidStep)))"

text \<open>The payment service that a successful step runs.\<close>

fun step_request :: "saga_step \<Rightarrow> string \<Rightarrow> saga_input \<Rightarrow> request option" where
  "step_request StepAuthorize i x = Some (RequestAuthorize i)"
| "step_request StepCapture i x =
     Some (RequestCapture \<lparr>ac_PaymentID = i, ac_Amount = in_Amount x, ac_Currency = in_Currency x\<rparr>)"
| "step_request StepRefund i x =
     Some (RequestRefund \<lparr>ac_PaymentID = i, ac_Amount = in_Amount x, ac_Currency = in_Currency x\<rparr>)"
| "step_request StepCancel i x = Some (RequestCancel i)"
| "step_request (UnknownStep t) i x = None"

record ('s, 'h) payment_executor =
  pe_payments :: "('s, 'h) payment_repository"
  pe_publisher :: "'s publisher option"
  pe_provider :: provider_interface
  pe_clock :: "'s \<Rightarrow> time"

definition NewPaymentExecutorWithPublisher ::
  "('s, 'h) payment_repository option \<Rightarrow> provider_interface option \<Rightarrow> ('s \<Rightarrow> time) option \<Rightarrow>
     's publisher option \<Rightarrow> error + ('s, 'h) payment_executor" where
  "NewPaymentExecutorWithPublisher payments provider businessClock publisher =
     (case (payments, provider, businessClock) of
        (Some r, Some p, Some c) \<Rightarrow>
          Inr \<lparr>pe_payments = r, pe_publisher = publisher, pe_provider = p, pe_clock = c\<rparr>
      | _ \<Rightarrow> Inl (Message ''invalid payment saga executor''))"

definition NewPaymentExecutor ::
  "('s, 'h) payment_repository option \<Rightarrow> provider_interface option \<Rightarrow> ('s \<Rightarrow> time) option \<Rightarrow>
     error + ('s, 'h) payment_executor" where
  "NewPaymentExecutor payments provider businessClock =
     NewPaymentExecutorWithPublisher payments provider businessClock None"

text \<open>What follows a valid result of the provider.\<close>

definition settle_step ::
  "('s, 'h) payment_executor \<Rightarrow> ctx \<Rightarrow> saga_message \<Rightarrow> saga_input \<Rightarrow> operation_result \<Rightarrow>
     ('s, error, execution) proc" where
  "settle_step ex cx m input result =
     (if or_Outcome result = OutcomePending
        then returnP \<lparr>ex_Outcome = ExecutionPending, ex_AsyncOperations = or_AsyncOperations result\<rparr>
      else if or_Outcome result = OutcomeFailed then
        bindP
          (if sm_Step m = StepAuthorize
             then bindP (service (pe_payments ex) (pe_publisher ex) cx (RequestFail (sm_PaymentID m)))
                    (\<lambda>_. returnP ())
           else returnP ())
          (\<lambda>_. returnP \<lparr>ex_Outcome = ExecutionFailed, ex_AsyncOperations = []\<rparr>)
      else
        bindP
          (case step_request (sm_Step m) (sm_PaymentID m) input of
             None \<Rightarrow> returnP ()
           | Some r \<Rightarrow> bindP (service (pe_payments ex) (pe_publisher ex) cx r) (\<lambda>_. returnP ()))
          (\<lambda>_. returnP \<lparr>ex_Outcome = ExecutionSucceeded, ex_AsyncOperations = []\<rparr>))"

definition PaymentExecutor_Execute ::
  "('s, 'h) payment_executor \<Rightarrow> ctx \<Rightarrow> saga_message \<Rightarrow> ('s, error, execution) proc" where
  "PaymentExecutor_Execute ex cx m =
     (let cx = WithMetadata
            \<lparr>md_CorrelationID = sm_CorrelationID m, md_CausationID = sm_CausationID m\<rparr> cx in
      bindP (rp_FindByID (pe_payments ex) cx (sm_PaymentID m)) (\<lambda>h.
      bindP (readP (rp_value (pe_payments ex) h)) (\<lambda>p.
      bindP (liftP (decode_input (sm_Payload m))) (\<lambda>input.
        if stepAlreadyApplied p (sm_Step m) input
          then returnP \<lparr>ex_Outcome = ExecutionSucceeded, ex_AsyncOperations = []\<rparr>
        else
          bindP (readP (pe_clock ex)) (\<lambda>now.
          bindP (liftP (provider_call (pe_provider ex) m (snapshot_of_payment p) input now))
            (\<lambda>result.
            case OperationResult_Validate result of
              Some e \<Rightarrow> raiseP (Provider e)
            | None \<Rightarrow> settle_step ex cx m input result))))))"

section \<open>A step takes effect once\<close>

text \<open>What the successful service of a step leaves is recognised as that step.\<close>

lemma step_applied:
  assumes "step_request step i x = Some r" and "request_op r = Inr op"
    and "payment_call op p = Inr q" and "payment_ok p"
  shows "stepAlreadyApplied q step x"
proof -
  have v: "payment_valid p" using assms(4) by (simp add: payment_ok_def)
  note amounts = payment_call_amounts [OF v assms(3)] and bounds = payment_valid_bounds [OF v]
  show ?thesis
  proof (cases step)
    case StepAuthorize
    with assms show ?thesis
      by (auto simp: Payment_Authorize_def AuthorizedAmount_def split: if_splits)
  next
    case StepCapture
    with assms obtain m where "op = OpCapture m" and "money_amount m = in_Amount x"
      by (auto simp: bindR_Inr_iff NewMoney_Inr_iff)
    with assms(3) amounts bounds StepCapture show ?thesis
      by (auto simp: Payment_Capture_def CapturedAmount_def Let_def split: if_splits)
  next
    case StepRefund
    with assms obtain m where "op = OpRefund m" and "money_amount m = in_Amount x"
      by (auto simp: bindR_Inr_iff NewMoney_Inr_iff)
    with assms(3) amounts bounds StepRefund show ?thesis
      by (auto simp: Payment_Refund_def RefundedAmount_def Let_def split: if_splits)
  next
    case StepCancel
    with assms show ?thesis by (auto simp: Payment_Cancel_def split: if_splits)
  qed (use assms in simp)
qed

lemma step_request_payment: "step_request step i x = Some r \<Longrightarrow> request_payment r = i"
  by (cases step) auto

context publishing_contract
begin

text \<open>A step that has been applied is acknowledged without a provider call or a command.\<close>

lemma Execute_applied:
  assumes "pe_payments ex = repo" and "lookup s (sm_PaymentID m) = Some p"
    and "decode_input (sm_Payload m) = Inr x" and "stepAlreadyApplied p (sm_Step m) x"
  shows "PaymentExecutor_Execute ex cx m s =
    (case rp_FindByID repo (WithMetadata \<lparr>md_CorrelationID = sm_CorrelationID m,
              md_CausationID = sm_CausationID m\<rparr> cx) (sm_PaymentID m) s of
       (Inl e, s') \<Rightarrow> (Inl e, s')
     | (Inr h, s') \<Rightarrow> (Inr \<lparr>ex_Outcome = ExecutionSucceeded, ex_AsyncOperations = []\<rparr>, s'))"
  using assms find_ok
  by (auto simp: PaymentExecutor_Execute_def Let_def bindP_apply split: prod.split sum.split)

lemma Execute_succeeded:
  assumes "PaymentExecutor_Execute ex cx m s = (Inr y, s')" and "ex_Outcome y = ExecutionSucceeded"
    and "pe_payments ex = repo" and "pe_publisher ex = publisher" and "Step_Valid (sm_Step m)"
    and "\<And>p. lookup s (sm_PaymentID m) = Some p \<Longrightarrow> payment_ok p \<and> p_version p \<noteq> - 1"
  obtains q x where "lookup s' (sm_PaymentID m) = Some q" and "decode_input (sm_Payload m) = Inr x"
    and "stepAlreadyApplied q (sm_Step m) x"
proof -
  let ?cx = "WithMetadata \<lparr>md_CorrelationID = sm_CorrelationID m, md_CausationID = sm_CausationID m\<rparr> cx"
  from assms(1,3) obtain h s1 x where f: "rp_FindByID repo ?cx (sm_PaymentID m) s = (Inr h, s1)"
    and x: "decode_input (sm_Payload m) = Inr x"
    and rest: "(if stepAlreadyApplied (rp_value repo h s1) (sm_Step m) x
          then returnP \<lparr>ex_Outcome = ExecutionSucceeded, ex_AsyncOperations = []\<rparr>
        else
          bindP (readP (pe_clock ex)) (\<lambda>now.
          bindP (liftP (provider_call (pe_provider ex) m
              (snapshot_of_payment (rp_value repo h s1)) x now)) (\<lambda>result.
            case OperationResult_Validate result of
              Some e \<Rightarrow> raiseP (Provider e)
            | None \<Rightarrow> settle_step ex ?cx m x result))) s1 = (Inr y, s')"
    by (auto simp: PaymentExecutor_Execute_def Let_def elim!: bindP_InrE)
  note F = find_ok [OF f]
  show thesis
  proof (cases "stepAlreadyApplied (rp_value repo h s1) (sm_Step m) x")
    case True
    with rest F x that show thesis by simp
  next
    case False
    with rest obtain result where "settle_step ex ?cx m x result s1 = (Inr y, s')"
      by (auto elim!: bindP_InrE split: option.splits)
    with assms(2-5) obtain r h2 s2 where r: "step_request (sm_Step m) (sm_PaymentID m) x = Some r"
      and sv: "service repo publisher ?cx r s1 = (Inr h2, s')"
      by (cases "sm_Step m") (auto simp: settle_step_def elim!: bindP_InrE split: if_splits)
    note rp = step_request_payment [OF r]
    have "\<And>p. lookup s1 (request_payment r) = Some p \<Longrightarrow> payment_ok p \<and> p_version p \<noteq> - 1"
      using assms(6) F rp by simp
    from service_effect [OF sv this] obtain p op q where p: "lookup s1 (request_payment r) = Some p"
      and op: "request_op r = Inr op" and call: "payment_call op p = Inr q"
      and l: "lookup s' = (lookup s1)(request_payment r \<mapsto> q)" by blast
    have "payment_ok p" using assms(6) p F rp by simp
    from step_applied [OF r op call this] l rp x that show thesis by simp
  qed
qed

end

end
