(* ===== verification/Saga_Sqlite.thy ===== *)
theory Saga_Sqlite
  imports Saga_Executor Frames Payment_History
begin

text \<open>
  The SQLite saga repository and publisher of \<open>internal/paymentworkflow/adapters/sqlite\<close>, the
  composition of \<open>internal/app/app.go\<close> (the handler of \<open>saga.step\<close> jobs), and the properties of
  sagas as the running program keeps them.
\<close>

section \<open>The repository\<close>

definition saga_row_of :: "saga_instance \<Rightarrow> int \<Rightarrow> int \<Rightarrow> saga_row" where
  "saga_row_of i seed version =
     \<lparr>sr_id = si_ID i, sr_payment_id = si_PaymentID i, sr_payload = si_Payload i,
      sr_status = si_Status i, sr_current_step = si_CurrentStep i,
      sr_completed_steps = si_CompletedSteps i, sr_compensation_steps = si_Compensation i,
      sr_seed = seed, sr_version = version, sr_updated_at = si_UpdatedAt i\<rparr>"

text \<open>The upsert: the columns of the previous version are overwritten, but not the payment.\<close>

definition upsert_saga :: "saga_row \<Rightarrow> db \<Rightarrow> nat \<times> db" where
  "upsert_saga r d =
     (case row_at sr_id (sr_id r) (t_saga_instances d) of
        None \<Rightarrow> (1, d\<lparr>t_saga_instances := t_saga_instances d @ [r]\<rparr>)
      | Some old \<Rightarrow>
          if sr_version old = sr_version r - 1
          then (1, d\<lparr>t_saga_instances :=
                  put_row sr_id (r\<lparr>sr_payment_id := sr_payment_id old\<rparr>) (t_saga_instances d)\<rparr>)
          else (0, d))"

definition SagaRepository_Save :: "ctx \<Rightarrow> saga_instance \<Rightarrow> unit act" where
  "SagaRepository_Save cx i =
     bindP (uint64_arg (si_Seed i)) (\<lambda>seed.
     bindP (uint64_arg (si_Version i)) (\<lambda>version.
     bindP (statement (upsert_saga (saga_row_of i seed version))) (\<lambda>affected.
       if affected \<noteq> 1 then raiseP (Saga SagaErrVersionConflict) else returnP ())))"

definition scan_saga :: "saga_row \<Rightarrow> error + saga_instance" where
  "scan_saga r =
     bindR (scan_uint64 (sr_seed r)) (\<lambda>seed.
     bindR (scan_uint64 (sr_version r)) (\<lambda>version.
     bindR (parse_time (sr_updated_at r)) (\<lambda>updated.
       Inr \<lparr>si_ID = sr_id r, si_PaymentID = sr_payment_id r, si_Payload = sr_payload r,
            si_Status = sr_status r, si_CurrentStep = sr_current_step r,
            si_CompletedSteps = sr_completed_steps r, si_Compensation = sr_compensation_steps r,
            si_Seed = seed, si_Version = version, si_UpdatedAt = updated\<rparr>)))"

definition SagaRepository_Find :: "ctx \<Rightarrow> string \<Rightarrow> saga_instance act" where
  "SagaRepository_Find cx i =
     bindP (query_row (\<lambda>d. row_at sr_id i (t_saga_instances d))) (\<lambda>r. liftP (scan_saga r))"

definition sqlite_sagas :: "world saga_store" where
  "sqlite_sagas = \<lparr>gs_Save = SagaRepository_Save, gs_Find = SagaRepository_Find\<rparr>"

section \<open>The publisher\<close>

definition SagaPublisher_Publish :: "ctx \<Rightarrow> saga_message \<Rightarrow> unit act" where
  "SagaPublisher_Publish cx m =
     (case Message_Validate m of
        Some e \<Rightarrow> raiseP (Saga e)
      | None \<Rightarrow>
         bindP (liftP (Marshal_message m)) (\<lambda>payload.
         bindP (liftP (mapErr JobErr (NewJob (sm_ID m) ''saga.step'' payload (sm_ScheduledAt m)
                  [\<lparr>jm_AggregateID = sm_PaymentID m, jm_CausationID = sm_CausationID m\<rparr>]))) (\<lambda>j.
           SchedulerRepository_Save cx j)))"

section \<open>The composition\<close>

definition runtime_orchestrator :: "world orchestrator" where
  "runtime_orchestrator =
     \<lparr>oc_store = sqlite_sagas, oc_publish = SagaPublisher_Publish, oc_clock = business_now,
      oc_newCorrelationID = NewCorrelationID\<rparr>"

definition runtime_executor ::
  "net_library \<Rightarrow> provider_interface \<Rightarrow> (world, payment) payment_executor" where
  "runtime_executor net provider =
     \<lparr>pe_payments = sqlite_repository, pe_publisher = Some (PaymentEventPublisher_Publish net),
      pe_provider = provider, pe_clock = business_now\<rparr>"

text \<open>The handler that the worker runs for a \<open>saga.step\<close> job, with the provider \<open>fake\<close>.\<close>

definition saga_step_handler :: "net_library \<Rightarrow> ctx \<Rightarrow> bytes \<Rightarrow> unit act" where
  "saga_step_handler net cx payload =
     bindP (liftP (Unmarshal_message payload)) (\<lambda>m.
       Handle runtime_orchestrator cx m
         (PaymentExecutor_Execute (runtime_executor net (deterministic_interface Fake_New))))"

section \<open>The repository keeps the contract\<close>

text \<open>What a row says of a saga, whether or not \<open>Find\<close> can read it.\<close>

definition saga_of_row :: "saga_row \<Rightarrow> saga_instance" where
  "saga_of_row r =
     \<lparr>si_ID = sr_id r, si_PaymentID = sr_payment_id r, si_Payload = sr_payload r,
      si_Status = sr_status r, si_CurrentStep = sr_current_step r,
      si_CompletedSteps = sr_completed_steps r, si_Compensation = sr_compensation_steps r,
      si_Seed = word_of_int (sr_seed r), si_Version = word_of_int (sr_version r),
      si_UpdatedAt = sr_updated_at r\<rparr>"

definition recorded_sagas :: "world \<Rightarrow> string \<Rightarrow> saga_instance option" where
  "recorded_sagas w i = map_option saga_of_row (row_at sr_id i (t_saga_instances (w_db w)))"

lemma recorded_sagas_same:
  "t_saga_instances (w_db w') = t_saga_instances (w_db w) \<Longrightarrow> recorded_sagas w' = recorded_sagas w"
  by (simp add: fun_eq_iff recorded_sagas_def)

lemma scan_saga_Inr: "scan_saga r = Inr i \<Longrightarrow> i = saga_of_row r"
  by (auto simp: scan_saga_def saga_of_row_def bindR_Inr_iff scan_uint64_Inr_iff parse_time_Inr_iff)

lemma saga_of_row_of [simp]:
  "saga_of_row (saga_row_of i (uint (si_Seed i)) (uint (si_Version i))) = i"
  "saga_of_row ((saga_row_of i (uint (si_Seed i)) (uint (si_Version i)))\<lparr>sr_payment_id := p\<rparr>) =
     i\<lparr>si_PaymentID := p\<rparr>"
  by (simp_all add: saga_of_row_def saga_row_of_def)

lemma saga_row_of_id [simp]: "sr_id (saga_row_of i s v) = si_ID i"
  and saga_row_of_version [simp]: "sr_version (saga_row_of i s v) = v"
  by (simp_all add: saga_row_of_def)

lemma SagaFind_Inr:
  assumes "SagaRepository_Find cx i w = (Inr j, w')"
  shows "recorded_sagas w i = Some j \<and> si_ID j = i \<and> w_db w' = w_db w"
proof -
  from assms obtain r where q: "query_row (\<lambda>d. row_at sr_id i (t_saga_instances d)) w = (Inr r, w')"
    and j: "j = saga_of_row r"
    by (auto simp: SagaRepository_Find_def elim!: bindP_InrE dest!: scan_saga_Inr)
  note Q = query_row_Inr [OF q]
  from row_at_SomeD [OF Q(1)] Q j show ?thesis by (simp add: recorded_sagas_def saga_of_row_def)
qed

lemma SagaFind_read_only: "read_only (SagaRepository_Find cx i)"
  by (simp add: SagaRepository_Find_def read_only_intros)

lemma SagaFind_local: "db_local (SagaRepository_Find cx i)"
  by (simp add: SagaRepository_Find_def local_intros)

lemma SagaSave_Inr:
  assumes "SagaRepository_Save cx j w = (Inr u, w')"
  shows "case recorded_sagas w (si_ID j) of
      None \<Rightarrow> recorded_sagas w' = (recorded_sagas w)(si_ID j \<mapsto> j)
    | Some i \<Rightarrow> si_Version j = si_Version i + 1 \<and>
        recorded_sagas w' = (recorded_sagas w)(si_ID j \<mapsto> j\<lparr>si_PaymentID := si_PaymentID i\<rparr>)"
proof -
  let ?r = "saga_row_of j (uint (si_Seed j)) (uint (si_Version j))"
  from assms have up: "fst (upsert_saga ?r (w_db w)) = 1" and db: "w_db w' = snd (upsert_saga ?r (w_db w))"
    by (auto simp: SagaRepository_Save_def uint64_arg_Inr elim!: bindP_InrE dest!: statement_InrD
        split: if_splits)
  show ?thesis
  proof (cases "row_at sr_id (si_ID j) (t_saga_instances (w_db w))")
    case None
    with db have "t_saga_instances (w_db w') = t_saga_instances (w_db w) @ [?r]"
      by (simp add: upsert_saga_def)
    with None show ?thesis
      by (auto simp: recorded_sagas_def fun_eq_iff row_at_append split: option.split)
  next
    case (Some old)
    with up have v: "sr_version old = uint (si_Version j) - 1"
      by (auto simp: upsert_saga_def split: if_splits)
    have "t_saga_instances (w_db w') =
        put_row sr_id (?r\<lparr>sr_payment_id := sr_payment_id old\<rparr>) (t_saga_instances (w_db w))"
      using Some db v by (simp add: upsert_saga_def)
    moreover have "si_Version (saga_of_row old) + 1 = si_Version j"
      by (simp add: saga_of_row_def v)
    moreover have "si_PaymentID (saga_of_row old) = sr_payment_id old" by (simp add: saga_of_row_def)
    ultimately show ?thesis using Some by (auto simp: recorded_sagas_def fun_eq_iff)
  qed
qed

lemma SagaSave_Inl: "SagaRepository_Save cx j w = (Inl e, w') \<Longrightarrow> w_db w' = w_db w"
  by (auto simp: SagaRepository_Save_def uint64_arg_Inr uint64_arg_Inl upsert_saga_def
      elim!: bindP_InlE dest!: statement_InrD statement_InlD split: if_splits option.splits)

lemma SagaFind_frame: "SagaRepository_Find cx i w = (r, w') \<Longrightarrow> recorded_sagas w' = recorded_sagas w"
  using read_onlyD [OF SagaFind_read_only] by (metis recorded_sagas_same)

lemma keeps_recorded: "keeps t_saga_instances m \<Longrightarrow> m w = (r, w') \<Longrightarrow> recorded_sagas w' = recorded_sagas w"
  by (intro recorded_sagas_same) (rule keepsD)

lemma keeps_SagaPublisher [keeps_intros]: "apart g \<Longrightarrow> keeps g (SagaPublisher_Publish cx m)"
  by (auto simp: SagaPublisher_Publish_def intro!: keeps_intros)

interpretation runtime_sagas: saga_contract runtime_orchestrator recorded_sagas
proof
  fix cx i s j s' assume "gs_Find (oc_store runtime_orchestrator) cx i s = (Inr j, s')"
  then show "recorded_sagas s i = Some j \<and> si_ID j = i"
    using SagaFind_Inr by (simp add: runtime_orchestrator_def sqlite_sagas_def)
next
  fix cx i s r s' assume "gs_Find (oc_store runtime_orchestrator) cx i s = (r, s')"
  then show "recorded_sagas s' = recorded_sagas s"
    using SagaFind_frame by (simp add: runtime_orchestrator_def sqlite_sagas_def)
next
  fix cx j s u s' assume "gs_Save (oc_store runtime_orchestrator) cx j s = (Inr u, s')"
  then have "SagaRepository_Save cx j s = (Inr u, s')" by (simp add: runtime_orchestrator_def sqlite_sagas_def)
  from SagaSave_Inr [OF this] show "case recorded_sagas s (si_ID j) of
         None \<Rightarrow> recorded_sagas s' = (recorded_sagas s)(si_ID j \<mapsto> j)
       | Some i \<Rightarrow> si_Version j = si_Version i + 1 \<and>
           recorded_sagas s' = (recorded_sagas s)(si_ID j \<mapsto> j\<lparr>si_PaymentID := si_PaymentID i\<rparr>)" .
next
  fix cx j s e s' assume "gs_Save (oc_store runtime_orchestrator) cx j s = (Inl e, s')"
  then show "recorded_sagas s' = recorded_sagas s"
    using SagaSave_Inl by (auto simp: runtime_orchestrator_def sqlite_sagas_def intro: recorded_sagas_same)
next
  fix cx m s s' and x :: "error + unit" assume "oc_publish runtime_orchestrator cx m s = (x, s')"
  then show "recorded_sagas s' = recorded_sagas s"
    using keeps_recorded [OF keeps_SagaPublisher [of t_saga_instances]] by (simp add: runtime_orchestrator_def)
next
  fix s s' y assume "oc_newCorrelationID runtime_orchestrator s = (y, s')"
  then show "recorded_sagas s' = recorded_sagas s"
    using keeps_recorded [OF keeps_NewCorrelationID] by (simp add: runtime_orchestrator_def)
qed

text \<open>The payment executor is one of the executors that leave the sagas alone.\<close>

lemma keeps_PaymentExecutor [keeps_intros]:
  assumes "apart g" and "pe_payments ex = sqlite_repository" and "publisher_keeps g (pe_publisher ex)"
  shows "keeps g (PaymentExecutor_Execute ex cx m)"
  using assms
  by (auto simp: PaymentExecutor_Execute_def settle_step_def Let_def simp del: service.simps
      intro!: keeps_intros split: option.splits)

lemma runtime_executor_leaves:
  "leaves_sagas recorded_sagas (PaymentExecutor_Execute (runtime_executor net provider))"
proof -
  have "keeps t_saga_instances (PaymentExecutor_Execute (runtime_executor net provider) cx m)" for cx m
    by (rule keeps_PaymentExecutor) (simp_all add: runtime_executor_def)
  then show ?thesis
    by (auto simp: leaves_sagas_def keeps_def intro: recorded_sagas_same)
qed

section \<open>Properties\<close>

abbreviation saga_steps :: "world \<Rightarrow> world \<Rightarrow> bool" where
  "saga_steps \<equiv> (saga_step_of runtime_orchestrator recorded_sagas)\<^sup>*\<^sup>*"

lemma no_sagas: "t_saga_instances (w_db w) = [] \<Longrightarrow> sagas_reachable (recorded_sagas w)"
  by (simp add: sagas_reachable_def recorded_sagas_def)

text \<open>A world with a created payment \<open>p1\<close> of 10.00 EUR and its saga \<open>s1\<close>, just started.\<close>

definition saga_ctx :: ctx where
  "saga_ctx = WithMetadata \<lparr>md_CorrelationID = ''corr'', md_CausationID = []\<rparr> background"

definition saga_world :: world where
  "saga_world = fresh_world\<lparr>w_db := empty_db\<lparr>t_payments := [payment_row_of sample 1]\<rparr>\<rparr>"

definition started_world :: world where
  "started_world = snd (StartWithPayload runtime_orchestrator saga_ctx ''s1'' ''p1'' NoBytes 7 saga_world)"

definition authorize_message :: saga_message where
  "authorize_message =
     \<lparr>sm_ID = ''s1:authorize:1'', sm_SagaID = ''s1'', sm_PaymentID = ''p1'', sm_Step = StepAuthorize,
      sm_OperationID = [], sm_Payload = NoBytes, sm_Seed = 7, sm_ScheduledAt = 60000000000,
      sm_VirtualAt = 60000000000, sm_Attempt = 1, sm_CorrelationID = ''corr'', sm_CausationID = []\<rparr>"

definition quiet_executor :: "world saga_executor" where
  "quiet_executor cx m = returnP \<lparr>ex_Outcome = ExecutionSucceeded, ex_AsyncOperations = []\<rparr>"

lemma quiet_executor_leaves: "leaves_sagas recorded_sagas quiet_executor"
  by (simp add: leaves_sagas_def quiet_executor_def)

lemma started_steps: "saga_steps saga_world started_world"
  unfolding started_world_def
  by (intro r_into_rtranclp saga_step_of.start [OF prod.collapse [symmetric]])

lemma started_recorded: "recorded_sagas started_world ''s1'' = Some (sample_saga\<lparr>si_UpdatedAt := 60000000000\<rparr>)"
  by code_simp

text \<open>
  C26. Whatever is asked of the system and whatever fails, the stored sagas follow the state machine:
  from an empty table, through any sequence of starts, handled messages (redelivered, out of order,
  with any executor) and other work, every stored saga is one that the transitions can reach, under
  its own identity; it is never removed, and later versions of it come from it by transitions.
\<close>

theorem stored_sagas_follow_machine:
  assumes "t_saga_instances (w_db w0) = []" and "saga_steps w0 w" and "saga_steps w w'"
    and "recorded_sagas w i = Some j"
  shows "saga_reachable j \<and> si_ID j = i \<and>
    (\<exists>k. recorded_sagas w' i = Some k \<and> saga_reachable k \<and> saga_moves\<^sup>*\<^sup>* j k)"
proof -
  note R = runtime_sagas.steps_effect [OF assms(2) no_sagas [OF assms(1)]]
  note R' = runtime_sagas.steps_effect [OF assms(3) R(1)]
  show ?thesis using R(1) R'(1) R'(2) [OF assms(4)] assms(4) unfolding sagas_reachable_def by blast
qed

theorem stored_sagas_follow_machine_witness:
  "\<exists>k. recorded_sagas (snd (Handle runtime_orchestrator background authorize_message quiet_executor
        started_world)) ''s1'' = Some k \<and> saga_moves\<^sup>*\<^sup>* (sample_saga\<lparr>si_UpdatedAt := 60000000000\<rparr>) k"
proof -
  let ?w = "snd (Handle runtime_orchestrator background authorize_message quiet_executor started_world)"
  have "saga_step_of runtime_orchestrator recorded_sagas started_world ?w"
    by (rule saga_step_of.handle [OF prod.collapse [symmetric] quiet_executor_leaves])
  then have "saga_steps started_world ?w" by (rule r_into_rtranclp)
  from stored_sagas_follow_machine [OF _ started_steps this started_recorded]
  show ?thesis by (simp add: saga_world_def empty_db_def) blast
qed

lemma moved_on:
  assumes "saga_reachable i" and "saga_moves i j" and "saga_moves\<^sup>*\<^sup>* j k"
  shows "si_Status k = SagaCompleted \<or> si_Status k = SagaFailed \<or> si_CurrentStep k \<noteq> si_CurrentStep i"
proof -
  from saga_reachable_phase [OF assms(1)] obtain p where p: "in_phase p i" ..
  from assms(3) obtain n where "(saga_moves ^^ n) j k" by (auto simp: rtranclp_power)
  with assms(2) have "(saga_moves ^^ Suc n) i k" by (rule relpowp_Suc_I2)
  from saga_moves_bounded [OF this p] obtain q where q: "in_phase q k" and "phase_rank q < phase_rank p"
    by auto
  with p show ?thesis by (cases p; cases q) (simp_all add: in_phase_def)
qed

text \<open>
  C27. A step of a saga takes effect at most once. Once handling a message has moved its saga, whether
  or not the call then failed, every later delivery of that message, at any later state and with any
  executor, runs nothing and changes nothing: it is acknowledged, or the lookup of the saga fails.
  So when publishing the next message fails after the saga was saved, no redelivery repeats it.
\<close>

theorem saga_step_takes_effect_once:
  assumes "t_saga_instances (w_db w0) = []" and "saga_steps w0 w"
    and "Handle runtime_orchestrator cx m executor w = (r, w1)"
    and "leaves_sagas recorded_sagas executor"
    and "recorded_sagas w1 \<noteq> recorded_sagas w" and "saga_steps w1 w2"
    and "Handle runtime_orchestrator cx' m executor' w2 = (r', w3)"
  shows "w_db w3 = w_db w2 \<and> surroundings w3 = surroundings w2 \<and>
    (r' = Inr () \<or> (\<exists>e. r' = Inl e \<and> fst (SagaRepository_Find cx' (sm_SagaID m) w2) = Inl e))"
proof -
  note R = runtime_sagas.steps_effect [OF assms(2) no_sagas [OF assms(1)]]
  from runtime_sagas.Handle_effect [OF assms(3,4)] assms(5) obtain i j
    where i: "recorded_sagas w (sm_SagaID m) = Some i" and step: "si_CurrentStep i = sm_Step m"
      and mv: "saga_moves i j" and j: "recorded_sagas w1 = (recorded_sagas w)(sm_SagaID m \<mapsto> j)" by auto
  have v: "Message_Validate m = None"
    using assms(3,5) by (auto simp: Handle_def split: option.splits)
  have reach: "saga_reachable i" using R(1) i by (auto simp: sagas_reachable_def)
  have "saga_step_of runtime_orchestrator recorded_sagas w w1"
    using assms(3,4) by (rule saga_step_of.handle)
  from runtime_sagas.step_effect(1) [OF this R(1)] have "sagas_reachable (recorded_sagas w1)" .
  note later = runtime_sagas.steps_effect(2) [OF assms(6) this, of "sm_SagaID m" j]
  from later j obtain k
    where k: "recorded_sagas w2 (sm_SagaID m) = Some k" and "saga_moves\<^sup>*\<^sup>* j k" by auto
  from moved_on [OF reach mv this(2)] step have
    "si_Status k = SagaCompleted \<or> si_Status k = SagaFailed \<or> si_CurrentStep k \<noteq> sm_Step m" by simp
  from runtime_sagas.Handle_passed [OF v k this, of cx' executor'] assms(7)
  have "(r', w3) = (case SagaRepository_Find cx' (sm_SagaID m) w2 of
      (Inl e, s') \<Rightarrow> (Inl e, s') | (Inr j, s') \<Rightarrow> (Inr (), s'))"
    by (simp add: runtime_orchestrator_def sqlite_sagas_def)
  then show ?thesis
    using read_onlyD [OF SagaFind_read_only] db_localD [OF SagaFind_local]
    by (cases "SagaRepository_Find cx' (sm_SagaID m) w2") (auto split: sum.splits)
qed

text \<open>
  The instance: the statement that would insert the job of the next message fails. The saga stands
  at \<open>capture\<close>, there is no job for it, and the redelivered message is acknowledged.
\<close>

theorem saga_step_takes_effect_once_witness:
  "\<exists>w1 w3. Handle runtime_orchestrator background authorize_message quiet_executor
       (started_world\<lparr>w_faults := [False, False, False, True]\<rparr>) = (Inl Driver, w1) \<and>
     map_option si_CurrentStep (recorded_sagas w1 ''s1'') = Some StepCapture \<and>
     Handle runtime_orchestrator background authorize_message quiet_executor (w1\<lparr>w_faults := []\<rparr>) =
       (Inr (), w3) \<and>
     w_db w3 = w_db w1 \<and> map jr_id (t_scheduler_jobs (w_db w3)) = [''s1:authorize:1'']"
proof -
  let ?w = "started_world\<lparr>w_faults := [False, False, False, True]\<rparr>"
  let ?h = "\<lambda>w. Handle runtime_orchestrator background authorize_message quiet_executor w"
  obtain r w1 where run: "?h ?w = (r, w1)" by force
  obtain r3 w3 where again: "?h (w1\<lparr>w_faults := []\<rparr>) = (r3, w3)" by force
  have "fst (?h ?w) = Inl Driver"
    and "map_option si_CurrentStep (recorded_sagas (snd (?h ?w)) ''s1'') = Some StepCapture"
    and "map jr_id (t_scheduler_jobs (w_db (snd (?h ?w)))) = [''s1:authorize:1'']"
    and "fst (?h ((snd (?h ?w))\<lparr>w_faults := []\<rparr>)) = Inr ()"
    by code_simp+
  then have r: "r = Inl Driver" and step: "map_option si_CurrentStep (recorded_sagas w1 ''s1'') = Some StepCapture"
    and jobs: "map jr_id (t_scheduler_jobs (w_db w1)) = [''s1:authorize:1'']" and r3: "r3 = Inr ()"
    using run again by simp_all
  have eq: "recorded_sagas ?w = recorded_sagas started_world" by (simp add: fun_eq_iff recorded_sagas_def)
  have "saga_step_of runtime_orchestrator recorded_sagas started_world ?w" by (rule saga_step_of.elsewhere [OF eq])
  with started_steps have steps: "saga_steps saga_world ?w" by (rule rtranclp.rtrancl_into_rtrancl)
  have moved: "recorded_sagas w1 \<noteq> recorded_sagas ?w"
    using step started_recorded unfolding eq by (auto simp: sample_saga_def)
  have "saga_steps w1 (w1\<lparr>w_faults := []\<rparr>)"
    by (intro r_into_rtranclp saga_step_of.elsewhere) (simp add: fun_eq_iff recorded_sagas_def)
  from saga_step_takes_effect_once [OF _ steps run quiet_executor_leaves moved this again]
  have "w_db w3 = w_db w1" by (simp add: saga_world_def empty_db_def)
  with run again r r3 step jobs show ?thesis by auto
qed

text \<open>
  C28. A payment step takes effect at most once, even when the process dies between the payment
  command and the saga: after an execution that succeeded, executing the message again (with any
  provider, and after anything that left the payments alone) calls no provider and runs no command;
  it succeeds without a change, or the payment cannot be read.
\<close>

theorem payment_step_applied_once:
  assumes "PaymentExecutor_Execute (runtime_executor net provider) cx m w = (Inr x, w1)"
    and "ex_Outcome x = ExecutionSucceeded" and "Step_Valid (sm_Step m)" and "stored w2 = stored w1"
    and "PaymentExecutor_Execute (runtime_executor net' provider') cx' m w2 = (r, w3)"
  shows "w_db w3 = w_db w2 \<and>
    (r = Inr \<lparr>ex_Outcome = ExecutionSucceeded, ex_AsyncOperations = []\<rparr> \<or>
     (\<exists>c e. r = Inl e \<and> fst (Repository_FindByID c (sm_PaymentID m) w2) = Inl e))"
proof -
  let ?cx = "WithMetadata \<lparr>md_CorrelationID = sm_CorrelationID m, md_CausationID = sm_CausationID m\<rparr> cx'"
  have ex: "pe_payments (runtime_executor net provider) = sqlite_repository"
    "pe_publisher (runtime_executor net provider) = Some (PaymentEventPublisher_Publish net)" for net provider
    by (simp_all add: runtime_executor_def)
  obtain q y where "stored w1 (sm_PaymentID m) = Some q" and d: "decode_input (sm_Payload m) = Inr y"
    and ap: "stepAlreadyApplied q (sm_Step m) y"
    using published.Execute_succeeded [OF assms(1,2) ex assms(3)] stored_ok by blast
  with assms(4) have st: "stored w2 (sm_PaymentID m) = Some q" by simp
  from published.Execute_applied [OF ex(1) st d ap, of net' provider' cx'] assms(5)
  have run: "(case Repository_FindByID ?cx (sm_PaymentID m) w2 of (Inl e, s') \<Rightarrow> (Inl e, s')
     | (Inr h, s') \<Rightarrow> (Inr \<lparr>ex_Outcome = ExecutionSucceeded, ex_AsyncOperations = []\<rparr>, s')) = (r, w3)"
    by simp
  obtain f w4 where f: "Repository_FindByID ?cx (sm_PaymentID m) w2 = (f, w4)" by force
  have "w_db w4 = w_db w2" using read_onlyD [OF FindByID_frame(2) f] .
  with run f show ?thesis by (cases f) (auto simp: f intro!: exI [of _ ?cx])
qed

theorem payment_step_applied_once_witness:
  "\<exists>x w1 r w3. PaymentExecutor_Execute (runtime_executor no_net (deterministic_interface Fake_New))
       background authorize_message started_world = (Inr x, w1) \<and>
     PaymentExecutor_Execute (runtime_executor no_net (deterministic_interface Stripe_New))
       background authorize_message w1 = (r, w3) \<and> w_db w3 = w_db w1"
proof -
  let ?e = "PaymentExecutor_Execute (runtime_executor no_net (deterministic_interface Fake_New)) background
      authorize_message started_world"
  have "fst ?e = Inr \<lparr>ex_Outcome = ExecutionSucceeded, ex_AsyncOperations = []\<rparr>" by code_simp
  then obtain w1 where run: "?e = (Inr \<lparr>ex_Outcome = ExecutionSucceeded, ex_AsyncOperations = []\<rparr>, w1)"
    by (metis prod.collapse)
  obtain r w3 where again: "PaymentExecutor_Execute (runtime_executor no_net (deterministic_interface Stripe_New))
       background authorize_message w1 = (r, w3)" by force
  from payment_step_applied_once [OF run _ _ refl again] run again show ?thesis
    by (auto simp: authorize_message_def)
qed

text \<open>
  C29. A capture or refund that the provider leaves pending never takes effect. The message that
  completes it carries the encoded operation in place of the amount, so whatever the provider
  answers, the executor does not succeed and no table changes.
\<close>

theorem pending_amount_step_never_applied:
  assumes "Marshal_async operation = Inr payload"
    and "sm_Step m = StepCapture \<or> sm_Step m = StepRefund" and "\<not> cx_tx cx"
    and "PaymentExecutor_Execute (runtime_executor net provider) cx (async_message m operation payload) w =
      (r, w')"
  shows "w_db w' = w_db w \<and> (\<forall>x. r = Inr x \<longrightarrow> ex_Outcome x \<noteq> ExecutionSucceeded)"
proof -
  have d: "decode_input payload = Inr \<lparr>in_Amount = 0, in_Currency = []\<rparr>"
    using assms(1)
    by (auto simp: Marshal_async_def decode_input_def input_member_def names_def ascii_lower_def
        split: if_splits)
  have fails: "(\<exists>e. fst (service sqlite_repository publisher c q s) = Inl e) \<and>
      w_db (snd (service sqlite_repository publisher c q s)) = w_db s"
    if q: "step_request (sm_Step m) i \<lparr>in_Amount = 0, in_Currency = []\<rparr> = Some q" and "\<not> cx_tx c"
    for c q s i publisher
  proof -
    obtain x s' where run: "service sqlite_repository publisher c q s = (x, s')" by force
    have "request_op q = Inl ErrInvalidCurrency"
      using q assms(2) by (auto simp: NewMoney_def validCurrency_def)
    then have "\<exists>e. x = Inl e"
      using run by (cases x) (auto simp: service_body withinRepositoryTransaction_def request_body_def
          Repository_WithinContext_eq elim!: in_transaction_InrE bindP_InrE)
    with service_Inl_unchanged run that(2) show ?thesis by auto
  qed
  let ?c = "WithMetadata \<lparr>md_CorrelationID = sm_CorrelationID m, md_CausationID = sm_ID m\<rparr> cx"
  have c: "\<not> cx_tx ?c" using assms(3) by (simp add: WithMetadata_def)
  have settled: "w_db w2 = w_db w1 \<and> (\<forall>x. r = Inr x \<longrightarrow> ex_Outcome x \<noteq> ExecutionSucceeded)"
    if "settle_step (runtime_executor net provider) ?c (async_message m operation payload)
          \<lparr>in_Amount = 0, in_Currency = []\<rparr> result w1 = (r, w2)" for result w1 w2
  proof -
    from assms(2) obtain q where q: "step_request (sm_Step m) (sm_PaymentID m) \<lparr>in_Amount = 0, in_Currency = []\<rparr> = Some q"
      by auto
    obtain e s' where "service sqlite_repository (Some (PaymentEventPublisher_Publish net)) ?c q w1 = (Inl e, s')"
      and "w_db s' = w_db w1"
      using fails [OF q c, of "Some (PaymentEventPublisher_Publish net)" w1] by (metis prod.collapse)
    with that q assms(2) show ?thesis
      by (auto simp: settle_step_def runtime_executor_def async_message_def simp del: service.simps
          split: if_splits)
  qed
  have fields: "sm_Payload (async_message m operation payload) = payload"
    "sm_Step (async_message m operation payload) = sm_Step m"
    "sm_PaymentID (async_message m operation payload) = sm_PaymentID m"
    "sm_CorrelationID (async_message m operation payload) = sm_CorrelationID m"
    "sm_CausationID (async_message m operation payload) = sm_ID m"
    by (simp_all add: async_message_def)
  have ex: "pe_payments (runtime_executor net provider) = sqlite_repository"
    by (simp add: runtime_executor_def)
  obtain f w1 where f: "Repository_FindByID ?c (sm_PaymentID m) w = (f, w1)" by force
  have "w_db w1 = w_db w" using read_onlyD [OF FindByID_frame(2) f] .
  moreover have "\<not> stepAlreadyApplied p (sm_Step m) \<lparr>in_Amount = 0, in_Currency = []\<rparr>" for p
    using assms(2) by auto
  ultimately show ?thesis
    using assms(4) d f
    by (cases f) (auto simp: PaymentExecutor_Execute_def Let_def fields ex bindP_apply
        dest!: settled split: sum.splits option.splits)
qed

definition sample_operation :: async_operation where
  "sample_operation = \<lparr>ao_ID = ''fake:p1:async'', ao_PaymentID = ''p1'', ao_Type = ''capture'',
     ao_Payload = NoBytes, ao_ScheduledAt = 70000000000\<rparr>"

theorem pending_amount_step_never_applied_witness:
  "\<exists>payload w'. PaymentExecutor_Execute (runtime_executor no_net (deterministic_interface Fake_New)) background
       (async_message (authorize_message\<lparr>sm_Step := StepCapture\<rparr>) sample_operation payload) started_world =
       (Inl (Payment ErrInvalidCurrency), w') \<and> w_db w' = w_db started_world"
proof -
  let ?m = "authorize_message\<lparr>sm_Step := StepCapture\<rparr>"
  let ?p = "case Marshal_async sample_operation of Inr b \<Rightarrow> b | Inl e \<Rightarrow> NoBytes"
  let ?run = "PaymentExecutor_Execute (runtime_executor no_net (deterministic_interface Fake_New)) background
       (async_message ?m sample_operation ?p) started_world"
  have p: "Marshal_async sample_operation = Inr ?p" and "fst ?run = Inl (Payment ErrInvalidCurrency)"
    by code_simp+
  moreover obtain r w' where run: "?run = (r, w')" by force
  ultimately have "r = Inl (Payment ErrInvalidCurrency)" by simp
  with pending_amount_step_never_applied [OF p _ _ run] run show ?thesis
    by (auto simp: background_def)
qed

end
