(* ===== verification/Webhook_Delivery.thy ===== *)
theory Webhook_Delivery
  imports Webhooks
begin

text \<open>
  The outbound callback (\<open>OutboundCallback\<close> of \<open>internal/webhook/application/deliver_callback.go\<close>)
  with its durable audit, and what the audit promises: a start marker before every request, one
  request per execution, and a result that is never rewritten.
\<close>

section \<open>The callback\<close>

definition newAttempt ::
  "ctx \<Rightarrow> delivery_payload \<Rightarrow> delivery_outcome \<Rightarrow> int \<Rightarrow> delivery_attempt" where
  "newAttempt cx delivery outcome httpStatus =
     (let (jobID, attempt) =
        (case ExecutionMetadataFromContext cx of
           Some (i, n) \<Rightarrow> (i, n)
         | None \<Rightarrow> (''direct:'' @ dp_CausationID delivery, 0))
      in \<lparr>da_JobID = jobID, da_Attempt = attempt, da_EndpointID = dp_EndpointID delivery,
          da_CorrelationID = dp_CorrelationID delivery, da_CausationID = dp_CausationID delivery,
          da_Outcome = outcome, da_HTTPStatus = httpStatus, da_Error = None,
          da_RuntimeSequence = 0\<rparr>)"

text \<open>\<open>audited\<close> tells whether the callback was made with an audit.\<close>

definition callback_start :: "bool \<Rightarrow> ctx \<Rightarrow> delivery_payload \<Rightarrow> unit act" where
  "callback_start audited cx delivery =
     (if \<not> audited then returnP ()
      else DeliveryAudit_Record cx (newAttempt cx delivery DeliveryStarted 0))"

definition callback_finish ::
  "bool \<Rightarrow> ctx \<Rightarrow> delivery_payload \<Rightarrow> delivery_outcome \<Rightarrow> int \<Rightarrow> error option \<Rightarrow> unit act" where
  "callback_finish audited cx delivery outcome httpStatus executionErr =
     (let report = (case executionErr of None \<Rightarrow> returnP () | Some e \<Rightarrow> raiseP e) in
      if \<not> audited then report
      else bindP (attemptP (DeliveryAudit_Record cx
                    ((newAttempt cx delivery outcome httpStatus)\<lparr>da_Error := executionErr\<rparr>))) (\<lambda>r.
        case r of
          Inl err \<Rightarrow> (case executionErr of None \<Rightarrow> raiseP err | Some e \<Rightarrow> raiseP (Joined [e, err]))
        | Inr _ \<Rightarrow> report))"

text \<open>\<open>client.Do\<close>: the request goes out, and the next outcome comes back.\<close>

definition client_Do :: "http_request \<Rightarrow> http_outcome act" where
  "client_Do request w =
     (Inr (case w_http w of [] \<Rightarrow> HttpError ''no outcome'' | out # _ \<Rightarrow> out),
      w\<lparr>w_http := tl (w_http w), w_outbox := w_outbox w @ [request]\<rparr>)"

definition delivery_request :: "endpoint \<Rightarrow> delivery_payload \<Rightarrow> http_request" where
  "delivery_request e delivery =
     \<lparr>hq_URL = ep_url e, hq_Body = dp_Body delivery,
      hq_CorrelationID = (if dp_CorrelationID delivery = [] then None else Some (dp_CorrelationID delivery)),
      hq_CausationID = (if dp_CausationID delivery = [] then None else Some (dp_CausationID delivery))\<rparr>"

definition delivery_failed :: "string \<Rightarrow> error" where
  "delivery_failed why = Joined [Webhook ErrCallbackDeliveryFailed, Message why]"

text \<open>What \<open>Execute\<close> does once it has the endpoint.\<close>

definition callback_send ::
  "net_library \<Rightarrow> bool \<Rightarrow> ctx \<Rightarrow> delivery_payload \<Rightarrow> endpoint \<Rightarrow> unit act" where
  "callback_send net audited cx delivery e =
     (if \<not> nl_request_ok net (ep_url e) then
        callback_finish audited cx delivery DeliveryFailed 0 (Some (delivery_failed ''create request''))
      else
        bindP (client_Do (delivery_request e delivery)) (\<lambda>response.
          case response of
            HttpError why \<Rightarrow>
              callback_finish audited cx delivery DeliveryFailed 0 (Some (delivery_failed why))
          | HttpNilResponse \<Rightarrow>
              callback_finish audited cx delivery DeliveryFailed 0
                (Some (delivery_failed ''HTTP client returned nil response''))
          | HttpResponse code has_body \<Rightarrow>
              if \<not> has_body then
                callback_finish audited cx delivery DeliveryFailed code
                  (Some (delivery_failed ''HTTP client returned nil response body''))
              else if code < 200 \<or> code \<ge> 300 then
                callback_finish audited cx delivery DeliveryFailed code
                  (Some (delivery_failed ''unexpected HTTP status''))
              else callback_finish audited cx delivery DeliverySucceeded code None))"

definition OutboundCallback_Execute :: "net_library \<Rightarrow> bool \<Rightarrow> ctx \<Rightarrow> bytes \<Rightarrow> unit act" where
  "OutboundCallback_Execute net audited cx payload =
     bindP (liftP (mapErr Webhook (decodeDeliveryPayload payload))) (\<lambda>delivery.
     bindP (callback_start audited cx delivery) (\<lambda>_.
     bindP (attemptP (Endpoint_FindByID net cx (dp_EndpointID delivery))) (\<lambda>r.
       case r of
         Inl err \<Rightarrow> callback_finish audited cx delivery DeliveryFailed 0 (Some err)
       | Inr e \<Rightarrow> callback_send net audited cx delivery e)))"

section \<open>What recording does to the audit\<close>

text \<open>
  The audit evolves: rows are only added at the end, a row keeps its key, metadata and
  sequence, and only a started row may get a result.
\<close>

definition row_evolves :: "delivery_row \<Rightarrow> delivery_row \<Rightarrow> bool" where
  "row_evolves r r' \<longleftrightarrow>
     r' = r \<or>
     (dr_outcome r = delivery_text DeliveryStarted \<and>
      (\<exists>out code err. r' = r\<lparr>dr_outcome := out, dr_http_status := code, dr_error := err\<rparr>))"

definition deliveries_evolve :: "db \<Rightarrow> db \<Rightarrow> bool" where
  "deliveries_evolve d d' \<longleftrightarrow>
     (\<exists>kept added. t_webhook_delivery_audit d' = kept @ added \<and>
        list_all2 row_evolves (t_webhook_delivery_audit d) kept)"

lemma row_evolves_refl [simp]: "row_evolves r r"
  by (simp add: row_evolves_def)

lemma deliveries_evolve_same:
  assumes "t_webhook_delivery_audit d' = t_webhook_delivery_audit d @ added"
  shows "deliveries_evolve d d'"
  using assms unfolding deliveries_evolve_def
  by (intro exI [of _ "t_webhook_delivery_audit d"] exI [of _ added]) (simp add: list_all2_refl)

lemma list_all2_put_row:
  assumes "\<And>r. P r r" and "row_at key k rows = Some r" and "key r' = k" and "P r r'"
  shows "list_all2 P rows (put_row key r' rows)"
  using assms(2-) by (induction rows) (auto simp: list_all2_refl assms(1) split: if_splits)

lemma finish_delivery_evolves: "deliveries_evolve d (snd (finish_delivery a attempt d))"
proof (cases "row_at delivery_key (da_JobID a, attempt) (t_webhook_delivery_audit d)")
  case None
  then show ?thesis by (simp add: finish_delivery_def deliveries_evolve_same)
next
  case (Some r)
  show ?thesis
  proof (cases "dr_outcome r = delivery_text DeliveryStarted")
    case False
    with Some show ?thesis by (simp add: finish_delivery_def deliveries_evolve_same)
  next
    case True
    let ?r = "r\<lparr>dr_outcome := delivery_text (da_Outcome a), dr_http_status := da_HTTPStatus a,
                dr_error := da_Error a\<rparr>"
    have "delivery_key r = (da_JobID a, attempt)" using Some by (auto dest: row_at_SomeD)
    then have "delivery_key ?r = (da_JobID a, attempt)" by (simp add: delivery_key_def)
    moreover have "row_evolves r ?r" using True unfolding row_evolves_def by blast
    ultimately have "list_all2 row_evolves (t_webhook_delivery_audit d)
        (put_row delivery_key ?r (t_webhook_delivery_audit d))"
      using Some by (intro list_all2_put_row) simp_all
    then show ?thesis
      using Some True unfolding deliveries_evolve_def
      by (intro exI [of _ "put_row delivery_key ?r (t_webhook_delivery_audit d)"] exI [of _ "[]"])
        (simp add: finish_delivery_def)
  qed
qed

lemma row_evolves_trans: "row_evolves a b \<Longrightarrow> row_evolves b c \<Longrightarrow> row_evolves a c"
  unfolding row_evolves_def by (elim disjE conjE exE) auto

lemma deliveries_evolve_trans:
  assumes "deliveries_evolve a b" and "deliveries_evolve b c"
  shows "deliveries_evolve a c"
proof -
  from assms(1) obtain kept added where b: "t_webhook_delivery_audit b = kept @ added"
    and ab: "list_all2 row_evolves (t_webhook_delivery_audit a) kept"
    unfolding deliveries_evolve_def by blast
  from assms(2) obtain kept' added' where c: "t_webhook_delivery_audit c = kept' @ added'"
    and bc: "list_all2 row_evolves (kept @ added) kept'"
    unfolding deliveries_evolve_def b by blast
  from bc obtain k1 k2 where k: "kept' = k1 @ k2" and kk: "list_all2 row_evolves kept k1"
    by (auto simp: list_all2_append1)
  from ab kk have "list_all2 row_evolves (t_webhook_delivery_audit a) k1"
    using row_evolves_trans by (blast intro: list_all2_trans)
  with c k show ?thesis
    unfolding deliveries_evolve_def by (intro exI [of _ k1] exI [of _ "k2 @ added'"]) simp
qed

text \<open>A procedure evolves the audit when it does so from every world.\<close>

definition evolving :: "'a act \<Rightarrow> bool" where
  "evolving m \<longleftrightarrow> (\<forall>w. deliveries_evolve (w_db w) (w_db (snd (m w))))"

named_theorems evolving_intros \<open>procedures under which the delivery audit evolves\<close>

lemma evolvingD: "evolving m \<Longrightarrow> m w = (r, w') \<Longrightarrow> deliveries_evolve (w_db w) (w_db w')"
  unfolding evolving_def by (metis snd_conv)

lemma evolvingI: "(\<And>w r w'. m w = (r, w') \<Longrightarrow> deliveries_evolve (w_db w) (w_db w')) \<Longrightarrow> evolving m"
  unfolding evolving_def by (metis prod.collapse)

lemma deliveries_evolve_refl [simp]: "deliveries_evolve d d"
  by (rule deliveries_evolve_same [of _ _ "[]"]) simp

lemma evolving_read_only: "read_only m \<Longrightarrow> evolving m"
  by (auto intro!: evolvingI dest: read_onlyD)

lemma evolving_bind [evolving_intros]:
  assumes "evolving m" and "\<And>x. evolving (f x)"
  shows "evolving (bindP m f)"
proof (rule evolvingI)
  fix w r w' assume "bindP m f w = (r, w')"
  then show "deliveries_evolve (w_db w) (w_db w')"
    using deliveries_evolve_trans evolvingD [OF assms(1)] evolvingD [OF assms(2)]
    by (cases "m w") (auto simp: bindP_def split: sum.splits, blast)
qed

lemma evolving_statement [evolving_intros]:
  assumes "\<And>d. deliveries_evolve d (snd (f d))"
  shows "evolving (statement f)"
proof (rule evolvingI)
  fix w r w' assume "statement f w = (r, w')"
  with assms show "deliveries_evolve (w_db w) (w_db w')"
    by (cases r) (auto dest: statement_InrD statement_InlD)
qed

lemma evolving_cases [evolving_intros]:
  "(c \<Longrightarrow> evolving m) \<Longrightarrow> (\<not> c \<Longrightarrow> evolving n) \<Longrightarrow> evolving (if c then m else n)"
  "evolving m \<Longrightarrow> (\<And>y. evolving (g y)) \<Longrightarrow> evolving (case x of None \<Rightarrow> m | Some y \<Rightarrow> g y)"
  "(\<And>y. evolving (h y)) \<Longrightarrow> (\<And>y. evolving (k y)) \<Longrightarrow>
     evolving (case s of Inl y \<Rightarrow> h y | Inr y \<Rightarrow> k y)"
  by (auto split: option.splits sum.splits)

lemma evolving_attempt [evolving_intros]: "evolving m \<Longrightarrow> evolving (attemptP m)"
  by (rule evolvingI) (auto simp: attemptP_def split: prod.splits dest: evolvingD)

lemma evolving_basic [evolving_intros]:
  "evolving (returnP x)" "evolving (raiseP e)" "evolving (liftP r)" "evolving (uint64_arg v)"
  "evolving (query q)"
  by (auto intro: evolving_read_only read_only_basic)

lemma evolving_in_transaction [evolving_intros]:
  assumes "\<And>c. evolving (fn c)"
  shows "evolving (in_transaction cx fn)"
proof (rule evolvingI)
  fix w r w' assume run: "in_transaction cx fn w = (r, w')"
  show "deliveries_evolve (w_db w) (w_db w')"
  proof (cases r)
    case (Inr x)
    from run [unfolded Inr] obtain w1 w2 where "w_db w1 = w_db w" and "fn (WithTx cx) w1 = (Inr x, w2)"
      and "w_db w' = w_db w2" by (rule in_transaction_InrE)
    with evolvingD [OF assms, of "WithTx cx" w1] show ?thesis by simp
  next
    case (Inl e)
    with run assms show ?thesis
      by (cases "cx_tx cx") (auto simp: in_transaction_def dest: evolvingD in_transaction_Inl
          WithinTransaction_Inl [of _ w e w'] simp: WithinContext_def)
  qed
qed

lemma evolving_NextRuntimeSequence [evolving_intros]: "evolving NextRuntimeSequence"
  unfolding NextRuntimeSequence_def
  by (intro evolving_intros) (auto intro: deliveries_evolve_same [of _ _ "[]"])

lemma evolving_recordTerminal [evolving_intros]: "evolving (recordTerminal cx a)"
  unfolding recordTerminal_def by (intro evolving_intros finish_delivery_evolves)

lemma evolving_recordStart [evolving_intros]: "evolving (recordStart cx a)"
  unfolding recordStart_def
  by (intro evolving_intros) (auto simp: insert_delivery_def intro: deliveries_evolve_same)

lemma evolving_Record [evolving_intros]: "evolving (DeliveryAudit_Record cx a)"
  unfolding DeliveryAudit_Record_def by (intro evolving_intros)

lemma recordStart_Inr:
  assumes "recordStart cx a w = (Inr u, w')"
  shows "\<exists>r. row_at delivery_key (da_JobID a, uint (da_Attempt a)) (t_webhook_delivery_audit (w_db w'))
             = Some r \<and> same_metadata r a"
    and "surroundings w' = surroundings w"
proof -
  from assms obtain n w1 c w2 where n: "NextRuntimeSequence w = (Inr n, w1)"
    and s: "statement (insert_delivery (delivery_row_of a (uint (da_Attempt a)) (uint n))) w1 = (Inr c, w2)"
    and r: "(if c = 1 then returnP ()
       else bindP (query (\<lambda>d. row_at delivery_key (da_JobID a, uint (da_Attempt a))
                     (t_webhook_delivery_audit d))) (\<lambda>r.
         case r of
           None \<Rightarrow> raiseP (Message ''record disappeared'')
         | Some row \<Rightarrow>
             if \<not> same_metadata row a then raiseP (Message ''immutable metadata already recorded'')
             else returnP ())) w2 = (Inr u, w')"
    unfolding recordStart_def by (auto simp: uint64_arg_Inr elim!: bindP_InrE)
  let ?r = "delivery_row_of a (uint (da_Attempt a)) (uint n)"
  let ?get = "\<lambda>d. row_at delivery_key (da_JobID a, uint (da_Attempt a)) (t_webhook_delivery_audit d)"
  note N = NextRuntimeSequence_Inr [OF n] and S = statement_InrD [OF s]
  have key: "delivery_key ?r = (da_JobID a, uint (da_Attempt a))"
    by (simp add: delivery_key_def delivery_row_of_def)
  have md: "same_metadata ?r a" by (simp add: same_metadata_def delivery_row_of_def)
  have two: "if ?get (w_db w) = None then c = 1 \<and> t_webhook_delivery_audit (w_db w2) =
        t_webhook_delivery_audit (w_db w) @ [?r]
      else c = 0 \<and> t_webhook_delivery_audit (w_db w2) = t_webhook_delivery_audit (w_db w)"
    using N S key by (simp add: insert_delivery_def split: if_splits)
  have "w_db w' = w_db w2 \<and> surroundings w' = surroundings w2 \<and>
      (c \<noteq> 1 \<longrightarrow> (\<exists>r. ?get (w_db w2) = Some r \<and> same_metadata r a))"
  proof (cases "c = 1")
    case True
    with r show ?thesis by simp
  next
    case False
    with r obtain row w3 where q: "query ?get w2 = (Inr (Some row), w3)"
      and "same_metadata row a" and "w' = w3"
      by (auto elim!: bindP_InrE split: option.splits if_splits)
    moreover from query_InrD [OF q] have "?get (w_db w2) = Some row" and "w_db w3 = w_db w2"
      and "surroundings w3 = surroundings w2" by auto
    ultimately show ?thesis by auto
  qed
  with two N S key md show "\<exists>r. ?get (w_db w') = Some r \<and> same_metadata r a"
    and "surroundings w' = surroundings w"
    by (auto simp: row_at_append split: if_splits option.splits)
qed

lemma Record_start_Inr:
  assumes "DeliveryAudit_Record cx a w = (Inr u, w')" and "da_Outcome a = DeliveryStarted"
  shows "\<exists>r. row_at delivery_key (da_JobID a, uint (da_Attempt a)) (t_webhook_delivery_audit (w_db w'))
             = Some r \<and> same_metadata r a"
    and "surroundings w' = surroundings w"
proof -
  from assms have "in_transaction cx (\<lambda>txctx. recordStart txctx a) w = (Inr u, w')"
    by (auto simp: DeliveryAudit_Record_def split: if_splits)
  then obtain w1 w2 where "w_db w1 = w_db w" and "surroundings w1 = surroundings w"
    and r: "recordStart (WithTx cx) a w1 = (Inr u, w2)" and "w_db w' = w_db w2"
    and "surroundings w' = surroundings w2" by (rule in_transaction_InrE)
  with recordStart_Inr [OF r] show "\<exists>r. row_at delivery_key (da_JobID a, uint (da_Attempt a)) (t_webhook_delivery_audit (w_db w'))
             = Some r \<and> same_metadata r a"
    and "surroundings w' = surroundings w" by simp_all
qed

section \<open>A request needs a start marker\<close>

lemma local_recordStart [local_intros]: "db_local (recordStart cx a)"
  by (simp add: recordStart_def local_intros)

lemma local_recordTerminal [local_intros]: "db_local (recordTerminal cx a)"
  by (simp add: recordTerminal_def local_intros)

lemma local_Record [local_intros]: "db_local (DeliveryAudit_Record cx a)"
  by (simp add: DeliveryAudit_Record_def local_intros)

lemma callback_finish_outbox:
  "w_outbox (snd (callback_finish audited cx delivery out code err w)) = w_outbox w"
proof -
  have "w_outbox (snd (DeliveryAudit_Record cx a w)) = w_outbox w" for a
    using local_Record unfolding db_local_def surroundings_def by blast
  then show ?thesis
    by (auto simp: callback_finish_def Let_def bindP_apply split: option.splits sum.splits)
qed

lemma callback_send_outbox:
  "w_outbox (snd (callback_send net audited cx delivery e w)) = w_outbox w \<or>
   w_outbox (snd (callback_send net audited cx delivery e w)) = w_outbox w @ [delivery_request e delivery]"
  by (auto simp: callback_send_def callback_finish_outbox bindP_apply client_Do_def
      split: http_outcome.splits)

lemma local_FindByID [local_intros]: "db_local (Endpoint_FindByID net cx i)"
  by (simp add: Endpoint_FindByID_def local_intros)

lemma local_outbox: "db_local m \<Longrightarrow> m w = (r, w') \<Longrightarrow> w_outbox w' = w_outbox w"
  by (drule db_localD, assumption) (simp add: surroundings_def)

text \<open>
  Under an audit, a request is sent only once the attempt has been recorded, and at most one is
  sent: when the outbox has grown, it has grown by one request to a registered endpoint.
\<close>

lemma Execute_request:
  assumes run: "OutboundCallback_Execute net True cx payload w = (r, w')"
    and sent: "w_outbox w' \<noteq> w_outbox w"
  obtains delivery u w1 e w2 where "decodeDeliveryPayload payload = Inr delivery"
    and "DeliveryAudit_Record cx (newAttempt cx delivery DeliveryStarted 0) w = (Inr u, w1)"
    and "Endpoint_FindByID net cx (dp_EndpointID delivery) w1 = (Inr e, w2)"
    and "callback_send net True cx delivery e w2 = (r, w')"
    and "w_outbox w' = w_outbox w @ [delivery_request e delivery]"
proof (cases "decodeDeliveryPayload payload")
  case (Inl e)
  with run sent show thesis by (simp add: OutboundCallback_Execute_def bindP_apply)
next
  case d: (Inr delivery)
  let ?start = "newAttempt cx delivery DeliveryStarted 0"
  obtain q w1 where q: "DeliveryAudit_Record cx ?start w = (q, w1)" by force
  obtain p w2 where p: "Endpoint_FindByID net cx (dp_EndpointID delivery) w1 = (p, w2)" by force
  have o1: "w_outbox w1 = w_outbox w" and o2: "w_outbox w2 = w_outbox w1"
    using local_outbox [OF local_Record q] local_outbox [OF local_FindByID p] .
  show thesis
  proof (cases q)
    case (Inl e)
    with run sent d q o1 show thesis
      by (simp add: OutboundCallback_Execute_def callback_start_def bindP_apply)
  next
    case u: (Inr u)
    show thesis
    proof (cases p)
      case (Inl e)
      with run sent d q u p o1 o2 callback_finish_outbox [of True cx delivery DeliveryFailed 0 "Some e" w2]
      show thesis by (simp add: OutboundCallback_Execute_def callback_start_def bindP_apply)
    next
      case e: (Inr e)
      have send: "callback_send net True cx delivery e w2 = (r, w')"
        using run d q u p e by (simp add: OutboundCallback_Execute_def callback_start_def bindP_apply)
      with callback_send_outbox [of net True cx delivery e w2] sent o1 o2
      have "w_outbox w' = w_outbox w @ [delivery_request e delivery]" by simp
      then show thesis by (rule that [OF d q [unfolded u] p [unfolded e] send])
    qed
  qed
qed

lemma evolving_client_Do [evolving_intros]: "evolving (client_Do request)"
  by (auto intro!: evolving_read_only simp: read_only_def client_Do_def)

lemma evolving_FindByID [evolving_intros]: "evolving (Endpoint_FindByID net cx i)"
  unfolding Endpoint_FindByID_def by (intro evolving_intros)

lemma evolving_finish [evolving_intros]: "evolving (callback_finish audited cx delivery out code err)"
  unfolding callback_finish_def Let_def by (intro evolving_intros)

lemma evolving_response [evolving_intros]:
  "(\<And>why. evolving (f why)) \<Longrightarrow> evolving g \<Longrightarrow> (\<And>c b. evolving (h c b)) \<Longrightarrow>
     evolving (case response of HttpError why \<Rightarrow> f why | HttpNilResponse \<Rightarrow> g | HttpResponse c b \<Rightarrow> h c b)"
  by (cases response) simp_all

lemma evolving_send [evolving_intros]: "evolving (callback_send net audited cx delivery e)"
  unfolding callback_send_def by (intro evolving_intros)

lemma evolving_Execute [evolving_intros]: "evolving (OutboundCallback_Execute net audited cx payload)"
  unfolding OutboundCallback_Execute_def callback_start_def by (intro evolving_intros)

section \<open>Properties\<close>

text \<open>A world with one endpoint and a delivery for it.\<close>

definition any_net :: net_library where
  "any_net = \<lparr>nl_ParseRequestURI = (\<lambda>u. Some \<lparr>pu_Scheme = ''https'', pu_Host = ''h'', pu_Hostname = ''h'',
     pu_has_user = False\<rparr>), nl_ParseAddr = (\<lambda>u. None), nl_request_ok = (\<lambda>u. True)\<rparr>"

definition endpoint_world :: world where
  "endpoint_world = fresh_world\<lparr>w_db := empty_db\<lparr>t_webhook_endpoints :=
     [\<lparr>wr_id = ''e1'', wr_url = ''https://h''\<rparr>]\<rparr>, w_http := [HttpResponse 500 True]\<rparr>"

definition sample_delivery :: delivery_payload where
  "sample_delivery = \<lparr>dp_EndpointID = ''e1'', dp_Body = JsonText (JNum 5), dp_CorrelationID = ''c'',
     dp_CausationID = ''k''\<rparr>"



text \<open>
  C23. The delivery audit never loses or rewrites a result: whatever statements fail, executing a
  delivery keeps every existing row in place with its key and metadata, changes at most a row that
  is still \<open>started\<close>, and adds rows at the end only.
\<close>

theorem delivery_results_are_final:
  "\<exists>kept added. t_webhook_delivery_audit (w_db (snd (OutboundCallback_Execute net audited cx payload w))) =
       kept @ added \<and>
     list_all2 (\<lambda>row row'. row' = row \<or>
         (dr_outcome row = delivery_text DeliveryStarted \<and>
          (\<exists>out code err. row' = row\<lparr>dr_outcome := out, dr_http_status := code, dr_error := err\<rparr>)))
       (t_webhook_delivery_audit (w_db w)) kept"
  using evolving_Execute [of net audited cx payload]
  unfolding evolving_def deliveries_evolve_def row_evolves_def [abs_def] by blast

end
