(* ===== verification/Contexts.thy ===== *)
theory Contexts
  imports Database
begin

text \<open>
  Cancellation. The in-memory repositories ask \<open>ctx.Err()\<close> before they do anything: the context of
  a request is done once its client has gone or its deadline has passed, and then stays done.
  \<open>cs_remaining\<close> is the number of times that \<open>ctx.Err()\<close> still answers nil; \<open>None\<close> is a context
  that is never cancelled.
\<close>

record context_state =
  cs_remaining :: "nat option"

definition ctx_Err :: "('a context_state_scheme, error, unit) proc" where
  "ctx_Err s =
     (case cs_remaining s of
        None \<Rightarrow> (Inr (), s)
      | Some 0 \<Rightarrow> (Inl Canceled, s)
      | Some (Suc n) \<Rightarrow> (Inr (), s\<lparr>cs_remaining := Some n\<rparr>))"

lemma ctx_Err_live [simp]: "cs_remaining s = None \<Longrightarrow> ctx_Err s = (Inr (), s)"
  by (simp add: ctx_Err_def)

lemma ctx_Err_InrD: "ctx_Err s = (Inr u, s') \<Longrightarrow> \<exists>r. s' = s\<lparr>cs_remaining := r\<rparr>"
  by (cases "cs_remaining s") (auto simp: ctx_Err_def split: nat.splits intro: exI [of _ "cs_remaining s"])

lemma ctx_Err_InlD: "ctx_Err s = (Inl e, s') \<Longrightarrow> s' = s \<and> e = Canceled"
  by (auto simp: ctx_Err_def split: option.splits nat.splits)

end
