(* ===== verification/Webhook_Http.thy ===== *)
theory Webhook_Http
  imports Webhooks Http Contexts "HOL-Library.Multiset"
begin

text \<open>
  The HTTP interface of webhook endpoints (\<open>internal/webhook/adapters/http\<close>), the in-memory repository
  of endpoints (\<open>internal/webhook/adapters/memory\<close>), and the contract that it and the SQLite
  repository keep, under which the services are a finite map of endpoints.
\<close>

section \<open>The handler\<close>

text \<open>\<open>wh_text\<close> is the text of an error.\<close>

record 's webhook_handler =
  wh_net :: net_library
  wh_repository :: "'s endpoint_repository"
  wh_text :: "error \<Rightarrow> string"

datatype webhook_http_error = WebhookErrNilRepository

definition Webhook_NewHandler ::
  "net_library \<Rightarrow> (error \<Rightarrow> string) \<Rightarrow> 's endpoint_repository option \<Rightarrow>
     webhook_http_error + 's webhook_handler" where
  "Webhook_NewHandler net render repository =
     (case repository of
        None \<Rightarrow> Inl WebhookErrNilRepository
      | Some r \<Rightarrow> Inr \<lparr>wh_net = net, wh_repository = r, wh_text = render\<rparr>)"

record endpoint_request =
  eq_ID :: string
  eq_URL :: string

definition endpoint_request_member :: "string \<Rightarrow> json \<Rightarrow> endpoint_request \<Rightarrow> endpoint_request option" where
  "endpoint_request_member k v x =
     (if names k ''id'' then map_option (\<lambda>a. x\<lparr>eq_ID := a\<rparr>) (json_string (eq_ID x) v)
      else if names k ''url'' then map_option (\<lambda>a. x\<lparr>eq_URL := a\<rparr>) (json_string (eq_URL x) v)
      else None)"

definition Webhook_decodeJSON :: "http_req \<Rightarrow> http_response + endpoint_request" where
  "Webhook_decodeJSON rq =
     (if \<not> has_prefix (header_get (rq_Header rq) ''Content-Type'') ''application/json''
        then Inl (WriteError [] 415 ''unsupported_media_type'' ''Content-Type must be application/json'')
      else (case rq_Body rq of
        None \<Rightarrow> Inl (WriteError [] 400 ''invalid_request'' ''invalid JSON request body'')
      | Some body \<Rightarrow>
          mapErr (WriteError [] 400 ''invalid_request'')
            (decode_document (json_struct endpoint_request_member \<lparr>eq_ID = [], eq_URL = []\<rparr>) body)))"

definition endpoint_error_status :: "error \<Rightarrow> int \<times> string" where
  "endpoint_error_status e =
     (if errors_Is e (Webhook ErrEndpointNotFound) then (404, ''webhook_endpoint_not_found'')
      else if errors_Is e (Webhook ErrEndpointAlreadyExists) then (409, ''webhook_endpoint_already_exists'')
      else if errors_Is e (Webhook ErrInvalidEndpointID) \<or> errors_Is e (Webhook ErrInvalidEndpointURL)
        then (400, ''invalid_request'')
      else (500, ''internal_error''))"

definition writeEndpointError :: "'s webhook_handler \<Rightarrow> error \<Rightarrow> http_response" where
  "writeEndpointError h e =
     WriteError [] (fst (endpoint_error_status e)) (snd (endpoint_error_status e)) (wh_text h e)"

definition newEndpointResponse :: "endpoint \<Rightarrow> json" where
  "newEndpointResponse e =
     JObj [(''id'', JStr (ep_id e)), (''url'', JStr (ep_url e)), (''enabled'', JBool (ep_enabled e))]"

definition registerEndpoint :: "'s webhook_handler \<Rightarrow> 's handler" where
  "registerEndpoint h cx rq s =
     (case Webhook_decodeJSON rq of
        Inl resp \<Rightarrow> (resp, s)
      | Inr input \<Rightarrow>
          (case RegisterEndpoint_Execute (wh_net h) (wh_repository h) cx (eq_ID input) (eq_URL input) s of
             (Inl e, s') \<Rightarrow> (writeEndpointError h e, s')
           | (Inr e, s') \<Rightarrow>
               (WriteJSON (header_set ''Location'' (''/webhook-endpoints/'' @ PathEscape (ep_id e)) []) 201
                  (newEndpointResponse e), s')))"

definition endpointID :: "string \<Rightarrow> string option" where
  "endpointID path = path_id ''/webhook-endpoints/'' path"

definition getEndpoint :: "'s webhook_handler \<Rightarrow> 's handler" where
  "getEndpoint h cx rq s =
     (case endpointID (rq_Path rq) of
        None \<Rightarrow> (WriteError [] 404 ''not_found'' ''webhook endpoint route not found'', s)
      | Some i \<Rightarrow>
          (case GetEndpoint_Execute (wh_repository h) cx i s of
             (Inl e, s') \<Rightarrow> (writeEndpointError h e, s')
           | (Inr e, s') \<Rightarrow> (WriteJSON [] 200 (newEndpointResponse e), s')))"

definition listEndpoints :: "'s webhook_handler \<Rightarrow> 's handler" where
  "listEndpoints h cx rq s =
     (case ListEndpoints_Execute (wh_repository h) cx s of
        (Inl e, s') \<Rightarrow> (writeEndpointError h e, s')
      | (Inr es, s') \<Rightarrow> (WriteJSON [] 200 (JArr (map newEndpointResponse es)), s'))"

definition Webhook_Register :: "'s webhook_handler \<Rightarrow> 's server \<Rightarrow> api_error + 's server" where
  "Webhook_Register h sv =
     bindR (Server_Handle ''POST'' ''/webhook-endpoints'' (registerEndpoint h) sv) (\<lambda>sv.
     bindR (Server_Handle ''GET'' ''/webhook-endpoints'' (listEndpoints h) sv) (\<lambda>sv.
       Server_HandlePrefix ''GET'' ''/webhook-endpoints/'' (getEndpoint h) sv))"

definition runtime_webhooks :: "net_library \<Rightarrow> (error \<Rightarrow> string) \<Rightarrow> world webhook_handler" where
  "runtime_webhooks net render =
     \<lparr>wh_net = net, wh_repository = sqlite_endpoints net, wh_text = render\<rparr>"

lemma runtime_webhooks_composed:
  "Webhook_NewHandler net render (Some (sqlite_endpoints net)) = Inr (runtime_webhooks net render)"
  by (simp add: Webhook_NewHandler_def runtime_webhooks_def)

section \<open>The in-memory repository\<close>

text \<open>
  The map of endpoints, and the order in which Go visits it, which may be any. The contexts that
  reach it may be cancelled.
\<close>

record endpoint_memory = context_state +
  me_endpoints :: "(string \<times> endpoint) list"
  me_iterate :: "endpoint list \<Rightarrow> endpoint list"

definition MemoryEndpoints_New ::
  "nat option \<Rightarrow> (endpoint list \<Rightarrow> endpoint list) \<Rightarrow> endpoint_memory" where
  "MemoryEndpoints_New remaining iterate =
     \<lparr>cs_remaining = remaining, me_endpoints = [], me_iterate = iterate\<rparr>"

definition MemoryEndpoints_Save :: "ctx \<Rightarrow> endpoint \<Rightarrow> (endpoint_memory, error, unit) proc" where
  "MemoryEndpoints_Save cx e =
     bindP ctx_Err (\<lambda>_.
     bindP (readP me_endpoints) (\<lambda>m.
       if map_of m (ep_id e) \<noteq> None then raiseP (Webhook ErrEndpointAlreadyExists)
       else writeP (\<lambda>s. s\<lparr>me_endpoints := m @ [(ep_id e, e)]\<rparr>)))"

definition MemoryEndpoints_FindByID :: "ctx \<Rightarrow> string \<Rightarrow> (endpoint_memory, error, endpoint) proc" where
  "MemoryEndpoints_FindByID cx i =
     bindP ctx_Err (\<lambda>_.
     bindP (readP me_endpoints) (\<lambda>m.
       case map_of m i of None \<Rightarrow> raiseP (Webhook ErrEndpointNotFound) | Some e \<Rightarrow> returnP e))"

definition MemoryEndpoints_List :: "ctx \<Rightarrow> (endpoint_memory, error, endpoint list) proc" where
  "MemoryEndpoints_List cx =
     bindP ctx_Err (\<lambda>_. readP (\<lambda>s. me_iterate s (map snd (me_endpoints s))))"

definition memory_endpoints :: "endpoint_memory endpoint_repository" where
  "memory_endpoints =
     \<lparr>ew_Save = MemoryEndpoints_Save, ew_FindByID = MemoryEndpoints_FindByID,
      ew_List = MemoryEndpoints_List\<rparr>"

section \<open>The contract of an endpoint repository\<close>

text \<open>
  An endpoint repository is a map that only grows: a save adds an endpoint under an identity that had
  none and otherwise fails, a find returns what was saved, and a list has every endpoint once. \<open>inv\<close>
  is what the repository keeps true of its state.
\<close>

definition endpoint_made :: "net_library \<Rightarrow> endpoint \<Rightarrow> bool" where
  "endpoint_made net e \<longleftrightarrow> NewEndpoint net (ep_id e) (ep_url e) = Inr e"

lemma NewEndpoint_made: "NewEndpoint net i url = Inr e \<Longrightarrow> endpoint_made net e \<and> ep_id e = i"
  by (auto simp: NewEndpoint_def endpoint_made_def split: if_splits)

locale endpoint_contract =
  fixes net :: net_library
    and repo :: "'s endpoint_repository"
    and lookup :: "'s \<Rightarrow> string \<Rightarrow> endpoint option"
    and inv :: "'s \<Rightarrow> bool"
  assumes save_ok: "ew_Save repo cx e s = (Inr u, s') \<Longrightarrow> inv s \<Longrightarrow> endpoint_made net e \<Longrightarrow>
      lookup s (ep_id e) = None \<and> lookup s' = (lookup s)(ep_id e \<mapsto> e) \<and> inv s'"
    and save_fails: "ew_Save repo cx e s = (Inl x, s') \<Longrightarrow> inv s \<Longrightarrow>
      lookup s' = lookup s \<and> inv s' \<and>
      (x = Webhook ErrEndpointAlreadyExists \<longrightarrow> lookup s (ep_id e) \<noteq> None)"
    and find_ok: "ew_FindByID repo cx i s = (Inr e, s') \<Longrightarrow> inv s \<Longrightarrow>
      lookup s i = Some e \<and> lookup s' = lookup s \<and> inv s'"
    and find_fails: "ew_FindByID repo cx i s = (Inl x, s') \<Longrightarrow> inv s \<Longrightarrow>
      lookup s' = lookup s \<and> inv s' \<and> (x = Webhook ErrEndpointNotFound \<longrightarrow> lookup s i = None)"
    and list_ok: "ew_List repo cx s = (Inr es, s') \<Longrightarrow> inv s \<Longrightarrow>
      lookup s' = lookup s \<and> inv s' \<and> distinct (map ep_id es) \<and>
      (\<forall>i e. lookup s i = Some e \<longleftrightarrow> e \<in> set es \<and> ep_id e = i)"
    and list_fails: "ew_List repo cx s = (Inl x, s') \<Longrightarrow> inv s \<Longrightarrow> lookup s' = lookup s \<and> inv s'"
begin

lemma register_effect:
  assumes "RegisterEndpoint_Execute net repo cx i url s = (r, s')" and "inv s"
  shows "inv s' \<and>
    (case r of
       Inr e \<Rightarrow> NewEndpoint net i url = Inr e \<and> lookup s i = None \<and> lookup s' = (lookup s)(i \<mapsto> e)
     | Inl x \<Rightarrow> lookup s' = lookup s)"
proof (cases "NewEndpoint net i url")
  case (Inl x)
  with assms show ?thesis by (auto simp: RegisterEndpoint_Execute_def bindP_apply)
next
  case (Inr e)
  note made = NewEndpoint_made [OF Inr]
  obtain q s1 where q: "ew_Save repo cx e s = (q, s1)" by force
  with assms(1) Inr have "s' = s1 \<and> r = (case q of Inl x \<Rightarrow> Inl x | Inr u \<Rightarrow> Inr e)"
    by (cases q) (auto simp: RegisterEndpoint_Execute_def bindP_apply)
  with made Inr q save_ok [of cx e s _ s1] save_fails [of cx e s _ s1] assms(2) show ?thesis
    by (cases q) auto
qed

text \<open>The list of a state is the one increasing list of its endpoints, however the repository lists them.\<close>

lemma list_effect:
  assumes "ListEndpoints_Execute repo cx s = (Inr es, s')" and "inv s"
  shows "inv s' \<and> lookup s' = lookup s \<and> sorted (map ep_id es) \<and> distinct (map ep_id es) \<and>
    (\<forall>i e. lookup s i = Some e \<longleftrightarrow> e \<in> set es \<and> ep_id e = i)"
proof -
  from assms(1) obtain xs where l: "ew_List repo cx s = (Inr xs, s')" and es: "es = sort_key ep_id xs"
    by (auto simp: ListEndpoints_Execute_def elim!: bindP_InrE)
  have "distinct (map ep_id es) = distinct (map ep_id xs)"
    by (metis es mset_eq_imp_distinct_iff mset_map mset_sort)
  with list_ok [OF l assms(2)] es show ?thesis by simp
qed

lemma list_determined:
  assumes "ListEndpoints_Execute repo cx s = (Inr es, s')" and "inv s"
    and "ListEndpoints_Execute repo cx' t = (Inr fs, t')" and "inv t" and "lookup t = lookup s"
  shows "fs = es"
proof -
  note E = list_effect [OF assms(1,2)] and F = list_effect [OF assms(3,4)]
  have "set fs = set es"
    using E F assms(5) by (metis (no_types, lifting) subsetI subset_antisym)
  moreover have "inj_on ep_id (set es)" using E by (simp add: distinct_map)
  moreover have "set (map ep_id fs) = set (map ep_id es)" using calculation(1) by simp
  then have "map ep_id fs = map ep_id es" using E F by (intro sorted_distinct_set_unique) simp_all
  ultimately show ?thesis by (metis inj_on_map_eq_map sup.idem)
qed

end

section \<open>Both repositories keep the contract\<close>

definition endpoint_of_row :: "net_library \<Rightarrow> endpoint_row \<Rightarrow> endpoint option" where
  "endpoint_of_row net r = (case NewEndpoint net (wr_id r) (wr_url r) of Inl e \<Rightarrow> None | Inr e \<Rightarrow> Some e)"

definition recorded_endpoints :: "net_library \<Rightarrow> world \<Rightarrow> string \<Rightarrow> endpoint option" where
  "recorded_endpoints net w i =
     Option.bind (row_at wr_id i (t_webhook_endpoints (w_db w))) (endpoint_of_row net)"

definition memory_ok :: "endpoint_memory \<Rightarrow> bool" where
  "memory_ok s \<longleftrightarrow>
     distinct (map fst (me_endpoints s)) \<and> (\<forall>(i, e) \<in> set (me_endpoints s). ep_id e = i) \<and>
     (\<forall>xs. mset (me_iterate s xs) = mset xs)"

lemma memory_ok_remaining [simp]: "memory_ok (s\<lparr>cs_remaining := m\<rparr>) = memory_ok s"
  by (simp add: memory_ok_def)

lemma memory_failures:
  assumes "ew_Save memory_endpoints cx e s = (Inl x, s') \<and> i = ep_id e \<and> c = (\<lambda>k. k \<noteq> None) \<and>
        x0 = ErrEndpointAlreadyExists \<or>
      ew_FindByID memory_endpoints cx i s = (Inl x, s') \<and> c = (\<lambda>k. k = None) \<and> x0 = ErrEndpointNotFound"
  shows "\<exists>m. s' = s\<lparr>cs_remaining := m\<rparr> \<and> (x = Webhook x0 \<longrightarrow> c (map_of (me_endpoints s) i))"
  using assms
  by (auto simp: memory_endpoints_def MemoryEndpoints_Save_def MemoryEndpoints_FindByID_def
      elim!: bindP_InlE dest!: ctx_Err_InrD ctx_Err_InlD split: if_splits option.splits
      intro: exI [of _ "cs_remaining s"])

interpretation memory_endpoints: endpoint_contract net memory_endpoints "\<lambda>s. map_of (me_endpoints s)" memory_ok
proof
  fix cx e s u s'
  assume "ew_Save memory_endpoints cx e s = (Inr u, s')" and ok: "memory_ok s"
  then obtain m where new: "map_of (me_endpoints s) (ep_id e) = None"
    and s': "s' = s\<lparr>cs_remaining := m, me_endpoints := me_endpoints s @ [(ep_id e, e)]\<rparr>"
    by (auto simp: memory_endpoints_def MemoryEndpoints_Save_def
        elim!: bindP_InrE dest!: ctx_Err_InrD split: if_splits)
  from new have "ep_id e \<notin> fst ` set (me_endpoints s)" by (simp add: map_of_eq_None_iff)
  with ok new show "map_of (me_endpoints s) (ep_id e) = None \<and>
      map_of (me_endpoints s') = (map_of (me_endpoints s))(ep_id e \<mapsto> e) \<and> memory_ok s'"
    by (auto simp: s' memory_ok_def map_add_def fun_eq_iff split: option.splits)
next
  fix cx e s x s'
  assume "ew_Save memory_endpoints cx e s = (Inl x, s')" and "memory_ok s"
  with memory_failures [of cx e s x s' "ep_id e" "\<lambda>k. k \<noteq> None" ErrEndpointAlreadyExists]
  show "map_of (me_endpoints s') = map_of (me_endpoints s) \<and> memory_ok s' \<and>
      (x = Webhook ErrEndpointAlreadyExists \<longrightarrow> map_of (me_endpoints s) (ep_id e) \<noteq> None)"
    by auto
next
  fix cx i s e s'
  assume "ew_FindByID memory_endpoints cx i s = (Inr e, s')" and ok: "memory_ok s"
  then obtain m where "s' = s\<lparr>cs_remaining := m\<rparr>" and "map_of (me_endpoints s) i = Some e"
    by (auto simp: memory_endpoints_def MemoryEndpoints_FindByID_def
        elim!: bindP_InrE dest!: ctx_Err_InrD split: option.splits)
  with ok show "map_of (me_endpoints s) i = Some e \<and> map_of (me_endpoints s') = map_of (me_endpoints s) \<and>
      memory_ok s'" by simp
next
  fix cx i s x s'
  assume "ew_FindByID memory_endpoints cx i s = (Inl x, s')" and "memory_ok s"
  with memory_failures [of cx _ s x s' i "\<lambda>k. k = None" ErrEndpointNotFound]
  show "map_of (me_endpoints s') = map_of (me_endpoints s) \<and> memory_ok s' \<and>
      (x = Webhook ErrEndpointNotFound \<longrightarrow> map_of (me_endpoints s) i = None)"
    by auto
next
  fix cx s es s'
  assume l: "ew_List memory_endpoints cx s = (Inr es, s')" and ok: "memory_ok s"
  then obtain m where s': "s' = s\<lparr>cs_remaining := m\<rparr>"
    and es: "es = me_iterate s (map snd (me_endpoints s))"
    by (auto simp: memory_endpoints_def MemoryEndpoints_List_def elim!: bindP_InrE dest!: ctx_Err_InrD)
  have ms: "mset es = mset (map snd (me_endpoints s))" using ok es by (simp add: memory_ok_def)
  have ids: "map ep_id (map snd (me_endpoints s)) = map fst (me_endpoints s)"
    using ok by (auto simp: memory_ok_def)
  have "mset (map ep_id es) = mset (map fst (me_endpoints s))" using ms ids by (metis mset_map)
  then have "distinct (map ep_id es) = distinct (map fst (me_endpoints s))"
    by (rule mset_eq_imp_distinct_iff)
  moreover have "set es = snd ` set (me_endpoints s)" using ms by (metis mset_eq_setD list.set_map)
  moreover have "map_of (me_endpoints s) i = Some e \<longleftrightarrow> e \<in> snd ` set (me_endpoints s) \<and> ep_id e = i" for i e
    using ok by (force simp: memory_ok_def)
  ultimately show "map_of (me_endpoints s') = map_of (me_endpoints s) \<and> memory_ok s' \<and>
      distinct (map ep_id es) \<and> (\<forall>i e. map_of (me_endpoints s) i = Some e \<longleftrightarrow> e \<in> set es \<and> ep_id e = i)"
    using ok ids by (simp add: s' memory_ok_def)
next
  fix cx s x s'
  assume "ew_List memory_endpoints cx s = (Inl x, s')" and "memory_ok s"
  then show "map_of (me_endpoints s') = map_of (me_endpoints s) \<and> memory_ok s'"
    by (auto simp: memory_endpoints_def MemoryEndpoints_List_def
        elim!: bindP_InlE dest!: ctx_Err_InrD ctx_Err_InlD)
qed

lemma restore_endpoints_ok:
  assumes "\<forall>r \<in> set rows. wr_id r \<noteq> [] \<and> validURL net (wr_url r)"
  shows "restore_endpoints net rows = Inr (map (\<lambda>r. the (endpoint_of_row net r)) rows)"
  using assms by (induction rows) (auto simp: endpoint_of_row_def NewEndpoint_def)

interpretation sqlite_endpoints: endpoint_contract net "sqlite_endpoints net" "recorded_endpoints net"
  "\<lambda>w. endpoints_ok net (w_db w)"
proof
  fix cx e s u s'
  assume "ew_Save (sqlite_endpoints net) cx e s = (Inr u, s')" and ok: "endpoints_ok net (w_db s)"
    and made: "endpoint_made net e"
  then have "Endpoint_Save cx e s = (Inr u, s')" by simp
  note S = Endpoint_Save_Inr [OF this]
  from made have e: "endpoint_of_row net \<lparr>wr_id = ep_id e, wr_url = ep_url e\<rparr> = Some e"
    by (simp add: endpoint_made_def endpoint_of_row_def)
  from made have "ep_id e \<noteq> []" and "validURL net (ep_url e)"
    by (auto simp: endpoint_made_def NewEndpoint_def split: if_splits)
  with ok S have "endpoints_ok net (w_db s')" by (auto simp: endpoints_ok_def row_at_None_iff)
  with S e show "recorded_endpoints net s (ep_id e) = None \<and>
      recorded_endpoints net s' = (recorded_endpoints net s)(ep_id e \<mapsto> e) \<and> endpoints_ok net (w_db s')"
    by (auto simp: recorded_endpoints_def fun_eq_iff row_at_append split: option.split)
next
  fix cx e s x s'
  assume "ew_Save (sqlite_endpoints net) cx e s = (Inl x, s')" and ok: "endpoints_ok net (w_db s)"
  then have run: "Endpoint_Save cx e s = (Inl x, s')" by simp
  have "row_at wr_id (ep_id e) (t_webhook_endpoints (w_db s)) \<noteq> None" if "x = Webhook ErrEndpointAlreadyExists"
    using run that by (auto simp: Endpoint_Save_def insert_endpoint_def
        elim!: bindP_InlE dest!: statement_InrD statement_InlD split: if_splits)
  moreover have "endpoint_of_row net r \<noteq> None" if "row_at wr_id i (t_webhook_endpoints (w_db s)) = Some r" for i r
    using ok row_at_SomeD [OF that] by (auto simp: endpoints_ok_def endpoint_of_row_def NewEndpoint_def)
  ultimately show "recorded_endpoints net s' = recorded_endpoints net s \<and> endpoints_ok net (w_db s') \<and>
      (x = Webhook ErrEndpointAlreadyExists \<longrightarrow> recorded_endpoints net s (ep_id e) \<noteq> None)"
    using Endpoint_Save_Inl [OF run] ok by (auto simp: recorded_endpoints_def fun_eq_iff)
next
  fix cx i s e s'
  assume "ew_FindByID (sqlite_endpoints net) cx i s = (Inr e, s')" and ok: "endpoints_ok net (w_db s)"
  then have run: "Endpoint_FindByID net cx i s = (Inr e, s')" by simp
  then obtain r where db: "w_db s' = w_db s" and r: "row_at wr_id i (t_webhook_endpoints (w_db s)) = Some r"
    and e: "NewEndpoint net i (wr_url r) = Inr e"
    by (auto simp: Endpoint_FindByID_def elim!: bindP_InrE dest!: query_InrD split: option.splits)
  have "wr_id r = i" using row_at_SomeD [OF r] by simp
  with r e have "recorded_endpoints net s i = Some e"
    by (simp add: recorded_endpoints_def endpoint_of_row_def)
  with ok db show "recorded_endpoints net s i = Some e \<and> recorded_endpoints net s' = recorded_endpoints net s \<and>
      endpoints_ok net (w_db s')"
    by (simp add: recorded_endpoints_def fun_eq_iff)
next
  fix cx i s x s'
  assume "ew_FindByID (sqlite_endpoints net) cx i s = (Inl x, s')" and ok: "endpoints_ok net (w_db s)"
  then have run: "Endpoint_FindByID net cx i s = (Inl x, s')" by simp
  then show "recorded_endpoints net s' = recorded_endpoints net s \<and> endpoints_ok net (w_db s') \<and>
      (x = Webhook ErrEndpointNotFound \<longrightarrow> recorded_endpoints net s i = None)"
    using ok by (auto simp: Endpoint_FindByID_def recorded_endpoints_def NewEndpoint_def fun_eq_iff
        mapErr_Inl_iff elim!: bindP_InlE dest!: query_InrD query_InlD split: option.splits if_splits)
next
  fix cx s es s'
  assume "ew_List (sqlite_endpoints net) cx s = (Inr es, s')" and ok: "endpoints_ok net (w_db s)"
  then have db: "w_db s' = w_db s"
    and es: "restore_endpoints net (sort_key wr_id (t_webhook_endpoints (w_db s))) = Inr es"
    by (auto simp: Endpoint_List_def mapErr_Inr_iff elim!: bindP_InrE dest!: query_InrD)
  let ?rows = "sort_key wr_id (t_webhook_endpoints (w_db s))"
  have rows: "\<forall>r \<in> set (t_webhook_endpoints (w_db s)). wr_id r \<noteq> [] \<and> validURL net (wr_url r)"
    and keys: "keys_distinct wr_id (t_webhook_endpoints (w_db s))" using ok by (simp_all add: endpoints_ok_def)
  let ?e = "\<lambda>r. \<lparr>ep_id = wr_id r, ep_url = wr_url r, ep_enabled = True\<rparr>"
  have of_row: "endpoint_of_row net r = Some (?e r)" if "r \<in> set (t_webhook_endpoints (w_db s))" for r
    using rows that by (simp add: endpoint_of_row_def NewEndpoint_def)
  have "map (\<lambda>r. the (endpoint_of_row net r)) ?rows = map ?e ?rows" by (rule map_cong) (simp_all add: of_row)
  moreover have "restore_endpoints net ?rows = Inr (map (\<lambda>r. the (endpoint_of_row net r)) ?rows)"
    using rows by (intro restore_endpoints_ok) simp
  ultimately have "es = map ?e ?rows" using es by (metis sum.inject(2))
  moreover have "distinct (map wr_id ?rows) = keys_distinct wr_id (t_webhook_endpoints (w_db s))"
    by (metis mset_eq_imp_distinct_iff mset_map mset_sort)
  moreover have "recorded_endpoints net s i = Some e \<longleftrightarrow>
      (\<exists>r \<in> set (t_webhook_endpoints (w_db s)). e = ?e r \<and> wr_id r = i)" for i e
  proof
    assume "recorded_endpoints net s i = Some e"
    then obtain r where r: "row_at wr_id i (t_webhook_endpoints (w_db s)) = Some r"
      and e: "endpoint_of_row net r = Some e" by (auto simp: recorded_endpoints_def bind_eq_Some_conv)
    from row_at_SomeD [OF r] of_row [of r] e
    show "\<exists>r \<in> set (t_webhook_endpoints (w_db s)). e = ?e r \<and> wr_id r = i" by auto
  next
    assume "\<exists>r \<in> set (t_webhook_endpoints (w_db s)). e = ?e r \<and> wr_id r = i"
    then obtain r where r: "r \<in> set (t_webhook_endpoints (w_db s))" and "e = ?e r" and "wr_id r = i" by blast
    with row_at_unique [OF keys r] of_row [OF r] show "recorded_endpoints net s i = Some e"
      by (simp add: recorded_endpoints_def)
  qed
  ultimately show "recorded_endpoints net s' = recorded_endpoints net s \<and> endpoints_ok net (w_db s') \<and>
      distinct (map ep_id es) \<and> (\<forall>i e. recorded_endpoints net s i = Some e \<longleftrightarrow> e \<in> set es \<and> ep_id e = i)"
    using ok keys db by (auto simp: recorded_endpoints_def fun_eq_iff comp_def)
next
  fix cx s x s'
  assume "ew_List (sqlite_endpoints net) cx s = (Inl x, s')" and "endpoints_ok net (w_db s)"
  moreover from this have "w_db s' = w_db s"
    using read_onlyD [OF Endpoint_List_frame(2)] by simp
  ultimately show "recorded_endpoints net s' = recorded_endpoints net s \<and> endpoints_ok net (w_db s')"
    by (simp add: recorded_endpoints_def fun_eq_iff)
qed

end
