(* ===== verification/Replay_Domain.thy ===== *)
theory Replay_Domain
  imports Payments Providers
begin

text \<open>
  Scenarios of \<open>internal/replay/domain\<close>: the commands of a scenario, the scenario with its
  validation, and the catalogue of \<open>internal/replay/scenarios\<close>.
\<close>

section \<open>Commands\<close>

datatype command_type =
    CommandCreatePayment | CommandStartSaga | CommandAuthorize | CommandCapture | CommandRefund
  | CommandCancel | CommandAdvanceTime | CommandExecuteAsync | UnknownCommand string

fun command_text :: "command_type \<Rightarrow> string" where
  "command_text CommandCreatePayment = ''create_payment''"
| "command_text CommandStartSaga = ''start_payment_saga''"
| "command_text CommandAuthorize = ''authorize''"
| "command_text CommandCapture = ''capture''"
| "command_text CommandRefund = ''refund''"
| "command_text CommandCancel = ''cancel''"
| "command_text CommandAdvanceTime = ''advance_time''"
| "command_text CommandExecuteAsync = ''execute_async''"
| "command_text (UnknownCommand t) = t"

definition command_type_of :: "string \<Rightarrow> command_type" where
  "command_type_of t =
     (case find (\<lambda>c. command_text c = t)
        [CommandCreatePayment, CommandStartSaga, CommandAuthorize, CommandCapture, CommandRefund,
         CommandCancel, CommandAdvanceTime, CommandExecuteAsync] of
        Some c \<Rightarrow> c | None \<Rightarrow> UnknownCommand t)"

fun CommandType_Valid :: "command_type \<Rightarrow> bool" where
  "CommandType_Valid (UnknownCommand t) = False"
| "CommandType_Valid c = True"

lemma command_type_of_text: "CommandType_Valid c \<Longrightarrow> command_type_of (command_text c) = c"
  by (cases c) (simp_all add: command_type_of_def)

definition zero_money :: money where
  "zero_money = \<lparr>money_amount = 0, money_currency = []\<rparr>"

record replay_command =
  co_Type :: command_type
  co_PaymentID :: string
  co_Amount :: money
  co_Duration :: duration
  co_OperationID :: string

definition no_amount :: "replay_command \<Rightarrow> bool" where
  "no_amount c \<longleftrightarrow> money_amount (co_Amount c) = 0 \<and> money_currency (co_Amount c) = []"

definition command_amount_error :: "replay_command \<Rightarrow> error option" where
  "command_amount_error c =
     (if sint (money_amount (co_Amount c)) \<le> 0 then Some (Replay ErrInvalidCommandAmount)
      else case NewMoney (money_amount (co_Amount c)) (money_currency (co_Amount c)) of
        Inl e \<Rightarrow> Some (Joined [Replay ErrInvalidCommandAmount, Payment e])
      | Inr m \<Rightarrow> None)"

definition Command_Validate :: "replay_command \<Rightarrow> error option" where
  "Command_Validate c =
     (if \<not> CommandType_Valid (co_Type c) then Some (Replay ErrInvalidCommandType)
      else if co_PaymentID c = [] \<and> co_Type c \<noteq> CommandAdvanceTime \<and> co_Type c \<noteq> CommandExecuteAsync
        then Some (Replay ErrInvalidCommandPaymentID)
      else case co_Type c of
        CommandCreatePayment \<Rightarrow> command_amount_error c
      | CommandStartSaga \<Rightarrow> command_amount_error c
      | CommandCapture \<Rightarrow> command_amount_error c
      | CommandRefund \<Rightarrow> command_amount_error c
      | CommandAuthorize \<Rightarrow> if \<not> no_amount c then Some (Replay ErrInvalidCommandAmount) else None
      | CommandCancel \<Rightarrow> if \<not> no_amount c then Some (Replay ErrInvalidCommandAmount) else None
      | CommandAdvanceTime \<Rightarrow>
          if co_PaymentID c \<noteq> [] \<or> \<not> no_amount c \<or> sint (co_Duration c) \<le> 0
            then Some (Replay ErrInvalidCommandAmount) else None
      | CommandExecuteAsync \<Rightarrow>
          if co_PaymentID c \<noteq> [] \<or> \<not> no_amount c \<or> co_OperationID c = []
            then Some (Replay ErrInvalidCommandPaymentID) else None
      | UnknownCommand t \<Rightarrow> None)"

section \<open>Scenarios\<close>

record provider_configuration =
  pc_ID :: string
  pc_Profile :: string

definition ProviderConfiguration_Validate :: "provider_configuration \<Rightarrow> replay_error option" where
  "ProviderConfiguration_Validate c =
     (if ProviderIdentity_Validate (pc_ID c) \<noteq> None then Some ErrInvalidProviderConfiguration
      else None)"

record scenario =
  xs_ID :: string
  xs_InitialPayments :: "payment_state list"
  xs_Commands :: "replay_command list"
  xs_Provider :: provider_configuration
  xs_InitialVirtualTime :: time
  xs_Seed :: uint64

text \<open>The loop over the initial payments; \<open>seen\<close> holds the identities met so far.\<close>

fun validate_payments :: "string list \<Rightarrow> payment_state list \<Rightarrow> error option" where
  "validate_payments seen [] = None"
| "validate_payments seen (p # ps) =
     (case PaymentState_Validate p of
        Some e \<Rightarrow> Some (Payment e)
      | None \<Rightarrow>
          if ps_ID p \<in> set seen then Some (Replay ErrDuplicateInitialPayment)
          else validate_payments (ps_ID p # seen) ps)"

fun validate_commands :: "replay_command list \<Rightarrow> error option" where
  "validate_commands [] = None"
| "validate_commands (c # cs) =
     (if Command_Validate c \<noteq> None then Some (Replay ErrInvalidCommand) else validate_commands cs)"

definition Scenario_Validate :: "scenario \<Rightarrow> error option" where
  "Scenario_Validate s =
     (if xs_ID s = [] then Some (Replay ErrInvalidScenarioID)
      else if IsZero (xs_InitialVirtualTime s) then Some (Replay ErrInvalidScenarioTime)
      else case ProviderConfiguration_Validate (xs_Provider s) of
        Some e \<Rightarrow> Some (Replay e)
      | None \<Rightarrow>
          (case validate_payments [] (xs_InitialPayments s) of
             Some e \<Rightarrow> Some e
           | None \<Rightarrow> validate_commands (xs_Commands s)))"

definition Scenario_New ::
  "string \<Rightarrow> payment_state list \<Rightarrow> replay_command list \<Rightarrow> provider_configuration \<Rightarrow> time \<Rightarrow> uint64 \<Rightarrow>
     error + scenario" where
  "Scenario_New i initialPayments commands provider initialVirtualTime seed =
     (let s = \<lparr>xs_ID = i, xs_InitialPayments = initialPayments, xs_Commands = commands,
               xs_Provider = provider, xs_InitialVirtualTime = initialVirtualTime, xs_Seed = seed\<rparr> in
      case Scenario_Validate s of Some e \<Rightarrow> Inl e | None \<Rightarrow> Inr s)"

section \<open>What validation accepts\<close>

lemma validate_payments_None:
  "validate_payments seen ps = None \<longleftrightarrow>
     (\<forall>p \<in> set ps. PaymentState_Validate p = None) \<and> distinct (map ps_ID ps) \<and>
     set seen \<inter> ps_ID ` set ps = {}"
  by (induction ps arbitrary: seen) (auto split: option.splits)

lemma validate_commands_None:
  "validate_commands cs = None \<longleftrightarrow> (\<forall>c \<in> set cs. Command_Validate c = None)"
  by (induction cs) auto

lemma Scenario_Validate_None:
  "Scenario_Validate s = None \<longleftrightarrow>
     xs_ID s \<noteq> [] \<and> xs_InitialVirtualTime s \<noteq> 0 \<and> pc_ID (xs_Provider s) \<noteq> [] \<and>
     (\<forall>p \<in> set (xs_InitialPayments s). PaymentState_Validate p = None) \<and>
     distinct (map ps_ID (xs_InitialPayments s)) \<and>
     (\<forall>c \<in> set (xs_Commands s). Command_Validate c = None)"
  using validate_payments_None [of "[]" "xs_InitialPayments s"]
  by (cases "validate_payments [] (xs_InitialPayments s)")
    (auto simp: Scenario_Validate_def validate_commands_None ProviderConfiguration_Validate_def
      ProviderIdentity_Validate_def ProviderID_Valid_def)

lemma Scenario_New_Inr_iff:
  "Scenario_New i ps cs p t seed = Inr s \<longleftrightarrow>
     s = \<lparr>xs_ID = i, xs_InitialPayments = ps, xs_Commands = cs, xs_Provider = p,
          xs_InitialVirtualTime = t, xs_Seed = seed\<rparr> \<and> Scenario_Validate s = None"
  by (auto simp: Scenario_New_def Let_def split: option.splits)

text \<open>
  A \<open>Money\<close> value is the zero value or comes from \<open>NewMoney\<close>, because its fields are private.
\<close>

definition money_made :: "money \<Rightarrow> bool" where
  "money_made m \<longleftrightarrow> m = zero_money \<or> NewMoney (money_amount m) (money_currency m) = Inr m"

definition scenario_made :: "scenario \<Rightarrow> bool" where
  "scenario_made s \<longleftrightarrow>
     (\<forall>p \<in> set (xs_InitialPayments s). money_made (ps_Amount p)) \<and>
     (\<forall>c \<in> set (xs_Commands s). money_made (co_Amount c))"

lemma NewMoney_made: "NewMoney a c = Inr m \<Longrightarrow> money_made m"
  by (auto simp: money_made_def NewMoney_def split: if_splits)

lemma initial_payment_money:
  assumes "PaymentState_Validate p = None" and "money_made (ps_Amount p)"
  shows "NewMoney (money_amount (ps_Amount p)) (money_currency (ps_Amount p)) = Inr (ps_Amount p)"
  using assms by (auto simp: money_made_def zero_money_def PaymentState_Validate_def split: if_splits)

section \<open>The catalogue\<close>

datatype scenario_name = PaymentLifecycle | PaymentCancellation | UnknownName string

definition Names :: "scenario_name list" where
  "Names = [PaymentLifecycle, PaymentCancellation]"

definition simple_command :: "command_type \<Rightarrow> string \<Rightarrow> money \<Rightarrow> replay_command" where
  "simple_command t i m =
     \<lparr>co_Type = t, co_PaymentID = i, co_Amount = m, co_Duration = 0, co_OperationID = []\<rparr>"

definition commandsFor :: "scenario_name \<Rightarrow> string \<Rightarrow> money \<Rightarrow> error + replay_command list" where
  "commandsFor name paymentID amount =
     (let base = [simple_command CommandCreatePayment paymentID amount,
                  simple_command CommandAuthorize paymentID zero_money] in
      case name of
        PaymentLifecycle \<Rightarrow>
          Inr (base @ [simple_command CommandCapture paymentID amount,
                       simple_command CommandRefund paymentID amount])
      | PaymentCancellation \<Rightarrow> Inr (base @ [simple_command CommandCancel paymentID zero_money])
      | UnknownName t \<Rightarrow> Inl (Replay ErrInvalidName))"

definition Scenarios_NewWithProfile ::
  "scenario_name \<Rightarrow> string \<Rightarrow> string \<Rightarrow> string \<Rightarrow> time \<Rightarrow> money \<Rightarrow> uint64 \<Rightarrow> error + scenario" where
  "Scenarios_NewWithProfile name providerID profile scenarioID initialVirtualTime amount seed =
     bindR (commandsFor name (scenarioID @ ''-payment'') amount) (\<lambda>commands.
       Scenario_New scenarioID [] commands \<lparr>pc_ID = providerID, pc_Profile = profile\<rparr>
         initialVirtualTime seed)"

definition Scenarios_New ::
  "scenario_name \<Rightarrow> string \<Rightarrow> string \<Rightarrow> time \<Rightarrow> money \<Rightarrow> uint64 \<Rightarrow> error + scenario" where
  "Scenarios_New name providerID scenarioID initialVirtualTime amount seed =
     Scenarios_NewWithProfile name providerID ''success'' scenarioID initialVirtualTime amount seed"

text \<open>The catalogue builds a valid scenario from every valid amount.\<close>

lemma catalogue_valid:
  assumes "name \<in> set Names" and "NewMoney a c = Inr amount" and "0 < sint a"
    and "providerID \<noteq> []" and "scenarioID \<noteq> []" and "at \<noteq> 0"
  shows "\<exists>s. Scenarios_NewWithProfile name providerID profile scenarioID at amount seed = Inr s \<and>
             scenario_made s"
proof -
  have m: "amount = \<lparr>money_amount = a, money_currency = c\<rparr>" and v: "NewMoney a c = Inr amount"
    using assms(2) by (auto simp: NewMoney_Inr_iff)
  have made: "money_made amount" "money_made zero_money"
    using NewMoney_made [OF assms(2)] by (simp_all add: money_made_def)
  have ok: "Command_Validate (simple_command CommandCreatePayment i amount) = None \<and>
      Command_Validate (simple_command CommandCapture i amount) = None \<and>
      Command_Validate (simple_command CommandRefund i amount) = None \<and>
      Command_Validate (simple_command CommandAuthorize i zero_money) = None \<and>
      Command_Validate (simple_command CommandCancel i zero_money) = None" if "i \<noteq> []" for i
    using that assms(3) v
    by (simp add: Command_Validate_def simple_command_def command_amount_error_def no_amount_def
        zero_money_def m)
  from assms(1) consider "name = PaymentLifecycle" | "name = PaymentCancellation"
    by (auto simp: Names_def)
  then show ?thesis
    by cases
      (use assms(4-6) ok [of "scenarioID @ ''-payment''"] made in
        \<open>simp_all add: Scenarios_NewWithProfile_def commandsFor_def Let_def Scenario_New_Inr_iff
          Scenario_Validate_None scenario_made_def simple_command_def\<close>)
qed

end
