(* ===== verification/Replay_Store.thy ===== *)
theory Replay_Store
  imports Replay_Domain Contexts
begin

text \<open>
  The stores of scenarios: the interface of \<open>internal/replay/application/scenario_service.go\<close> with
  its contract, the SQLite repository (\<open>internal/replay/adapters/sqlite/repository.go\<close>) with the
  JSON record that it keeps, and the in-memory repository (\<open>internal/replay/adapters/memory\<close>).
\<close>

section \<open>The JSON record of a scenario\<close>

record scenario_payment_record =
  yp_ID :: string
  yp_Amount :: int64
  yp_Currency :: string
  yp_Status :: string
  yp_AuthorizedAmount :: int64
  yp_CapturedAmount :: int64
  yp_RefundedAmount :: int64
  yp_Version :: uint64

record scenario_command_record =
  yc_Type :: string
  yc_PaymentID :: string
  yc_Amount :: int64
  yc_Currency :: string
  yc_DurationNanos :: int64
  yc_OperationID :: string

record scenario_record =
  ys_ID :: string
  ys_InitialPayments :: "scenario_payment_record list"
  ys_Commands :: "scenario_command_record list"
  ys_ProviderID :: string
  ys_ProviderProfile :: string
  ys_InitialVirtualTime :: time
  ys_Seed :: uint64

definition payment_record_of :: "payment_state \<Rightarrow> scenario_payment_record" where
  "payment_record_of p =
     \<lparr>yp_ID = ps_ID p, yp_Amount = money_amount (ps_Amount p),
      yp_Currency = money_currency (ps_Amount p), yp_Status = status_text (ps_Status p),
      yp_AuthorizedAmount = ps_AuthorizedAmount p, yp_CapturedAmount = ps_CapturedAmount p,
      yp_RefundedAmount = ps_RefundedAmount p, yp_Version = ps_Version p\<rparr>"

definition command_record_of :: "replay_command \<Rightarrow> scenario_command_record" where
  "command_record_of c =
     \<lparr>yc_Type = command_text (co_Type c), yc_PaymentID = co_PaymentID c,
      yc_Amount = money_amount (co_Amount c), yc_Currency = money_currency (co_Amount c),
      yc_DurationNanos = co_Duration c, yc_OperationID = co_OperationID c\<rparr>"

definition toRecord :: "scenario \<Rightarrow> scenario_record" where
  "toRecord s =
     \<lparr>ys_ID = xs_ID s, ys_InitialPayments = map payment_record_of (xs_InitialPayments s),
      ys_Commands = map command_record_of (xs_Commands s), ys_ProviderID = pc_ID (xs_Provider s),
      ys_ProviderProfile = pc_Profile (xs_Provider s),
      ys_InitialVirtualTime = xs_InitialVirtualTime s, ys_Seed = xs_Seed s\<rparr>"

fun traverseR :: "('a \<Rightarrow> 'e + 'b) \<Rightarrow> 'a list \<Rightarrow> 'e + 'b list" where
  "traverseR f [] = Inr []"
| "traverseR f (x # xs) = bindR (f x) (\<lambda>y. bindR (traverseR f xs) (\<lambda>ys. Inr (y # ys)))"

definition payment_of_record :: "scenario_payment_record \<Rightarrow> error + payment_state" where
  "payment_of_record p =
     bindR (mapErr Payment (NewMoney (yp_Amount p) (yp_Currency p))) (\<lambda>amount.
       Inr \<lparr>ps_ID = yp_ID p, ps_Amount = amount, ps_Status = status_of (yp_Status p),
            ps_AuthorizedAmount = yp_AuthorizedAmount p, ps_CapturedAmount = yp_CapturedAmount p,
            ps_RefundedAmount = yp_RefundedAmount p, ps_Version = yp_Version p\<rparr>)"

definition command_of_record :: "scenario_command_record \<Rightarrow> error + replay_command" where
  "command_of_record c =
     bindR (if yc_Amount c \<noteq> 0 \<or> yc_Currency c \<noteq> []
              then mapErr Payment (NewMoney (yc_Amount c) (yc_Currency c)) else Inr zero_money)
       (\<lambda>amount.
          Inr \<lparr>co_Type = command_type_of (yc_Type c), co_PaymentID = yc_PaymentID c,
               co_Amount = amount, co_Duration = yc_DurationNanos c,
               co_OperationID = yc_OperationID c\<rparr>)"

definition toDomain :: "scenario_record \<Rightarrow> error + scenario" where
  "toDomain r =
     bindR (traverseR payment_of_record (ys_InitialPayments r)) (\<lambda>payments.
     bindR (traverseR command_of_record (ys_Commands r)) (\<lambda>commands.
       Scenario_New (ys_ID r) payments commands
         \<lparr>pc_ID = ys_ProviderID r, pc_Profile = ys_ProviderProfile r\<rparr>
         (ys_InitialVirtualTime r) (ys_Seed r)))"

text \<open>A nil slice is encoded as \<open>null\<close>.\<close>

definition json_slice :: "('a \<Rightarrow> json) \<Rightarrow> 'a list \<Rightarrow> json" where
  "json_slice f xs = (if xs = [] then JNull else JArr (map f xs))"

definition json_of_payment_record :: "scenario_payment_record \<Rightarrow> json" where
  "json_of_payment_record p =
     JObj [(''id'', JStr (yp_ID p)), (''amount'', JNum (sint (yp_Amount p))),
       (''currency'', JStr (yp_Currency p)), (''status'', JStr (yp_Status p)),
       (''authorized_amount'', JNum (sint (yp_AuthorizedAmount p))),
       (''captured_amount'', JNum (sint (yp_CapturedAmount p))),
       (''refunded_amount'', JNum (sint (yp_RefundedAmount p))),
       (''version'', JNum (uint (yp_Version p)))]"

definition json_of_command_record :: "scenario_command_record \<Rightarrow> json" where
  "json_of_command_record c =
     JObj [(''type'', JStr (yc_Type c)), (''payment_id'', JStr (yc_PaymentID c)),
       (''amount'', JNum (sint (yc_Amount c))), (''currency'', JStr (yc_Currency c)),
       (''duration_nanos'', JNum (sint (yc_DurationNanos c))),
       (''operation_id'', JStr (yc_OperationID c))]"

definition Marshal_scenario :: "scenario_record \<Rightarrow> error + bytes" where
  "Marshal_scenario r =
     (if \<not> time_in_range (ys_InitialVirtualTime r) then Inl Decoding
      else Inr (JsonText (JObj
        [(''id'', JStr (ys_ID r)),
         (''initial_payments'', json_slice json_of_payment_record (ys_InitialPayments r)),
         (''commands'', json_slice json_of_command_record (ys_Commands r)),
         (''provider_id'', JStr (ys_ProviderID r)),
         (''provider_profile'', JStr (ys_ProviderProfile r)),
         (''initial_virtual_time'', JTime (ys_InitialVirtualTime r)),
         (''seed'', JNum (uint (ys_Seed r)))])))"

section \<open>Decoding\<close>

definition payment_record_member ::
  "string \<Rightarrow> json \<Rightarrow> scenario_payment_record \<Rightarrow> scenario_payment_record option" where
  "payment_record_member k v p =
     (if names k ''id'' then map_option (\<lambda>a. p\<lparr>yp_ID := a\<rparr>) (json_string (yp_ID p) v)
      else if names k ''amount''
        then map_option (\<lambda>a. p\<lparr>yp_Amount := a\<rparr>) (json_int64 (yp_Amount p) v)
      else if names k ''currency''
        then map_option (\<lambda>a. p\<lparr>yp_Currency := a\<rparr>) (json_string (yp_Currency p) v)
      else if names k ''status''
        then map_option (\<lambda>a. p\<lparr>yp_Status := a\<rparr>) (json_string (yp_Status p) v)
      else if names k ''authorized_amount''
        then map_option (\<lambda>a. p\<lparr>yp_AuthorizedAmount := a\<rparr>) (json_int64 (yp_AuthorizedAmount p) v)
      else if names k ''captured_amount''
        then map_option (\<lambda>a. p\<lparr>yp_CapturedAmount := a\<rparr>) (json_int64 (yp_CapturedAmount p) v)
      else if names k ''refunded_amount''
        then map_option (\<lambda>a. p\<lparr>yp_RefundedAmount := a\<rparr>) (json_int64 (yp_RefundedAmount p) v)
      else if names k ''version''
        then map_option (\<lambda>a. p\<lparr>yp_Version := a\<rparr>) (json_uint64 (yp_Version p) v)
      else Some p)"

definition zero_payment_record :: scenario_payment_record where
  "zero_payment_record =
     \<lparr>yp_ID = [], yp_Amount = 0, yp_Currency = [], yp_Status = [], yp_AuthorizedAmount = 0,
      yp_CapturedAmount = 0, yp_RefundedAmount = 0, yp_Version = 0\<rparr>"

definition command_record_member ::
  "string \<Rightarrow> json \<Rightarrow> scenario_command_record \<Rightarrow> scenario_command_record option" where
  "command_record_member k v c =
     (if names k ''type'' then map_option (\<lambda>a. c\<lparr>yc_Type := a\<rparr>) (json_string (yc_Type c) v)
      else if names k ''payment_id''
        then map_option (\<lambda>a. c\<lparr>yc_PaymentID := a\<rparr>) (json_string (yc_PaymentID c) v)
      else if names k ''amount''
        then map_option (\<lambda>a. c\<lparr>yc_Amount := a\<rparr>) (json_int64 (yc_Amount c) v)
      else if names k ''currency''
        then map_option (\<lambda>a. c\<lparr>yc_Currency := a\<rparr>) (json_string (yc_Currency c) v)
      else if names k ''duration_nanos''
        then map_option (\<lambda>a. c\<lparr>yc_DurationNanos := a\<rparr>) (json_int64 (yc_DurationNanos c) v)
      else if names k ''operation_id''
        then map_option (\<lambda>a. c\<lparr>yc_OperationID := a\<rparr>) (json_string (yc_OperationID c) v)
      else Some c)"

definition zero_command_record :: scenario_command_record where
  "zero_command_record =
     \<lparr>yc_Type = [], yc_PaymentID = [], yc_Amount = 0, yc_Currency = [], yc_DurationNanos = 0,
      yc_OperationID = []\<rparr>"

definition scenario_member :: "string \<Rightarrow> json \<Rightarrow> scenario_record \<Rightarrow> scenario_record option" where
  "scenario_member k v r =
     (if names k ''id'' then map_option (\<lambda>a. r\<lparr>ys_ID := a\<rparr>) (json_string (ys_ID r) v)
      else if names k ''initial_payments''
        then map_option (\<lambda>a. r\<lparr>ys_InitialPayments := a\<rparr>)
          (json_elements (json_struct payment_record_member zero_payment_record) v)
      else if names k ''commands''
        then map_option (\<lambda>a. r\<lparr>ys_Commands := a\<rparr>)
          (json_elements (json_struct command_record_member zero_command_record) v)
      else if names k ''provider_id''
        then map_option (\<lambda>a. r\<lparr>ys_ProviderID := a\<rparr>) (json_string (ys_ProviderID r) v)
      else if names k ''provider_profile''
        then map_option (\<lambda>a. r\<lparr>ys_ProviderProfile := a\<rparr>) (json_string (ys_ProviderProfile r) v)
      else if names k ''initial_virtual_time''
        then map_option (\<lambda>a. r\<lparr>ys_InitialVirtualTime := a\<rparr>) (json_time (ys_InitialVirtualTime r) v)
      else if names k ''seed'' then map_option (\<lambda>a. r\<lparr>ys_Seed := a\<rparr>) (json_uint64 (ys_Seed r) v)
      else Some r)"

definition zero_scenario_record :: scenario_record where
  "zero_scenario_record =
     \<lparr>ys_ID = [], ys_InitialPayments = [], ys_Commands = [], ys_ProviderID = [],
      ys_ProviderProfile = [], ys_InitialVirtualTime = 0, ys_Seed = 0\<rparr>"

definition Unmarshal_scenario :: "bytes \<Rightarrow> error + scenario_record" where
  "Unmarshal_scenario b = Unmarshal scenario_member zero_scenario_record b"

lemma those_map_encode:
  assumes "\<And>x. f (g x) = Some x"
  shows "those (map (f \<circ> g) xs) = Some xs"
  using assms by (induction xs) simp_all

lemma slice_roundtrip:
  assumes "\<And>x. f (g x) = Some x"
  shows "json_elements f (json_slice g xs) = Some xs"
  using those_map_encode [of f g xs, OF assms] by (simp add: json_slice_def)

lemma payment_record_roundtrip:
  "json_struct payment_record_member zero_payment_record (json_of_payment_record p) = Some p"
  by (simp add: json_of_payment_record_def payment_record_member_def zero_payment_record_def
      names_def ascii_lower_def)

lemma command_record_roundtrip:
  "json_struct command_record_member zero_command_record (json_of_command_record c) = Some c"
  by (simp add: json_of_command_record_def command_record_member_def zero_command_record_def
      names_def ascii_lower_def)

lemma scenario_record_roundtrip:
  "Marshal_scenario r = Inr b \<Longrightarrow> Unmarshal_scenario b = Inr r"
  by (auto simp: Marshal_scenario_def Unmarshal_scenario_def scenario_member_def
      zero_scenario_record_def names_def ascii_lower_def payment_record_roundtrip
      command_record_roundtrip slice_roundtrip split: if_splits)

lemma traverseR_map:
  "(\<And>x. x \<in> set xs \<Longrightarrow> f (g x) = Inr x) \<Longrightarrow> traverseR f (map g xs) = Inr xs"
  by (induction xs) simp_all

lemma payment_of_record_of:
  assumes "PaymentState_Validate p = None" and "money_made (ps_Amount p)"
  shows "payment_of_record (payment_record_of p) = Inr p"
proof -
  have "Status_Valid (ps_Status p)"
    using assms(1) by (auto simp: PaymentState_Validate_def split: if_splits)
  then show ?thesis
    using initial_payment_money [OF assms]
    by (simp add: payment_of_record_def payment_record_of_def status_of_text)
qed

lemma command_of_record_of:
  assumes "Command_Validate c = None" and "money_made (co_Amount c)"
  shows "command_of_record (command_record_of c) = Inr c"
proof -
  have "CommandType_Valid (co_Type c)"
    using assms(1) by (auto simp: Command_Validate_def split: if_splits)
  moreover have "money_amount (co_Amount c) = 0 \<and> money_currency (co_Amount c) = [] \<longleftrightarrow>
      co_Amount c = zero_money" by (cases "co_Amount c") (simp add: zero_money_def)
  ultimately show ?thesis
    using assms(2)
    by (auto simp: command_of_record_def command_record_of_def command_type_of_text money_made_def)
qed

lemma toDomain_toRecord:
  assumes "Scenario_Validate s = None" and "scenario_made s"
  shows "toDomain (toRecord s) = Inr s"
proof -
  have "traverseR payment_of_record (map payment_record_of (xs_InitialPayments s)) =
      Inr (xs_InitialPayments s)"
    using assms by (intro traverseR_map payment_of_record_of)
      (auto simp: Scenario_Validate_None scenario_made_def)
  moreover have "traverseR command_of_record (map command_record_of (xs_Commands s)) =
      Inr (xs_Commands s)"
    using assms by (intro traverseR_map command_of_record_of)
      (auto simp: Scenario_Validate_None scenario_made_def)
  ultimately show ?thesis
    using assms(1) by (simp add: toDomain_def toRecord_def Scenario_New_Inr_iff)
qed

lemma traverseR_Inr_set:
  assumes "traverseR f xs = Inr ys" and "y \<in> set ys"
  shows "\<exists>x \<in> set xs. f x = Inr y"
  using assms by (induction xs arbitrary: ys) (auto simp: bindR_Inr_iff)

text \<open>Decoding makes scenarios with the constructor, from amounts made with theirs.\<close>

lemma toDomain_made:
  assumes "toDomain r = Inr x" shows "Scenario_Validate x = None \<and> scenario_made x"
proof -
  obtain ps cs where ps: "traverseR payment_of_record (ys_InitialPayments r) = Inr ps"
    and cs: "traverseR command_of_record (ys_Commands r) = Inr cs"
    and x: "Scenario_New (ys_ID r) ps cs \<lparr>pc_ID = ys_ProviderID r, pc_Profile = ys_ProviderProfile r\<rparr>
      (ys_InitialVirtualTime r) (ys_Seed r) = Inr x"
    using assms by (auto simp: toDomain_def bindR_Inr_iff)
  have "money_made (ps_Amount p)" if p: "p \<in> set ps" for p
    using traverseR_Inr_set [OF ps p]
    by (auto simp: payment_of_record_def bindR_Inr_iff mapErr_Inr_iff dest: NewMoney_made)
  moreover have "money_made (co_Amount c)" if c: "c \<in> set cs" for c
    using traverseR_Inr_set [OF cs c]
    by (auto simp: command_of_record_def bindR_Inr_iff mapErr_Inr_iff money_made_def
        dest: NewMoney_made split: if_splits)
  ultimately show ?thesis
    using x by (auto simp: Scenario_New_Inr_iff scenario_made_def)
qed

section \<open>The interface and its contract\<close>

text \<open>A nil \<open>*Scenario\<close> is \<open>None\<close>.\<close>

record 's scenario_repository =
  xr_Save :: "ctx \<Rightarrow> scenario option \<Rightarrow> ('s, error, unit) proc"
  xr_FindByID :: "ctx \<Rightarrow> string \<Rightarrow> ('s, error, scenario option) proc"

text \<open>
  \<open>content\<close> is what a repository holds. A scenario is stored once: it is valid then, its identity
  was free, and from then on it is found as it was saved; a refused one leaves everything alone.
\<close>

locale scenario_contract =
  fixes repo :: "'s scenario_repository"
    and content :: "'s \<Rightarrow> string \<Rightarrow> scenario option"
  assumes save_ok: "xr_Save repo cx (Some x) s = (Inr u, s') \<Longrightarrow> scenario_made x \<Longrightarrow>
      Scenario_Validate x = None \<and> content s (xs_ID x) = None \<and>
      content s' = (content s)(xs_ID x \<mapsto> x)"
    and save_fails: "xr_Save repo cx y s = (Inl e, s') \<Longrightarrow> content s' = content s"
    and find_ok: "xr_FindByID repo cx i s = (Inr r, s') \<Longrightarrow>
      content s' = content s \<and> r = content s i"
begin

lemma saved_is_found:
  assumes "xr_Save repo cx (Some x) s = (Inr u, s1)" and "scenario_made x"
    and "content s2 (xs_ID x) = content s1 (xs_ID x)"
    and "xr_FindByID repo cx' (xs_ID x) s2 = (Inr r, s3)"
  shows "r = Some x"
  using save_ok [OF assms(1,2)] find_ok [OF assms(4)] assms(3) by simp

lemma saved_once:
  assumes "xr_Save repo cx (Some x) s = (Inr u, s1)" and "scenario_made x"
    and "content s2 (xs_ID x) = content s1 (xs_ID x)"
    and "scenario_made y" and "xs_ID y = xs_ID x"
  shows "\<exists>e s3. xr_Save repo cx' (Some y) s2 = (Inl e, s3) \<and> content s3 = content s2"
proof -
  obtain r s3 where sv: "xr_Save repo cx' (Some y) s2 = (r, s3)" by (cases "xr_Save repo cx' (Some y) s2")
  have taken: "content s2 (xs_ID y) \<noteq> None"
    using save_ok [OF assms(1,2)] assms(3,5) by simp
  then have "\<nexists>v. r = Inr v" using save_ok [OF _ assms(4), of cx' s2 _ s3] sv by auto
  then obtain e where "r = Inl e" by (cases r) auto
  with sv save_fails show ?thesis by auto
qed

end

section \<open>The SQLite repository\<close>

definition insert_scenario :: "scenario_row \<Rightarrow> db \<Rightarrow> nat \<times> db" where
  "insert_scenario r d =
     (case row_at xr_id (xr_id r) (t_replay_scenarios d) of
        None \<Rightarrow> (1, d\<lparr>t_replay_scenarios := t_replay_scenarios d @ [r]\<rparr>)
      | Some old \<Rightarrow> (0, d))"

definition ScenarioRepository_Save :: "ctx \<Rightarrow> scenario option \<Rightarrow> unit act" where
  "ScenarioRepository_Save cx x =
     (case x of
        None \<Rightarrow> raiseP (Replay ErrInvalidScenarioID)
      | Some s \<Rightarrow>
          (case Scenario_Validate s of
             Some e \<Rightarrow> raiseP e
           | None \<Rightarrow>
               bindP (liftP (Marshal_scenario (toRecord s))) (\<lambda>payload.
               bindP (statement (insert_scenario \<lparr>xr_id = xs_ID s, xr_payload = payload\<rparr>)) (\<lambda>changed.
                 if changed = 0 then raiseP (Replay ErrScenarioAlreadyExists) else returnP ()))))"

definition decode_scenario_row :: "scenario_row \<Rightarrow> error + scenario" where
  "decode_scenario_row r = bindR (Unmarshal_scenario (xr_payload r)) toDomain"

definition ScenarioRepository_FindByID :: "ctx \<Rightarrow> string \<Rightarrow> scenario option act" where
  "ScenarioRepository_FindByID cx i =
     bindP (query (\<lambda>d. row_at xr_id i (t_replay_scenarios d))) (\<lambda>r.
       case r of
         None \<Rightarrow> returnP None
       | Some row \<Rightarrow> bindP (liftP (decode_scenario_row row)) (\<lambda>s. returnP (Some s)))"

definition sqlite_scenarios :: "world scenario_repository" where
  "sqlite_scenarios =
     \<lparr>xr_Save = ScenarioRepository_Save, xr_FindByID = ScenarioRepository_FindByID\<rparr>"

lemma sqlite_scenarios_simps [simp]:
  "xr_Save sqlite_scenarios = ScenarioRepository_Save"
  "xr_FindByID sqlite_scenarios = ScenarioRepository_FindByID"
  by (simp_all add: sqlite_scenarios_def)

definition recorded_scenarios :: "world \<Rightarrow> string \<Rightarrow> scenario option" where
  "recorded_scenarios w i =
     (case row_at xr_id i (t_replay_scenarios (w_db w)) of
        None \<Rightarrow> None
      | Some row \<Rightarrow> (case decode_scenario_row row of Inl e \<Rightarrow> None | Inr s \<Rightarrow> Some s))"

lemma recorded_scenarios_db: "w_db w' = w_db w \<Longrightarrow> recorded_scenarios w' = recorded_scenarios w"
  by (simp add: recorded_scenarios_def fun_eq_iff)

lemma ScenarioRepository_Save_Inr:
  assumes "ScenarioRepository_Save cx (Some s) w = (Inr u, w')"
  obtains payload where "Scenario_Validate s = None" and "Marshal_scenario (toRecord s) = Inr payload"
    and "row_at xr_id (xs_ID s) (t_replay_scenarios (w_db w)) = None"
    and "w_db w' = (w_db w)\<lparr>t_replay_scenarios :=
      t_replay_scenarios (w_db w) @ [\<lparr>xr_id = xs_ID s, xr_payload = payload\<rparr>]\<rparr>"
  using assms
  by (auto simp: ScenarioRepository_Save_def insert_scenario_def elim!: bindP_InrE dest!: statement_InrD
      split: option.splits if_splits)

lemma ScenarioRepository_Save_Inl:
  assumes "ScenarioRepository_Save cx x w = (Inl e, w')"
  shows "w_db w' = w_db w"
  using assms
  by (auto simp: ScenarioRepository_Save_def insert_scenario_def elim!: bindP_InlE
      dest!: statement_InlD statement_InrD split: option.splits if_splits)

interpretation sqlite_store: scenario_contract sqlite_scenarios recorded_scenarios
proof
  fix cx x w u w'
  assume "xr_Save sqlite_scenarios cx (Some x) w = (Inr u, w')" and made: "scenario_made x"
  then have "ScenarioRepository_Save cx (Some x) w = (Inr u, w')" by simp
  then obtain payload where v: "Scenario_Validate x = None"
    and m: "Marshal_scenario (toRecord x) = Inr payload"
    and free: "row_at xr_id (xs_ID x) (t_replay_scenarios (w_db w)) = None"
    and d: "w_db w' = (w_db w)\<lparr>t_replay_scenarios :=
      t_replay_scenarios (w_db w) @ [\<lparr>xr_id = xs_ID x, xr_payload = payload\<rparr>]\<rparr>"
    by (rule ScenarioRepository_Save_Inr)
  have "decode_scenario_row \<lparr>xr_id = xs_ID x, xr_payload = payload\<rparr> = Inr x"
    using scenario_record_roundtrip [OF m] toDomain_toRecord [OF v made]
    by (simp add: decode_scenario_row_def)
  then show "Scenario_Validate x = None \<and> recorded_scenarios w (xs_ID x) = None \<and>
      recorded_scenarios w' = (recorded_scenarios w)(xs_ID x \<mapsto> x)"
    using v free d by (auto simp: recorded_scenarios_def fun_eq_iff row_at_append split: option.splits)
next
  fix cx y w e w' assume "xr_Save sqlite_scenarios cx y w = (Inl e, w')"
  then show "recorded_scenarios w' = recorded_scenarios w"
    by (intro recorded_scenarios_db) (simp add: ScenarioRepository_Save_Inl)
next
  fix cx i w r w' assume "xr_FindByID sqlite_scenarios cx i w = (Inr r, w')"
  then show "recorded_scenarios w' = recorded_scenarios w \<and> r = recorded_scenarios w i"
    by (auto simp: ScenarioRepository_FindByID_def recorded_scenarios_def elim!: bindP_InrE
        dest!: query_InrD intro!: recorded_scenarios_db split: option.splits)
qed

lemma recorded_scenarios_made:
  assumes "recorded_scenarios w i = Some x" shows "Scenario_Validate x = None \<and> scenario_made x"
  using assms toDomain_made
  by (auto simp: recorded_scenarios_def decode_scenario_row_def bindR_Inr_iff split: option.splits sum.splits)

section \<open>The in-memory repository\<close>

text \<open>\<open>Save\<close> copies the scenario, so a stored one never changes.\<close>

record scenario_memory = context_state +
  sy_scenarios :: "scenario list"

definition ScenarioMemory_New :: "nat option \<Rightarrow> scenario_memory" where
  "ScenarioMemory_New remaining = \<lparr>cs_remaining = remaining, sy_scenarios = []\<rparr>"

definition ScenarioMemory_Save :: "ctx \<Rightarrow> scenario option \<Rightarrow> (scenario_memory, error, unit) proc" where
  "ScenarioMemory_Save cx x =
     bindP ctx_Err (\<lambda>_.
       case x of
         None \<Rightarrow> raiseP (Replay ErrInvalidScenarioID)
       | Some s \<Rightarrow>
           (case Scenario_Validate s of
              Some e \<Rightarrow> raiseP e
            | None \<Rightarrow>
                bindP (readP (\<lambda>m. row_at xs_ID (xs_ID s) (sy_scenarios m))) (\<lambda>old.
                  if old \<noteq> None then raiseP (Replay ErrScenarioAlreadyExists)
                  else writeP (\<lambda>m. m\<lparr>sy_scenarios := sy_scenarios m @ [s]\<rparr>))))"

definition ScenarioMemory_FindByID ::
  "ctx \<Rightarrow> string \<Rightarrow> (scenario_memory, error, scenario option) proc" where
  "ScenarioMemory_FindByID cx i =
     bindP ctx_Err (\<lambda>_. readP (\<lambda>m. row_at xs_ID i (sy_scenarios m)))"

definition memory_scenarios :: "scenario_memory scenario_repository" where
  "memory_scenarios = \<lparr>xr_Save = ScenarioMemory_Save, xr_FindByID = ScenarioMemory_FindByID\<rparr>"

definition remembered_scenarios :: "scenario_memory \<Rightarrow> string \<Rightarrow> scenario option" where
  "remembered_scenarios m i = row_at xs_ID i (sy_scenarios m)"

interpretation memory_store: scenario_contract memory_scenarios remembered_scenarios
proof
  fix cx x m u m' assume "xr_Save memory_scenarios cx (Some x) m = (Inr u, m')"
  then show "Scenario_Validate x = None \<and> remembered_scenarios m (xs_ID x) = None \<and>
      remembered_scenarios m' = (remembered_scenarios m)(xs_ID x \<mapsto> x)"
    by (auto simp: memory_scenarios_def ScenarioMemory_Save_def remembered_scenarios_def fun_eq_iff
        row_at_append elim!: bindP_InrE dest!: ctx_Err_InrD split: option.splits if_splits)
next
  fix cx y m e m' assume "xr_Save memory_scenarios cx y m = (Inl e, m')"
  then show "remembered_scenarios m' = remembered_scenarios m"
    by (auto simp: memory_scenarios_def ScenarioMemory_Save_def remembered_scenarios_def fun_eq_iff
        elim!: bindP_InlE dest!: ctx_Err_InrD ctx_Err_InlD split: option.splits if_splits)
next
  fix cx i m r m' assume "xr_FindByID memory_scenarios cx i m = (Inr r, m')"
  then show "remembered_scenarios m' = remembered_scenarios m \<and> r = remembered_scenarios m i"
    by (auto simp: memory_scenarios_def ScenarioMemory_FindByID_def remembered_scenarios_def
        fun_eq_iff elim!: bindP_InrE dest!: ctx_Err_InrD)
qed

end
