(* ===== verification/Replay_Memory.thy ===== *)
theory Replay_Memory
  imports Replay_Domain Contexts Scheduler_Runtime Saga_Executor
begin

text \<open>
  The execution-scoped stores of \<open>internal/replay/application/runner.go\<close>: payments, jobs and sagas
  in memory. The repositories of payments and jobs hand out their own objects, so a payment or a
  job is an address into a heap here, an update of the object shows through the repository at
  once, and \<open>Save\<close> only enters the address in the index.
\<close>

text \<open>
  What one execution takes from its surroundings: cancellation, random bytes, and the order in
  which \<open>range\<close> visits a map, which Go leaves open. \<open>rv_iterate n\<close> is the order of the iteration
  number \<open>n\<close>.
\<close>

record replay_env = context_state +
  rv_entropy :: "string option list"
  rv_iterate :: "nat \<Rightarrow> nat list \<Rightarrow> nat list"
  rv_iterations :: nat

record replay_state = replay_env +
  ry_payments :: "payment list"
  ry_index :: "(string \<times> nat) list"
  ry_jobs :: "job list"
  ry_jobIndex :: "(string \<times> nat) list"
  ry_sagas :: "saga_instance list"
  ry_clock :: virtual_clock

type_synonym 'a replay = "(replay_state, error, 'a) proc"

definition replay_now :: "replay_state \<Rightarrow> time" where
  "replay_now s = VirtualClock_Now (ry_clock s)"

definition replay_correlation :: "string replay" where
  "replay_correlation s =
     (case rv_entropy s of
        Some value # rest \<Rightarrow> (Inr (hex_EncodeToString value), s\<lparr>rv_entropy := rest\<rparr>)
      | None # rest \<Rightarrow> (Inl (Message ''generate correlation id''), s\<lparr>rv_entropy := rest\<rparr>)
      | [] \<Rightarrow> (Inl (Message ''generate correlation id''), s))"

section \<open>Payments\<close>

definition MemoryRepository_Save :: "ctx \<Rightarrow> nat \<Rightarrow> unit replay" where
  "MemoryRepository_Save cx h =
     bindP ctx_Err (\<lambda>_.
     bindP (readP (\<lambda>s. (p_id (ry_payments s ! h), map_of (ry_index s) (p_id (ry_payments s ! h)))))
       (\<lambda>(i, current).
          if current \<noteq> None \<and> current \<noteq> Some h then raiseP (ReplayApp ErrPaymentAlreadyExists)
          else writeP (\<lambda>s. s\<lparr>ry_index := put_row fst (i, h) (ry_index s)\<rparr>)))"

definition MemoryRepository_FindByID :: "ctx \<Rightarrow> string \<Rightarrow> nat replay" where
  "MemoryRepository_FindByID cx i =
     bindP ctx_Err (\<lambda>_.
     bindP (readP (\<lambda>s. map_of (ry_index s) i)) (\<lambda>found.
       case found of
         None \<Rightarrow> raiseP (PaymentApp ErrPaymentNotFound)
       | Some h \<Rightarrow> returnP h))"

definition allocate_payment :: "payment \<Rightarrow> nat replay" where
  "allocate_payment p s = (Inr (length (ry_payments s)), s\<lparr>ry_payments := ry_payments s @ [p]\<rparr>)"

definition update_payment :: "nat \<Rightarrow> (payment \<Rightarrow> payment_error + payment) \<Rightarrow> nat replay" where
  "update_payment h f s =
     (case f (ry_payments s ! h) of
        Inl e \<Rightarrow> (Inl (Payment e), s)
      | Inr q \<Rightarrow> (Inr h, s\<lparr>ry_payments := (ry_payments s)[h := q]\<rparr>))"

definition memory_payments :: "(replay_state, nat) payment_repository" where
  "memory_payments =
     \<lparr>rp_Save = MemoryRepository_Save, rp_FindByID = MemoryRepository_FindByID,
      rp_WithinContext = None, rp_allocate = allocate_payment, rp_update = update_payment,
      rp_value = (\<lambda>h s. ry_payments s ! h)\<rparr>"

lemma memory_payments_simps [simp]:
  "rp_Save memory_payments = MemoryRepository_Save"
  "rp_FindByID memory_payments = MemoryRepository_FindByID"
  "rp_WithinContext memory_payments = None"
  "rp_allocate memory_payments = allocate_payment"
  "rp_update memory_payments = update_payment"
  "rp_value memory_payments h s = ry_payments s ! h"
  by (simp_all add: memory_payments_def)

text \<open>The identities are sorted, so the order of the iteration over the map does not show.\<close>

definition MemoryRepository_states :: "replay_state \<Rightarrow> payment_state list" where
  "MemoryRepository_states s =
     map (\<lambda>i. payment_state_of (ry_payments s ! the (map_of (ry_index s) i)))
       (sort (map fst (ry_index s)))"

section \<open>Jobs\<close>

definition JobRepository_Save :: "ctx \<Rightarrow> nat \<Rightarrow> unit replay" where
  "JobRepository_Save cx h =
     bindP ctx_Err (\<lambda>_.
       writeP (\<lambda>s. s\<lparr>ry_jobIndex := put_row fst (j_id (ry_jobs s ! h), h) (ry_jobIndex s)\<rparr>))"

text \<open>The pending jobs that are due, by time and identity.\<close>

definition due_jobs :: "time \<Rightarrow> replay_state \<Rightarrow> nat list" where
  "due_jobs at s =
     sort_key (\<lambda>h. (j_nextAttemptAt (ry_jobs s ! h), j_id (ry_jobs s ! h)))
       (filter (\<lambda>h. j_status (ry_jobs s ! h) = JobPending \<and> \<not> j_nextAttemptAt (ry_jobs s ! h) > at)
         (rv_iterate s (rv_iterations s) (map snd (ry_jobIndex s))))"

definition JobRepository_FindExecutable :: "ctx \<Rightarrow> time \<Rightarrow> int \<Rightarrow> nat option list replay" where
  "JobRepository_FindExecutable cx at limit =
     bindP ctx_Err (\<lambda>_.
     bindP (readP (due_jobs at)) (\<lambda>jobs.
     bindP (writeP (\<lambda>s. s\<lparr>rv_iterations := rv_iterations s + 1\<rparr>)) (\<lambda>_.
       returnP (map Some (if int (length jobs) > limit then take (nat limit) jobs else jobs)))))"

definition update_job :: "nat \<Rightarrow> (job \<Rightarrow> job_error + job) \<Rightarrow> nat replay" where
  "update_job h f s =
     (case f (ry_jobs s ! h) of
        Inl e \<Rightarrow> (Inl (JobErr e), s)
      | Inr j \<Rightarrow> (Inr h, s\<lparr>ry_jobs := (ry_jobs s)[h := j]\<rparr>))"

definition JobRepository_Acquire ::
  "ctx \<Rightarrow> string \<Rightarrow> string \<Rightarrow> time \<Rightarrow> time \<Rightarrow> nat option replay" where
  "JobRepository_Acquire cx i owner expiresAt now =
     bindP ctx_Err (\<lambda>_.
     bindP (readP (\<lambda>s. map_of (ry_jobIndex s) i)) (\<lambda>found.
       case found of
         None \<Rightarrow> raiseP (ReplayApp ErrAsyncOperationNotFound)
       | Some h \<Rightarrow> bindP (update_job h (Job_Lease owner expiresAt)) (\<lambda>h. returnP (Some h))))"

definition memory_jobs :: "(replay_state, nat) job_repository" where
  "memory_jobs =
     \<lparr>jb_Save = JobRepository_Save, jb_FindExecutable = JobRepository_FindExecutable,
      jb_Acquire = JobRepository_Acquire, jb_update = update_job,
      jb_value = (\<lambda>h s. ry_jobs s ! h)\<rparr>"

lemma memory_jobs_simps [simp]:
  "jb_Save memory_jobs = JobRepository_Save"
  "jb_FindExecutable memory_jobs = JobRepository_FindExecutable"
  "jb_Acquire memory_jobs = JobRepository_Acquire"
  "jb_update memory_jobs = update_job"
  "jb_value memory_jobs h s = ry_jobs s ! h"
  by (simp_all add: memory_jobs_def)

text \<open>A new job is allocated and saved.\<close>

definition save_new_job :: "ctx \<Rightarrow> job \<Rightarrow> unit replay" where
  "save_new_job cx j =
     bindP (\<lambda>s. (Inr (length (ry_jobs s)), s\<lparr>ry_jobs := ry_jobs s @ [j]\<rparr>)) (\<lambda>h.
       JobRepository_Save cx h)"

section \<open>Sagas\<close>

definition SagaStore_Save :: "ctx \<Rightarrow> saga_instance \<Rightarrow> unit replay" where
  "SagaStore_Save cx i = writeP (\<lambda>s. s\<lparr>ry_sagas := put_row si_ID i (ry_sagas s)\<rparr>)"

definition SagaStore_Find :: "ctx \<Rightarrow> string \<Rightarrow> saga_instance replay" where
  "SagaStore_Find cx i =
     bindP (readP (\<lambda>s. row_at si_ID i (ry_sagas s))) (\<lambda>found.
       case found of
         None \<Rightarrow> raiseP (ReplayApp ErrAsyncOperationNotFound)
       | Some x \<Rightarrow> returnP x)"

definition scenarioSagaPublisher_Publish :: "ctx \<Rightarrow> saga_message \<Rightarrow> unit replay" where
  "scenarioSagaPublisher_Publish cx m =
     bindP (liftP (Marshal_message m)) (\<lambda>payload.
     bindP (liftP (mapErr JobErr (NewJob (sm_ID m) ''saga.step'' payload (sm_ScheduledAt m) [])))
       (\<lambda>j. save_new_job cx j))"

end
