(* ===== verification/Replay_Runner.thy ===== *)
theory Replay_Runner
  imports Replay_Memory
begin

text \<open>
  The scenario runner of \<open>internal/replay/application/runner.go\<close>: the commands of a scenario run
  against the payment services, the saga and the scheduler of the program, on the stores of
  \<open>Replay_Memory\<close>; the replay engine (\<open>engine.go\<close>) and the scenario service
  (\<open>scenario_service.go\<close>).
\<close>

section \<open>The workflow and the scheduler of one execution\<close>

definition replay_orchestrator :: "replay_state orchestrator" where
  "replay_orchestrator =
     \<lparr>oc_store = \<lparr>gs_Save = SagaStore_Save, gs_Find = SagaStore_Find\<rparr>,
      oc_publish = scenarioSagaPublisher_Publish, oc_clock = replay_now,
      oc_newCorrelationID = replay_correlation\<rparr>"

definition replay_executor :: "provider_interface \<Rightarrow> (replay_state, nat) payment_executor" where
  "replay_executor provider =
     \<lparr>pe_payments = memory_payments, pe_publisher = None, pe_provider = provider,
      pe_clock = replay_now\<rparr>"

definition handleSaga :: "provider_interface \<Rightarrow> ctx \<Rightarrow> bytes \<Rightarrow> unit replay" where
  "handleSaga provider cx payload =
     bindP (liftP (Unmarshal_message payload)) (\<lambda>m.
       Handle replay_orchestrator cx m (PaymentExecutor_Execute (replay_executor provider)))"

definition validateProviderResult :: "error + operation_result \<Rightarrow> error + operation_result" where
  "validateProviderResult r =
     bindR r (\<lambda>result. case OperationResult_Validate result of
       Some e \<Rightarrow> Inl (Provider e) | None \<Rightarrow> Inr result)"

text \<open>The questions to the provider: its answer about a payment at the virtual time, validated.\<close>

definition commandServices_authorize ::
  "provider_interface \<Rightarrow> payment \<Rightarrow> time \<Rightarrow> error + operation_result" where
  "commandServices_authorize provider p now =
     validateProviderResult (pv_Authorize provider (snapshot_of_payment p) now)"

definition commandServices_capture ::
  "provider_interface \<Rightarrow> money \<Rightarrow> payment \<Rightarrow> time \<Rightarrow> error + operation_result" where
  "commandServices_capture provider amount p now =
     validateProviderResult (pv_Capture provider (snapshot_of_payment p) amount now)"

definition commandServices_refund ::
  "provider_interface \<Rightarrow> money \<Rightarrow> payment \<Rightarrow> time \<Rightarrow> error + operation_result" where
  "commandServices_refund provider amount p now =
     validateProviderResult (pv_Refund provider (snapshot_of_payment p) amount now)"

definition commandServices_cancel ::
  "provider_interface \<Rightarrow> payment \<Rightarrow> time \<Rightarrow> error + operation_result" where
  "commandServices_cancel provider p now =
     validateProviderResult (pv_Cancel provider (snapshot_of_payment p) now)"

text \<open>Payloads are values, so the copies that the code makes of them are the payloads.\<close>

fun appendAsyncOperations :: "async_operation list \<Rightarrow> async_operation list \<Rightarrow> async_operation list" where
  "appendAsyncOperations operations [] = operations"
| "appendAsyncOperations operations (operation # additional) =
     appendAsyncOperations (operations @ [operation]) additional"

text \<open>A service of the payments, whose result the runner drops.\<close>

definition run_service :: "ctx \<Rightarrow> request \<Rightarrow> unit replay" where
  "run_service cx r = bindP (service memory_payments None cx r) (\<lambda>_. returnP ())"

definition save_operation :: "ctx \<Rightarrow> async_operation \<Rightarrow> unit replay" where
  "save_operation cx operation =
     bindP (liftP (Marshal_async operation)) (\<lambda>payload.
     bindP (liftP (mapErr JobErr
              (NewJob (ao_ID operation) ''provider.async'' payload (ao_ScheduledAt operation) [])))
       (\<lambda>j. save_new_job cx j))"

text \<open>\<open>apply\<close>: what the outcome of the provider makes of a command.\<close>

definition apply_outcome ::
  "ctx \<Rightarrow> replay_command \<Rightarrow> operation_result \<Rightarrow> unit replay \<Rightarrow> async_operation list replay" where
  "apply_outcome cx c result transition =
     bindP
       (case or_Outcome result of
          OutcomeSucceeded \<Rightarrow> transition
        | OutcomeFailed \<Rightarrow>
            if co_Type c = CommandAuthorize then run_service cx (RequestFail (co_PaymentID c))
            else raiseP (ReplayApp ErrProviderOperationFailed)
        | OutcomePending \<Rightarrow> eachP (save_operation cx) (or_AsyncOperations result)
        | UnknownOutcome t \<Rightarrow> returnP ())
       (\<lambda>_. returnP (appendAsyncOperations [] (or_AsyncOperations result)))"

definition amount_of_command :: "string \<Rightarrow> money \<Rightarrow> amount_command" where
  "amount_of_command i m =
     \<lparr>ac_PaymentID = i, ac_Amount = money_amount m, ac_Currency = money_currency m\<rparr>"

definition transition :: "ctx \<Rightarrow> replay_command \<Rightarrow> string \<Rightarrow> unit replay" where
  "transition cx c i =
     (case co_Type c of
        CommandAuthorize \<Rightarrow> run_service cx (RequestAuthorize i)
      | CommandCapture \<Rightarrow> run_service cx (RequestCapture (amount_of_command i (co_Amount c)))
      | CommandRefund \<Rightarrow> run_service cx (RequestRefund (amount_of_command i (co_Amount c)))
      | CommandCancel \<Rightarrow> run_service cx (RequestCancel i)
      | _ \<Rightarrow> raiseP (Replay ErrInvalidCommand))"

definition handleAsync :: "provider_interface \<Rightarrow> ctx \<Rightarrow> bytes \<Rightarrow> unit replay" where
  "handleAsync provider cx payload =
     bindP (liftP (Unmarshal_async payload)) (\<lambda>operation.
       case pv_ExecuteAsync provider of
         None \<Rightarrow> raiseP (ReplayApp ErrAsyncOperationNotFound)
       | Some executeAsync \<Rightarrow>
           bindP (MemoryRepository_FindByID cx (ao_PaymentID operation)) (\<lambda>h.
           bindP (readP (\<lambda>s. p_id (ry_payments s ! h))) (\<lambda>i.
           bindP (liftP (validateProviderResult (executeAsync operation))) (\<lambda>result.
             let c = \<lparr>co_Type = command_type_of (ao_Type operation),
                      co_PaymentID = ao_PaymentID operation, co_Amount = zero_money,
                      co_Duration = 0, co_OperationID = []\<rparr> in
             bindP (apply_outcome cx c result (transition cx c i)) (\<lambda>_. returnP ())))))"

definition replay_worker :: "provider_interface \<Rightarrow> (replay_state, nat) worker" where
  "replay_worker provider =
     \<lparr>wk_repository = memory_jobs,
      wk_handlers = [(''provider.async'', handleAsync provider), (''saga.step'', handleSaga provider)],
      wk_retryPolicy = None, wk_clock = None\<rparr>"

definition replay_scheduler :: "provider_interface \<Rightarrow> (replay_state, nat) scheduler" where
  "replay_scheduler provider =
     \<lparr>sc_repository = memory_jobs, sc_dispatch = Worker_Execute (replay_worker provider),
      sc_businessClock = replay_now, sc_operationalClock = replay_now, sc_owner = ''replay'',
      sc_batchSize = 100, sc_leaseDuration = time_Minute\<rparr>"

lemma replay_composed:
  "NewOrchestrator (Some (oc_store replay_orchestrator)) (Some scenarioSagaPublisher_Publish)
     (Some replay_now) replay_correlation = Inr replay_orchestrator"
  "NewPaymentExecutor (Some memory_payments) (Some provider) (Some replay_now) =
     Inr (replay_executor provider)"
  "NewWorker (Some memory_jobs) [(''provider.async'', Some (handleAsync provider)),
     (''saga.step'', Some (handleSaga provider))] = Inr (replay_worker provider)"
  "NewScheduler (Some memory_jobs) (Some (Worker_Execute (replay_worker provider))) (Some replay_now)
     (Some replay_now) \<lparr>cf_Owner = ''replay'', cf_BatchSize = 100, cf_LeaseDuration = time_Minute\<rparr> =
     Inr (replay_scheduler provider)"
  by (simp_all add: NewOrchestrator_def replay_orchestrator_def NewPaymentExecutor_def
      NewPaymentExecutorWithPublisher_def replay_executor_def NewWorker_def replay_worker_def
      NewScheduler_def replay_scheduler_def time_Minute_def)

lemma replay_parts [simp]:
  "oc_store replay_orchestrator = \<lparr>gs_Save = SagaStore_Save, gs_Find = SagaStore_Find\<rparr>"
  "oc_publish replay_orchestrator = scenarioSagaPublisher_Publish"
  "oc_clock replay_orchestrator = replay_now"
  "oc_newCorrelationID replay_orchestrator = replay_correlation"
  "pe_payments (replay_executor provider) = memory_payments"
  "pe_publisher (replay_executor provider) = None"
  "pe_provider (replay_executor provider) = provider"
  "pe_clock (replay_executor provider) = replay_now"
  "wk_repository (replay_worker provider) = memory_jobs"
  "wk_handlers (replay_worker provider) =
     [(''provider.async'', handleAsync provider), (''saga.step'', handleSaga provider)]"
  "wk_retryPolicy (replay_worker provider) = None"
  "sc_repository (replay_scheduler provider) = memory_jobs"
  "sc_dispatch (replay_scheduler provider) = Worker_Execute (replay_worker provider)"
  "sc_businessClock (replay_scheduler provider) = replay_now"
  "sc_operationalClock (replay_scheduler provider) = replay_now"
  "sc_owner (replay_scheduler provider) = ''replay''"
  "sc_batchSize (replay_scheduler provider) = 100"
  "sc_leaseDuration (replay_scheduler provider) = time_Minute"
  by (simp_all add: replay_orchestrator_def replay_executor_def replay_worker_def replay_scheduler_def)

text \<open>The worker of a replay has no retry policy: an attempt is started, or its type is unknown.\<close>

lemma replay_attempt:
  "Worker_Execute (replay_worker provider) cx (Some h) =
     bindP (readP (\<lambda>s. ry_jobs s ! h)) (\<lambda>j.
       case map_of (wk_handlers (replay_worker provider)) (j_jobType j) of
         None \<Rightarrow> raiseP (Scheduler ErrUnknownJobType)
       | Some handler \<Rightarrow>
           bindP (update_job h Job_Start) (\<lambda>h.
           bindP (JobRepository_Save cx h) (\<lambda>_.
           bindP (readP (\<lambda>s. ry_jobs s ! h)) (\<lambda>j.
           bindP (attemptP (handler (WithExecutionMetadata (j_id j) (j_attempts j) cx) (j_payload j)))
             (\<lambda>r. case r of
                Inl err \<Rightarrow> persistFailure (replay_worker provider) cx h err
              | Inr _ \<Rightarrow> bindP (update_job h Job_Complete) (\<lambda>h. JobRepository_Save cx h))))))"
proof -
  have v: "jb_value memory_jobs = (\<lambda>h s. ry_jobs s ! h)" by (simp add: memory_jobs_def)
  have l: "bindP (liftP (Inr x)) f = f x" for x f by (simp add: fun_eq_iff bindP_def)
  show ?thesis
    unfolding Worker_Execute_def replay_parts retries_used_up_def option.case mapErr.simps l if_False
      memory_jobs_simps(1,4) v ..
qed

section \<open>Commands\<close>

text \<open>A command that asks the provider, with the call and the service that it leads to.\<close>

definition provider_command ::
  "ctx \<Rightarrow> replay_command \<Rightarrow> (payment \<Rightarrow> time \<Rightarrow> error + operation_result) \<Rightarrow> request \<Rightarrow>
     async_operation list replay" where
  "provider_command cx c ask r =
     bindP (MemoryRepository_FindByID cx (co_PaymentID c)) (\<lambda>h.
     bindP (readP (\<lambda>s. ask (ry_payments s ! h) (replay_now s))) (\<lambda>answer.
     bindP (liftP answer) (\<lambda>result.
       apply_outcome cx c result (run_service cx r))))"

definition start_saga :: "provider_interface \<Rightarrow> ctx \<Rightarrow> replay_command \<Rightarrow> async_operation list replay" where
  "start_saga provider cx c =
     bindP (StartWithPayload replay_orchestrator cx (''saga:'' @ co_PaymentID c) (co_PaymentID c)
              (JsonText (JObj [(''amount'', JNum (sint (money_amount (co_Amount c)))),
                               (''currency'', JStr (money_currency (co_Amount c)))])) 0) (\<lambda>_.
     bindP (Scheduler_Tick (replay_scheduler provider) cx) (\<lambda>_.
     bindP (Scheduler_Tick (replay_scheduler provider) cx) (\<lambda>_. returnP [])))"

definition advance_time :: "replay_command \<Rightarrow> async_operation list replay" where
  "advance_time c s =
     (case VirtualClock_Advance (co_Duration c) (ry_clock s) of
        Inl e \<Rightarrow> (Inl (Clock e), s)
      | Inr clock \<Rightarrow> (Inr [], s\<lparr>ry_clock := clock\<rparr>))"

definition execute_async :: "provider_interface \<Rightarrow> ctx \<Rightarrow> replay_command \<Rightarrow> async_operation list replay" where
  "execute_async provider cx c =
     bindP (readP (\<lambda>s. map_of (ry_jobIndex s) (co_OperationID c))) (\<lambda>found.
       case found of
         None \<Rightarrow> raiseP (ReplayApp ErrAsyncOperationNotFound)
       | Some h \<Rightarrow>
           bindP (readP (\<lambda>s. (ry_jobs s ! h, replay_now s))) (\<lambda>(j, now).
             if j_status j = JobPending \<and> j_nextAttemptAt j > now
               then raiseP (ReplayApp ErrAsyncOperationNotDue)
             else
               bindP (JobRepository_Acquire cx (j_id j) ''replay-direct'' (time_Add now time_Minute) now)
                 (\<lambda>acquired.
               bindP (Worker_Execute (replay_worker provider) cx acquired) (\<lambda>_.
               bindP (readP (\<lambda>s. map_option (\<lambda>h. j_status (ry_jobs s ! h)) acquired)) (\<lambda>status.
                 if status \<noteq> Some JobCompleted then raiseP (ReplayApp ErrAsyncOperationNotDue)
                 else returnP [])))))"

definition execute :: "provider_interface \<Rightarrow> ctx \<Rightarrow> replay_command \<Rightarrow> async_operation list replay" where
  "execute provider cx c =
     (let i = co_PaymentID c; m = co_Amount c in
      case co_Type c of
        CommandCreatePayment \<Rightarrow>
          bindP (CreatePayment_Execute memory_payments None cx
                   \<lparr>cc_ID = i, cc_Amount = money_amount m, cc_Currency = money_currency m\<rparr>)
            (\<lambda>_. returnP [])
      | CommandStartSaga \<Rightarrow> start_saga provider cx c
      | CommandAuthorize \<Rightarrow> provider_command cx c (commandServices_authorize provider) (RequestAuthorize i)
      | CommandCapture \<Rightarrow>
          provider_command cx c (commandServices_capture provider m)
            (RequestCapture (amount_of_command i m))
      | CommandRefund \<Rightarrow>
          provider_command cx c (commandServices_refund provider m)
            (RequestRefund (amount_of_command i m))
      | CommandCancel \<Rightarrow> provider_command cx c (commandServices_cancel provider) (RequestCancel i)
      | CommandAdvanceTime \<Rightarrow> advance_time c
      | CommandExecuteAsync \<Rightarrow> execute_async provider cx c
      | UnknownCommand t \<Rightarrow> raiseP (Replay ErrInvalidCommand))"

section \<open>The runner\<close>

text \<open>
  A provider of the registry, and its \<open>ConfigurableProvider\<close> capability, which a type assertion may
  find absent.
\<close>

record provider_entry =
  pn_interface :: provider_interface
  pn_Configure :: "(string \<Rightarrow> uint64 \<Rightarrow> error + provider_interface) option"

definition deterministic_entry :: "deterministic_provider \<Rightarrow> provider_entry" where
  "deterministic_entry p =
     \<lparr>pn_interface = deterministic_interface p,
      pn_Configure = Some (\<lambda>profile seed.
        Inr (deterministic_interface (Deterministic_Configure profile seed p)))\<rparr>"

definition configured_provider ::
  "provider_entry registry \<Rightarrow> scenario \<Rightarrow> error + provider_interface" where
  "configured_provider providers x =
     bindR (mapErr Provider (Registry_Resolve (pc_ID (xs_Provider x)) providers)) (\<lambda>entry.
       case pn_Configure entry of
         None \<Rightarrow> Inr (pn_interface entry)
       | Some configure \<Rightarrow> configure (pc_Profile (xs_Provider x)) (xs_Seed x))"

record replay_result =
  rr_ScenarioID :: string
  rr_Provider :: provider_configuration
  rr_Seed :: uint64
  rr_CurrentVirtualTime :: time
  rr_Payments :: "payment_state list"
  rr_AsyncOperations :: "async_operation list"

text \<open>The restored payments enter the index without \<open>Save\<close>.\<close>

fun restore_payments :: "payment_state list \<Rightarrow> unit replay" where
  "restore_payments [] = returnP ()"
| "restore_payments (p # ps) =
     bindP (liftP (mapErr Payment (Payment_Restore p))) (\<lambda>payment.
     bindP (allocate_payment payment) (\<lambda>h.
     bindP (writeP (\<lambda>s. s\<lparr>ry_index := put_row fst (p_id payment, h) (ry_index s)\<rparr>)) (\<lambda>_.
       restore_payments ps)))"

fun run_commands ::
  "provider_interface \<Rightarrow> ctx \<Rightarrow> replay_command list \<Rightarrow> async_operation list replay" where
  "run_commands provider cx [] = returnP []"
| "run_commands provider cx (c # cs) =
     bindP ctx_Err (\<lambda>_.
     bindP (execute provider cx c) (\<lambda>operations.
     bindP (run_commands provider cx cs) (\<lambda>later. returnP (operations @ later))))"

definition run_execution :: "provider_interface \<Rightarrow> ctx \<Rightarrow> scenario \<Rightarrow> replay_result replay" where
  "run_execution provider cx x =
     bindP (restore_payments (xs_InitialPayments x)) (\<lambda>_.
     bindP (run_commands provider cx (xs_Commands x)) (\<lambda>operations.
     readP (\<lambda>s. \<lparr>rr_ScenarioID = xs_ID x, rr_Provider = xs_Provider x, rr_Seed = xs_Seed x,
                rr_CurrentVirtualTime = replay_now s, rr_Payments = MemoryRepository_states s,
                rr_AsyncOperations = operations\<rparr>)))"

definition new_execution :: "virtual_clock \<Rightarrow> replay_env \<Rightarrow> replay_state" where
  "new_execution clock env =
     replay_env.extend env
       \<lparr>ry_payments = [], ry_index = [], ry_jobs = [], ry_jobIndex = [], ry_sagas = [],
        ry_clock = clock\<rparr>"

definition Runner_Run ::
  "provider_entry registry option \<Rightarrow> ctx \<Rightarrow> scenario \<Rightarrow> (replay_env, error, replay_result) proc" where
  "Runner_Run providers cx x =
     bindP (liftP (case Scenario_Validate x of Some e \<Rightarrow> Inl e | None \<Rightarrow> Inr ())) (\<lambda>_.
     bindP ctx_Err (\<lambda>_.
       case providers of
         None \<Rightarrow> raiseP (ReplayApp ErrNilProviderRegistry)
       | Some registry \<Rightarrow>
           bindP (liftP (configured_provider registry x)) (\<lambda>provider.
           bindP (liftP (mapErr Clock (NewVirtualClock (xs_InitialVirtualTime x)))) (\<lambda>clock.
             \<lambda>env. case run_execution provider cx x (new_execution clock env) of
               (r, s) \<Rightarrow> (r, replay_env.truncate s)))))"

section \<open>The engine and the scenario service\<close>

type_synonym 's scenario_runner = "ctx \<Rightarrow> scenario \<Rightarrow> ('s, error, replay_result) proc"

definition NewReplayEngine :: "'s scenario_runner option \<Rightarrow> replay_app_error + 's scenario_runner" where
  "NewReplayEngine runner = (case runner of None \<Rightarrow> Inl ErrNilScenarioRunner | Some r \<Rightarrow> Inr r)"

definition ReplayEngine_Replay ::
  "('a context_state_scheme) scenario_runner \<Rightarrow> ('a context_state_scheme) scenario_runner" where
  "ReplayEngine_Replay runner cx x =
     bindP (liftP (case Scenario_Validate x of Some e \<Rightarrow> Inl e | None \<Rightarrow> Inr ())) (\<lambda>_.
     bindP ctx_Err (\<lambda>_. runner cx x))"

end
