(* ===== verification/Replay_Determinism.thy ===== *)
theory Replay_Determinism
  imports Replay_Runner "HOL-Library.Multiset"
begin

text \<open>
  Replay is deterministic: the result of a scenario depends on the scenario and the providers
  alone. Two executions may draw different correlation identifiers, visit their maps in different
  orders and run under different request contexts. They are followed side by side here: a relation
  between their states is kept by every step, and it makes every answer the same.
\<close>

named_theorems agrees_intros \<open>steps of two executions side by side\<close>

section \<open>What may differ\<close>

definition permuting :: "(nat \<Rightarrow> nat list \<Rightarrow> nat list) \<Rightarrow> bool" where
  "permuting f \<longleftrightarrow> (\<forall>n xs. mset (f n xs) = mset xs)"

definition both_empty :: "string \<Rightarrow> string \<Rightarrow> bool" where
  "both_empty a b \<longleftrightarrow> (a = [] \<longleftrightarrow> b = [])"

definition message_sim :: "saga_message \<Rightarrow> saga_message \<Rightarrow> bool" where
  "message_sim m n \<longleftrightarrow>
     n = m\<lparr>sm_CorrelationID := sm_CorrelationID n\<rparr> \<and>
     both_empty (sm_CorrelationID m) (sm_CorrelationID n)"

text \<open>Payloads that the two handlers of an execution cannot tell apart.\<close>

definition payload_sim :: "bytes \<Rightarrow> bytes \<Rightarrow> bool" where
  "payload_sim p q \<longleftrightarrow>
     rel_sum (=) message_sim (Unmarshal_message p) (Unmarshal_message q) \<and>
     Unmarshal_async p = Unmarshal_async q"

definition job_sim :: "job \<Rightarrow> job \<Rightarrow> bool" where
  "job_sim j k \<longleftrightarrow> k = j\<lparr>j_payload := j_payload k\<rparr> \<and> payload_sim (j_payload j) (j_payload k)"

definition ctx_sim :: "ctx \<Rightarrow> ctx \<Rightarrow> bool" where
  "ctx_sim a b \<longleftrightarrow>
     both_empty (md_CorrelationID (cx_metadata a)) (md_CorrelationID (cx_metadata b)) \<and>
     md_CausationID (cx_metadata a) = md_CausationID (cx_metadata b)"

definition env_sim :: "('a replay_env_scheme) \<Rightarrow> ('b replay_env_scheme) \<Rightarrow> bool" where
  "env_sim s t \<longleftrightarrow>
     cs_remaining s = cs_remaining t \<and>
     list_all2 (rel_option both_empty) (rv_entropy s) (rv_entropy t) \<and>
     permuting (rv_iterate s) \<and> permuting (rv_iterate t)"

definition jobs_sound :: "replay_state \<Rightarrow> bool" where
  "jobs_sound s \<longleftrightarrow>
     distinct (map fst (ry_jobIndex s)) \<and>
     (\<forall>e \<in> set (ry_jobIndex s).
        snd e < length (ry_jobs s) \<and> j_id (ry_jobs s ! snd e) = fst e)"

lemma jobs_soundD:
  "jobs_sound s \<Longrightarrow> (i, h) \<in> set (ry_jobIndex s) \<Longrightarrow> h < length (ry_jobs s) \<and> j_id (ry_jobs s ! h) = i"
  by (auto simp: jobs_sound_def)

text \<open>\<open>H\<close> are addresses of jobs that the code at hand holds.\<close>

definition sim :: "nat set \<Rightarrow> replay_state \<Rightarrow> replay_state \<Rightarrow> bool" where
  "sim H s t \<longleftrightarrow>
     env_sim s t \<and> ry_payments s = ry_payments t \<and> ry_index s = ry_index t \<and>
     list_all2 job_sim (ry_jobs s) (ry_jobs t) \<and> ry_jobIndex s = ry_jobIndex t \<and>
     jobs_sound s \<and> (\<forall>h \<in> H. h < length (ry_jobs s)) \<and>
     ry_sagas s = ry_sagas t \<and> ry_clock s = ry_clock t"

lemma both_empty_refl [simp]: "both_empty a a"
  by (simp add: both_empty_def)

lemma message_sim_refl [simp]: "message_sim m m"
  by (simp add: message_sim_def)

lemma payload_sim_refl [simp]: "payload_sim p p"
  by (cases "Unmarshal_message p") (simp_all add: payload_sim_def)

lemma job_sim_refl [simp]: "job_sim j j"
  by (simp add: job_sim_def)

lemma nth_beyond: "length xs = length ys \<Longrightarrow> length xs \<le> n \<Longrightarrow> xs ! n = ys ! n"
  by (induction xs ys arbitrary: n rule: list_induct2) (auto simp: nth_Cons split: nat.splits)

lemma list_all2_nth_refl:
  assumes "list_all2 P xs ys" and "\<And>x. P x x"
  shows "P (xs ! n) (ys ! n)"
proof (cases "n < length xs")
  case True
  with assms(1) show ?thesis by (rule list_all2_nthD)
next
  case False
  with list_all2_lengthD [OF assms(1)] have "xs ! n = ys ! n" by (intro nth_beyond) simp_all
  with assms(2) show ?thesis by simp
qed

lemma sim_job: "sim H s t \<Longrightarrow> job_sim (ry_jobs s ! h) (ry_jobs t ! h)"
  by (rule list_all2_nth_refl) (simp_all add: sim_def)

lemma job_simD:
  assumes "job_sim j k"
  shows "j_id k = j_id j" and "j_jobType k = j_jobType j" and "j_status k = j_status j"
    and "j_nextAttemptAt k = j_nextAttemptAt j" and "j_attempts k = j_attempts j"
    and "payload_sim (j_payload j) (j_payload k)"
proof -
  from assms have k: "k = j\<lparr>j_payload := j_payload k\<rparr>" and p: "payload_sim (j_payload j) (j_payload k)"
    by (simp_all add: job_sim_def)
  show "payload_sim (j_payload j) (j_payload k)" by (rule p)
  show "j_id k = j_id j" "j_jobType k = j_jobType j" "j_status k = j_status j"
    "j_nextAttemptAt k = j_nextAttemptAt j" "j_attempts k = j_attempts j"
    by (subst k, simp)+
qed

lemma sim_mono: "sim H s t \<Longrightarrow> G \<subseteq> H \<Longrightarrow> sim G s t"
  by (auto simp: sim_def)

section \<open>Two procedures side by side\<close>

definition agrees ::
  "nat set \<Rightarrow> 'a replay \<Rightarrow> 'b replay \<Rightarrow> ('a \<Rightarrow> 'b \<Rightarrow> bool) \<Rightarrow> bool" where
  "agrees H m n A \<longleftrightarrow>
     (\<forall>s t. sim H s t \<longrightarrow>
        rel_sum (=) A (fst (m s)) (fst (n t)) \<and> sim H (snd (m s)) (snd (n t)))"

lemma agreesI:
  assumes "\<And>s t. sim H s t \<Longrightarrow>
      rel_sum (=) A (fst (m s)) (fst (n t)) \<and> sim H (snd (m s)) (snd (n t))"
  shows "agrees H m n A"
  using assms by (simp add: agrees_def)

lemma agreesD:
  "agrees H m n A \<Longrightarrow> sim H s t \<Longrightarrow>
     rel_sum (=) A (fst (m s)) (fst (n t)) \<and> sim H (snd (m s)) (snd (n t))"
  by (simp add: agrees_def)

lemma agrees_return [agrees_intros]: "A x y \<Longrightarrow> agrees H (returnP x) (returnP y) A"
  by (simp add: agrees_def)

lemma agrees_raise [agrees_intros]: "agrees H (raiseP e) (raiseP e) A"
  by (simp add: agrees_def)

lemma agrees_lift: "rel_sum (=) A r q \<Longrightarrow> agrees H (liftP r) (liftP q) A"
  by (simp add: agrees_def)

lemma agrees_lift_eq [agrees_intros]: "agrees H (liftP r) (liftP r) (=)"
  by (cases r) (simp_all add: agrees_def)

lemma agrees_read:
  "(\<And>s t. sim H s t \<Longrightarrow> A (f s) (g t)) \<Longrightarrow> agrees H (readP f) (readP g) A"
  by (simp add: agrees_def)

lemma agrees_bind:
  assumes "agrees H m n A" and "\<And>x y. A x y \<Longrightarrow> agrees H (f x) (g y) B"
  shows "agrees H (bindP m f) (bindP n g) B"
proof (rule agreesI)
  fix s t assume "sim H s t"
  with assms(1) have r: "rel_sum (=) A (fst (m s)) (fst (n t))" and st: "sim H (snd (m s)) (snd (n t))"
    by (auto dest: agreesD)
  obtain a s' b t' where m: "m s = (a, s')" and n: "n t = (b, t')" by (cases "m s"; cases "n t")
  show "rel_sum (=) B (fst (bindP m f s)) (fst (bindP n g t)) \<and>
      sim H (snd (bindP m f s)) (snd (bindP n g t))"
  proof (cases a)
    case (Inl e)
    with r m n obtain "b = Inl e" by (auto elim: rel_sum.cases)
    with Inl m n st show ?thesis by simp
  next
    case (Inr x)
    with r m n obtain y where "b = Inr y" and "A x y" by (auto elim: rel_sum.cases)
    with Inr m n st assms(2) show ?thesis by (auto dest: agreesD)
  qed
qed

lemma agrees_bind_eq [agrees_intros]:
  "agrees H m n (=) \<Longrightarrow> (\<And>x. agrees H (f x) (g x) B) \<Longrightarrow> agrees H (bindP m f) (bindP n g) B"
  by (rule agrees_bind [where A = "(=)"]) auto

lemma agrees_attempt:
  "agrees H m n A \<Longrightarrow> agrees H (attemptP m) (attemptP n) (rel_sum (=) A)"
  by (auto simp: agrees_def)

lemma agrees_attempt_eq [agrees_intros]:
  "agrees H m n (=) \<Longrightarrow> agrees H (attemptP m) (attemptP n) (=)"
  using agrees_attempt [of H m n "(=)"] by (simp add: sum.rel_eq)

lemma agrees_each [agrees_intros]:
  "(\<And>x. agrees H (f x) (g x) (=)) \<Longrightarrow> agrees H (eachP f xs) (eachP g xs) (=)"
  by (induction xs) (auto intro!: agrees_intros)

lemma agrees_mapP [agrees_intros]:
  "(\<And>x. agrees H (f x) (g x) (=)) \<Longrightarrow> agrees H (mapP f xs) (mapP g xs) (=)"
  by (induction xs) (auto intro!: agrees_intros)

lemma agrees_if [agrees_intros]:
  "(c \<Longrightarrow> agrees H m n A) \<Longrightarrow> (\<not> c \<Longrightarrow> agrees H m' n' A) \<Longrightarrow>
     agrees H (if c then m else m') (if c then n else n') A"
  by simp

lemma agrees_option [agrees_intros]:
  "agrees H m n A \<Longrightarrow> (\<And>x. agrees H (f x) (g x) A) \<Longrightarrow>
     agrees H (case x of None \<Rightarrow> m | Some y \<Rightarrow> f y) (case x of None \<Rightarrow> n | Some y \<Rightarrow> g y) A"
  by (cases x) auto

lemma agrees_sum [agrees_intros]:
  "(\<And>x. agrees H (f x) (g x) A) \<Longrightarrow> (\<And>x. agrees H (f' x) (g' x) A) \<Longrightarrow>
     agrees H (case x of Inl y \<Rightarrow> f y | Inr y \<Rightarrow> f' y) (case x of Inl y \<Rightarrow> g y | Inr y \<Rightarrow> g' y) A"
  by (cases x) auto

lemma agrees_prod [agrees_intros]:
  "(\<And>a b. agrees H (f a b) (g a b) A) \<Longrightarrow>
     agrees H (case x of (a, b) \<Rightarrow> f a b) (case x of (a, b) \<Rightarrow> g a b) A"
  by (cases x) auto

lemma agrees_same [agrees_intros]:
  "(\<And>s t. sim H s t \<Longrightarrow> f s = g t) \<Longrightarrow> agrees H (readP f) (readP g) (=)"
  by (intro agrees_read) auto

lemma agrees_write [agrees_intros]:
  "(\<And>s t. sim H s t \<Longrightarrow> sim H (f s) (g t)) \<Longrightarrow> agrees H (writeP f) (writeP g) (=)"
  by (simp add: agrees_def)

section \<open>Surroundings and payments\<close>

lemma agrees_ctx_Err [agrees_intros]: "agrees H ctx_Err ctx_Err (=)"
proof (rule agreesI)
  fix s t assume st: "sim H s t"
  then have "cs_remaining t = cs_remaining s" by (simp add: sim_def env_sim_def)
  with st show "rel_sum (=) (=) (fst (ctx_Err s)) (fst (ctx_Err t)) \<and>
      sim H (snd (ctx_Err s)) (snd (ctx_Err t))"
    by (auto simp: ctx_Err_def sim_def env_sim_def jobs_sound_def split: option.splits nat.splits)
qed

lemma hex_empty [simp]: "hex_EncodeToString s = [] \<longleftrightarrow> s = []"
  by (cases s) (simp_all add: hex_EncodeToString_def)

lemma agrees_correlation: "agrees H replay_correlation replay_correlation both_empty"
proof (rule agreesI)
  fix s t assume st: "sim H s t"
  then have e: "list_all2 (rel_option both_empty) (rv_entropy s) (rv_entropy t)"
    by (simp add: sim_def env_sim_def)
  from st have keep: "sim H (s\<lparr>rv_entropy := xs\<rparr>) (t\<lparr>rv_entropy := ys\<rparr>)"
    if "list_all2 (rel_option both_empty) xs ys" for xs ys
    using that by (auto simp: sim_def env_sim_def jobs_sound_def)
  from e st keep show "rel_sum (=) both_empty (fst (replay_correlation s)) (fst (replay_correlation t)) \<and>
      sim H (snd (replay_correlation s)) (snd (replay_correlation t))"
    by (auto simp: replay_correlation_def both_empty_def split: list.splits option.splits)
qed

text \<open>The parts of related states that are equal.\<close>

lemma simD:
  assumes "sim H s t"
  shows "ry_payments s = ry_payments t" and "ry_index s = ry_index t"
    and "ry_jobIndex s = ry_jobIndex t" and "ry_sagas s = ry_sagas t" and "ry_clock s = ry_clock t"
  using assms by (simp_all add: sim_def)

text \<open>Changes that both executions make alike.\<close>

lemma sim_updates:
  assumes "sim H s t"
  shows "sim H (s\<lparr>ry_payments := ps\<rparr>) (t\<lparr>ry_payments := ps\<rparr>)"
    and "sim H (s\<lparr>ry_index := ix\<rparr>) (t\<lparr>ry_index := ix\<rparr>)"
    and "sim H (s\<lparr>ry_sagas := gs\<rparr>) (t\<lparr>ry_sagas := gs\<rparr>)"
    and "sim H (s\<lparr>ry_clock := c\<rparr>) (t\<lparr>ry_clock := c\<rparr>)"
    and "sim H (s\<lparr>rv_iterations := a\<rparr>) (t\<lparr>rv_iterations := b\<rparr>)"
  using assms by (auto simp: sim_def env_sim_def jobs_sound_def)

lemma agrees_MemorySave [agrees_intros]:
  "agrees H (MemoryRepository_Save cx h) (MemoryRepository_Save cx' h) (=)"
  unfolding MemoryRepository_Save_def
  by (intro agrees_intros) (auto simp: simD intro: sim_updates)

lemma agrees_MemoryFind [agrees_intros]:
  "agrees H (MemoryRepository_FindByID cx i) (MemoryRepository_FindByID cx' i) (=)"
  unfolding MemoryRepository_FindByID_def
  by (intro agrees_intros) (auto simp: simD)

lemma agrees_allocate [agrees_intros]: "agrees H (allocate_payment p) (allocate_payment p) (=)"
  by (rule agreesI) (simp add: allocate_payment_def simD sim_updates)

lemma agrees_update_payment [agrees_intros]: "agrees H (update_payment h f) (update_payment h f) (=)"
  by (rule agreesI) (auto simp: update_payment_def simD sim_updates split: sum.splits)

lemma agrees_save_and_publish [agrees_intros]:
  "agrees H (save_and_publish memory_payments None e cx h) (save_and_publish memory_payments None e cx' h) (=)"
  unfolding save_and_publish_def by (auto intro!: agrees_intros)

lemma agrees_service [agrees_intros]:
  "agrees H (service memory_payments None cx r) (service memory_payments None cx' r) (=)"
  by (auto simp: service_body withinRepositoryTransaction_def request_body_def intro!: agrees_intros
      simp del: service.simps)

lemma agrees_create [agrees_intros]:
  "agrees H (CreatePayment_Execute memory_payments None cx c) (CreatePayment_Execute memory_payments None cx' c) (=)"
  by (auto simp: CreatePayment_Execute_def CreatePayment_execute_def intro!: agrees_intros)

section \<open>Jobs\<close>

lemma agrees_update_job:
  assumes "\<And>j k. job_sim j k \<Longrightarrow> rel_sum (=) job_sim (f j) (f k)"
    and "\<And>j k. f j = Inr k \<Longrightarrow> j_id k = j_id j"
  shows "agrees H (update_job h f) (update_job h f) (\<lambda>a b. a = h \<and> b = h)"
proof (rule agreesI)
  fix s t assume st: "sim H s t"
  from assms(1) [OF sim_job [OF st]]
  have r: "rel_sum (=) job_sim (f (ry_jobs s ! h)) (f (ry_jobs t ! h))" .
  show "rel_sum (=) (\<lambda>a b. a = h \<and> b = h) (fst (update_job h f s)) (fst (update_job h f t)) \<and>
      sim H (snd (update_job h f s)) (snd (update_job h f t))"
  proof (cases "f (ry_jobs s ! h)")
    case (Inl e)
    with r st show ?thesis by (auto simp: update_job_def elim: rel_sum.cases)
  next
    case (Inr j)
    with r obtain k where k: "f (ry_jobs t ! h) = Inr k" and jk: "job_sim j k"
      by (auto elim: rel_sum.cases)
    have "j_id j = j_id (ry_jobs s ! h)" by (rule assms(2) [OF Inr])
    then have "j_id ((ry_jobs s)[h := j] ! n) = j_id (ry_jobs s ! n)" for n
      by (cases "h < length (ry_jobs s)"; cases "n = h") (simp_all add: list_update_beyond)
    then have "jobs_sound (s\<lparr>ry_jobs := (ry_jobs s)[h := j]\<rparr>)"
      using st by (auto simp: sim_def jobs_sound_def)
    moreover have "list_all2 job_sim ((ry_jobs s)[h := j]) ((ry_jobs t)[h := k])"
      using st jk by (auto simp: sim_def intro: list_all2_update_cong)
    ultimately have "sim H (s\<lparr>ry_jobs := (ry_jobs s)[h := j]\<rparr>) (t\<lparr>ry_jobs := (ry_jobs t)[h := k]\<rparr>)"
      using st by (simp add: sim_def env_sim_def)
    with Inr k show ?thesis by (simp add: update_job_def)
  qed
qed

lemma job_op_sim:
  assumes "job_sim j k"
  shows "rel_sum (=) job_sim (Job_Lease owner at j) (Job_Lease owner at k)"
    and "rel_sum (=) job_sim (Job_Start j) (Job_Start k)"
    and "rel_sum (=) job_sim (Job_Complete j) (Job_Complete k)"
    and "rel_sum (=) job_sim (Job_Fail j) (Job_Fail k)"
proof -
  have p: "payload_sim (j_payload j) (j_payload k)" by (rule job_simD(6) [OF assms])
  from assms have k: "k = j\<lparr>j_payload := j_payload k\<rparr>" by (simp add: job_sim_def)
  show "rel_sum (=) job_sim (Job_Lease owner at j) (Job_Lease owner at k)"
    "rel_sum (=) job_sim (Job_Start j) (Job_Start k)"
    "rel_sum (=) job_sim (Job_Complete j) (Job_Complete k)"
    "rel_sum (=) job_sim (Job_Fail j) (Job_Fail k)"
    by (subst k; use p in \<open>simp add: job_op_defs job_sim_def\<close>)+
qed

lemma job_op_id:
  "Job_Lease owner at j = Inr k \<Longrightarrow> j_id k = j_id j" "Job_Start j = Inr k \<Longrightarrow> j_id k = j_id j"
  "Job_Complete j = Inr k \<Longrightarrow> j_id k = j_id j" "Job_Fail j = Inr k \<Longrightarrow> j_id k = j_id j"
  by (auto simp: job_op_defs split: if_splits)

lemma agrees_job_ops:
  "agrees H (update_job h (Job_Lease w e)) (update_job h (Job_Lease w e)) (\<lambda>a b. a = h \<and> b = h)"
  "agrees H (update_job h Job_Start) (update_job h Job_Start) (\<lambda>a b. a = h \<and> b = h)"
  "agrees H (update_job h Job_Complete) (update_job h Job_Complete) (\<lambda>a b. a = h \<and> b = h)"
  "agrees H (update_job h Job_Fail) (update_job h Job_Fail) (\<lambda>a b. a = h \<and> b = h)"
  by (rule agrees_update_job; rule job_op_sim job_op_id; assumption)+

lemma agrees_JobSave [agrees_intros]:
  assumes "h \<in> H"
  shows "agrees H (JobRepository_Save cx h) (JobRepository_Save cx' h) (=)"
  unfolding JobRepository_Save_def
proof (intro agrees_intros)
  fix s t assume st: "sim H s t"
  with assms have h: "h < length (ry_jobs s)" by (simp add: sim_def)
  have i: "j_id (ry_jobs t ! h) = j_id (ry_jobs s ! h)" by (rule job_simD(1) [OF sim_job [OF st]])
  let ?ix = "put_row fst (j_id (ry_jobs s ! h), h) (ry_jobIndex s)"
  have "\<forall>e \<in> set ?ix. snd e < length (ry_jobs s) \<and> j_id (ry_jobs s ! snd e) = fst e"
  proof
    fix e assume "e \<in> set ?ix"
    then have "e = (j_id (ry_jobs s ! h), h) \<or> e \<in> set (ry_jobIndex s)"
      using set_put_row_subset by fast
    then show "snd e < length (ry_jobs s) \<and> j_id (ry_jobs s ! snd e) = fst e"
      using st h by (auto simp: sim_def jobs_sound_def)
  qed
  with st have "jobs_sound (s\<lparr>ry_jobIndex := ?ix\<rparr>)"
    by (auto simp: sim_def jobs_sound_def)
  with st i show "sim H (s\<lparr>ry_jobIndex := ?ix\<rparr>)
      (t\<lparr>ry_jobIndex := put_row fst (j_id (ry_jobs t ! h), h) (ry_jobIndex t)\<rparr>)"
    by (simp add: sim_def env_sim_def)
qed

lemma agrees_save_new_job:
  assumes "job_sim j k"
  shows "agrees H (save_new_job cx j) (save_new_job cx' k) (=)"
proof (rule agreesI)
  fix s t assume st: "sim H s t"
  let ?s = "s\<lparr>ry_jobs := ry_jobs s @ [j]\<rparr>" and ?t = "t\<lparr>ry_jobs := ry_jobs t @ [k]\<rparr>"
  let ?h = "length (ry_jobs s)"
  have l: "length (ry_jobs t) = ?h" using st by (auto simp: sim_def dest: list_all2_lengthD)
  have "jobs_sound s" using st by (simp add: sim_def)
  then have "jobs_sound ?s" by (fastforce simp: jobs_sound_def nth_append)
  then have "sim (insert ?h H) ?s ?t"
    using st assms by (auto simp: sim_def env_sim_def list_all2_appendI)
  from agreesD [OF agrees_JobSave [of ?h "insert ?h H" cx cx'] this] l
  show "rel_sum (=) (=) (fst (save_new_job cx j s)) (fst (save_new_job cx' k t)) \<and>
      sim H (snd (save_new_job cx j s)) (snd (save_new_job cx' k t))"
    by (auto simp: save_new_job_def intro: sim_mono)
qed

lemma agrees_insertD:
  assumes "agrees (insert h H) m n A" and "sim (insert h H) s t"
  shows "rel_sum (=) A (fst (m s)) (fst (n t)) \<and> sim H (snd (m s)) (snd (n t))"
  using agreesD [OF assms] by (auto intro: sim_mono)

lemma acquire_side_by_side:
  assumes st: "sim H s t"
  shows "rel_sum (=)
      (\<lambda>a b. a = b \<and> (\<exists>h. a = Some h \<and> sim (insert h H) (snd (JobRepository_Acquire cx i w e n s))
                                        (snd (JobRepository_Acquire cx' i w e n t))))
      (fst (JobRepository_Acquire cx i w e n s)) (fst (JobRepository_Acquire cx' i w e n t)) \<and>
    sim H (snd (JobRepository_Acquire cx i w e n s)) (snd (JobRepository_Acquire cx' i w e n t))"
proof -
  obtain r s1 q t1 where c: "ctx_Err s = (r, s1)" "ctx_Err t = (q, t1)"
    by (cases "ctx_Err s"; cases "ctx_Err t")
  from agreesD [OF agrees_ctx_Err st] c have rq: "r = q" and st1: "sim H s1 t1"
    by (auto simp: sum.rel_eq)
  show ?thesis
  proof (cases "(\<exists>x. r = Inl x) \<or> map_of (ry_jobIndex s1) i = None")
    case True
    with c rq st1 show ?thesis
      by (auto simp: JobRepository_Acquire_def bindP_apply simD split: sum.splits)
  next
    case False
    then obtain h where ok: "r = Inr ()" and h: "map_of (ry_jobIndex s1) i = Some h"
      by (cases r) auto
    then have "h < length (ry_jobs s1)"
      using st1 jobs_soundD [OF _ map_of_SomeD [OF h]] by (auto simp: sim_def)
    with st1 have "sim (insert h H) s1 t1" by (simp add: sim_def)
    from agreesD [OF agrees_job_ops(1) [of _ h w e] this] c rq ok h st1 show ?thesis
      by (auto simp: JobRepository_Acquire_def bindP_apply simD elim!: rel_sum.cases
          split: sum.splits prod.splits intro: sim_mono)
  qed
qed

lemma agrees_acquire:
  assumes "\<And>h. agrees (insert h H) (f (Some h)) (g (Some h)) B"
  shows "agrees H (bindP (JobRepository_Acquire cx i w e n) f)
           (bindP (JobRepository_Acquire cx' i w e n) g) B"
proof (rule agreesI)
  fix s t assume "sim H s t"
  from acquire_side_by_side [OF this, of cx i w e n cx'] agrees_insertD [OF assms]
  show "rel_sum (=) B (fst (bindP (JobRepository_Acquire cx i w e n) f s))
      (fst (bindP (JobRepository_Acquire cx' i w e n) g t)) \<and>
    sim H (snd (bindP (JobRepository_Acquire cx i w e n) f s))
      (snd (bindP (JobRepository_Acquire cx' i w e n) g t))"
    by (auto simp: bindP_apply elim!: rel_sum.cases split: sum.splits prod.splits)
qed

lemma agrees_attempt_acquire:
  assumes "\<And>x. agrees H (f (Inl x)) (g (Inl x)) B"
    and "\<And>h. agrees (insert h H) (f (Inr (Some h))) (g (Inr (Some h))) B"
  shows "agrees H (bindP (attemptP (JobRepository_Acquire cx i w e n)) f)
           (bindP (attemptP (JobRepository_Acquire cx' i w e n)) g) B"
proof (rule agreesI)
  fix s t assume "sim H s t"
  from acquire_side_by_side [OF this, of cx i w e n cx'] agreesD [OF assms(1)] agrees_insertD [OF assms(2)]
  show "rel_sum (=) B (fst (bindP (attemptP (JobRepository_Acquire cx i w e n)) f s))
      (fst (bindP (attemptP (JobRepository_Acquire cx' i w e n)) g t)) \<and>
    sim H (snd (bindP (attemptP (JobRepository_Acquire cx i w e n)) f s))
      (snd (bindP (attemptP (JobRepository_Acquire cx' i w e n)) g t))"
    by (auto simp: bindP_apply elim!: rel_sum.cases split: sum.splits prod.splits)
qed

text \<open>The due jobs come in the same order, in whatever order the map is visited.\<close>

lemma due_jobs_same:
  assumes "sim H s t"
  shows "due_jobs at s = due_jobs at t"
proof -
  let ?key = "\<lambda>s h. (j_nextAttemptAt (ry_jobs s ! h), j_id (ry_jobs s ! h))"
  let ?due = "\<lambda>s h. j_status (ry_jobs s ! h) = JobPending \<and> \<not> j_nextAttemptAt (ry_jobs s ! h) > at"
  let ?all = "\<lambda>s. rv_iterate s (rv_iterations s) (map snd (ry_jobIndex s))"
  note job = job_simD [OF sim_job [OF assms]]
  have key: "?key t = ?key s" and due: "?due t = ?due s" by (simp_all add: fun_eq_iff job)
  from assms have sound: "jobs_sound s" and ix: "ry_jobIndex t = ry_jobIndex s"
    and perm: "permuting (rv_iterate s)" "permuting (rv_iterate t)"
    by (simp_all add: sim_def env_sim_def)
  have m: "mset (filter (?due s) (?all s)) = mset (filter (?due s) (?all t))"
    using perm ix by (simp add: permuting_def mset_filter)
  have "set (filter (?due s) (?all s)) \<subseteq> snd ` set (ry_jobIndex s)"
    using perm(1) mset_eq_setD [of "?all s" "map snd (ry_jobIndex s)"] by (auto simp: permuting_def)
  moreover have "inj_on (?key s) (snd ` set (ry_jobIndex s))"
  proof (rule inj_onI)
    fix a b assume "a \<in> snd ` set (ry_jobIndex s)" and "b \<in> snd ` set (ry_jobIndex s)"
      and eq: "?key s a = ?key s b"
    then obtain i k where i: "(i, a) \<in> set (ry_jobIndex s)" and k: "(k, b) \<in> set (ry_jobIndex s)" by auto
    from jobs_soundD [OF sound i] jobs_soundD [OF sound k] eq have "i = k" by simp
    with i k sound show "a = b" by (auto simp: jobs_sound_def dest: eq_key_imp_eq_value)
  qed
  ultimately have inj: "inj_on (?key s) (set (filter (?due s) (?all s)))" by (rule inj_on_subset [rotated])
  have "sort_key (?key s) (filter (?due s) (?all s)) = sort_key (?key s) (filter (?due s) (?all t))"
    by (rule sort_key_inj_key_eq) (use m inj in simp_all)
  then show ?thesis unfolding due_jobs_def key due .
qed

lemma agrees_FindExecutable [agrees_intros]:
  "agrees H (JobRepository_FindExecutable cx at limit) (JobRepository_FindExecutable cx' at limit) (=)"
  unfolding JobRepository_FindExecutable_def
  by (intro agrees_intros) (auto intro: due_jobs_same sim_updates agrees_intros)

section \<open>Sagas\<close>

lemma message_simE:
  assumes "message_sim m n"
  obtains c where "n = m\<lparr>sm_CorrelationID := c\<rparr>" and "both_empty (sm_CorrelationID m) c"
  using assms by (auto simp: message_sim_def)

lemma Unmarshal_Marshal_step:
  assumes "Marshal_message m = Inr b"
  shows "Unmarshal_message b = Inr (m\<lparr>sm_Step := step_of (step_text (sm_Step m))\<rparr>)"
  using assms
  by (cases m) (auto simp: Marshal_message_def Unmarshal_message_def message_member_def
      zero_message_def names_def ascii_lower_def json_of_bytes_def split: if_splits)

lemma Marshal_message_sim:
  assumes "message_sim m n"
  shows "rel_sum (=) payload_sim (Marshal_message m) (Marshal_message n)"
proof -
  from assms obtain c where n: "n = m\<lparr>sm_CorrelationID := c\<rparr>" and e: "both_empty (sm_CorrelationID m) c"
    by (rule message_simE)
  show ?thesis
  proof (cases "Marshal_message m")
    case (Inl x)
    then show ?thesis by (auto simp: n Marshal_message_def split: if_splits)
  next
    case (Inr b)
    then obtain d where d: "Marshal_message n = Inr d"
      by (auto simp: n Marshal_message_def split: if_splits)
    have "Unmarshal_async b = Unmarshal_async d"
      using Inr d by (auto simp: n Marshal_message_def Unmarshal_async_def async_member_def names_def
          ascii_lower_def split: if_splits)
    moreover have "message_sim (m\<lparr>sm_Step := s\<rparr>) (n\<lparr>sm_Step := s\<rparr>)" for s
      using e by (simp add: n message_sim_def)
    ultimately show ?thesis
      using Unmarshal_Marshal_step [OF Inr] Unmarshal_Marshal_step [OF d] Inr d
      by (simp add: payload_sim_def n)
  qed
qed

lemma NewJob_sim:
  "payload_sim p q \<Longrightarrow> rel_sum (=) job_sim (NewJob i ty p at []) (NewJob i ty q at [])"
  by (simp add: NewJob_def job_sim_def)

lemma rel_mapErr: "rel_sum (=) A r q \<Longrightarrow> rel_sum (=) A (mapErr f r) (mapErr f q)"
  by (cases r; cases q) simp_all

lemma agrees_Publish:
  assumes "message_sim m n"
  shows "agrees H (scenarioSagaPublisher_Publish cx m) (scenarioSagaPublisher_Publish cx' n) (=)"
proof -
  have f: "sm_ID n = sm_ID m" "sm_ScheduledAt n = sm_ScheduledAt m"
    using assms by (auto elim!: message_simE)
  show ?thesis
    unfolding scenarioSagaPublisher_Publish_def f
    by (rule agrees_bind [OF agrees_lift [OF Marshal_message_sim [OF assms]]],
        rule agrees_bind [OF agrees_lift [OF rel_mapErr [OF NewJob_sim]]], assumption,
        rule agrees_save_new_job)
qed

lemma agrees_sagas [agrees_intros]:
  "agrees H (SagaStore_Save cx i) (SagaStore_Save cx' i) (=)"
  "agrees H (SagaStore_Find cx k) (SagaStore_Find cx' k) (=)"
  unfolding SagaStore_Save_def SagaStore_Find_def
  by (intro agrees_intros; auto simp: simD intro: sim_updates)+

lemma agrees_publishCurrent:
  assumes "ctx_sim cx cx'"
  shows "agrees H (publishCurrent replay_orchestrator cx i at) (publishCurrent replay_orchestrator cx' i at) (=)"
proof -
  have caus: "md_CausationID (cx_metadata cx') = md_CausationID (cx_metadata cx)"
    and corr: "both_empty (md_CorrelationID (cx_metadata cx)) (md_CorrelationID (cx_metadata cx'))"
    using assms by (simp_all add: ctx_sim_def)
  have draw: "agrees H
      (if md_CorrelationID (cx_metadata cx) = [] then replay_correlation
       else returnP (md_CorrelationID (cx_metadata cx)))
      (if md_CorrelationID (cx_metadata cx') = [] then replay_correlation
       else returnP (md_CorrelationID (cx_metadata cx'))) both_empty"
  proof (cases "md_CorrelationID (cx_metadata cx) = []")
    case True
    with corr have "md_CorrelationID (cx_metadata cx') = []" by (simp add: both_empty_def)
    with True show ?thesis by (simp add: agrees_correlation)
  next
    case False
    with corr have "md_CorrelationID (cx_metadata cx') \<noteq> []" by (simp add: both_empty_def)
    with False corr show ?thesis by (simp add: agrees_return)
  qed
  show ?thesis
    unfolding publishCurrent_def MetadataFromContext_def Let_def replay_parts caus
    by (rule agrees_bind [OF draw], rule agrees_Publish, simp add: message_sim_def)
qed

lemma agrees_now: "sim H s t \<Longrightarrow> replay_now s = replay_now t"
  by (simp add: replay_now_def simD)

lemma agrees_StartWithPayload:
  assumes "ctx_sim cx cx'"
  shows "agrees H (StartWithPayload replay_orchestrator cx i p b seed)
           (StartWithPayload replay_orchestrator cx' i p b seed) (=)"
proof -
  note c = agrees_publishCurrent [OF assms]
  show ?thesis
    unfolding StartWithPayload_def
    by (intro agrees_intros c) (simp_all add: agrees_now agrees_intros)
qed

lemma agrees_Handle:
  assumes "message_sim m n"
    and "\<And>cx cx'. agrees H (executor cx m) (executor' cx' n) (=)"
  shows "agrees H (Handle replay_orchestrator cx m executor) (Handle replay_orchestrator cx' n executor') (=)"
proof -
  from assms(1) obtain c where n: "n = m\<lparr>sm_CorrelationID := c\<rparr>" and e: "both_empty (sm_CorrelationID m) c"
    by (rule message_simE)
  have async: "agrees H (publish_async replay_orchestrator a m x) (publish_async replay_orchestrator b n x) (=)"
    for a b x
    unfolding publish_async_def
    by (intro agrees_intros) (simp add: agrees_Publish async_message_def
        message_sim_def n e)
  have cx: "ctx_sim (WithMetadata \<lparr>md_CorrelationID = sm_CorrelationID m, md_CausationID = i\<rparr> cx)
      (WithMetadata \<lparr>md_CorrelationID = c, md_CausationID = i\<rparr> cx')" for i
    using e by (simp add: ctx_sim_def WithMetadata_def)
  have run: "\<And>a b. agrees H (executor a m) (executor' b (m\<lparr>sm_CorrelationID := c\<rparr>)) (=)"
    using assms(2) by (simp add: n)
  have valid: "Message_Validate n = Message_Validate m"
    by (simp add: n Message_Validate_def)
  show ?thesis
    unfolding Handle_def valid Let_def using async
    by (intro agrees_intros)
      (auto simp: n agrees_now intro!: agrees_intros run agrees_publishCurrent [OF cx])
qed

section \<open>The executor and the handlers\<close>

lemma agrees_executor:
  assumes "message_sim m n"
  shows "agrees H (PaymentExecutor_Execute (replay_executor provider) cx m)
           (PaymentExecutor_Execute (replay_executor provider) cx' n) (=)"
proof -
  from assms obtain c where n: "n = m\<lparr>sm_CorrelationID := c\<rparr>" by (rule message_simE)
  have call: "provider_call p n = provider_call p m" for p
    by (cases "pv_ExecuteAsync p"; cases "sm_Step m") (simp_all add: n provider_call_def fun_eq_iff)
  have drop: "agrees H (bindP (service memory_payments None a r) (\<lambda>_. returnP ()))
      (bindP (service memory_payments None b r) (\<lambda>_. returnP ())) (=)" for a b r
    by (intro agrees_intros refl)
  have settle: "agrees H (settle_step (replay_executor provider) a m x r)
      (settle_step (replay_executor provider) b n x r) (=)" for a b x r
  proof -
    have f: "sm_Step n = sm_Step m" "sm_PaymentID n = sm_PaymentID m" by (simp_all add: n)
    show ?thesis unfolding settle_step_def f replay_parts by (intro agrees_intros drop refl)
  qed
  have f: "sm_PaymentID n = sm_PaymentID m" "sm_Payload n = sm_Payload m" "sm_Step n = sm_Step m"
    by (simp_all add: n)
  show ?thesis
    unfolding PaymentExecutor_Execute_def Let_def call f replay_parts memory_payments_simps(2)
    by (intro agrees_intros settle) (simp_all add: simD agrees_now)
qed

lemma agrees_handleSaga:
  assumes "payload_sim p q"
  shows "agrees H (handleSaga provider cx p) (handleSaga provider cx' q) (=)"
  unfolding handleSaga_def
  by (rule agrees_bind [where A = message_sim], rule agrees_lift)
    (use assms in \<open>auto simp: payload_sim_def intro: agrees_Handle agrees_executor\<close>)

lemma agrees_run_service [agrees_intros]: "agrees H (run_service cx r) (run_service cx' r) (=)"
  unfolding run_service_def by (intro agrees_intros refl)

lemma agrees_save_operation [agrees_intros]:
  "agrees H (save_operation cx x) (save_operation cx' x) (=)"
  unfolding save_operation_def by (intro agrees_intros agrees_save_new_job) simp

lemma agrees_apply_outcome [agrees_intros]:
  assumes "agrees H m n (=)"
  shows "agrees H (apply_outcome cx c r m) (apply_outcome cx' c r n) (=)"
proof -
  have "agrees H
      (case or_Outcome r of OutcomeSucceeded \<Rightarrow> m
       | OutcomePending \<Rightarrow> eachP (save_operation cx) (or_AsyncOperations r)
       | OutcomeFailed \<Rightarrow> if co_Type c = CommandAuthorize then run_service cx (RequestFail (co_PaymentID c))
            else raiseP (ReplayApp ErrProviderOperationFailed)
       | UnknownOutcome t \<Rightarrow> returnP ())
      (case or_Outcome r of OutcomeSucceeded \<Rightarrow> n
       | OutcomePending \<Rightarrow> eachP (save_operation cx') (or_AsyncOperations r)
       | OutcomeFailed \<Rightarrow> if co_Type c = CommandAuthorize then run_service cx' (RequestFail (co_PaymentID c))
            else raiseP (ReplayApp ErrProviderOperationFailed)
       | UnknownOutcome t \<Rightarrow> returnP ()) (=)"
    using assms by (cases "or_Outcome r") (auto intro!: agrees_intros)
  then show ?thesis
    unfolding apply_outcome_def by (intro agrees_bind_eq agrees_return refl)
qed

lemma agrees_transition [agrees_intros]: "agrees H (transition cx c i) (transition cx' c i) (=)"
  unfolding transition_def by (cases "co_Type c") (auto intro: agrees_intros)

lemma agrees_handleAsync:
  assumes "payload_sim p q"
  shows "agrees H (handleAsync provider cx p) (handleAsync provider cx' q) (=)"
proof -
  have "Unmarshal_async q = Unmarshal_async p" using assms by (simp add: payload_sim_def)
  then show ?thesis
    unfolding handleAsync_def Let_def by (simp only:) (intro agrees_intros; simp add: simD)
qed

lemma agrees_handlers:
  assumes "map_of (wk_handlers (replay_worker provider)) ty = Some handler" and "payload_sim p q"
  shows "agrees H (handler cx p) (handler cx' q) (=)"
  using assms agrees_handleSaga agrees_handleAsync by (auto simp: replay_worker_def split: if_splits)

section \<open>The worker and the scheduler\<close>

lemma agrees_save_and_report:
  assumes "h \<in> H"
  shows "agrees H (save_and_report (replay_worker provider) cx e h)
           (save_and_report (replay_worker provider) cx' e h) (=)"
  unfolding save_and_report_def replay_parts memory_jobs_simps
  by (auto intro!: agrees_intros agrees_bind_eq agrees_attempt_eq assms)

lemma agrees_persistFailure:
  assumes "h \<in> H"
  shows "agrees H (persistFailure (replay_worker provider) cx h e)
           (persistFailure (replay_worker provider) cx' h e) (=)"
proof -
  have "agrees H
      (case x of Inl d \<Rightarrow> raiseP (Joined [e, d])
       | Inr k \<Rightarrow> save_and_report (replay_worker provider) cx e k)
      (case y of Inl d \<Rightarrow> raiseP (Joined [e, d])
       | Inr k \<Rightarrow> save_and_report (replay_worker provider) cx' e k) (=)"
    if "rel_sum (=) (\<lambda>a b. a = h \<and> b = h) x y" for x y
    using that agrees_save_and_report [OF assms]
    by (cases x; cases y) (auto intro: agrees_intros)
  then show ?thesis
    unfolding persistFailure_def replay_parts memory_jobs_simps option.case
    by (rule agrees_bind [OF agrees_attempt [OF agrees_job_ops(4)]])
qed

lemma agrees_Worker:
  assumes "h \<in> H"
  shows "agrees H (Worker_Execute (replay_worker provider) cx (Some h))
           (Worker_Execute (replay_worker provider) cx' (Some h)) (=)"
proof -
  let ?w = "replay_worker provider"
  note save = agrees_JobSave [OF assms]
  have run: "agrees H
      (bindP (attemptP (handler a (j_payload j))) (\<lambda>r. case r of
          Inl err \<Rightarrow> persistFailure ?w cx h err
        | Inr _ \<Rightarrow> bindP (update_job h Job_Complete) (\<lambda>h. JobRepository_Save cx h)))
      (bindP (attemptP (handler b (j_payload k))) (\<lambda>r. case r of
          Inl err \<Rightarrow> persistFailure ?w cx' h err
        | Inr _ \<Rightarrow> bindP (update_job h Job_Complete) (\<lambda>h. JobRepository_Save cx' h))) (=)"
    if "map_of (wk_handlers ?w) ty = Some handler" and "job_sim j k" for a b j k ty handler
    by (intro agrees_intros agrees_handlers [OF that(1) job_simD(6) [OF that(2)]]
        agrees_persistFailure assms agrees_bind [OF agrees_job_ops(3)])
      (auto intro: save)
  have val: "agrees H (readP (\<lambda>s. ry_jobs s ! h)) (readP (\<lambda>s. ry_jobs s ! h)) job_sim"
    by (rule agrees_read) (rule sim_job)
  have attempt: "agrees H
      (case map_of (wk_handlers ?w) (j_jobType j) of
         None \<Rightarrow> raiseP (Scheduler ErrUnknownJobType)
       | Some handler \<Rightarrow>
           bindP (update_job h Job_Start) (\<lambda>h. bindP (JobRepository_Save cx h) (\<lambda>_.
           bindP (readP (\<lambda>s. ry_jobs s ! h)) (\<lambda>j.
           bindP (attemptP (handler (WithExecutionMetadata (j_id j) (j_attempts j) cx) (j_payload j))) (\<lambda>r.
             case r of Inl err \<Rightarrow> persistFailure ?w cx h err
             | Inr _ \<Rightarrow> bindP (update_job h Job_Complete) (\<lambda>h. JobRepository_Save cx h))))))
      (case map_of (wk_handlers ?w) (j_jobType k) of
         None \<Rightarrow> raiseP (Scheduler ErrUnknownJobType)
       | Some handler \<Rightarrow>
           bindP (update_job h Job_Start) (\<lambda>h. bindP (JobRepository_Save cx' h) (\<lambda>_.
           bindP (readP (\<lambda>s. ry_jobs s ! h)) (\<lambda>j.
           bindP (attemptP (handler (WithExecutionMetadata (j_id j) (j_attempts j) cx') (j_payload j))) (\<lambda>r.
             case r of Inl err \<Rightarrow> persistFailure ?w cx' h err
             | Inr _ \<Rightarrow> bindP (update_job h Job_Complete) (\<lambda>h. JobRepository_Save cx' h)))))) (=)"
    if "job_sim j k" for j k
  proof (cases "map_of (wk_handlers ?w) (j_jobType j)")
    case None
    then show ?thesis by (simp add: job_simD [OF that] agrees_raise)
  next
    case (Some handler)
    have "agrees H
      (bindP (update_job h Job_Start) (\<lambda>h. bindP (JobRepository_Save cx h) (\<lambda>_.
           bindP (readP (\<lambda>s. ry_jobs s ! h)) (\<lambda>j.
           bindP (attemptP (handler (WithExecutionMetadata (j_id j) (j_attempts j) cx) (j_payload j))) (\<lambda>r.
             case r of Inl err \<Rightarrow> persistFailure ?w cx h err
             | Inr _ \<Rightarrow> bindP (update_job h Job_Complete) (\<lambda>h. JobRepository_Save cx h))))))
      (bindP (update_job h Job_Start) (\<lambda>h. bindP (JobRepository_Save cx' h) (\<lambda>_.
           bindP (readP (\<lambda>s. ry_jobs s ! h)) (\<lambda>j.
           bindP (attemptP (handler (WithExecutionMetadata (j_id j) (j_attempts j) cx') (j_payload j))) (\<lambda>r.
             case r of Inl err \<Rightarrow> persistFailure ?w cx' h err
             | Inr _ \<Rightarrow> bindP (update_job h Job_Complete) (\<lambda>h. JobRepository_Save cx' h)))))) (=)"
      by (rule agrees_bind [OF agrees_job_ops(2)])
        (auto intro!: agrees_bind_eq [OF save] agrees_bind [OF val] run [OF Some])
    with Some show ?thesis by (simp add: job_simD [OF that])
  qed
  show ?thesis
    unfolding replay_attempt by (rule agrees_bind [OF val]) (rule attempt)
qed

lemma agrees_tick_job:
  "agrees H (tick_job (replay_scheduler provider) cx at x) (tick_job (replay_scheduler provider) cx' at x) (=)"
proof (cases x)
  case None
  then show ?thesis by (simp add: tick_job_def agrees_return)
next
  case (Some h)
  let ?sc = "replay_scheduler provider"
  have i: "agrees H (readP (jb_value memory_jobs h)) (readP (jb_value memory_jobs h)) job_sim"
    by (rule agrees_read) (simp add: sim_job)
  have dispatched: "agrees (insert a H)
      (bindP (attemptP (Worker_Execute (replay_worker provider) cx (Some a)))
        (\<lambda>r. returnP (case r of Inl e \<Rightarrow> Some e | Inr _ \<Rightarrow> None)))
      (bindP (attemptP (Worker_Execute (replay_worker provider) cx' (Some a)))
        (\<lambda>r. returnP (case r of Inl e \<Rightarrow> Some e | Inr _ \<Rightarrow> None))) (=)" for a
    by (intro agrees_intros agrees_Worker insertI1 refl)
  show ?thesis
    unfolding tick_job_def Some option.case replay_parts
    by (rule agrees_bind [OF i], unfold memory_jobs_simps,
        simp only: job_simD(1), rule agrees_attempt_acquire)
      (auto intro: agrees_return dispatched)
qed

lemma agrees_Tick [agrees_intros]:
  "agrees H (Scheduler_Tick (replay_scheduler provider) cx) (Scheduler_Tick (replay_scheduler provider) cx') (=)"
  unfolding Scheduler_Tick_def replay_parts memory_jobs_simps
  by (intro agrees_intros agrees_tick_job refl) (simp_all add: agrees_now)

section \<open>Commands and scenarios\<close>

lemma agrees_provider_command [agrees_intros]:
  "agrees H (provider_command cx c ask r) (provider_command cx' c ask r) (=)"
  unfolding provider_command_def by (intro agrees_intros) (simp add: simD agrees_now)

lemma agrees_advance_time [agrees_intros]: "agrees H (advance_time c) (advance_time c) (=)"
  by (rule agreesI) (auto simp: advance_time_def simD sim_updates split: sum.splits)

lemma agrees_execute_async [agrees_intros]:
  "agrees H (execute_async provider cx c) (execute_async provider cx' c) (=)"
proof -
  have job: "agrees H (readP (\<lambda>s. (ry_jobs s ! h, replay_now s))) (readP (\<lambda>s. (ry_jobs s ! h, replay_now s)))
      (\<lambda>a b. job_sim (fst a) (fst b) \<and> snd a = snd b)" for h
    by (rule agrees_read) (simp add: sim_job agrees_now)
  have status: "agrees G (readP (\<lambda>s. map_option (\<lambda>h. j_status (ry_jobs s ! h)) (Some a)))
      (readP (\<lambda>s. map_option (\<lambda>h. j_status (ry_jobs s ! h)) (Some a))) (=)" for G a
    by (rule agrees_same) (simp add: job_simD [OF sim_job])
  have acquired: "agrees (insert a H)
      (bindP (Worker_Execute (replay_worker provider) cx (Some a)) (\<lambda>_.
       bindP (readP (\<lambda>s. map_option (\<lambda>h. j_status (ry_jobs s ! h)) (Some a))) (\<lambda>status.
         if status \<noteq> Some JobCompleted then raiseP (ReplayApp ErrAsyncOperationNotDue) else returnP [])))
      (bindP (Worker_Execute (replay_worker provider) cx' (Some a)) (\<lambda>_.
       bindP (readP (\<lambda>s. map_option (\<lambda>h. j_status (ry_jobs s ! h)) (Some a))) (\<lambda>status.
         if status \<noteq> Some JobCompleted then raiseP (ReplayApp ErrAsyncOperationNotDue) else returnP [])))
      (=)" for a
    by (intro agrees_bind_eq agrees_Worker insertI1 status agrees_if agrees_raise agrees_return refl)
  show ?thesis
    unfolding execute_async_def
    by (rule agrees_bind_eq, rule agrees_same, simp add: simD,
        rule agrees_option, rule agrees_raise, rule agrees_bind [OF job])
      (auto simp: job_simD intro!: agrees_raise agrees_acquire acquired)
qed

lemma agrees_execute:
  assumes "ctx_sim cx cx'"
  shows "agrees H (execute provider cx c) (execute provider cx' c) (=)"
proof -
  have "agrees H (start_saga provider cx c) (start_saga provider cx' c) (=)"
    unfolding start_saga_def by (intro agrees_intros agrees_StartWithPayload assms refl)
  moreover have "agrees H (bindP (CreatePayment_Execute memory_payments None cx cmd) (\<lambda>_. returnP []))
      (bindP (CreatePayment_Execute memory_payments None cx' cmd) (\<lambda>_. returnP [])) (=)" for cmd
    by (intro agrees_intros refl)
  ultimately show ?thesis
    by (cases "co_Type c") (simp_all add: execute_def Let_def agrees_intros)
qed

lemma agrees_run_commands:
  assumes "ctx_sim cx cx'"
  shows "agrees H (run_commands provider cx cs) (run_commands provider cx' cs) (=)"
  by (induction cs; unfold run_commands.simps; intro agrees_intros agrees_execute [OF assms] refl)

lemma agrees_restore: "agrees H (restore_payments ps) (restore_payments ps) (=)"
proof (induction ps)
  case Nil
  show ?case unfolding restore_payments.simps by (rule agrees_return) (rule refl)
next
  case (Cons p ps)
  show ?case
    unfolding restore_payments.simps by (intro agrees_intros Cons) (simp add: simD sim_updates)
qed

lemma agrees_run_execution:
  assumes "ctx_sim cx cx'"
  shows "agrees H (run_execution provider cx x) (run_execution provider cx' x) (=)"
  unfolding run_execution_def
  by (intro agrees_intros agrees_restore agrees_run_commands [OF assms])
    (simp add: agrees_now MemoryRepository_states_def simD)

text \<open>Two runs of a scenario, in full.\<close>

lemma run_deterministic:
  fixes env env' :: replay_env
  assumes "env_sim env env'" and "ctx_sim cx cx'"
  shows "fst (Runner_Run providers cx x env) = fst (Runner_Run providers cx' x env')"
proof -
  have run: "fst (run_execution p cx x (new_execution c e)) = fst (run_execution p cx' x (new_execution c e'))"
    if "env_sim e e'" for p c and e e' :: replay_env
  proof -
    have "sim {} (new_execution c e) (new_execution c e')"
      using that by (simp add: sim_def new_execution_def env_sim_def jobs_sound_def
          replay_env.defs)
    from agreesD [OF agrees_run_execution [OF assms(2)] this] show ?thesis by (simp add: sum.rel_eq)
  qed
  have c: "cs_remaining env' = cs_remaining env" using assms(1) by (simp add: env_sim_def)
  have "env_sim (env\<lparr>cs_remaining := r\<rparr>) (env'\<lparr>cs_remaining := r\<rparr>)" for r
    using assms(1) by (simp add: env_sim_def)
  with c run [OF assms(1)] run show ?thesis
    by (auto simp: Runner_Run_def bindP_apply ctx_Err_def case_prod_beta
        split: option.splits sum.splits nat.splits)
qed

end
