(* ===== verification/Replay_Comparison.thy ===== *)
theory Replay_Comparison
  imports Replay_Runner
begin

text \<open>
  The comparison of two replay results, \<open>internal/replay/application/comparison.go\<close>. The texts that
  \<open>%q\<close> and \<open>time.Format\<close> print are an argument. The maps of the code are association lists in
  insertion order; the differences are sorted by all their fields at the end, so the order in which
  Go visits a map does not show.
\<close>

record text_library =
  tl_quote :: "string \<Rightarrow> string"
  tl_time :: "time \<Rightarrow> string"

record difference =
  df_Path :: string
  df_Expected :: string
  df_Actual :: string

record comparison =
  cm_Equivalent :: bool
  cm_Differences :: "difference list"

definition formatUint :: "uint64 \<Rightarrow> string" where
  "formatUint v = digits (unat v)"

definition formatInt :: "int64 \<Rightarrow> string" where
  "formatInt v =
     (if sint v < 0 then CHR ''-'' # digits (nat (- sint v)) else digits (nat (sint v)))"

definition compareValue :: "string \<Rightarrow> string \<Rightarrow> string \<Rightarrow> difference list" where
  "compareValue path expected actual =
     (if expected = actual then []
      else [\<lparr>df_Path = path, df_Expected = expected, df_Actual = actual\<rparr>])"

definition missing :: "string \<Rightarrow> difference" where
  "missing path = \<lparr>df_Path = path, df_Expected = ''present'', df_Actual = ''<missing>''\<rparr>"

definition unexpected :: "string \<Rightarrow> difference" where
  "unexpected path = \<lparr>df_Path = path, df_Expected = ''<unexpected>'', df_Actual = ''present''\<rparr>"

section \<open>Payments\<close>

definition indexPayments :: "payment_state list \<Rightarrow> (string \<times> payment_state) list" where
  "indexPayments ps = foldl (\<lambda>m p. put_row fst (ps_ID p, p) m) [] ps"

definition paymentPath :: "text_library \<Rightarrow> string \<Rightarrow> string" where
  "paymentPath lib i = ''payments['' @ tl_quote lib i @ '']''"

definition comparePayment ::
  "text_library \<Rightarrow> string \<Rightarrow> payment_state \<Rightarrow> payment_state \<Rightarrow> difference list" where
  "comparePayment lib i e a =
     (let path = paymentPath lib i in
      compareValue (path @ ''.status'') (status_text (ps_Status e)) (status_text (ps_Status a)) @
      compareValue (path @ ''.amount'') (formatInt (money_amount (ps_Amount e)))
        (formatInt (money_amount (ps_Amount a))) @
      compareValue (path @ ''.currency'') (money_currency (ps_Amount e)) (money_currency (ps_Amount a)) @
      compareValue (path @ ''.authorized_amount'') (formatInt (ps_AuthorizedAmount e))
        (formatInt (ps_AuthorizedAmount a)) @
      compareValue (path @ ''.captured_amount'') (formatInt (ps_CapturedAmount e))
        (formatInt (ps_CapturedAmount a)) @
      compareValue (path @ ''.refunded_amount'') (formatInt (ps_RefundedAmount e))
        (formatInt (ps_RefundedAmount a)) @
      compareValue (path @ ''.version'') (formatUint (ps_Version e)) (formatUint (ps_Version a)))"

definition comparePayments ::
  "text_library \<Rightarrow> payment_state list \<Rightarrow> payment_state list \<Rightarrow> difference list" where
  "comparePayments lib expected actual =
     (let es = indexPayments expected; as = indexPayments actual in
      concat (map (\<lambda>(i, e). case map_of as i of
                None \<Rightarrow> [missing (paymentPath lib i)]
              | Some a \<Rightarrow> comparePayment lib i e a) es) @
      concat (map (\<lambda>(i, a). if map_of es i \<noteq> None then [] else [unexpected (paymentPath lib i)]) as))"

section \<open>Asynchronous operations\<close>

definition indexOperations :: "async_operation list \<Rightarrow> (string \<times> async_operation) list" where
  "indexOperations xs = foldl (\<lambda>m x. put_row fst (ao_ID x, x) m) [] xs"

definition operationPath :: "string \<Rightarrow> string" where
  "operationPath i = ''async_operations['' @ i @ '']''"

definition operation_definition :: "text_library \<Rightarrow> async_operation \<Rightarrow> string" where
  "operation_definition lib x =
     ao_PaymentID x @ ''/'' @ ao_Type x @ ''/'' @ tl_time lib (ao_ScheduledAt x)"

definition compareOperation ::
  "text_library \<Rightarrow> string \<Rightarrow> async_operation \<Rightarrow> async_operation \<Rightarrow> difference list" where
  "compareOperation lib i e a =
     (if ao_PaymentID e \<noteq> ao_PaymentID a \<or> ao_Type e \<noteq> ao_Type a \<or> ao_ScheduledAt e \<noteq> ao_ScheduledAt a
        then [\<lparr>df_Path = operationPath i @ ''.definition'',
               df_Expected = operation_definition lib e, df_Actual = operation_definition lib a\<rparr>]
      else [])"

definition compareAsyncOperations ::
  "text_library \<Rightarrow> async_operation list \<Rightarrow> async_operation list \<Rightarrow> difference list" where
  "compareAsyncOperations lib expected actual =
     (let left = indexOperations expected; right = indexOperations actual in
      concat (map (\<lambda>(i, e). case map_of right i of
                None \<Rightarrow> [missing (operationPath i)]
              | Some a \<Rightarrow> compareOperation lib i e a) left) @
      concat (map (\<lambda>(i, a). if map_of left i \<noteq> None then [] else [unexpected (operationPath i)]) right))"

section \<open>Results\<close>

definition compareTimes :: "text_library \<Rightarrow> time \<Rightarrow> time \<Rightarrow> difference list" where
  "compareTimes lib e a =
     (if e \<noteq> a
        then [\<lparr>df_Path = ''current_virtual_time'', df_Expected = tl_time lib e, df_Actual = tl_time lib a\<rparr>]
      else [])"

definition Compare :: "text_library \<Rightarrow> replay_result \<Rightarrow> replay_result \<Rightarrow> comparison" where
  "Compare lib expected actual =
     (let differences =
            compareAsyncOperations lib (rr_AsyncOperations expected) (rr_AsyncOperations actual) @
            compareTimes lib (rr_CurrentVirtualTime expected) (rr_CurrentVirtualTime actual) @
            comparePayments lib (rr_Payments expected) (rr_Payments actual)
      in \<lparr>cm_Equivalent = (length differences = 0),
          cm_Differences = sort_key (\<lambda>d. (df_Path d, df_Expected d, df_Actual d)) differences\<rparr>)"

section \<open>What is compared\<close>

lemma digits_first: "hd (digits n) \<noteq> CHR ''-''"
proof (induction n rule: less_induct)
  case (less n)
  show ?case
  proof (cases "n < 10")
    case True
    have "(char_of (48 + n) :: char) \<noteq> CHR ''-''"
    proof
      assume "char_of (48 + n) = CHR ''-''"
      then have "(of_char (char_of (48 + n) :: char) :: nat) = of_char (CHR ''-'')" by (rule arg_cong)
      with True show False by simp
    qed
    with True show ?thesis by (simp add: digits.simps [of n])
  next
    case False
    with less.IH [of "n div 10"] show ?thesis by (simp add: digits.simps [of n])
  qed
qed

lemma digits_no_sign [simp]: "digits n \<noteq> CHR ''-'' # s"
  using digits_first [of n] by (metis list.sel(1))

lemma formatUint_inj [simp]: "formatUint a = formatUint b \<longleftrightarrow> a = b"
  by (auto simp: formatUint_def word_unat_eq_iff dest!: digits_inj)

lemma formatInt_inj [simp]: "formatInt a = formatInt b \<longleftrightarrow> a = b"
proof
  assume "formatInt a = formatInt b"
  then have "sint a = sint b"
    by (auto simp: formatInt_def split: if_splits dest!: digits_inj)
      (metis digits_no_sign)+
  then show "a = b" by (rule sint_eqI)
qed simp

lemma compareValue_Nil [simp]: "compareValue p e a = [] \<longleftrightarrow> e = a"
  by (simp add: compareValue_def)

text \<open>What a comparison sees of a payment and of an operation.\<close>

definition payment_view :: "payment_state \<Rightarrow> string \<times> money \<times> int64 \<times> int64 \<times> int64 \<times> uint64" where
  "payment_view p =
     (status_text (ps_Status p), ps_Amount p, ps_AuthorizedAmount p, ps_CapturedAmount p,
      ps_RefundedAmount p, ps_Version p)"

definition operation_view :: "async_operation \<Rightarrow> string \<times> string \<times> time" where
  "operation_view x = (ao_PaymentID x, ao_Type x, ao_ScheduledAt x)"

lemma comparePayment_Nil: "comparePayment lib i e a = [] \<longleftrightarrow> payment_view e = payment_view a"
  by (auto simp: comparePayment_def Let_def payment_view_def)

lemma compareOperation_Nil: "compareOperation lib i e a = [] \<longleftrightarrow> operation_view e = operation_view a"
  by (auto simp: compareOperation_def operation_view_def)

text \<open>The last element of an identity is the one that a map of identities keeps.\<close>

definition last_of :: "('a \<Rightarrow> string) \<Rightarrow> 'a list \<Rightarrow> string \<Rightarrow> 'a option" where
  "last_of key xs i = find (\<lambda>x. key x = i) (rev xs)"

lemma map_of_index:
  "map_of (foldl (\<lambda>m x. put_row fst (key x, x) m) rows xs) i =
     (case last_of key xs i of None \<Rightarrow> map_of rows i | Some x \<Rightarrow> Some x)"
proof (induction xs arbitrary: rows)
  case (Cons x xs)
  have p: "map_of (put_row fst (k, v) rows) j = (if j = k then Some v else map_of rows j)"
    for k j :: string and v and rows
    by (induction rows) auto
  have f: "last_of key (x # xs) i =
      (case last_of key xs i of None \<Rightarrow> if key x = i then Some x else None | Some y \<Rightarrow> Some y)"
  proof -
    have "find P (ys @ [x]) = (case find P ys of None \<Rightarrow> if P x then Some x else None | Some y \<Rightarrow> Some y)"
      for P ys by (induction ys) auto
    then show ?thesis by (simp add: last_of_def)
  qed
  show ?case using Cons [of "put_row fst (key x, x) rows"] by (auto simp: f p split: option.splits)
qed (simp add: last_of_def)

lemma distinct_index:
  "distinct (map fst rows) \<Longrightarrow>
     distinct (map fst (foldl (\<lambda>m x. put_row fst (key x, x) m) rows xs))"
  by (induction xs arbitrary: rows) simp_all

lemma compare_maps_Nil:
  assumes "distinct (map fst es)" and "distinct (map fst as)"
    and "\<And>i e a. cmp i e a = [] \<longleftrightarrow> view e = view a"
  shows "concat (map (\<lambda>(i, e). case map_of as i of None \<Rightarrow> [f i] | Some a \<Rightarrow> cmp i e a) es) @
         concat (map (\<lambda>(i, a). if map_of es i \<noteq> None then [] else [g i]) as) = [] \<longleftrightarrow>
         map_option view \<circ> map_of es = map_option view \<circ> map_of as"
    (is "?left @ ?right = [] \<longleftrightarrow> _")
proof -
  have l: "?left = [] \<longleftrightarrow> (\<forall>i e. map_of es i = Some e \<longrightarrow> (\<exists>a. map_of as i = Some a \<and> view e = view a))"
    using assms(1,3) by (force split: option.splits simp: map_of_eq_Some_iff)
  have r: "?right = [] \<longleftrightarrow> (\<forall>i a. map_of as i = Some a \<longrightarrow> map_of es i \<noteq> None)"
  proof -
    have "?right = [] \<longleftrightarrow> (\<forall>(i, a) \<in> set as. map_of es i \<noteq> None)" by (auto split: if_splits)
    then show ?thesis using assms(2) by (auto simp: map_of_eq_Some_iff)
  qed
  have both: "?left @ ?right = [] \<longleftrightarrow>
      (\<forall>i. (\<forall>e. map_of es i = Some e \<longrightarrow> (\<exists>a. map_of as i = Some a \<and> view e = view a)) \<and>
           (\<forall>a. map_of as i = Some a \<longrightarrow> map_of es i \<noteq> None))"
    unfolding append_is_Nil_conv l r by blast
  have "(\<forall>e. map_of es i = Some e \<longrightarrow> (\<exists>a. map_of as i = Some a \<and> view e = view a)) \<and>
        (\<forall>a. map_of as i = Some a \<longrightarrow> map_of es i \<noteq> None) \<longleftrightarrow>
        map_option view (map_of es i) = map_option view (map_of as i)" for i
    by (cases "map_of es i"; cases "map_of as i") auto
  then show ?thesis unfolding both by (simp add: fun_eq_iff)
qed

text \<open>What a client can observe of a result: the time, and the views by identity.\<close>

definition observed ::
  "replay_result \<Rightarrow> time \<times> (string \<Rightarrow> (string \<times> money \<times> int64 \<times> int64 \<times> int64 \<times> uint64) option) \<times>
     (string \<Rightarrow> (string \<times> string \<times> time) option)" where
  "observed r =
     (rr_CurrentVirtualTime r, map_option payment_view \<circ> last_of ps_ID (rr_Payments r),
      map_option operation_view \<circ> last_of ao_ID (rr_AsyncOperations r))"

lemma map_of_indexes:
  "map_of (indexPayments ps) = last_of ps_ID ps" "map_of (indexOperations xs) = last_of ao_ID xs"
  by (simp_all add: indexPayments_def indexOperations_def map_of_index fun_eq_iff split: option.splits)

lemma distinct_indexes:
  "distinct (map fst (indexPayments ps))" "distinct (map fst (indexOperations xs))"
  by (simp_all add: indexPayments_def indexOperations_def distinct_index)


end
