(* ===== verification/Replay_Service.thy ===== *)
theory Replay_Service
  imports Replay_Store Replay_Determinism Replay_Comparison
begin

text \<open>
  The scenario service of \<open>internal/replay/application/scenario_service.go\<close> over a store of scenarios
  and the engine, and the two as \<open>internal/app/app.go\<close> composes them.
\<close>

section \<open>The service\<close>

record 's scenario_service =
  xv_repository :: "'s scenario_repository"
  xv_engine :: "'s scenario_runner"

definition NewScenarioService ::
  "'s scenario_repository option \<Rightarrow> 's scenario_runner option \<Rightarrow> error + 's scenario_service" where
  "NewScenarioService repository engine =
     (case (repository, engine) of
        (Some r, Some e) \<Rightarrow> Inr \<lparr>xv_repository = r, xv_engine = e\<rparr>
      | _ \<Rightarrow> Inl (Message ''invalid scenario service''))"

definition ScenarioService_Create :: "'s scenario_service \<Rightarrow> ctx \<Rightarrow> scenario option \<Rightarrow> ('s, error, unit) proc" where
  "ScenarioService_Create sv cx x =
     (case x of
        None \<Rightarrow> raiseP (Replay ErrInvalidScenarioID)
      | Some s \<Rightarrow>
          (case Scenario_Validate s of
             Some e \<Rightarrow> raiseP e
           | None \<Rightarrow> xr_Save (xv_repository sv) cx (Some s)))"

definition ScenarioService_Execute ::
  "'s scenario_service \<Rightarrow> ctx \<Rightarrow> string \<Rightarrow> ('s, error, replay_result) proc" where
  "ScenarioService_Execute sv cx i =
     bindP (xr_FindByID (xv_repository sv) cx i) (\<lambda>found.
       case found of
         None \<Rightarrow> raiseP (ReplayApp ErrScenarioNotFound)
       | Some s \<Rightarrow> xv_engine sv cx s)"

section \<open>The service of the running program\<close>

text \<open>
  The engine on the state of the process: an execution draws from its random source and changes
  nothing else. \<open>remaining\<close> and \<open>iterate\<close> are the cancellation of the request and the order of Go's
  maps.
\<close>

definition runtime_providers :: "provider_entry registry" where
  "runtime_providers =
     [(''fake'', deterministic_entry Fake_New), (''stripe'', deterministic_entry Stripe_New),
      (''adyen'', deterministic_entry Adyen_New)]"

definition runtime_engine ::
  "nat option \<Rightarrow> (nat \<Rightarrow> nat list \<Rightarrow> nat list) \<Rightarrow> world scenario_runner" where
  "runtime_engine remaining iterate cx x w =
     (case ReplayEngine_Replay (Runner_Run (Some runtime_providers)) cx x
             \<lparr>cs_remaining = remaining, rv_entropy = w_entropy w, rv_iterate = iterate,
              rv_iterations = 0\<rparr> of
        (r, env) \<Rightarrow> (r, w\<lparr>w_entropy := rv_entropy env\<rparr>))"

definition runtime_scenarios ::
  "nat option \<Rightarrow> (nat \<Rightarrow> nat list \<Rightarrow> nat list) \<Rightarrow> world scenario_service" where
  "runtime_scenarios remaining iterate =
     \<lparr>xv_repository = sqlite_scenarios, xv_engine = runtime_engine remaining iterate\<rparr>"

lemma runtime_providers_registered:
  "bindR (Registry_Register (pv_Identity \<circ> pn_interface) (Some (deterministic_entry Fake_New)) NewRegistry) (\<lambda>r.
   bindR (Registry_Register (pv_Identity \<circ> pn_interface) (Some (deterministic_entry Stripe_New)) r) (\<lambda>r.
     Registry_Register (pv_Identity \<circ> pn_interface) (Some (deterministic_entry Adyen_New)) r)) =
   Inr runtime_providers"
  by (simp add: Registry_Register_def NewRegistry_def runtime_providers_def deterministic_entry_def
      deterministic_interface_def Fake_New_def Stripe_New_def Adyen_New_def Deterministic_New_def
      NewWithProfile_def ProviderIdentity_Validate_def ProviderID_Valid_def)

lemma runtime_scenarios_composed:
  "NewScenarioService (Some sqlite_scenarios) (Some (runtime_engine remaining iterate)) =
   Inr (runtime_scenarios remaining iterate)"
  by (simp add: NewScenarioService_def runtime_scenarios_def)

section \<open>Concrete scenarios\<close>

definition sample_money :: money where
  "sample_money = \<lparr>money_amount = 100, money_currency = ''EUR''\<rparr>"

text \<open>
  A payment is created and a saga started on it whose authorization stays pending for a minute;
  then the clock is advanced and the saga taken up again.
\<close>

definition sample_scenario :: scenario where
  "sample_scenario =
     \<lparr>xs_ID = ''s1'', xs_InitialPayments = [],
      xs_Commands =
        [simple_command CommandCreatePayment ''p1'' sample_money,
         simple_command CommandStartSaga ''p1'' sample_money,
         (simple_command CommandAdvanceTime [] zero_money)\<lparr>co_Duration := time_Minute\<rparr>,
         (simple_command CommandExecuteAsync [] zero_money)\<lparr>co_OperationID := ''fake:p1:async''\<rparr>],
      xs_Provider = \<lparr>pc_ID = ''fake'', pc_Profile = ''pending_authorize''\<rparr>,
      xs_InitialVirtualTime = 5, xs_Seed = 0\<rparr>"

lemma sample_scenario_made: "scenario_made sample_scenario"
  by (simp add: scenario_made_def sample_scenario_def simple_command_def sample_money_def money_made_def
      NewMoney_def validCurrency_def)

definition sample_env :: "string option list \<Rightarrow> (nat \<Rightarrow> nat list \<Rightarrow> nat list) \<Rightarrow> replay_env" where
  "sample_env entropy iterate =
     \<lparr>cs_remaining = None, rv_entropy = entropy, rv_iterate = iterate, rv_iterations = 0\<rparr>"



text \<open>
  A scenario is what was created, for good: once the service has accepted it, executing its
  identity runs exactly the scenario that was given, whatever happened to other tables since, and no
  other scenario can be created under that identity.
\<close>

theorem created_scenario_is_executed:
  assumes "ScenarioService_Create (runtime_scenarios remaining iterate) cx (Some x) w = (Inr u, w1)"
    and "scenario_made x"
    and "t_replay_scenarios (w_db w2) = t_replay_scenarios (w_db w1)" and "w_faults w2 = []"
  shows "ScenarioService_Execute (runtime_scenarios remaining' iterate') cx' (xs_ID x) w2 =
           runtime_engine remaining' iterate' cx' x w2 \<and>
         (\<forall>y. xs_ID y = xs_ID x \<longrightarrow>
            (\<exists>e. ScenarioService_Create (runtime_scenarios remaining' iterate') cx' (Some y) w2 =
                   (Inl e, w2)))"
proof -
  from assms(1) have save: "xr_Save sqlite_scenarios cx (Some x) w = (Inr u, w1)"
    by (auto simp: ScenarioService_Create_def runtime_scenarios_def split: option.splits)
  have same: "recorded_scenarios w2 = recorded_scenarios w1"
    using assms(3) by (simp add: recorded_scenarios_def fun_eq_iff)
  note stored = sqlite_store.save_ok [OF save assms(2)]
  have held: "recorded_scenarios w2 (xs_ID x) = Some x" using stored same by simp
  obtain row where row: "row_at xr_id (xs_ID x) (t_replay_scenarios (w_db w2)) = Some row"
    and "decode_scenario_row row = Inr x"
    using held by (auto simp: recorded_scenarios_def split: option.splits sum.splits)
  then have find: "ScenarioRepository_FindByID cx' (xs_ID x) w2 = (Inr (Some x), w2)"
    using assms(4) by (simp add: ScenarioRepository_FindByID_def bindP_apply)
  have "\<exists>e. ScenarioService_Create (runtime_scenarios remaining' iterate') cx' (Some y) w2 = (Inl e, w2)"
    if "xs_ID y = xs_ID x" for y
  proof (cases "Scenario_Validate y")
    case (Some e)
    then show ?thesis by (simp add: ScenarioService_Create_def)
  next
    case None
    have "statement (insert_scenario \<lparr>xr_id = xs_ID y, xr_payload = payload\<rparr>) w2 = (Inr 0, w2)" for payload
      using row that assms(4) by (cases w2) (simp add: insert_scenario_def)
    with None show ?thesis
      by (cases "Marshal_scenario (toRecord y)")
        (simp_all add: ScenarioService_Create_def runtime_scenarios_def ScenarioRepository_Save_def bindP_apply)
  qed
  with find show ?thesis
    by (simp add: ScenarioService_Execute_def runtime_scenarios_def)
qed

theorem created_scenario_is_executed_witness:
  "\<exists>w1. ScenarioService_Create (runtime_scenarios None (\<lambda>n xs. xs)) background (Some sample_scenario)
            fresh_world = (Inr (), w1) \<and>
     ScenarioService_Execute (runtime_scenarios None (\<lambda>n. rev)) background ''s1'' w1 =
       runtime_engine None (\<lambda>n. rev) background sample_scenario w1"
proof -
  let ?run = "ScenarioService_Create (runtime_scenarios None (\<lambda>n xs. xs)) background (Some sample_scenario)
      fresh_world"
  have "fst ?run = Inr () \<and> w_faults (snd ?run) = []" by code_simp
  then have run: "?run = (Inr (), snd ?run)" and f: "w_faults (snd ?run) = []"
    by (simp_all add: prod_eq_iff)
  from created_scenario_is_executed [OF run sample_scenario_made refl f, of None "\<lambda>n. rev" background]
  have "ScenarioService_Execute (runtime_scenarios None (\<lambda>n. rev)) background (xs_ID sample_scenario) (snd ?run) =
      runtime_engine None (\<lambda>n. rev) background sample_scenario (snd ?run)" by (rule conjunct1)
  with run show ?thesis by (simp add: sample_scenario_def) blast
qed

end
