(* ===== verification/Administration.thy ===== *)
theory Administration
  imports Payment_History Scheduler_Sqlite Webhook_Delivery Replay_Service
begin

text \<open>
  The read services of \<open>internal/administration/application\<close>: the timeline of a payment, its
  diagnostics, the inspection of scenarios, the audit of webhook deliveries, and the runtime history
  that joins the event log, the job audit and the delivery audit of a payment in one transaction.

  A service is a record of the interfaces that it was constructed with; the constructors take
  options, because the code checks each interface for nil.
\<close>

section \<open>The timeline of a payment\<close>

type_synonym 's event_reader = "ctx \<Rightarrow> string \<Rightarrow> ('s, error, business_event list) proc"

record ('s, 'h) timeline =
  tl_payments :: "('s, 'h) payment_repository"
  tl_events :: "'s event_reader"

record 'h payment_timeline =
  pt_Payment :: 'h
  pt_Events :: "business_event list"

definition NewTimeline ::
  "('s, 'h) payment_repository option \<Rightarrow> 's event_reader option \<Rightarrow> error + ('s, 'h) timeline" where
  "NewTimeline payments events =
     (case payments of
        None \<Rightarrow> Inl (Administration ErrNilPaymentRepository)
      | Some p \<Rightarrow>
          (case events of
             None \<Rightarrow> Inl (Administration ErrNilEventLog)
           | Some e \<Rightarrow> Inr \<lparr>tl_payments = p, tl_events = e\<rparr>))"

definition Timeline_Execute ::
  "('s, 'h) timeline \<Rightarrow> ctx \<Rightarrow> string \<Rightarrow> ('s, error, 'h payment_timeline) proc" where
  "Timeline_Execute t cx i =
     bindP (rp_FindByID (tl_payments t) cx i) (\<lambda>payment.
     bindP (tl_events t cx i) (\<lambda>events.
       returnP \<lparr>pt_Payment = payment, pt_Events = events\<rparr>))"

section \<open>Diagnostics\<close>

record ('s, 'h) diagnostics =
  dg_timeline :: "('s, 'h) timeline"
  dg_clock :: "'s \<Rightarrow> time"
  dg_providers :: "string list"

record 'h payment_diagnostics =
  pd_Timeline :: "'h payment_timeline"
  pd_CurrentTime :: time
  pd_ProviderIDs :: "string list"

text \<open>The registry does not change after the start, so what \<open>IDs()\<close> returns is a list.\<close>

definition NewDiagnostics ::
  "('s, 'h) payment_repository option \<Rightarrow> 's event_reader option \<Rightarrow> ('s \<Rightarrow> time) option \<Rightarrow>
     string list option \<Rightarrow> error + ('s, 'h) diagnostics" where
  "NewDiagnostics payments events clock providers =
     (case clock of
        None \<Rightarrow> Inl (Administration ErrNilDiagnosticsClock)
      | Some now \<Rightarrow>
          (case providers of
             None \<Rightarrow> Inl (Administration ErrNilDiagnosticsRegistry)
           | Some ids \<Rightarrow>
               bindR (NewTimeline payments events) (\<lambda>t.
                 Inr \<lparr>dg_timeline = t, dg_clock = now, dg_providers = ids\<rparr>)))"

definition Diagnostics_Execute ::
  "('s, 'h) diagnostics \<Rightarrow> ctx \<Rightarrow> string \<Rightarrow> ('s, error, 'h payment_diagnostics) proc" where
  "Diagnostics_Execute d cx i =
     bindP (Timeline_Execute (dg_timeline d) cx i) (\<lambda>timeline.
     bindP (readP (dg_clock d)) (\<lambda>now.
       returnP \<lparr>pd_Timeline = timeline, pd_CurrentTime = now, pd_ProviderIDs = sort (dg_providers d)\<rparr>))"

section \<open>Scenario inspection\<close>

type_synonym 's scenario_reader = "ctx \<Rightarrow> string \<Rightarrow> ('s, error, scenario option) proc"

definition NewScenarioInspection :: "'s scenario_reader option \<Rightarrow> error + 's scenario_reader" where
  "NewScenarioInspection repository =
     (case repository of
        None \<Rightarrow> Inl (Message ''scenario repository is nil'')
      | Some r \<Rightarrow> Inr r)"

definition ScenarioInspection_Execute :: "'s scenario_reader \<Rightarrow> ctx \<Rightarrow> string \<Rightarrow> ('s, error, scenario) proc" where
  "ScenarioInspection_Execute repository cx i =
     bindP (repository cx i) (\<lambda>found.
       case found of
         None \<Rightarrow> raiseP (Administration AdministrationErrScenarioNotFound)
       | Some x \<Rightarrow> (case Scenario_Validate x of Some e \<Rightarrow> raiseP e | None \<Rightarrow> returnP x))"

section \<open>The audit of webhook deliveries\<close>

type_synonym 's delivery_reader = "ctx \<Rightarrow> string \<Rightarrow> ('s, error, delivery_attempt list) proc"

definition NewWebhookAudit :: "'s delivery_reader option \<Rightarrow> error + 's delivery_reader" where
  "NewWebhookAudit reader =
     (case reader of
        None \<Rightarrow> Inl (Administration ErrNilWebhookDeliveryAudit)
      | Some r \<Rightarrow> Inr r)"

definition WebhookAudit_Execute ::
  "'s delivery_reader \<Rightarrow> ctx \<Rightarrow> string \<Rightarrow> ('s, error, delivery_attempt list) proc" where
  "WebhookAudit_Execute reader cx jobID = reader cx jobID"

section \<open>The runtime history\<close>

record runtime_job_history =
  rj_JobID :: string
  rj_Type :: string
  rj_AggregateID :: string
  rj_CausationID :: string
  rj_Snapshots :: "job_snapshot list"
  rj_Deliveries :: "delivery_attempt list"

record payment_runtime_history =
  ru_Payment :: payment
  ru_Events :: "business_event list"
  ru_Jobs :: "runtime_job_history list"

type_synonym 's history_transaction =
  "ctx \<Rightarrow> (ctx \<Rightarrow> ('s, error, payment_runtime_history) proc) \<Rightarrow> ('s, error, payment_runtime_history) proc"

type_synonym 's job_audit_reader = "ctx \<Rightarrow> string \<Rightarrow> ('s, error, job_snapshot list) proc"

record 's runtime_history =
  rh_transaction :: "'s history_transaction"
  rh_events :: "'s event_reader"
  rh_jobs :: "'s job_audit_reader"
  rh_hooks :: "'s delivery_reader"

definition NewRuntimeHistory ::
  "'s history_transaction option \<Rightarrow> 's event_reader option \<Rightarrow> 's job_audit_reader option \<Rightarrow>
     's delivery_reader option \<Rightarrow> error + 's runtime_history" where
  "NewRuntimeHistory transaction events jobs hooks =
     (case transaction of
        None \<Rightarrow> Inl (Administration ErrNilRuntimeTransaction)
      | Some t \<Rightarrow>
          (case events of
             None \<Rightarrow> Inl (Administration ErrNilRuntimeEvents)
           | Some e \<Rightarrow>
               (case jobs of
                  None \<Rightarrow> Inl (Administration ErrNilRuntimeJobs)
                | Some j \<Rightarrow>
                    (case hooks of
                       None \<Rightarrow> Inl (Administration ErrNilRuntimeHooks)
                     | Some k \<Rightarrow>
                         Inr \<lparr>rh_transaction = t, rh_events = e, rh_jobs = j, rh_hooks = k\<rparr>))))"

text \<open>
  The map \<open>groups\<close> and the slice \<open>order\<close> of \<open>read\<close> are one list: the groups in the order in which
  their jobs were met.
\<close>

definition new_group :: "job_snapshot \<Rightarrow> runtime_job_history" where
  "new_group s =
     \<lparr>rj_JobID = js_ID s, rj_Type = js_Type s, rj_AggregateID = js_AggregateID s,
      rj_CausationID = js_CausationID s, rj_Snapshots = [], rj_Deliveries = []\<rparr>"

fun add_snapshot :: "job_snapshot \<Rightarrow> runtime_job_history list \<Rightarrow> runtime_job_history list" where
  "add_snapshot s [] = [(new_group s)\<lparr>rj_Snapshots := [s]\<rparr>]"
| "add_snapshot s (g # gs) =
     (if rj_JobID g = js_ID s then g\<lparr>rj_Snapshots := rj_Snapshots g @ [s]\<rparr> # gs
      else g # add_snapshot s gs)"

definition group_snapshots :: "job_snapshot list \<Rightarrow> runtime_job_history list" where
  "group_snapshots snapshots = fold add_snapshot snapshots []"

definition RuntimeHistory_read ::
  "'s runtime_history \<Rightarrow> ctx \<Rightarrow> string \<Rightarrow> ('s, error, payment_runtime_history) proc" where
  "RuntimeHistory_read h cx i =
     bindP (rh_events h cx i) (\<lambda>events.
     bindP (liftP (ReconstructFromEvents events)) (\<lambda>payment.
     bindP (rh_jobs h cx i) (\<lambda>snapshots.
     bindP (mapP (\<lambda>g. bindP (rh_hooks h cx (rj_JobID g)) (\<lambda>ds. returnP (g\<lparr>rj_Deliveries := ds\<rparr>)))
              (group_snapshots snapshots)) (\<lambda>jobs.
       returnP \<lparr>ru_Payment = the payment, ru_Events = events, ru_Jobs = jobs\<rparr>))))"

definition RuntimeHistory_Execute ::
  "'s runtime_history \<Rightarrow> ctx \<Rightarrow> string \<Rightarrow> ('s, error, payment_runtime_history) proc" where
  "RuntimeHistory_Execute h cx i = rh_transaction h cx (\<lambda>txctx. RuntimeHistory_read h txctx i)"

end
