(* ===== verification/Durations.thy ===== *)
theory Durations
  imports Clocks
begin

text \<open>
  Durations as text: \<open>Duration.String\<close> and \<open>time.ParseDuration\<close> of Go's standard library, which the
  scenarios of the administration interface and the configuration use. A fraction is converted with
  \<open>float64\<close> arithmetic, as the library does.
\<close>

section \<open>float64\<close>

text \<open>
  A positive \<open>float64\<close> is a fraction. \<open>float64_of a b\<close> is \<open>a / b\<close> rounded to the nearest number with
  53 binary digits, ties to even; the exponents of this program are far inside the range of the type.
\<close>

definition round_even :: "nat \<Rightarrow> nat \<Rightarrow> nat" where
  "round_even a b =
     (let q = a div b; r = a mod b in
      if 2 * r < b \<or> (2 * r = b \<and> even q) then q else q + 1)"

definition float64_distance :: "nat \<Rightarrow> nat \<Rightarrow> nat" where
  "float64_distance a b =
     (if a < b * 2 ^ 52 then b * 2 ^ 52 - a else if a \<ge> b * 2 ^ 53 then a div (b * 2 ^ 52) else 0)"

function float64_of :: "nat \<Rightarrow> nat \<Rightarrow> nat \<times> nat" where
  "float64_of a b =
     (if a = 0 \<or> b = 0 then (0, 1)
      else if a < b * 2 ^ 52 then (let (m, n) = float64_of (2 * a) b in (m, 2 * n))
      else if a \<ge> b * 2 ^ 53 then (let (m, n) = float64_of a (2 * b) in (2 * m, n))
      else (round_even a b, 1))"
  by pat_completeness auto

termination
proof (relation "measure (\<lambda>(a, b). float64_distance a b)")
  fix a b :: nat assume *: "\<not> (a = 0 \<or> b = 0)"
  {
    assume a: "a < b * 2 ^ 52"
    then show "((2 * a, b), a, b) \<in> measure (\<lambda>(a, b). float64_distance a b)"
      using * by (auto simp: float64_distance_def)
  }
  {
    assume ge: "\<not> a < b * 2 ^ 52" "a \<ge> b * 2 ^ 53"
    let ?c = "b * 2 ^ 52"
    have c: "0 < ?c" and a: "2 * ?c \<le> a" using * ge by simp_all
    have half: "a div (2 * k) < a div k" if "0 < k" and "2 * k \<le> a" for k
    proof -
      have "2 \<le> a div k" using that by (simp add: less_eq_div_iff_mult_less_eq)
      moreover have "a div (2 * k) = a div k div 2" by (metis div_mult2_eq mult.commute)
      ultimately show ?thesis by simp
    qed
    have "a div (2 * ?c) < a div ?c" using c a by (rule half)
    moreover have "0 < a div ?c" using a c by (simp add: div_greater_zero_iff)
    ultimately show "((a, 2 * b), a, b) \<in> measure (\<lambda>(a, b). float64_distance a b)"
      using a by (auto simp: float64_distance_def mult.assoc)
  }
qed simp

declare float64_of.simps [simp del]

lemma float64_exact: "n < 2 ^ 53 \<Longrightarrow> 0 < b \<Longrightarrow> \<exists>c > 0. float64_of (n * b) b = (n * c, c)"
proof (induction "n * b" b arbitrary: n rule: float64_of.induct)
  case (1 b)
  consider "n = 0" | "0 < n" "n < 2 ^ 52" | "2 ^ 52 \<le> n" by linarith
  then show ?case
  proof cases
    case 1
    then show ?thesis by (auto simp: float64_of.simps)
  next
    case 2
    then have lt: "n * b < b * 2 ^ 52" using "1.prems" by (simp add: mult.commute)
    have "\<exists>c > 0. float64_of (2 * n * b) b = (2 * n * c, c)"
      using 2 lt "1.prems" by (intro "1.hyps"(1)) (simp_all add: mult.assoc)
    then obtain c where "0 < c" and c: "float64_of (2 * (n * b)) b = (2 * n * c, c)"
      by (auto simp: mult.assoc)
    then show ?thesis
      using 2 lt "1.prems" by (intro exI [of _ "2 * c"]) (simp add: float64_of.simps [of "n * b"])
  next
    case 3
    then have "\<not> n * b < b * 2 ^ 52" and "\<not> n * b \<ge> b * 2 ^ 53"
      using "1.prems" by (simp_all add: mult.commute)
    then show ?thesis
      using 3 "1.prems" by (intro exI [of _ 1]) (auto simp: float64_of.simps [of "n * b"] round_even_def)
  qed
qed

text \<open>\<open>uint64(float64(f) * (float64(unit) / scale))\<close>; the scales that occur are exact.\<close>

definition fraction_part :: "nat \<Rightarrow> nat \<Rightarrow> nat \<Rightarrow> nat" where
  "fraction_part f unit scale =
     (let (a, b) = float64_of f 1; (c, d) = float64_of unit scale;
          (m, n) = float64_of (a * c) (b * d) in m div n)"

lemma fraction_part_exact:
  assumes "f < 2 ^ 53" and "q < 2 ^ 53" and "f * q < 2 ^ 53" and "0 < scale"
  shows "fraction_part f (q * scale) scale = f * q"
proof -
  from float64_exact [OF assms(1), of 1] obtain b where "0 < b" and b: "float64_of f 1 = (f * b, b)"
    by auto
  from float64_exact [OF assms(2,4)] obtain d where "0 < d"
    and d: "float64_of (q * scale) scale = (q * d, d)" by auto
  have e: "f * b * (q * d) = f * q * (b * d)" by (simp add: ac_simps)
  have "0 < b * d" using \<open>0 < b\<close> \<open>0 < d\<close> by simp
  from float64_exact [OF assms(3) this] show ?thesis
    unfolding fraction_part_def b d prod.case Let_def e by auto
qed

section \<open>Parsing\<close>

definition is_digit :: "char \<Rightarrow> bool" where
  "is_digit c \<longleftrightarrow> 48 \<le> (of_char c :: nat) \<and> (of_char c :: nat) \<le> 57"

definition digit_of :: "char \<Rightarrow> nat" where
  "digit_of c = of_char c - 48"

fun leadingInt :: "nat \<Rightarrow> string \<Rightarrow> (nat \<times> string) option" where
  "leadingInt x [] = Some (x, [])"
| "leadingInt x (c # s) =
     (if \<not> is_digit c then Some (x, c # s)
      else if x > 2 ^ 63 div 10 then None
      else if x * 10 + digit_of c > 2 ^ 63 then None
      else leadingInt (x * 10 + digit_of c) s)"

fun leadingFraction :: "nat \<Rightarrow> nat \<Rightarrow> bool \<Rightarrow> string \<Rightarrow> nat \<times> nat \<times> string" where
  "leadingFraction x scale overflow [] = (x, scale, [])"
| "leadingFraction x scale overflow (c # s) =
     (if \<not> is_digit c then (x, scale, c # s)
      else if overflow \<or> x > (2 ^ 63 - 1) div 10 \<or> x * 10 + digit_of c > 2 ^ 63
        then leadingFraction x scale True s
      else leadingFraction (x * 10 + digit_of c) (scale * 10) False s)"

definition unitMap :: "(string \<times> nat) list" where
  "unitMap =
     [(''ns'', 1), (''us'', 1000), ([CHR 0xC2, CHR 0xB5, CHR ''s''], 1000),
      ([CHR 0xCE, CHR 0xBC, CHR ''s''], 1000), (''ms'', 1000000), (''s'', 1000000000),
      (''m'', 60000000000), (''h'', 3600000000000)]"

definition in_number :: "char \<Rightarrow> bool" where
  "in_number c \<longleftrightarrow> c = CHR ''.'' \<or> is_digit c"

text \<open>One number with its unit, in nanoseconds, and the rest of the text.\<close>

definition parse_unit :: "string \<Rightarrow> (nat \<times> string) option" where
  "parse_unit s =
     (if s = [] \<or> \<not> in_number (hd s) then None
      else case leadingInt 0 s of
        None \<Rightarrow> None
      | Some (v, s1) \<Rightarrow>
          let point = s1 \<noteq> [] \<and> hd s1 = CHR ''.'';
              (f, scale, s2) = (if point then leadingFraction 0 1 False (tl s1) else (0, 1, s1));
              pre = length s1 \<noteq> length s; post = point \<and> length s2 \<noteq> length (tl s1);
              u = takeWhile (\<lambda>c. \<not> in_number c) s2
          in if \<not> pre \<and> \<not> post then None
             else if u = [] then None
             else case map_of unitMap u of
               None \<Rightarrow> None
             | Some unit \<Rightarrow>
                 if v > 2 ^ 63 div unit then None
                 else if f > 0 \<and> v * unit + fraction_part f unit scale > 2 ^ 63 then None
                 else Some (if f > 0 then v * unit + fraction_part f unit scale else v * unit,
                            dropWhile (\<lambda>c. \<not> in_number c) s2))"

lemma leadingInt_length: "leadingInt x s = Some (v, s') \<Longrightarrow> length s' \<le> length s"
  by (induction x s rule: leadingInt.induct) (auto split: if_splits)

lemma leadingFraction_length: "leadingFraction x scale ov s = (f, sc, s') \<Longrightarrow> length s' \<le> length s"
  by (induction x scale ov s rule: leadingFraction.induct) (auto split: if_splits)

lemma parse_unit_shorter:
  assumes "parse_unit s = Some (v, s')" shows "length s' < length s"
proof -
  from assms obtain n s1 f scale s2 where i: "leadingInt 0 s = Some (n, s1)"
    and f: "(if s1 \<noteq> [] \<and> hd s1 = CHR ''.'' then leadingFraction 0 1 False (tl s1) else (0, 1, s1)) =
            (f, scale, s2)"
    and u: "takeWhile (\<lambda>c. \<not> in_number c) s2 \<noteq> []" and s': "s' = dropWhile (\<lambda>c. \<not> in_number c) s2"
    by (auto simp: parse_unit_def Let_def split: if_splits option.splits prod.splits)
  from f have "length s2 \<le> length s1"
    using leadingFraction_length [of 0 1 False "tl s1"] by (auto split: if_splits dest: le_trans)
  moreover have "length (takeWhile (\<lambda>c. \<not> in_number c) s2) + length s' = length s2"
    unfolding s' by (metis length_append takeWhile_dropWhile_id)
  moreover have "0 < length (takeWhile (\<lambda>c. \<not> in_number c) s2)" using u by simp
  ultimately show ?thesis using leadingInt_length [OF i] by linarith
qed

text \<open>The loop over the numbers; \<open>d\<close> is the sum so far, a \<open>uint64\<close>.\<close>

function parse_units :: "nat \<Rightarrow> string \<Rightarrow> nat option" where
  "parse_units d s =
     (if s = [] then Some d
      else case parse_unit s of
        None \<Rightarrow> None
      | Some (v, s') \<Rightarrow>
          let d' = (d + v) mod 2 ^ 64 in if d' > 2 ^ 63 then None else parse_units d' s')"
  by pat_completeness auto
termination
  by (relation "measure (\<lambda>(d, s). length s)") (auto simp: parse_unit_shorter)

declare parse_units.simps [simp del]

definition ParseDuration :: "string \<Rightarrow> duration option" where
  "ParseDuration s =
     (let neg = s \<noteq> [] \<and> hd s = CHR ''-'';
          t = (if s \<noteq> [] \<and> (hd s = CHR ''-'' \<or> hd s = CHR ''+'') then tl s else s) in
      if t = ''0'' then Some 0
      else if t = [] then None
      else case parse_units 0 t of
        None \<Rightarrow> None
      | Some d \<Rightarrow>
          if neg then Some (- word_of_nat d)
          else if d > 2 ^ 63 - 1 then None
          else Some (word_of_nat d))"

section \<open>Printing\<close>

text \<open>
  \<open>fmtFrac\<close>, with the text built so far: the fraction of \<open>v\<close> in \<open>prec\<close> digits without its trailing
  zeros, and the rest of \<open>v\<close>.
\<close>

fun fmtFrac :: "nat \<Rightarrow> nat \<Rightarrow> bool \<Rightarrow> string \<Rightarrow> string \<times> nat" where
  "fmtFrac 0 v print acc = (if print then CHR ''.'' # acc else acc, v)"
| "fmtFrac (Suc prec) v print acc =
     (let print' = (print \<or> v mod 10 \<noteq> 0) in
      fmtFrac prec (v div 10) print' (if print' then char_of (48 + v mod 10) # acc else acc))"

definition format_fraction :: "nat \<Rightarrow> nat \<Rightarrow> string \<Rightarrow> string" where
  "format_fraction prec v unit =
     (let (frac, w) = fmtFrac prec v False [] in digits w @ frac @ unit)"

definition format_seconds :: "nat \<Rightarrow> string" where
  "format_seconds u =
     (let (frac, s) = fmtFrac 9 u False []; m = s div 60; h = m div 60 in
      (if m > 0 then (if h > 0 then digits h @ ''h'' else []) @ digits (m mod 60) @ ''m'' else []) @
      digits (s mod 60) @ frac @ ''s'')"

definition Duration_text :: "nat \<Rightarrow> string" where
  "Duration_text u =
     (if u = 0 then ''0s''
      else if u < 1000 then format_fraction 0 u ''ns''
      else if u < 1000000 then format_fraction 3 u [CHR 0xC2, CHR 0xB5, CHR ''s'']
      else if u < 1000000000 then format_fraction 6 u ''ms''
      else format_seconds u)"

definition Duration_String :: "duration \<Rightarrow> string" where
  "Duration_String d =
     (if sint d < 0 then CHR ''-'' # Duration_text (unat (- d)) else Duration_text (unat d))"

section \<open>Parsing what was printed\<close>

definition decimal :: "nat \<Rightarrow> string \<Rightarrow> nat" where
  "decimal x ds = foldl (\<lambda>x c. x * 10 + digit_of c) x ds"

lemma decimal_simps [simp]:
  "decimal x [] = x" "decimal x (c # ds) = decimal (x * 10 + digit_of c) ds"
  "decimal x (ds @ es) = decimal (decimal x ds) es"
  by (simp_all add: decimal_def)

lemma digit_char [simp]:
  "n < 10 \<Longrightarrow> is_digit (char_of (48 + n))" "n < 10 \<Longrightarrow> digit_of (char_of (48 + n)) = n"
  by (simp_all add: is_digit_def digit_of_def)

lemma decimal_start: "decimal x ds = x * 10 ^ length ds + decimal 0 ds"
proof (induction ds arbitrary: x)
  case (Cons c ds)
  from Cons [of "x * 10 + digit_of c"] Cons [of "digit_of c"] show ?case
    by (simp add: algebra_simps)
qed simp

lemma decimal_ge: "x \<le> decimal x ds"
  by (subst decimal_start) (metis le_add1 le_trans mult_le_mono2 nat_mult_1_right one_le_numeral one_le_power)

lemma digits_decimal: "list_all is_digit (digits n) \<and> decimal 0 (digits n) = n"
proof (induction n rule: less_induct)
  case (less n)
  then show ?case by (cases "n < 10") (simp_all add: digits.simps [of n] mult.commute)
qed

definition no_digit_first :: "string \<Rightarrow> bool" where
  "no_digit_first s \<longleftrightarrow> s = [] \<or> \<not> is_digit (hd s)"

lemma leadingInt_digits:
  assumes "list_all is_digit ds" and "decimal x ds \<le> 2 ^ 63" and "no_digit_first s"
  shows "leadingInt x (ds @ s) = Some (decimal x ds, s)"
  using assms(1,2)
proof (induction ds arbitrary: x)
  case Nil
  with assms(3) show ?case by (cases s) (auto simp: no_digit_first_def)
next
  case (Cons c ds)
  have "x * 10 + digit_of c \<le> 2 ^ 63" using Cons.prems(2) decimal_ge le_trans by fastforce
  moreover from this have "x \<le> 2 ^ 63 div 10" by simp
  ultimately show ?case using Cons by simp
qed

lemma leadingFraction_digits:
  assumes "list_all is_digit ds" and "decimal x ds < 2 ^ 53" and "no_digit_first s"
  shows "leadingFraction x scale False (ds @ s) = (decimal x ds, scale * 10 ^ length ds, s)"
  using assms(1,2)
proof (induction ds arbitrary: x scale)
  case Nil
  with assms(3) show ?case by (cases s) (auto simp: no_digit_first_def)
next
  case (Cons c ds)
  have lt: "x * 10 + digit_of c < 2 ^ 53" using Cons.prems(2) decimal_ge le_less_trans by fastforce
  with Cons show ?case by (simp add: mult.assoc)
qed

text \<open>The digits of the fraction \<open>m / 10 ^ prec\<close>, all of them or up to the last that is not zero.\<close>

definition frac_digits :: "nat \<Rightarrow> nat \<Rightarrow> bool \<Rightarrow> string \<Rightarrow> bool" where
  "frac_digits prec m full ds \<longleftrightarrow>
     list_all is_digit ds \<and> length ds \<le> prec \<and> (full \<longrightarrow> length ds = prec) \<and>
     decimal 0 ds * 10 ^ (prec - length ds) = m"

lemma frac_digits_snoc:
  assumes "frac_digits prec (v div 10 mod 10 ^ prec) True ds"
  shows "frac_digits (Suc prec) (v mod 10 ^ Suc prec) full (ds @ [char_of (48 + v mod 10)])"
  using assms by (auto simp: frac_digits_def mod_mult2_eq)

lemma frac_digits_zero:
  assumes "frac_digits prec (v div 10 mod 10 ^ prec) False ds" and "v mod 10 = 0"
  shows "frac_digits (Suc prec) (v mod 10 ^ Suc prec) False ds"
  using assms by (simp add: frac_digits_def mod_mult2_eq Suc_diff_le)

lemma fmtFrac_correct:
  assumes "print \<or> acc = []"
  shows "\<exists>ds. frac_digits prec (v mod 10 ^ prec) print ds \<and>
    fmtFrac prec v print acc =
      (if print \<or> v mod 10 ^ prec \<noteq> 0 then CHR ''.'' # ds @ acc else [], v div 10 ^ prec)"
  using assms
proof (induction prec arbitrary: v print acc)
  case 0
  then show ?case by (auto simp: frac_digits_def intro!: exI [of _ "[]"])
next
  case (Suc prec)
  have d: "v div 10 ^ Suc prec = v div 10 div 10 ^ prec" by (simp add: div_mult2_eq)
  have m: "v mod 10 ^ Suc prec = 10 * (v div 10 mod 10 ^ prec) + v mod 10"
    by (simp add: mod_mult2_eq)
  let ?c = "char_of (48 + v mod 10)"
  show ?case
  proof (cases "print \<or> v mod 10 \<noteq> 0")
    case True
    obtain ds where "frac_digits prec (v div 10 mod 10 ^ prec) True ds"
      and "fmtFrac prec (v div 10) True (?c # acc) = (CHR ''.'' # ds @ ?c # acc, v div 10 div 10 ^ prec)"
      using Suc.IH [of True "?c # acc" "v div 10"] by auto
    moreover from this(1) have "frac_digits (Suc prec) (v mod 10 ^ Suc prec) print (ds @ [?c])"
      by (rule frac_digits_snoc)
    moreover have "print \<or> v mod 10 ^ Suc prec \<noteq> 0" using True m by auto
    ultimately show ?thesis
      using True d by (intro exI [of _ "ds @ [?c]"]) (simp del: power_Suc)
  next
    case False
    with Suc.prems have "acc = []" and v: "v mod 10 = 0" and print: "\<not> print" by auto
    obtain ds where "frac_digits prec (v div 10 mod 10 ^ prec) False ds"
      and "fmtFrac prec (v div 10) False [] =
        (if v div 10 mod 10 ^ prec \<noteq> 0 then CHR ''.'' # ds else [], v div 10 div 10 ^ prec)"
      using Suc.IH [of False "[]" "v div 10"] by auto
    moreover from this(1) v have "frac_digits (Suc prec) (v mod 10 ^ Suc prec) print ds"
      using frac_digits_zero [of prec v ds] print by simp
    moreover have "v mod 10 ^ Suc prec = 0 \<longleftrightarrow> v div 10 mod 10 ^ prec = 0" using m v by simp
    ultimately show ?thesis
      using print d v \<open>acc = []\<close> by (intro exI [of _ ds]) (simp del: power_Suc)
  qed
qed

lemma unit_text:
  assumes "map_of unitMap u = Some unit"
  shows "u \<noteq> []" and "list_all (\<lambda>c. \<not> in_number c) u" and "0 < unit"
  using assms by (auto simp: unitMap_def in_number_def is_digit_def split: if_splits)

definition number_next :: "string \<Rightarrow> bool" where
  "number_next s \<longleftrightarrow> s = [] \<or> is_digit (hd s)"

lemma unit_split:
  assumes "map_of unitMap u = Some unit" and "number_next s"
  shows "takeWhile (\<lambda>c. \<not> in_number c) (u @ s) = u" and "dropWhile (\<lambda>c. \<not> in_number c) (u @ s) = s"
    and "no_digit_first (u @ s)" and "hd (u @ s) \<noteq> CHR ''.''"
proof -
  have all: "\<forall>c \<in> set u. \<not> in_number c" using unit_text(2) [OF assms(1)] by (simp add: list_all_iff)
  moreover have "takeWhile (\<lambda>c. \<not> in_number c) s = [] \<and> dropWhile (\<lambda>c. \<not> in_number c) s = s"
    using assms(2) by (cases s) (simp_all add: number_next_def in_number_def)
  ultimately show "takeWhile (\<lambda>c. \<not> in_number c) (u @ s) = u"
    and "dropWhile (\<lambda>c. \<not> in_number c) (u @ s) = s" by simp_all
  from unit_text(1) [OF assms(1)] obtain c cs where u: "u = c # cs" by (cases u) simp_all
  with all show "no_digit_first (u @ s)" and "hd (u @ s) \<noteq> CHR ''.''"
    by (simp_all add: no_digit_first_def in_number_def)
qed

lemma printed_digits_first:
  "in_number (hd (digits n))" "number_next (digits n @ s)"
  using digits_decimal [of n] by (cases "digits n"; simp add: in_number_def number_next_def)+

lemma leadingInt_printed:
  assumes "n \<le> 2 ^ 63" and "no_digit_first s"
  shows "leadingInt 0 (digits n @ s) = Some (n, s)"
  using leadingInt_digits [of "digits n" 0 s] digits_decimal [of n] assms by simp

lemma parse_printed_integer:
  assumes "map_of unitMap u = Some unit" and "number_next s" and "n * unit \<le> 2 ^ 63"
  shows "parse_unit (digits n @ u @ s) = Some (n * unit, s)"
proof -
  note U = unit_split [OF assms(1,2)] unit_text [OF assms(1)]
  have "n \<le> 2 ^ 63 div unit" using assms(3) U(7) by (simp add: less_eq_div_iff_mult_less_eq)
  moreover from this have "n \<le> 2 ^ 63" using div_le_dividend le_trans by blast
  ultimately show ?thesis
    using U assms(1) by (simp add: parse_unit_def printed_digits_first leadingInt_printed Let_def)
qed

lemma parse_printed_fraction:
  assumes "map_of unitMap u = Some (10 ^ p)" and "p \<le> 9" and "number_next s"
    and "frac_digits p m full ds" and "0 < m" and "m < 10 ^ p" and "n * 10 ^ p + m \<le> 2 ^ 63"
  shows "parse_unit (digits n @ CHR ''.'' # ds @ u @ s) = Some (n * 10 ^ p + m, s)"
proof -
  note U = unit_split [OF assms(1,3)] unit_text [OF assms(1)]
  let ?f = "decimal 0 ds" and ?k = "p - length ds"
  have ds: "list_all is_digit ds" "length ds \<le> p" and f: "?f * 10 ^ ?k = m"
    using assms(4) by (simp_all add: frac_digits_def)
  have p10: "(10 :: nat) ^ p \<le> 10 ^ 9" using assms(2) by (intro power_increasing) simp_all
  then have m53: "m < 2 ^ 53" using assms(6) by simp
  have "?f \<le> m" using f by (metis le_refl mult_le_mono2 nat_mult_1_right one_le_numeral one_le_power)
  then have f53: "?f < 2 ^ 53" using m53 by simp
  have "(10 :: nat) ^ ?k \<le> 10 ^ 9" using assms(2) by (intro power_increasing) simp_all
  then have k53: "(10 :: nat) ^ ?k < 2 ^ 53" by simp
  have "(10 :: nat) ^ ?k * 10 ^ length ds = 10 ^ p" using ds(2) by (simp flip: power_add)
  with fraction_part_exact [of ?f "10 ^ ?k" "10 ^ length ds"] f53 k53 m53 f
  have part: "fraction_part ?f (10 ^ p) (10 ^ length ds) = m" by simp
  have f0: "0 < ?f" using f assms(5) by (cases "?f") auto
  have frac: "leadingFraction 0 1 False (ds @ u @ s) = (?f, 10 ^ length ds, u @ s)"
    using leadingFraction_digits [OF ds(1) f53 U(3), of 1] by simp
  have "n * 10 ^ p \<le> 2 ^ 63" using assms(7) by simp
  then have "n \<le> 2 ^ 63 div 10 ^ p" using U(7) by (simp add: less_eq_div_iff_mult_less_eq)
  moreover from this have "n \<le> 2 ^ 63" using div_le_dividend le_trans by blast
  moreover have "no_digit_first (CHR ''.'' # ds @ u @ s)"
    by (simp add: no_digit_first_def is_digit_def)
  ultimately show ?thesis
    using U assms(1,7) f0
    by (simp add: parse_unit_def printed_digits_first leadingInt_printed Let_def frac part del: One_nat_def)
qed

lemma parse_printed:
  assumes "map_of unitMap u = Some (10 ^ p)" and "p \<le> 9" and "number_next s" and "v \<le> 2 ^ 63"
  shows "parse_unit (digits (snd (fmtFrac p v False [])) @ fst (fmtFrac p v False []) @ u @ s) = Some (v, s)"
proof -
  obtain ds where ds: "frac_digits p (v mod 10 ^ p) False ds"
    and run: "fmtFrac p v False [] = (if v mod 10 ^ p \<noteq> 0 then CHR ''.'' # ds else [], v div 10 ^ p)"
    using fmtFrac_correct [of False "[]" p v] by auto
  have v: "v div 10 ^ p * 10 ^ p + v mod 10 ^ p = v" by (rule div_mult_mod_eq)
  show ?thesis
  proof (cases "v mod 10 ^ p = 0")
    case True
    with parse_printed_integer [OF assms(1,3), of "v div 10 ^ p"] v run assms(4) show ?thesis by simp
  next
    case False
    with parse_printed_fraction [OF assms(1-3) ds, of "v div 10 ^ p"] v run assms(4) show ?thesis by simp
  qed
qed

lemma parse_units_step:
  assumes "parse_unit s = Some (v, s')" and "d + v \<le> 2 ^ 63"
  shows "parse_units d s = parse_units (d + v) s'"
proof -
  have "s \<noteq> []" using assms(1) by (auto simp: parse_unit_def)
  with assms show ?thesis by (simp add: parse_units.simps [of d s])
qed

lemma parse_units_done [simp]: "parse_units d [] = Some d"
  by (simp add: parse_units.simps)

lemma parse_units_one: "parse_unit s = Some (v, []) \<Longrightarrow> v \<le> 2 ^ 63 \<Longrightarrow> parse_units 0 s = Some v"
  using parse_units_step [of s v "[]" 0] by simp

lemma time_parts:
  "s = m * 60 + x \<Longrightarrow> m = h * 60 + y \<Longrightarrow>
     h * 3600000000000 + y * 60000000000 + (x * 10 ^ 9 + r) = s * 10 ^ 9 + (r :: nat)"
  by simp

lemma parse_printed_seconds:
  assumes "u \<le> 2 ^ 63" shows "parse_units 0 (format_seconds u) = Some u"
proof -
  define s where "s = u div 10 ^ 9"
  define r where "r = u mod 10 ^ 9"
  let ?m = "s div 60" and ?h = "s div 60 div 60"
  have u: "u = s * 10 ^ 9 + r" by (simp add: s_def r_def)
  have time: "?h * 3600000000000 + ?m mod 60 * 60000000000 + (s mod 60 * 10 ^ 9 + r) = u"
    unfolding u by (rule time_parts) simp_all
  obtain ds where ds: "frac_digits 9 r False ds"
    and run: "fmtFrac 9 u False [] = (if r \<noteq> 0 then CHR ''.'' # ds else [], s)"
    using fmtFrac_correct [of False "[]" 9 u] by (auto simp: s_def r_def)
  let ?secs = "digits (s mod 60) @ (if r \<noteq> 0 then CHR ''.'' # ds else []) @ ''s''"
  have le: "s mod 60 * 10 ^ 9 + r \<le> 2 ^ 63" using time assms by linarith
  have secs: "parse_unit ?secs = Some (s mod 60 * 10 ^ 9 + r, [])"
  proof (cases "r = 0")
    case True
    with parse_printed_integer [of "''s''" "10 ^ 9" "[]" "s mod 60"] le show ?thesis
      by (simp add: unitMap_def number_next_def)
  next
    case False
    with parse_printed_fraction [of "''s''" 9 "[]" r False ds "s mod 60"] ds le show ?thesis
      by (simp add: unitMap_def number_next_def r_def)
  qed
  have bounds: "?m mod 60 * 60000000000 \<le> 2 ^ 63" "?h * 3600000000000 \<le> 2 ^ 63"
    using time assms by linarith+
  have mins: "parse_unit (digits (?m mod 60) @ ''m'' @ ?secs) = Some (?m mod 60 * 60000000000, ?secs)"
    using bounds by (intro parse_printed_integer) (simp_all add: unitMap_def printed_digits_first)
  have hours: "parse_unit (digits ?h @ ''h'' @ digits (?m mod 60) @ ''m'' @ ?secs) =
      Some (?h * 3600000000000, digits (?m mod 60) @ ''m'' @ ?secs)"
    using bounds by (intro parse_printed_integer) (simp_all add: unitMap_def printed_digits_first)
  have "parse_units d ?secs = Some (d + (s mod 60 * 10 ^ 9 + r))"
    if "d + (s mod 60 * 10 ^ 9 + r) \<le> 2 ^ 63" for d
    using parse_units_step [OF secs that] by simp
  moreover have "parse_units d (digits (?m mod 60) @ ''m'' @ ?secs) =
      parse_units (d + ?m mod 60 * 60000000000) ?secs"
    if "d + ?m mod 60 * 60000000000 \<le> 2 ^ 63" for d
    using parse_units_step [OF mins that] .
  moreover have "parse_units 0 (digits ?h @ ''h'' @ digits (?m mod 60) @ ''m'' @ ?secs) =
      parse_units (?h * 3600000000000) (digits (?m mod 60) @ ''m'' @ ?secs)"
    using parse_units_step [OF hours, of 0] time assms by simp
  ultimately show ?thesis
    using time assms run by (auto simp: format_seconds_def Let_def)
qed

lemma ParseDuration_positive:
  assumes "number_next s" and "s \<noteq> []" and "s \<noteq> ''0''" and "parse_units 0 s = Some u"
  shows "u \<le> 2 ^ 63 - 1 \<Longrightarrow> ParseDuration s = Some (word_of_nat u)"
    and "ParseDuration (CHR ''-'' # s) = Some (- word_of_nat u)"
proof -
  from assms(1,2) obtain c cs where s: "s = c # cs" and "is_digit c"
    by (cases s) (auto simp: number_next_def)
  moreover from this have "c \<noteq> CHR ''-''" and "c \<noteq> CHR ''+''" by (auto simp: is_digit_def)
  ultimately show "u \<le> 2 ^ 63 - 1 \<Longrightarrow> ParseDuration s = Some (word_of_nat u)"
    and "ParseDuration (CHR ''-'' # s) = Some (- word_of_nat u)"
    using assms(3,4) by (auto simp: ParseDuration_def Let_def)
qed

lemma Duration_text_parsed:
  assumes "u \<le> 2 ^ 63"
  shows "parse_units 0 (Duration_text u) = Some u" and "number_next (Duration_text u)"
    and "last (Duration_text u) = CHR ''s''" and "Duration_text u \<noteq> []"
proof -
  have zero: "''0s'' = digits 0 @ ''s'' @ []" by code_simp
  have frac: "parse_units 0 (format_fraction p u unit) = Some u"
    if "map_of unitMap unit = Some (10 ^ p)" "p \<le> 9" for p unit
    using parse_printed [OF that, of "[]" u] assms
    by (intro parse_units_one) (simp_all add: format_fraction_def case_prod_beta number_next_def)
  show "parse_units 0 (Duration_text u) = Some u"
    using parse_units_one [OF parse_printed_integer [of "''s''" "10 ^ 9" "[]" 0]]
      frac [of "''ns''" 0] frac [of "[CHR 0xC2, CHR 0xB5, CHR ''s'']" 3] frac [of "''ms''" 6]
      parse_printed_seconds [OF assms]
    by (simp add: Duration_text_def zero [symmetric, simplified] unitMap_def number_next_def)
  show "number_next (Duration_text u)" and "last (Duration_text u) = CHR ''s''"
    and "Duration_text u \<noteq> []"
    using printed_digits_first(2)
    by (auto simp: Duration_text_def zero format_fraction_def format_seconds_def case_prod_beta Let_def)
qed

lemma uint_of_signed: "uint (d :: int64) = sint d mod 2 ^ 64"
  using uint_word_of_int [of "sint d", where 'a = 64] by simp

lemma magnitude_bounds:
  shows "sint (d :: int64) < 0 \<Longrightarrow> unat (- d) \<le> 2 ^ 63" and "\<not> sint d < 0 \<Longrightarrow> unat d \<le> 2 ^ 63 - 1"
proof -
  note range = sint_in_range [of d]
  show "unat d \<le> 2 ^ 63 - 1" if "\<not> sint d < 0"
    using that range uint_of_signed [of d] by (simp add: unat_eq_nat_uint)
  show "unat (- d) \<le> 2 ^ 63" if "sint d < 0"
  proof -
    have "uint (- d) = - sint d mod 2 ^ 64"
      using uint_word_of_int [of "- sint d", where 'a = 64] by simp
    with that range show ?thesis by (simp add: unat_eq_nat_uint)
  qed
qed

text \<open>A printed duration is parsed to the duration it was printed from.\<close>

lemma ParseDuration_String: "ParseDuration (Duration_String d) = Some d"
proof -
  have long: "Duration_text u \<noteq> ''0''" if "u \<le> 2 ^ 63" for u
    using Duration_text_parsed(3) [OF that] by auto
  show ?thesis
  proof (cases "sint d < 0")
    case True
    note u = magnitude_bounds(1) [OF True]
    have "Duration_String d = CHR ''-'' # Duration_text (unat (- d))"
      using True by (simp add: Duration_String_def)
    with ParseDuration_positive(2) [OF Duration_text_parsed(2,4) long Duration_text_parsed(1), OF u u u u]
    show ?thesis by simp
  next
    case False
    note u = magnitude_bounds(2) [OF False]
    then have le: "unat d \<le> 2 ^ 63" by simp
    have "Duration_String d = Duration_text (unat d)"
      using False by (simp add: Duration_String_def)
    with ParseDuration_positive(1) [OF Duration_text_parsed(2,4) long Duration_text_parsed(1),
        OF le le le le u] show ?thesis by simp
  qed
qed

end
