(* ===== verification/Administration_Http.thy ===== *)
theory Administration_Http
  imports Administration Http Durations
begin

text \<open>
  The administration interface over HTTP (\<open>internal/administration/adapters/http\<close>), without the
  scenarios: the virtual clock and the providers (\<open>handler.go\<close>), the timeline, diagnostics and runtime
  history of a payment, and the deliveries of a webhook job. Every route asks for the bearer token.

  A formatted instant is \<open>JTime\<close>, as in the documents that \<open>encoding/json\<close> writes. \<open>render\<close> is the text
  of an error.
\<close>

section \<open>Answers with an instant\<close>

text \<open>
  \<open>WriteJSON\<close> ignores the error of the encoder: an answer that holds an instant that JSON cannot carry
  has its status and no body.
\<close>

definition WriteJSON_if :: "bool \<Rightarrow> int \<Rightarrow> json \<Rightarrow> http_response" where
  "WriteJSON_if encodable status v =
     (if encodable then WriteJSON [] status v else (WriteJSON [] status v)\<lparr>rs_Body := NoBytes\<rparr>)"

lemma WriteJSON_if_status [simp]: "rs_Status (WriteJSON_if b n v) = n"
  by (simp add: WriteJSON_if_def WriteJSON_def)

section \<open>The clock and the providers\<close>

record 's administration_handler =
  an_now :: "'s \<Rightarrow> time"
  an_advance :: "duration \<Rightarrow> ('s, error, time) proc"
  an_ids :: "string list"
  an_text :: "error \<Rightarrow> string"

text \<open>The clock is given by what it reads and by what its \<open>TimeAdvancer\<close> does.\<close>

definition Administration_NewHandler ::
  "(error \<Rightarrow> string) \<Rightarrow> (('s \<Rightarrow> time) \<times> (duration \<Rightarrow> ('s, error, time) proc)) option \<Rightarrow>
     string list option \<Rightarrow> administration_error + 's administration_handler" where
  "Administration_NewHandler render clock registry =
     (case clock of
        None \<Rightarrow> Inl ErrNilClock
      | Some (now, advance) \<Rightarrow>
          (case registry of
             None \<Rightarrow> Inl ErrNilRegistry
           | Some ids \<Rightarrow> Inr \<lparr>an_now = now, an_advance = advance, an_ids = ids, an_text = render\<rparr>))"

definition time_response :: "time \<Rightarrow> http_response" where
  "time_response t = WriteJSON_if (time_in_range t) 200 (JObj [(''current'', JTime t)])"

definition getTime :: "'s administration_handler \<Rightarrow> 's handler" where
  "getTime h cx rq s = (time_response (an_now h s), s)"

definition Administration_decodeJSON ::
  "(string \<Rightarrow> json \<Rightarrow> 'a \<Rightarrow> 'a option) \<Rightarrow> 'a \<Rightarrow> http_req \<Rightarrow> http_response + 'a" where
  "Administration_decodeJSON member zero rq =
     (if \<not> has_prefix (header_get (rq_Header rq) ''Content-Type'') ''application/json''
        then Inl (WriteError [] 415 ''unsupported_media_type'' ''Content-Type must be application/json'')
      else (case rq_Body rq of
        None \<Rightarrow> Inl (WriteError [] 400 ''invalid_request'' ''invalid JSON request body'')
      | Some body \<Rightarrow>
          mapErr (WriteError [] 400 ''invalid_request'') (decode_document (json_struct member zero) body)))"

definition advance_member :: "string \<Rightarrow> json \<Rightarrow> string \<Rightarrow> string option" where
  "advance_member k v by = (if names k ''by'' then json_string by v else None)"

definition administration_error_status :: "error \<Rightarrow> int \<times> string" where
  "administration_error_status e =
     (if errors_Is e (Clock ErrInvalidAdvance) \<or> errors_Is e (Clock ErrBackwardAdvance)
        then (409, ''time_advance_rejected'')
      else (500, ''internal_error''))"

definition writeAdministrationError :: "'s administration_handler \<Rightarrow> error \<Rightarrow> http_response" where
  "writeAdministrationError h e =
     WriteError [] (fst (administration_error_status e)) (snd (administration_error_status e)) (an_text h e)"

definition advanceTime :: "'s administration_handler \<Rightarrow> 's handler" where
  "advanceTime h cx rq s =
     (case Administration_decodeJSON advance_member [] rq of
        Inl resp \<Rightarrow> (resp, s)
      | Inr by \<Rightarrow>
          (case ParseDuration by of
             None \<Rightarrow> (WriteError [] 400 ''invalid_request'' ''by must be a positive duration'', s)
           | Some d \<Rightarrow>
               if sint d \<le> 0
                 then (WriteError [] 400 ''invalid_request'' ''by must be a positive duration'', s)
               else (case an_advance h d s of
                   (Inl e, s') \<Rightarrow> (writeAdministrationError h e, s')
                 | (Inr t, s') \<Rightarrow> (time_response t, s'))))"

definition listProviders :: "'s administration_handler \<Rightarrow> 's handler" where
  "listProviders h cx rq s =
     (WriteJSON [] 200 (JObj [(''providers'', JArr (map JStr (an_ids h)))]), s)"

definition Administration_Register ::
  "'s administration_handler \<Rightarrow> string \<Rightarrow> 's server \<Rightarrow> api_error + 's server" where
  "Administration_Register h token sv =
     bindR (HandleAdmin ''GET'' ''/admin/time'' (getTime h) token sv) (\<lambda>sv.
     bindR (HandleAdmin ''POST'' ''/admin/time/advance'' (advanceTime h) token sv) (\<lambda>sv.
       HandleAdmin ''GET'' ''/admin/providers'' (listProviders h) token sv))"

section \<open>Payments and events\<close>

text \<open>\<open>omitempty\<close> leaves out a zero.\<close>

definition omit_zero :: "string \<Rightarrow> uint64 \<Rightarrow> (string \<times> json) list" where
  "omit_zero name n = (if n = 0 then [] else [(name, JNum (uint n))])"

definition omit_empty :: "string \<Rightarrow> string \<Rightarrow> (string \<times> json) list" where
  "omit_empty name t = (if t = [] then [] else [(name, JStr t)])"

definition newTimelinePaymentResponse :: "payment \<Rightarrow> json" where
  "newTimelinePaymentResponse p =
     JObj [(''id'', JStr (p_id p)), (''amount'', JNum (sint (money_amount (p_amount p)))),
       (''currency'', JStr (money_currency (p_amount p))), (''status'', JStr (status_text (p_status p))),
       (''authorized_amount'', JNum (sint (money_amount (AuthorizedAmount p)))),
       (''captured_amount'', JNum (sint (money_amount (CapturedAmount p)))),
       (''refunded_amount'', JNum (sint (money_amount (RefundedAmount p)))),
       (''version'', JNum (uint (p_version p)))]"

definition timeline_event_response :: "business_event \<Rightarrow> json" where
  "timeline_event_response e =
     JObj ([(''id'', JStr (be_id e)), (''aggregate_id'', JStr (be_aggregateID e)),
        (''type'', JStr (event_text (be_eventType e))), (''occurred_at'', JTime (be_occurredAt e)),
        (''aggregate_version'', JNum (uint (be_aggregateVersion e))),
        (''correlation_id'', JStr (be_correlationID e)), (''causation_id'', JStr (be_causationID e))] @
       omit_zero ''runtime_sequence'' (be_runtimeSequence e))"

definition timeline_error_status :: "error \<Rightarrow> int \<times> string" where
  "timeline_error_status e =
     (if errors_Is e (PaymentApp ErrPaymentNotFound) then (404, ''payment_not_found'')
      else (500, ''internal_error''))"

definition writeTimelineError :: "(error \<Rightarrow> string) \<Rightarrow> error \<Rightarrow> http_response" where
  "writeTimelineError render e =
     WriteError [] (fst (timeline_error_status e)) (snd (timeline_error_status e)) (render e)"

section \<open>The timeline\<close>

record ('s, 'h) timeline_handler =
  th_timeline :: "('s, 'h) timeline"
  th_text :: "error \<Rightarrow> string"

definition NewTimelineHandler ::
  "(error \<Rightarrow> string) \<Rightarrow> ('s, 'h) payment_repository option \<Rightarrow> 's event_reader option \<Rightarrow>
     error + ('s, 'h) timeline_handler" where
  "NewTimelineHandler render payments events =
     bindR (NewTimeline payments events) (\<lambda>t. Inr \<lparr>th_timeline = t, th_text = render\<rparr>)"

definition timelinePaymentID :: "string \<Rightarrow> string option" where
  "timelinePaymentID path = path_action_id ''/admin/payments/'' ''timeline'' path"

definition getTimeline :: "('s, 'h) timeline_handler \<Rightarrow> 's handler" where
  "getTimeline h cx rq s =
     (case timelinePaymentID (rq_Path rq) of
        None \<Rightarrow> (WriteError [] 404 ''not_found'' ''payment timeline route not found'', s)
      | Some i \<Rightarrow>
          (case Timeline_Execute (th_timeline h) cx i s of
             (Inl e, s') \<Rightarrow> (writeTimelineError (th_text h) e, s')
           | (Inr t, s') \<Rightarrow>
               (WriteJSON [] 200 (JObj
                  [(''payment'',
                    newTimelinePaymentResponse (rp_value (tl_payments (th_timeline h)) (pt_Payment t) s')),
                   (''events'', JArr (map timeline_event_response (pt_Events t)))]), s')))"

definition Timeline_Register :: "('s, 'h) timeline_handler \<Rightarrow> string \<Rightarrow> 's server \<Rightarrow> api_error + 's server" where
  "Timeline_Register h token sv =
     HandleAdminPrefix ''GET'' ''/admin/payments/'' (getTimeline h) token sv"

section \<open>Diagnostics\<close>

record ('s, 'h) diagnostics_handler =
  dh_diagnostics :: "('s, 'h) diagnostics"
  dh_text :: "error \<Rightarrow> string"

definition NewDiagnosticsHandler ::
  "(error \<Rightarrow> string) \<Rightarrow> ('s, 'h) payment_repository option \<Rightarrow> 's event_reader option \<Rightarrow>
     ('s \<Rightarrow> time) option \<Rightarrow> string list option \<Rightarrow> error + ('s, 'h) diagnostics_handler" where
  "NewDiagnosticsHandler render payments events clock providers =
     bindR (NewDiagnostics payments events clock providers) (\<lambda>d.
       Inr \<lparr>dh_diagnostics = d, dh_text = render\<rparr>)"

definition diagnosticsPaymentID :: "string \<Rightarrow> string option" where
  "diagnosticsPaymentID path = path_id ''/admin/diagnostics/payments/'' path"

definition diagnostics_event_response :: "business_event \<Rightarrow> json" where
  "diagnostics_event_response e =
     JObj [(''id'', JStr (be_id e)), (''aggregate_id'', JStr (be_aggregateID e)),
       (''type'', JStr (event_text (be_eventType e))), (''occurred_at'', JTime (be_occurredAt e)),
       (''aggregate_version'', JNum (uint (be_aggregateVersion e))),
       (''correlation_id'', JStr (be_correlationID e)), (''causation_id'', JStr (be_causationID e))]"

definition writeDiagnosticsError :: "(error \<Rightarrow> string) \<Rightarrow> error \<Rightarrow> http_response" where
  "writeDiagnosticsError render e =
     (if errors_Is e (PaymentApp ErrPaymentNotFound)
        then WriteError [] 404 ''payment_not_found'' (render e)
      else WriteError [] 500 ''internal_error'' (render e))"

definition getDiagnostics :: "('s, 'h) diagnostics_handler \<Rightarrow> 's handler" where
  "getDiagnostics h cx rq s =
     (case diagnosticsPaymentID (rq_Path rq) of
        None \<Rightarrow> (WriteError [] 404 ''not_found'' ''diagnostics route not found'', s)
      | Some i \<Rightarrow>
          (case Diagnostics_Execute (dh_diagnostics h) cx i s of
             (Inl e, s') \<Rightarrow> (writeDiagnosticsError (dh_text h) e, s')
           | (Inr d, s') \<Rightarrow>
               (WriteJSON [] 200 (JObj
                  [(''payment'',
                    newTimelinePaymentResponse
                      (rp_value (tl_payments (dg_timeline (dh_diagnostics h))) (pt_Payment (pd_Timeline d)) s')),
                   (''events'', JArr (map diagnostics_event_response (pt_Events (pd_Timeline d)))),
                   (''current_time'', JTime (pd_CurrentTime d)),
                   (''providers'', JArr (map JStr (pd_ProviderIDs d)))]), s')))"

definition Diagnostics_Register ::
  "('s, 'h) diagnostics_handler \<Rightarrow> string \<Rightarrow> 's server \<Rightarrow> api_error + 's server" where
  "Diagnostics_Register h token sv =
     HandleAdminPrefix ''GET'' ''/admin/diagnostics/payments/'' (getDiagnostics h) token sv"

section \<open>The deliveries of a webhook job\<close>

text \<open>The text of an attempt's error is \<open>''\<close> when there is none.\<close>

definition newWebhookAttemptResponse :: "(error \<Rightarrow> string) \<Rightarrow> delivery_attempt \<Rightarrow> json" where
  "newWebhookAttemptResponse render a =
     JObj ([(''attempt'', JNum (uint (da_Attempt a))), (''endpoint_id'', JStr (da_EndpointID a)),
        (''correlation_id'', JStr (da_CorrelationID a)), (''causation_id'', JStr (da_CausationID a)),
        (''outcome'', JStr (delivery_text (da_Outcome a))), (''http_status'', JNum (da_HTTPStatus a))] @
       (case da_Error a of None \<Rightarrow> [] | Some e \<Rightarrow> omit_empty ''error'' (render e)) @
       omit_zero ''runtime_sequence'' (da_RuntimeSequence a))"

record 's webhook_audit_handler =
  ah_audit :: "'s delivery_reader"
  ah_text :: "error \<Rightarrow> string"

definition NewWebhookAuditHandler ::
  "(error \<Rightarrow> string) \<Rightarrow> 's delivery_reader option \<Rightarrow> error + 's webhook_audit_handler" where
  "NewWebhookAuditHandler render reader =
     bindR (NewWebhookAudit reader) (\<lambda>r. Inr \<lparr>ah_audit = r, ah_text = render\<rparr>)"

definition webhookAuditJobID :: "string \<Rightarrow> string option" where
  "webhookAuditJobID path = path_action_id ''/admin/webhook-jobs/'' ''deliveries'' path"

definition getAudit :: "'s webhook_audit_handler \<Rightarrow> 's handler" where
  "getAudit h cx rq s =
     (case webhookAuditJobID (rq_Path rq) of
        None \<Rightarrow> (WriteError [] 404 ''not_found'' ''webhook audit route not found'', s)
      | Some i \<Rightarrow>
          (case WebhookAudit_Execute (ah_audit h) cx i s of
             (Inl e, s') \<Rightarrow> (WriteError [] 500 ''internal_error'' (ah_text h e), s')
           | (Inr attempts, s') \<Rightarrow>
               (WriteJSON [] 200 (JObj
                  [(''job_id'', JStr i),
                   (''attempts'', JArr (map (newWebhookAttemptResponse (ah_text h)) attempts))]), s')))"

definition WebhookAudit_Register :: "'s webhook_audit_handler \<Rightarrow> string \<Rightarrow> 's server \<Rightarrow> api_error + 's server" where
  "WebhookAudit_Register h token sv =
     HandleAdminPrefix ''GET'' ''/admin/webhook-jobs/'' (getAudit h) token sv"

section \<open>The runtime history\<close>

record 's runtime_history_handler =
  hh_history :: "'s runtime_history"
  hh_text :: "error \<Rightarrow> string"

definition NewRuntimeHistoryHandler ::
  "(error \<Rightarrow> string) \<Rightarrow> 's history_transaction option \<Rightarrow> 's event_reader option \<Rightarrow>
     's job_audit_reader option \<Rightarrow> 's delivery_reader option \<Rightarrow> error + 's runtime_history_handler" where
  "NewRuntimeHistoryHandler render transaction events jobs hooks =
     bindR (NewRuntimeHistory transaction events jobs hooks) (\<lambda>h. Inr \<lparr>hh_history = h, hh_text = render\<rparr>)"

definition runtime_snapshot_response :: "job_snapshot \<Rightarrow> json" where
  "runtime_snapshot_response s =
     JObj ([(''status'', JStr (job_status_text (js_Status s))), (''attempts'', JNum (uint (js_Attempts s))),
        (''scheduled_at'', JTime (js_ScheduledAt s)), (''next_attempt_at'', JTime (js_NextAttemptAt s))] @
       omit_empty ''lease_owner'' (js_LeaseOwner s) @
       omit_zero ''runtime_sequence'' (js_RuntimeSequence s))"

definition runtime_job_response :: "(error \<Rightarrow> string) \<Rightarrow> runtime_job_history \<Rightarrow> json" where
  "runtime_job_response render j =
     JObj ([(''job_id'', JStr (rj_JobID j)), (''type'', JStr (rj_Type j))] @
       omit_empty ''aggregate_id'' (rj_AggregateID j) @ omit_empty ''causation_id'' (rj_CausationID j) @
       [(''snapshots'', JArr (map runtime_snapshot_response (rj_Snapshots j))),
        (''deliveries'', JArr (map (newWebhookAttemptResponse render) (rj_Deliveries j)))])"

definition runtimeHistoryPaymentID :: "string \<Rightarrow> string option" where
  "runtimeHistoryPaymentID path = path_id ''/admin/runtime-history/payments/'' path"

definition getHistory :: "'s runtime_history_handler \<Rightarrow> 's handler" where
  "getHistory h cx rq s =
     (case runtimeHistoryPaymentID (rq_Path rq) of
        None \<Rightarrow> (WriteError [] 404 ''not_found'' ''runtime history route not found'', s)
      | Some i \<Rightarrow>
          (case RuntimeHistory_Execute (hh_history h) cx i s of
             (Inl e, s') \<Rightarrow> (writeTimelineError (hh_text h) e, s')
           | (Inr x, s') \<Rightarrow>
               (WriteJSON [] 200 (JObj
                  [(''payment'', newTimelinePaymentResponse (ru_Payment x)),
                   (''events'', JArr (map timeline_event_response (ru_Events x))),
                   (''jobs'', JArr (map (runtime_job_response (hh_text h)) (ru_Jobs x)))]), s')))"

definition RuntimeHistory_Register ::
  "'s runtime_history_handler \<Rightarrow> string \<Rightarrow> 's server \<Rightarrow> api_error + 's server" where
  "RuntimeHistory_Register h token sv =
     HandleAdminPrefix ''GET'' ''/admin/runtime-history/payments/'' (getHistory h) token sv"

end
