(* ===== verification/Scenario_Http.thy ===== *)
theory Scenario_Http
  imports Administration_Http
begin

text \<open>
  The scenarios of the administration interface, \<open>internal/administration/adapters/http/scenario.go\<close>:
  creation, execution and inspection over HTTP, the document of a scenario in requests and answers,
  and what it promises: the document that an answer carries, sent back, is the scenario it describes.
\<close>

section \<open>The request document\<close>

record payment_request_state =
  qp_ID :: string
  qp_Amount :: int64
  qp_Currency :: string
  qp_Status :: string
  qp_AuthorizedAmount :: int64
  qp_CapturedAmount :: int64
  qp_RefundedAmount :: int64
  qp_Version :: uint64

record scenario_command_request =
  qc_Type :: string
  qc_PaymentID :: string
  qc_Amount :: int64
  qc_Currency :: string
  qc_Duration :: string
  qc_OperationID :: string

record scenario_request =
  qs_ID :: string
  qs_Provider :: provider_configuration
  qs_InitialVirtualTime :: time
  qs_Seed :: uint64
  qs_InitialPayments :: "payment_request_state list"
  qs_Commands :: "scenario_command_request list"

text \<open>Decoding with \<open>DisallowUnknownFields\<close>: an unknown member is an error in every struct.\<close>

definition payment_request_member ::
  "string \<Rightarrow> json \<Rightarrow> payment_request_state \<Rightarrow> payment_request_state option" where
  "payment_request_member k v p =
     (if names k ''id'' then map_option (\<lambda>a. p\<lparr>qp_ID := a\<rparr>) (json_string (qp_ID p) v)
      else if names k ''amount''
        then map_option (\<lambda>a. p\<lparr>qp_Amount := a\<rparr>) (json_int64 (qp_Amount p) v)
      else if names k ''currency''
        then map_option (\<lambda>a. p\<lparr>qp_Currency := a\<rparr>) (json_string (qp_Currency p) v)
      else if names k ''status''
        then map_option (\<lambda>a. p\<lparr>qp_Status := a\<rparr>) (json_string (qp_Status p) v)
      else if names k ''authorized_amount''
        then map_option (\<lambda>a. p\<lparr>qp_AuthorizedAmount := a\<rparr>) (json_int64 (qp_AuthorizedAmount p) v)
      else if names k ''captured_amount''
        then map_option (\<lambda>a. p\<lparr>qp_CapturedAmount := a\<rparr>) (json_int64 (qp_CapturedAmount p) v)
      else if names k ''refunded_amount''
        then map_option (\<lambda>a. p\<lparr>qp_RefundedAmount := a\<rparr>) (json_int64 (qp_RefundedAmount p) v)
      else if names k ''version''
        then map_option (\<lambda>a. p\<lparr>qp_Version := a\<rparr>) (json_uint64 (qp_Version p) v)
      else None)"

definition zero_payment_request :: payment_request_state where
  "zero_payment_request =
     \<lparr>qp_ID = [], qp_Amount = 0, qp_Currency = [], qp_Status = [], qp_AuthorizedAmount = 0,
      qp_CapturedAmount = 0, qp_RefundedAmount = 0, qp_Version = 0\<rparr>"

definition command_request_member :: "string \<Rightarrow> json \<Rightarrow> scenario_command_request \<Rightarrow> scenario_command_request option" where
  "command_request_member k v c =
     (if names k ''type'' then map_option (\<lambda>a. c\<lparr>qc_Type := a\<rparr>) (json_string (qc_Type c) v)
      else if names k ''payment_id''
        then map_option (\<lambda>a. c\<lparr>qc_PaymentID := a\<rparr>) (json_string (qc_PaymentID c) v)
      else if names k ''amount''
        then map_option (\<lambda>a. c\<lparr>qc_Amount := a\<rparr>) (json_int64 (qc_Amount c) v)
      else if names k ''currency''
        then map_option (\<lambda>a. c\<lparr>qc_Currency := a\<rparr>) (json_string (qc_Currency c) v)
      else if names k ''duration''
        then map_option (\<lambda>a. c\<lparr>qc_Duration := a\<rparr>) (json_string (qc_Duration c) v)
      else if names k ''operation_id''
        then map_option (\<lambda>a. c\<lparr>qc_OperationID := a\<rparr>) (json_string (qc_OperationID c) v)
      else None)"

definition zero_command_request :: scenario_command_request where
  "zero_command_request =
     \<lparr>qc_Type = [], qc_PaymentID = [], qc_Amount = 0, qc_Currency = [], qc_Duration = [],
      qc_OperationID = []\<rparr>"

definition provider_member :: "string \<Rightarrow> json \<Rightarrow> provider_configuration \<Rightarrow> provider_configuration option" where
  "provider_member k v p =
     (if names k ''id'' then map_option (\<lambda>a. p\<lparr>pc_ID := a\<rparr>) (json_string (pc_ID p) v)
      else if names k ''profile'' then map_option (\<lambda>a. p\<lparr>pc_Profile := a\<rparr>) (json_string (pc_Profile p) v)
      else None)"

definition seed_member :: "string \<Rightarrow> json \<Rightarrow> uint64 \<Rightarrow> uint64 option" where
  "seed_member k v n = (if names k ''seed'' then json_uint64 n v else None)"

definition scenario_request_member :: "string \<Rightarrow> json \<Rightarrow> scenario_request \<Rightarrow> scenario_request option" where
  "scenario_request_member k v r =
     (if names k ''id'' then map_option (\<lambda>a. r\<lparr>qs_ID := a\<rparr>) (json_string (qs_ID r) v)
      else if names k ''provider''
        then map_option (\<lambda>a. r\<lparr>qs_Provider := a\<rparr>) (json_struct provider_member (qs_Provider r) v)
      else if names k ''initial_virtual_time''
        then map_option (\<lambda>a. r\<lparr>qs_InitialVirtualTime := a\<rparr>) (json_time (qs_InitialVirtualTime r) v)
      else if names k ''deterministic_configuration''
        then map_option (\<lambda>a. r\<lparr>qs_Seed := a\<rparr>) (json_struct seed_member (qs_Seed r) v)
      else if names k ''initial_payments''
        then map_option (\<lambda>a. r\<lparr>qs_InitialPayments := a\<rparr>)
          (json_elements (json_struct payment_request_member zero_payment_request) v)
      else if names k ''commands''
        then map_option (\<lambda>a. r\<lparr>qs_Commands := a\<rparr>)
          (json_elements (json_struct command_request_member zero_command_request) v)
      else None)"

definition zero_scenario_request :: scenario_request where
  "zero_scenario_request =
     \<lparr>qs_ID = [], qs_Provider = \<lparr>pc_ID = [], pc_Profile = []\<rparr>, qs_InitialVirtualTime = 0,
      qs_Seed = 0, qs_InitialPayments = [], qs_Commands = []\<rparr>"

definition decodeScenarioJSON :: "http_req \<Rightarrow> http_response + scenario_request" where
  "decodeScenarioJSON rq =
     (if \<not> has_prefix (header_get (rq_Header rq) ''Content-Type'') ''application/json''
        then Inl (WriteError [] 400 ''invalid_request'' ''a JSON request body is required'')
      else (case rq_Body rq of
        None \<Rightarrow> Inl (WriteError [] 400 ''invalid_request'' ''invalid JSON request body'')
      | Some body \<Rightarrow>
          mapErr (WriteError [] 400 ''invalid_request'')
            (decode_document (json_struct scenario_request_member zero_scenario_request) body)))"

section \<open>From the request to the scenario\<close>

definition mustMoney :: "int64 \<Rightarrow> string \<Rightarrow> money" where
  "mustMoney amount currency = (case NewMoney amount currency of Inl e \<Rightarrow> zero_money | Inr m \<Rightarrow> m)"

definition payment_of_request :: "payment_request_state \<Rightarrow> payment_state" where
  "payment_of_request p =
     \<lparr>ps_ID = qp_ID p, ps_Amount = mustMoney (qp_Amount p) (qp_Currency p),
      ps_Status = status_of (qp_Status p), ps_AuthorizedAmount = qp_AuthorizedAmount p,
      ps_CapturedAmount = qp_CapturedAmount p, ps_RefundedAmount = qp_RefundedAmount p,
      ps_Version = qp_Version p\<rparr>"

definition command_of_request :: "scenario_command_request \<Rightarrow> error + replay_command" where
  "command_of_request c =
     bindR (if qc_Duration c = [] then Inr 0
            else case ParseDuration (qc_Duration c) of
              None \<Rightarrow> Inl (Replay ErrInvalidCommand) | Some d \<Rightarrow> Inr d) (\<lambda>duration.
       Inr \<lparr>co_Type = command_type_of (qc_Type c), co_PaymentID = qc_PaymentID c,
            co_Amount = mustMoney (qc_Amount c) (qc_Currency c), co_Duration = duration,
            co_OperationID = qc_OperationID c\<rparr>)"

definition scenarioRequest_scenario :: "scenario_request \<Rightarrow> error + scenario" where
  "scenarioRequest_scenario r =
     bindR (traverseR command_of_request (qs_Commands r)) (\<lambda>commands.
       Scenario_New (qs_ID r) (map payment_of_request (qs_InitialPayments r)) commands (qs_Provider r)
         (qs_InitialVirtualTime r) (qs_Seed r))"

section \<open>Answers\<close>

definition json_of_provider :: "provider_configuration \<Rightarrow> json" where
  "json_of_provider p = JObj ([(''id'', JStr (pc_ID p))] @ omit_empty ''profile'' (pc_Profile p))"

definition json_of_payment :: "payment_state \<Rightarrow> json" where
  "json_of_payment p =
     JObj [(''id'', JStr (ps_ID p)), (''amount'', JNum (sint (money_amount (ps_Amount p)))),
       (''currency'', JStr (money_currency (ps_Amount p))), (''status'', JStr (status_text (ps_Status p))),
       (''authorized_amount'', JNum (sint (ps_AuthorizedAmount p))),
       (''captured_amount'', JNum (sint (ps_CapturedAmount p))),
       (''refunded_amount'', JNum (sint (ps_RefundedAmount p))),
       (''version'', JNum (uint (ps_Version p)))]"

definition json_of_command :: "replay_command \<Rightarrow> json" where
  "json_of_command c =
     JObj ([(''type'', JStr (command_text (co_Type c))), (''payment_id'', JStr (co_PaymentID c))] @
       (if money_amount (co_Amount c) = 0 then []
        else [(''amount'', JNum (sint (money_amount (co_Amount c))))]) @
       omit_empty ''currency'' (money_currency (co_Amount c)) @
       omit_empty ''duration'' (Duration_String (co_Duration c)) @
       omit_empty ''operation_id'' (co_OperationID c))"

definition writeScenario :: "int \<Rightarrow> scenario \<Rightarrow> http_response" where
  "writeScenario status x =
     WriteJSON_if (time_in_range (xs_InitialVirtualTime x)) status (JObj
       [(''id'', JStr (xs_ID x)), (''provider'', json_of_provider (xs_Provider x)),
        (''initial_virtual_time'', JTime (xs_InitialVirtualTime x)),
        (''deterministic_configuration'', JObj [(''seed'', JNum (uint (xs_Seed x)))]),
        (''initial_payments'', JArr (map json_of_payment (xs_InitialPayments x))),
        (''commands'', JArr (map json_of_command (xs_Commands x)))])"

definition json_of_async :: "async_operation \<Rightarrow> json" where
  "json_of_async x =
     JObj [(''ID'', JStr (ao_ID x)), (''PaymentID'', JStr (ao_PaymentID x)), (''Type'', JStr (ao_Type x)),
       (''Payload'', json_of_bytes (ao_Payload x)), (''ScheduledAt'', JTime (ao_ScheduledAt x))]"

definition execution_response :: "replay_result \<Rightarrow> http_response" where
  "execution_response r =
     WriteJSON_if
       (time_in_range (rr_CurrentVirtualTime r) \<and>
        list_all (\<lambda>x. time_in_range (ao_ScheduledAt x)) (rr_AsyncOperations r)) 200 (JObj
       [(''scenario_id'', JStr (rr_ScenarioID r)), (''provider'', json_of_provider (rr_Provider r)),
        (''deterministic_configuration'', JObj [(''seed'', JNum (uint (rr_Seed r)))]),
        (''current_virtual_time'', JTime (rr_CurrentVirtualTime r)),
        (''payments'', JArr (map json_of_payment (rr_Payments r))),
        (''async_operations'', json_slice json_of_async (rr_AsyncOperations r))])"

definition scenario_error_status :: "error \<Rightarrow> int \<times> string" where
  "scenario_error_status e =
     (if errors_Is e (Administration AdministrationErrScenarioNotFound) then (404, ''scenario_not_found'')
      else if errors_Is e (ReplayApp ErrScenarioNotFound) then (404, ''scenario_not_found'')
      else if errors_Is e (Replay ErrScenarioAlreadyExists) then (409, ''scenario_already_exists'')
      else if errors_Is e (Replay ErrInvalidScenarioID) \<or> errors_Is e (Replay ErrInvalidScenarioTime) \<or>
              errors_Is e (Replay ErrInvalidProviderConfiguration) \<or>
              errors_Is e (Replay ErrDuplicateInitialPayment) \<or> errors_Is e (Replay ErrInvalidCommand)
        then (400, ''invalid_request'')
      else (500, ''internal_error''))"

definition writeScenarioError :: "(error \<Rightarrow> string) \<Rightarrow> error \<Rightarrow> http_response" where
  "writeScenarioError render e =
     WriteError [] (fst (scenario_error_status e)) (snd (scenario_error_status e)) (render e)"

section \<open>The handler\<close>

record 's scenario_handler =
  xh_inspection :: "'s scenario_reader"
  xh_service :: "'s scenario_service option"
  xh_text :: "error \<Rightarrow> string"

definition NewScenarioHandler ::
  "(error \<Rightarrow> string) \<Rightarrow> 's scenario_reader option \<Rightarrow> 's scenario_service option \<Rightarrow>
     error + 's scenario_handler" where
  "NewScenarioHandler render repository scenarios =
     bindR (NewScenarioInspection repository) (\<lambda>inspection.
       case scenarios of
         None \<Rightarrow> Inl (Message ''scenario service is nil'')
       | Some sv \<Rightarrow> Inr \<lparr>xh_inspection = inspection, xh_service = Some sv, xh_text = render\<rparr>)"

definition createScenario :: "'s scenario_handler \<Rightarrow> 's handler" where
  "createScenario h cx rq s =
     (case xh_service h of
        None \<Rightarrow> (WriteError [] 501 ''not_implemented'' ''scenario creation is not configured'', s)
      | Some sv \<Rightarrow>
          (case decodeScenarioJSON rq of
             Inl resp \<Rightarrow> (resp, s)
           | Inr input \<Rightarrow>
               (case scenarioRequest_scenario input of
                  Inl e \<Rightarrow> (writeScenarioError (xh_text h) e, s)
                | Inr x \<Rightarrow>
                    (case ScenarioService_Create sv cx (Some x) s of
                       (Inl e, s') \<Rightarrow> (writeScenarioError (xh_text h) e, s')
                     | (Inr u, s') \<Rightarrow> (writeScenario 201 x, s')))))"

definition scenarioExecutionID :: "string \<Rightarrow> string option" where
  "scenarioExecutionID path = path_action_id ''/admin/scenarios/'' ''execute'' path"

definition executeScenario :: "'s scenario_handler \<Rightarrow> 's handler" where
  "executeScenario h cx rq s =
     (case xh_service h of
        None \<Rightarrow> (WriteError [] 501 ''not_implemented'' ''scenario execution is not configured'', s)
      | Some sv \<Rightarrow>
          (case scenarioExecutionID (rq_Path rq) of
             None \<Rightarrow> (WriteError [] 404 ''not_found'' ''scenario route not found'', s)
           | Some i \<Rightarrow>
               (case ScenarioService_Execute sv cx i s of
                  (Inl e, s') \<Rightarrow> (writeScenarioError (xh_text h) e, s')
                | (Inr r, s') \<Rightarrow> (execution_response r, s'))))"

definition scenarioID :: "string \<Rightarrow> string option" where
  "scenarioID path = path_id ''/admin/scenarios/'' path"

definition getScenario :: "'s scenario_handler \<Rightarrow> 's handler" where
  "getScenario h cx rq s =
     (case scenarioID (rq_Path rq) of
        None \<Rightarrow> (WriteError [] 404 ''not_found'' ''scenario route not found'', s)
      | Some i \<Rightarrow>
          (case ScenarioInspection_Execute (xh_inspection h) cx i s of
             (Inl e, s') \<Rightarrow> (writeScenarioError (xh_text h) e, s')
           | (Inr x, s') \<Rightarrow> (writeScenario 200 x, s')))"

definition Scenario_Register :: "'s scenario_handler \<Rightarrow> string \<Rightarrow> 's server \<Rightarrow> api_error + 's server" where
  "Scenario_Register h token sv =
     bindR (HandleAdmin ''POST'' ''/admin/scenarios'' (createScenario h) token sv) (\<lambda>sv.
     bindR (HandleAdminPrefix ''GET'' ''/admin/scenarios/'' (getScenario h) token sv) (\<lambda>sv.
       HandleAdminPrefix ''POST'' ''/admin/scenarios/'' (executeScenario h) token sv))"

text \<open>The handler of the running program.\<close>

definition runtime_scenario_handler ::
  "nat option \<Rightarrow> (nat \<Rightarrow> nat list \<Rightarrow> nat list) \<Rightarrow> (error \<Rightarrow> string) \<Rightarrow> world scenario_handler" where
  "runtime_scenario_handler remaining iterate render =
     \<lparr>xh_inspection = xr_FindByID sqlite_scenarios, xh_service = Some (runtime_scenarios remaining iterate),
      xh_text = render\<rparr>"

lemma runtime_scenario_handler_composed:
  "NewScenarioHandler render (Some (xr_FindByID sqlite_scenarios)) (Some (runtime_scenarios remaining iterate)) =
   Inr (runtime_scenario_handler remaining iterate render)"
  by (simp add: NewScenarioHandler_def NewScenarioInspection_def runtime_scenario_handler_def)

text \<open>
  An amount that \<open>NewMoney\<close> refuses is dropped, so that a command which must not carry one is accepted.
\<close>

lemma refused_amount_is_dropped:
  assumes "NewMoney a currency = Inl e" and "i \<noteq> []"
  shows "\<exists>c. command_of_request \<lparr>qc_Type = ''authorize'', qc_PaymentID = i, qc_Amount = a,
      qc_Currency = currency, qc_Duration = [], qc_OperationID = []\<rparr> = Inr c \<and>
    co_Amount c = zero_money \<and> Command_Validate c = None"
  using assms
  by (simp add: command_of_request_def mustMoney_def command_type_of_def Command_Validate_def no_amount_def
      zero_money_def)

section \<open>The document is the scenario\<close>

lemma Duration_String_not_Nil [simp]: "Duration_String d \<noteq> []"
proof
  assume "Duration_String d = []"
  with ParseDuration_String [of d] show False by (simp add: ParseDuration_def)
qed

lemma mustMoney_made:
  assumes "money_made m" shows "mustMoney (money_amount m) (money_currency m) = m"
proof -
  have "mustMoney 0 [] = zero_money" by (simp add: mustMoney_def NewMoney_def validCurrency_def)
  then show ?thesis using assms by (auto simp: money_made_def mustMoney_def zero_money_def)
qed

lemma elements_map:
  "(\<And>x. f (g x) = Some (k x)) \<Longrightarrow> json_elements f (JArr (map g xs)) = Some (map k xs)"
  by (induction xs) (simp_all add: comp_def)

definition payment_request_of :: "payment_state \<Rightarrow> payment_request_state" where
  "payment_request_of p =
     \<lparr>qp_ID = ps_ID p, qp_Amount = money_amount (ps_Amount p), qp_Currency = money_currency (ps_Amount p),
      qp_Status = status_text (ps_Status p), qp_AuthorizedAmount = ps_AuthorizedAmount p,
      qp_CapturedAmount = ps_CapturedAmount p, qp_RefundedAmount = ps_RefundedAmount p,
      qp_Version = ps_Version p\<rparr>"

definition command_request_of :: "replay_command \<Rightarrow> scenario_command_request" where
  "command_request_of c =
     \<lparr>qc_Type = command_text (co_Type c), qc_PaymentID = co_PaymentID c,
      qc_Amount = money_amount (co_Amount c), qc_Currency = money_currency (co_Amount c),
      qc_Duration = Duration_String (co_Duration c), qc_OperationID = co_OperationID c\<rparr>"

lemma payment_request_roundtrip:
  "json_struct payment_request_member zero_payment_request (json_of_payment p) = Some (payment_request_of p)"
  by (simp add: json_of_payment_def payment_request_member_def zero_payment_request_def payment_request_of_def
      names_def ascii_lower_def)

lemma command_request_roundtrip:
  "json_struct command_request_member zero_command_request (json_of_command c) = Some (command_request_of c)"
  by (simp add: json_of_command_def command_request_member_def zero_command_request_def command_request_of_def
      omit_empty_def names_def ascii_lower_def)

lemma provider_roundtrip:
  "json_struct provider_member \<lparr>pc_ID = [], pc_Profile = []\<rparr> (json_of_provider p) = Some p"
  by (simp add: json_of_provider_def provider_member_def omit_empty_def names_def ascii_lower_def)

lemma payment_of_request_of:
  assumes "PaymentState_Validate p = None" and "money_made (ps_Amount p)"
  shows "payment_of_request (payment_request_of p) = p"
proof -
  have "Status_Valid (ps_Status p)"
    using assms(1) by (auto simp: PaymentState_Validate_def split: if_splits)
  then show ?thesis
    using assms(2) by (simp add: payment_of_request_def payment_request_of_def status_of_text mustMoney_made)
qed

lemma command_of_request_of:
  assumes "Command_Validate c = None" and "money_made (co_Amount c)"
  shows "command_of_request (command_request_of c) = Inr c"
proof -
  have "CommandType_Valid (co_Type c)"
    using assms(1) by (auto simp: Command_Validate_def split: if_splits)
  then show ?thesis
    using assms(2)
    by (simp add: command_of_request_def command_request_of_def command_type_of_text mustMoney_made
        ParseDuration_String)
qed

text \<open>What is written of a scenario is read as that scenario.\<close>

lemma scenario_document_read:
  assumes "Scenario_Validate x = None" and "scenario_made x" and "rs_Body (writeScenario n x) \<noteq> NoBytes"
    and "has_prefix (header_get (rq_Header rq) ''Content-Type'') ''application/json''"
    and "rq_Body rq = Some (rs_Body (writeScenario n x))"
  shows "\<exists>input. decodeScenarioJSON rq = Inr input \<and> scenarioRequest_scenario input = Inr x"
proof -
  let ?input = "\<lparr>qs_ID = xs_ID x, qs_Provider = xs_Provider x,
      qs_InitialVirtualTime = xs_InitialVirtualTime x, qs_Seed = xs_Seed x,
      qs_InitialPayments = map payment_request_of (xs_InitialPayments x),
      qs_Commands = map command_request_of (xs_Commands x)\<rparr>"
  have "json_elements (json_struct payment_request_member zero_payment_request)
      (JArr (map json_of_payment (xs_InitialPayments x))) = Some (map payment_request_of (xs_InitialPayments x))"
    by (rule elements_map) (rule payment_request_roundtrip)
  moreover have "json_elements (json_struct command_request_member zero_command_request)
      (JArr (map json_of_command (xs_Commands x))) = Some (map command_request_of (xs_Commands x))"
    by (rule elements_map) (rule command_request_roundtrip)
  ultimately have "decodeScenarioJSON rq = Inr ?input"
    using assms(3-5)
    by (auto simp: decodeScenarioJSON_def decode_document_def writeScenario_def WriteJSON_if_def WriteJSON_def
        scenario_request_member_def zero_scenario_request_def seed_member_def provider_roundtrip
        names_def ascii_lower_def split: if_splits)
  moreover have "map payment_of_request (map payment_request_of (xs_InitialPayments x)) = xs_InitialPayments x"
    using assms(1,2) by (simp add: Scenario_Validate_None scenario_made_def payment_of_request_of map_idI)
  moreover have "traverseR command_of_request (map command_request_of (xs_Commands x)) = Inr (xs_Commands x)"
    using assms(1,2) by (intro traverseR_map command_of_request_of)
      (auto simp: Scenario_Validate_None scenario_made_def)
  ultimately show ?thesis
    using assms(1) by (intro exI [of _ ?input]) (simp add: scenarioRequest_scenario_def Scenario_New_Inr_iff)
qed

section \<open>What an answer describes\<close>

lemma getScenario_found:
  assumes "getScenario (runtime_scenario_handler remaining iterate render) cx rq w = (resp, w1)"
    and "rs_Status resp = 200"
  obtains i x where "scenarioID (rq_Path rq) = Some i" and "recorded_scenarios w i = Some x"
    and "resp = writeScenario 200 x"
proof -
  have no: "rs_Status (WriteError [] 404 a b) \<noteq> 200" "rs_Status (writeScenarioError t e) \<noteq> 200" for a b t e
    by (simp_all add: WriteError_def WriteJSON_def writeScenarioError_def scenario_error_status_def)
  obtain i where i: "scenarioID (rq_Path rq) = Some i"
    using assms no by (auto simp: getScenario_def split: option.splits)
  obtain x where x: "ScenarioInspection_Execute (ScenarioRepository_FindByID) cx i w = (Inr x, w1)"
    and resp: "resp = writeScenario 200 x"
    using assms no i
    by (auto simp: getScenario_def runtime_scenario_handler_def split: prod.splits sum.splits)
  have "recorded_scenarios w i = Some x"
    using x sqlite_store.find_ok [of cx i w]
    by (auto simp: ScenarioInspection_Execute_def elim!: bindP_InrE split: option.splits)
  with i resp that show ?thesis by blast
qed

lemma getScenario_recorded:
  assumes "w_faults w = []" and "recorded_scenarios w i = Some x" and "scenarioID (rq_Path rq) = Some i"
  shows "getScenario (runtime_scenario_handler remaining iterate render) cx rq w = (writeScenario 200 x, w)"
proof -
  have "ScenarioRepository_FindByID cx i w = (Inr (Some x), w)"
    using assms(1,2)
    by (auto simp: recorded_scenarios_def ScenarioRepository_FindByID_def bindP_apply split: option.splits sum.splits)
  then show ?thesis
    using assms(3) recorded_scenarios_made [OF assms(2)]
    by (simp add: getScenario_def runtime_scenario_handler_def ScenarioInspection_Execute_def bindP_apply)
qed

lemma create_reliable:
  assumes "Scenario_Validate x = None" and "scenario_made x" and "time_in_range (xs_InitialVirtualTime x)"
    and "w_faults w = []"
  shows "if row_at xr_id (xs_ID x) (t_replay_scenarios (w_db w)) = None
    then \<exists>w'. ScenarioService_Create (runtime_scenarios remaining iterate) cx (Some x) w = (Inr (), w') \<and>
           recorded_scenarios w' = (recorded_scenarios w)(xs_ID x \<mapsto> x)
    else ScenarioService_Create (runtime_scenarios remaining iterate) cx (Some x) w =
           (Inl (Replay ErrScenarioAlreadyExists), w)"
proof -
  let ?run = "ScenarioService_Create (runtime_scenarios remaining iterate) cx (Some x) w"
  have save: "?run = ScenarioRepository_Save cx (Some x) w"
    using assms(1) by (simp add: ScenarioService_Create_def runtime_scenarios_def)
  obtain payload where m: "Marshal_scenario (toRecord x) = Inr payload"
    using assms(3) by (simp add: Marshal_scenario_def toRecord_def)
  show ?thesis
  proof (cases "row_at xr_id (xs_ID x) (t_replay_scenarios (w_db w))")
    case None
    then have "fst ?run = Inr ()"
      using assms(1,4) m unfolding save
      by (simp add: ScenarioRepository_Save_def insert_scenario_def bindP_apply)
    then have run: "?run = (Inr (), snd ?run)" by (simp add: prod_eq_iff)
    then have "xr_Save sqlite_scenarios cx (Some x) w = (Inr (), snd ?run)" using save by simp
    then have "recorded_scenarios (snd ?run) = (recorded_scenarios w)(xs_ID x \<mapsto> x)"
      using sqlite_store.save_ok assms(2) by blast
    with None run show ?thesis by auto
  next
    case (Some row)
    then show ?thesis
      using assms(1,4) m unfolding save
      by (cases w) (simp add: ScenarioRepository_Save_def insert_scenario_def bindP_apply)
  qed
qed

text \<open>
  C36. A scenario that the administration interface shows can be sent back: the document of a
  successful answer, posted to any other instance of the program on a database that does not fail, is
  taken as exactly that scenario. It is created, and the same document answered with 201, if its
  identity is free there; otherwise the answer is 409 and nothing changes. Durations, which the
  document carries as text, are among what is preserved.
\<close>

theorem shown_scenario_recreates:
  assumes "getScenario (runtime_scenario_handler remaining iterate render) cx rq w = (shown, w1)"
    and "rs_Status shown = 200" and "rs_Body shown \<noteq> NoBytes"
    and "has_prefix (header_get (rq_Header rq') ''Content-Type'') ''application/json''"
    and "rq_Body rq' = Some (rs_Body shown)" and "w_faults w2 = []"
  shows "\<exists>i x. scenarioID (rq_Path rq) = Some i \<and> recorded_scenarios w i = Some x \<and>
    (if row_at xr_id (xs_ID x) (t_replay_scenarios (w_db w2)) = None
     then \<exists>w3. createScenario (runtime_scenario_handler remaining' iterate' render') cx' rq' w2 =
              (shown\<lparr>rs_Status := 201\<rparr>, w3) \<and>
            recorded_scenarios w3 = (recorded_scenarios w2)(xs_ID x \<mapsto> x)
     else \<exists>answer. createScenario (runtime_scenario_handler remaining' iterate' render') cx' rq' w2 =
              (answer, w2) \<and> rs_Status answer = 409)"
proof -
  obtain i x where i: "scenarioID (rq_Path rq) = Some i" and x: "recorded_scenarios w i = Some x"
    and shown: "shown = writeScenario 200 x"
    using getScenario_found [OF assms(1,2)] .
  note made = recorded_scenarios_made [OF x]
  have "\<exists>input. decodeScenarioJSON rq' = Inr input \<and> scenarioRequest_scenario input = Inr x"
    using scenario_document_read [of x 200 rq'] made assms(3-5) shown by simp
  then obtain input where input: "decodeScenarioJSON rq' = Inr input" "scenarioRequest_scenario input = Inr x"
    by blast
  have "time_in_range (xs_InitialVirtualTime x)"
    using assms(3) shown by (auto simp: writeScenario_def WriteJSON_if_def split: if_splits)
  note create = create_reliable [OF conjunct1 [OF made] conjunct2 [OF made] this assms(6), of remaining' iterate' cx']
  have "writeScenario 201 x = shown\<lparr>rs_Status := 201\<rparr>"
    by (simp add: shown writeScenario_def WriteJSON_if_def WriteJSON_def)
  then have "if row_at xr_id (xs_ID x) (t_replay_scenarios (w_db w2)) = None
     then \<exists>w3. createScenario (runtime_scenario_handler remaining' iterate' render') cx' rq' w2 =
              (shown\<lparr>rs_Status := 201\<rparr>, w3) \<and>
            recorded_scenarios w3 = (recorded_scenarios w2)(xs_ID x \<mapsto> x)
     else \<exists>answer. createScenario (runtime_scenario_handler remaining' iterate' render') cx' rq' w2 =
              (answer, w2) \<and> rs_Status answer = 409"
    using create input
    by (auto simp: createScenario_def runtime_scenario_handler_def writeScenarioError_def WriteError_def
        WriteJSON_def scenario_error_status_def split: if_splits)
  with i x show ?thesis by blast
qed

text \<open>The sample scenario has a command with a duration; it is created, shown, and sent to a fresh program.\<close>

definition sample_get :: http_req where
  "sample_get = \<lparr>rq_Method = ''GET'', rq_Path = ''/admin/scenarios/s1'', rq_EscapedPath = ''/admin/scenarios/s1'',
      rq_RawQuery = [], rq_Header = [], rq_Body = Some NoBytes\<rparr>"

definition sample_post :: "bytes \<Rightarrow> http_req" where
  "sample_post body =
     \<lparr>rq_Method = ''POST'', rq_Path = ''/admin/scenarios'', rq_EscapedPath = ''/admin/scenarios'', rq_RawQuery = [],
      rq_Header = [(''Content-Type'', [''application/json''])], rq_Body = Some body\<rparr>"

theorem shown_scenario_recreates_witness:
  "\<exists>w w3. recorded_scenarios w ''s1'' = Some sample_scenario \<and>
     (let shown = fst (getScenario (runtime_scenario_handler None (\<lambda>n xs. xs) (\<lambda>e. [])) background sample_get w)
      in createScenario (runtime_scenario_handler None (\<lambda>n xs. xs) (\<lambda>e. [])) background
           (sample_post (rs_Body shown)) fresh_world = (shown\<lparr>rs_Status := 201\<rparr>, w3))"
proof -
  let ?h = "runtime_scenario_handler None (\<lambda>n xs. xs) (\<lambda>e. [])"
  let ?w = "snd (ScenarioRepository_Save background (Some sample_scenario) fresh_world)"
  let ?got = "getScenario ?h background sample_get ?w"
  have "fst (ScenarioRepository_Save background (Some sample_scenario) fresh_world) = Inr () \<and> w_faults ?w = []"
    by code_simp
  then have saved: "fst (ScenarioRepository_Save background (Some sample_scenario) fresh_world) = Inr ()"
    and f: "w_faults ?w = []" by simp_all
  have "xr_Save sqlite_scenarios background (Some sample_scenario) fresh_world = (Inr (), ?w)"
    using saved by (simp add: prod_eq_iff)
  from sqlite_store.save_ok [OF this sample_scenario_made]
  have rec: "recorded_scenarios ?w ''s1'' = Some sample_scenario" by (simp add: sample_scenario_def)
  have "scenarioID (rq_Path sample_get) = Some ''s1''" by code_simp
  note shown = getScenario_recorded [OF f rec this, of None "\<lambda>n xs. xs" "\<lambda>e. []" background]
  have "time_in_range (xs_InitialVirtualTime sample_scenario)" by code_simp
  then have got: "rs_Status (fst ?got) = 200" "rs_Body (fst ?got) \<noteq> NoBytes"
    unfolding shown by (simp_all add: writeScenario_def WriteJSON_if_def WriteJSON_def)
  let ?rq = "sample_post (rs_Body (fst ?got))"
  have "has_prefix (header_get (rq_Header ?rq) ''Content-Type'') ''application/json''"
    unfolding sample_post_def http_req.select_convs by code_simp
  moreover have "rq_Body ?rq = Some (rs_Body (fst ?got))" "w_faults fresh_world = []"
    by (simp_all add: sample_post_def fresh_world_def)
  ultimately have "\<exists>i x. scenarioID (rq_Path sample_get) = Some i \<and> recorded_scenarios ?w i = Some x \<and>
    (if row_at xr_id (xs_ID x) (t_replay_scenarios (w_db fresh_world)) = None
     then \<exists>w3. createScenario ?h background ?rq fresh_world = (fst ?got\<lparr>rs_Status := 201\<rparr>, w3) \<and>
            recorded_scenarios w3 = (recorded_scenarios fresh_world)(xs_ID x \<mapsto> x)
     else \<exists>answer. createScenario ?h background ?rq fresh_world = (answer, fresh_world) \<and> rs_Status answer = 409)"
    by (intro shown_scenario_recreates [OF prod.collapse [symmetric] got])
  moreover have "row_at xr_id j (t_replay_scenarios (w_db fresh_world)) = None" for j
    by (simp add: fresh_world_def empty_db_def)
  ultimately obtain w3 where "createScenario ?h background ?rq fresh_world = (fst ?got\<lparr>rs_Status := 201\<rparr>, w3)"
    by auto
  with rec show ?thesis unfolding Let_def by blast
qed

end
