(* ===== verification/Runtime_History.thy ===== *)
theory Runtime_History
  imports Administration Frames
begin

text \<open>
  What the runtime history of \<open>internal/administration/application/runtime_history.go\<close> is a history
  of: how the snapshots of the audit are grouped by job, and that a history that is returned shows
  the whole log, the whole audit of each job and the whole audit of its deliveries, in one state of
  the database.
\<close>

section \<open>Grouping\<close>

lemma new_group_fields [simp]: "rj_JobID (new_group s) = js_ID s" "rj_Snapshots (new_group s) = []"
  by (simp_all add: new_group_def)

lemma add_snapshot_new:
  "js_ID s \<notin> rj_JobID ` set gs \<Longrightarrow> add_snapshot s gs = gs @ [(new_group s)\<lparr>rj_Snapshots := [s]\<rparr>]"
  by (induction gs) auto

lemma add_snapshot_last:
  "js_ID s \<notin> rj_JobID ` set gs \<Longrightarrow> rj_JobID g = js_ID s \<Longrightarrow>
     add_snapshot s (gs @ [g]) = gs @ [g\<lparr>rj_Snapshots := rj_Snapshots g @ [s]\<rparr>]"
  by (induction gs) auto

definition group_of :: "job_snapshot list \<Rightarrow> runtime_job_history" where
  "group_of ss = (new_group (hd ss))\<lparr>rj_Snapshots := ss\<rparr>"

lemma group_of_fields [simp]: "rj_JobID (group_of ss) = js_ID (hd ss)" "rj_Snapshots (group_of ss) = ss"
  by (simp_all add: group_of_def)

lemma fold_add_snapshot:
  assumes "ss \<noteq> []" and "\<forall>s \<in> set ss. js_ID s = i" and "i \<notin> rj_JobID ` set gs"
  shows "fold add_snapshot ss gs = gs @ [group_of ss]"
  using assms
proof (induction ss rule: rev_nonempty_induct)
  case (single s)
  then show ?case by (simp add: add_snapshot_new group_of_def)
next
  case (snoc s ss)
  moreover from snoc have "js_ID (hd ss) = js_ID s" by simp
  moreover have "group_of (ss @ [s]) = (group_of ss)\<lparr>rj_Snapshots := ss @ [s]\<rparr>"
    using snoc.hyps by (simp add: group_of_def)
  ultimately show ?case by (simp add: add_snapshot_last)
qed

lemma list_all2_single: "list_all2 R [x] ys \<Longrightarrow> \<exists>y. ys = [y] \<and> R x y"
  by (cases ys) auto

text \<open>The audit comes job by job, so each job is one group, in the order of the jobs.\<close>

lemma group_snapshots_concat:
  assumes "list_all2 (\<lambda>i ss. ss \<noteq> [] \<and> (\<forall>s \<in> set ss. js_ID s = i)) ids sss" and "distinct ids"
  shows "group_snapshots (concat sss) = map group_of sss"
  using assms
proof (induction ids arbitrary: sss rule: rev_induct)
  case Nil
  then show ?case by (simp add: group_snapshots_def)
next
  case (snoc i ids)
  let ?R = "\<lambda>i ss. ss \<noteq> [] \<and> (\<forall>s \<in> set ss. js_ID s = i)"
  from snoc.prems(1) obtain tss us where us: "sss = tss @ us" "list_all2 ?R [i] us"
    and l: "list_all2 ?R ids tss" unfolding list_all2_append1 by blast
  from us(2) obtain ss where "us = [ss]" and ss: "ss \<noteq> []" "\<forall>s \<in> set ss. js_ID s = i"
    using list_all2_single [OF us(2)] by (elim exE conjE)
  with us have sss: "sss = tss @ [ss]" by simp
  have "js_ID (hd ts) \<in> set ids" if ts: "ts \<in> set tss" for ts
  proof -
    obtain k where k: "k < length tss" "ts = tss ! k" using ts by (metis in_set_conv_nth)
    with list_all2_nthD2 [OF l k(1)] have "ts \<noteq> []" and "\<forall>s \<in> set ts. js_ID s = ids ! k" by simp_all
    then have "js_ID (hd ts) = ids ! k" by simp
    with k list_all2_lengthD [OF l] show ?thesis by simp
  qed
  then have "i \<notin> rj_JobID ` set (map group_of tss)" using snoc.prems(2) by force
  from fold_add_snapshot [OF ss this] show ?case
    using snoc.IH [OF l] snoc.prems(2) by (simp add: sss group_snapshots_def)
qed

section \<open>Reading without writing\<close>

lemma mapP_list_all2:
  assumes "mapP f xs w = (Inr ys, w')" and "\<And>x. read_only (f x)"
    and "\<And>x y w1 w2. f x w1 = (Inr y, w2) \<Longrightarrow> w_db w1 = w_db w \<Longrightarrow> R x y"
  shows "list_all2 R xs ys"
proof -
  have "mapP f xs w1 = (Inr ys, w') \<Longrightarrow> w_db w1 = w_db w \<Longrightarrow> list_all2 R xs ys" for w1
  proof (induction xs arbitrary: ys w1)
    case (Cons x xs)
    from Cons.prems(1) obtain y w2 zs where y: "f x w1 = (Inr y, w2)" and zs: "mapP f xs w2 = (Inr zs, w')"
      and ys: "ys = y # zs" by (auto elim!: bindP_InrE)
    from read_onlyD [OF assms(2) y] Cons.prems(2) have "w_db w2 = w_db w" by simp
    with Cons.IH zs ys assms(3) [OF y Cons.prems(2)] show ?case by simp
  qed simp
  with assms(1) show ?thesis by simp
qed

lemma ListByJob_Inr:
  assumes "ListByJob cx i w = (Inr ds, w')"
  shows "scan_deliveries (sort_key delivery_order
           (filter (\<lambda>r. dr_job_id r = i) (t_webhook_delivery_audit (w_db w)))) = Inr ds"
  using assms by (auto simp: ListByJob_def elim!: bindP_InrE dest!: query_InrD split: if_splits)

lemma ListByJob_read_only [read_only_intros]: "read_only (ListByJob cx i)"
  by (simp add: ListByJob_def read_only_intros)

lemma ListAudit_Inr:
  "ListAudit cx i w = (Inr ss, w') \<Longrightarrow> audit_snapshots (audit_rows i (w_db w)) = Inr ss"
  by (auto simp: ListAudit_def elim!: bindP_InrE dest!: query_InrD)

lemma audit_snapshots_Inr:
  "audit_snapshots rows = Inr ss \<Longrightarrow>
     list_all2 (\<lambda>r s. js_ID s = jr_id (ar_job r) \<and> js_AggregateID s = jr_aggregate_id (ar_job r)) rows ss"
  by (induction rows arbitrary: ss) (auto simp: bindR_Inr_iff audit_snapshot_def Let_def)

lemma ReconstructFromEvents_Some: "ReconstructFromEvents es = Inr p \<Longrightarrow> p \<noteq> None"
  by (auto simp: ReconstructFromEvents_iff)

section \<open>What a history shows\<close>

text \<open>
  The history of a job: its identity, the whole audit of the job and the whole audit of its
  deliveries, each in the order of its listing.
\<close>

definition shows_job :: "db \<Rightarrow> string \<Rightarrow> runtime_job_history \<Rightarrow> bool" where
  "shows_job d i g \<longleftrightarrow>
     rj_JobID g = i \<and> rj_Snapshots g \<noteq> [] \<and> audit_snapshots (audit_rows i d) = Inr (rj_Snapshots g) \<and>
     scan_deliveries (sort_key delivery_order (filter (\<lambda>r. dr_job_id r = i) (t_webhook_delivery_audit d))) =
       Inr (rj_Deliveries g)"

definition shows_history :: "db \<Rightarrow> string \<Rightarrow> payment_runtime_history \<Rightarrow> bool" where
  "shows_history d i h \<longleftrightarrow>
     collectR restore_event_row (aggregate_rows i d) = Inr (ru_Events h) \<and>
     ReconstructFromEvents (ru_Events h) = Inr (Some (ru_Payment h)) \<and>
     list_all2 (shows_job d) (audited_jobs i d) (ru_Jobs h)"

lemma audited_jobs_distinct: "distinct (audited_jobs i d)"
  by (simp add: audited_jobs_def Let_def)

lemma set_audited_jobs:
  "set (audited_jobs i d) =
     {jr_id (ar_job r) | r. r \<in> set (t_scheduler_job_audit d) \<and> jr_aggregate_id (ar_job r) = i}"
  by (auto simp: audited_jobs_def Let_def)

lemma audited_job_has_rows: "k \<in> set (audited_jobs i d) \<Longrightarrow> audit_rows k d \<noteq> []"
proof -
  assume "k \<in> set (audited_jobs i d)"
  then have "{r \<in> set (t_scheduler_job_audit d). jr_id (ar_job r) = k} \<noteq> {}"
    by (auto simp: set_audited_jobs)
  then have "set (audit_rows k d) \<noteq> {}" by (simp add: audit_rows_def)
  then show ?thesis by auto
qed

text \<open>The history of the running program, all of it read inside one transaction.\<close>

definition sqlite_runtime_history :: "world runtime_history" where
  "sqlite_runtime_history =
     \<lparr>rh_transaction = WithinContext, rh_events = EventLog_ListByAggregate,
      rh_jobs = ListAuditByAggregate, rh_hooks = ListByJob\<rparr>"

lemma sqlite_runtime_history_composed:
  "NewRuntimeHistory (Some WithinContext) (Some EventLog_ListByAggregate) (Some ListAuditByAggregate)
     (Some ListByJob) = Inr sqlite_runtime_history"
  by (simp add: NewRuntimeHistory_def sqlite_runtime_history_def)

text \<open>A history that is returned is read from one state of the database, which stays as it is.\<close>

lemma RuntimeHistory_read_Inr:
  assumes "RuntimeHistory_read sqlite_runtime_history cx i w = (Inr h, w')"
  shows "shows_history (w_db w) i h"
proof -
  from assms obtain es p ss js w1 w2 where
    es: "EventLog_ListByAggregate cx i w = (Inr es, w1)"
    and p: "ReconstructFromEvents es = Inr p"
    and ss: "ListAuditByAggregate cx i w1 = (Inr ss, w2)"
    and js: "mapP (\<lambda>g. bindP (ListByJob cx (rj_JobID g)) (\<lambda>ds. returnP (g\<lparr>rj_Deliveries := ds\<rparr>)))
               (group_snapshots ss) w2 = (Inr js, w')"
    and h: "h = \<lparr>ru_Payment = the p, ru_Events = es, ru_Jobs = js\<rparr>"
    by (auto simp: RuntimeHistory_read_def sqlite_runtime_history_def elim!: bindP_InrE)
  have d1: "w_db w1 = w_db w" using ListByAggregate_frame(2) es by (rule read_onlyD)
  have d2: "w_db w2 = w_db w" using read_onlyD [OF ListAuditByAggregate_frame(2) ss] d1 by simp
  from ss obtain sss w3 w4 where ids: "mapP (ListAudit cx) (audited_jobs i (w_db w)) w3 = (Inr sss, w4)"
    and d3: "w_db w3 = w_db w" and ss': "ss = concat sss"
    using d1 by (auto simp: ListAuditByAggregate_def elim!: bindP_InrE dest!: query_InrD)
  let ?d = "w_db w"
  have listed: "list_all2 (\<lambda>k ss. audit_snapshots (audit_rows k ?d) = Inr ss) (audited_jobs i ?d) sss"
    using d3 by (intro mapP_list_all2 [OF ids]) (auto simp: read_only_intros ListAudit_frame dest: ListAudit_Inr)
  have job: "ss \<noteq> [] \<and> (\<forall>s \<in> set ss. js_ID s = k)"
    if k: "k \<in> set (audited_jobs i ?d)" and s: "audit_snapshots (audit_rows k ?d) = Inr ss" for k ss
  proof -
    note l = audit_snapshots_Inr [OF s]
    have "js_ID (ss ! n) = k" if "n < length ss" for n
      using list_all2_nthD2 [OF l that] list_all2_lengthD [OF l] nth_mem [of n "audit_rows k ?d"] that
      by (auto simp: audit_rows_def)
    then show ?thesis
      using audited_job_has_rows [OF k] list_all2_lengthD [OF l] by (auto simp: in_set_conv_nth)
  qed
  have "list_all2 (\<lambda>k ss. ss \<noteq> [] \<and> (\<forall>s \<in> set ss. js_ID s = k)) (audited_jobs i ?d) sss"
    using listed by (rule list.rel_mono_strong) (rule job)
  from group_snapshots_concat [OF this audited_jobs_distinct]
  have groups: "group_snapshots ss = map group_of sss" by (simp add: ss')
  have audited: "list_all2 (\<lambda>g j. \<exists>ds. j = g\<lparr>rj_Deliveries := ds\<rparr> \<and>
      scan_deliveries (sort_key delivery_order
        (filter (\<lambda>r. dr_job_id r = rj_JobID g) (t_webhook_delivery_audit ?d))) = Inr ds)
      (map group_of sss) js"
    using d2 by (intro mapP_list_all2 [OF js [unfolded groups]])
      (auto simp: read_only_intros elim!: bindP_InrE dest!: ListByJob_Inr)
  have "list_all2 (shows_job ?d) (audited_jobs i ?d) js"
  proof (rule list_all2_all_nthI)
    show len: "length (audited_jobs i ?d) = length js"
      using list_all2_lengthD [OF listed] list_all2_lengthD [OF audited] by simp
    fix n assume n: "n < length (audited_jobs i ?d)"
    then have n': "n < length sss" using list_all2_lengthD [OF listed] by simp
    have k: "audited_jobs i ?d ! n \<in> set (audited_jobs i ?d)" using n by simp
    note l = list_all2_nthD [OF listed n]
    from job [OF k l] have "js_ID (hd (sss ! n)) = audited_jobs i ?d ! n" and "sss ! n \<noteq> []" by simp_all
    with l list_all2_nthD [OF audited, of n] n' show "shows_job ?d (audited_jobs i ?d ! n) (js ! n)"
      by (auto simp: shows_job_def)
  qed
  moreover have "collectR restore_event_row (aggregate_rows i ?d) = Inr es"
    using ListByAggregate_Inr [OF es] by simp
  moreover have "p = Some (the p)" using ReconstructFromEvents_Some [OF p] by simp
  ultimately show ?thesis using p by (simp add: shows_history_def h)
qed

lemma RuntimeHistory_read_frame:
  "read_only (RuntimeHistory_read sqlite_runtime_history cx i)"
  by (simp add: RuntimeHistory_read_def sqlite_runtime_history_def read_only_intros)

lemma RuntimeHistory_Execute_shows:
  assumes "RuntimeHistory_Execute sqlite_runtime_history cx i w = (r, w')"
  shows "w_db w' = w_db w" and "r = Inr h \<Longrightarrow> shows_history (w_db w) i h"
proof -
  have k: "keeps (\<lambda>d. d) (WithinContext cx (\<lambda>c. RuntimeHistory_read sqlite_runtime_history c i))"
    unfolding WithinContext_def by (intro keeps_WithinTransaction keeps_read_only RuntimeHistory_read_frame)
  from assms have run: "WithinContext cx (\<lambda>c. RuntimeHistory_read sqlite_runtime_history c i) w = (r, w')"
    by (simp add: RuntimeHistory_Execute_def sqlite_runtime_history_def)
  from keepsD [OF k run] show "w_db w' = w_db w" .
  show "shows_history (w_db w) i h" if "r = Inr h"
    using run [unfolded that WithinContext_def]
    by (rule WithinTransaction_InrE) (auto dest: RuntimeHistory_read_Inr)
qed

end
