(* ===== verification/Configuration.thy ===== *)
theory Configuration
  imports Durations Errors
begin

text \<open>
  Configuration and logging (\<open>internal/platform/config\<close>, \<open>internal/platform/logging\<close>): the defaults,
  the environment variables that override them, validation, and the logger that a configuration asks
  for. The environment is a function from names to values, empty where a variable is not set;
  \<open>godotenv\<close>, which fills it from a file, is a library.
\<close>

section \<open>Logging\<close>

datatype log_format = FormatText | FormatJSON | UnknownFormat string

datatype log_level = LevelDebug | LevelInfo | LevelWarn | LevelError | UnknownLevel string

fun log_format_text :: "log_format \<Rightarrow> string" where
  "log_format_text FormatText = ''text''"
| "log_format_text FormatJSON = ''json''"
| "log_format_text (UnknownFormat t) = t"

fun log_level_text :: "log_level \<Rightarrow> string" where
  "log_level_text LevelDebug = ''debug''"
| "log_level_text LevelInfo = ''info''"
| "log_level_text LevelWarn = ''warn''"
| "log_level_text LevelError = ''error''"
| "log_level_text (UnknownLevel t) = t"

text \<open>The conversions \<open>Format(value)\<close> and \<open>Level(value)\<close> of a string.\<close>

definition log_format_of :: "string \<Rightarrow> log_format" where
  "log_format_of t =
     (case find (\<lambda>x. log_format_text x = t) [FormatText, FormatJSON] of
        Some x \<Rightarrow> x | None \<Rightarrow> UnknownFormat t)"

definition log_level_of :: "string \<Rightarrow> log_level" where
  "log_level_of t =
     (case find (\<lambda>x. log_level_text x = t) [LevelDebug, LevelInfo, LevelWarn, LevelError] of
        Some x \<Rightarrow> x | None \<Rightarrow> UnknownLevel t)"

record logging_config =
  lc_Format :: log_format
  lc_Level :: log_level

fun Level_Valid :: "log_level \<Rightarrow> bool" where
  "Level_Valid (UnknownLevel t) = False"
| "Level_Valid l = True"

fun Format_Valid :: "log_format \<Rightarrow> bool" where
  "Format_Valid (UnknownFormat t) = False"
| "Format_Valid f = True"

text \<open>The levels of \<open>slog\<close>.\<close>

fun parseLevel :: "log_level \<Rightarrow> error + int" where
  "parseLevel LevelDebug = Inr (- 4)"
| "parseLevel LevelInfo = Inr 0"
| "parseLevel LevelWarn = Inr 4"
| "parseLevel LevelError = Inr 8"
| "parseLevel (UnknownLevel t) = Inl (Message ''invalid log level'')"

datatype log_handler = TextHandler int | JSONHandler int

definition Logging_New :: "logging_config \<Rightarrow> error + log_handler" where
  "Logging_New cfg =
     bindR (parseLevel (lc_Level cfg)) (\<lambda>level.
       case lc_Format cfg of
         FormatText \<Rightarrow> Inr (TextHandler level)
       | FormatJSON \<Rightarrow> Inr (JSONHandler level)
       | UnknownFormat t \<Rightarrow> Inl (Message ''unsupported log format''))"

section \<open>The configuration\<close>

record config =
  cg_Logging :: logging_config
  cg_DatabasePath :: string
  cg_DatabaseBusyTimeout :: duration
  cg_HTTPAddress :: string
  cg_AdminToken :: string

definition Config_Default :: config where
  "Config_Default =
     \<lparr>cg_Logging = \<lparr>lc_Format = FormatText, lc_Level = LevelInfo\<rparr>,
      cg_DatabasePath = ''payment-sandbox.db'', cg_DatabaseBusyTimeout = 5000000000,
      cg_HTTPAddress = '':8080'', cg_AdminToken = []\<rparr>"

definition Config_validate :: "config \<Rightarrow> error option" where
  "Config_validate cfg =
     (if \<not> Level_Valid (lc_Level (cg_Logging cfg)) then Some (Message ''unsupported log level'')
      else if \<not> Format_Valid (lc_Format (cg_Logging cfg)) then Some (Message ''unsupported log format'')
      else if cg_HTTPAddress cfg = [] then Some (Message ''HTTP address must not be empty'')
      else None)"

text \<open>A variable that is set replaces the value so far.\<close>

definition overridden :: "string \<Rightarrow> (string \<Rightarrow> 'a) \<Rightarrow> 'a \<Rightarrow> 'a" where
  "overridden v f old = (if v = [] then old else f v)"

definition load_busy_timeout :: "(string \<Rightarrow> string) \<Rightarrow> error + duration" where
  "load_busy_timeout getenv =
     (let v = getenv ''PAYMENT_SANDBOX_DATABASE_BUSY_TIMEOUT'' in
      if v = [] then Inr (cg_DatabaseBusyTimeout Config_Default)
      else case ParseDuration v of
        None \<Rightarrow> Inl (Message ''parse database busy timeout'')
      | Some d \<Rightarrow> Inr d)"

definition Config_Load :: "(string \<Rightarrow> string) \<Rightarrow> error + config" where
  "Config_Load getenv =
     bindR (load_busy_timeout getenv) (\<lambda>busyTimeout.
       let cfg =
         \<lparr>cg_Logging =
            \<lparr>lc_Format = overridden (getenv ''PAYMENT_SANDBOX_LOG_FORMAT'') log_format_of
               (lc_Format (cg_Logging Config_Default)),
             lc_Level = overridden (getenv ''PAYMENT_SANDBOX_LOG_LEVEL'') log_level_of
               (lc_Level (cg_Logging Config_Default))\<rparr>,
          cg_DatabasePath = overridden (getenv ''PAYMENT_SANDBOX_DATABASE_PATH'') id
            (cg_DatabasePath Config_Default),
          cg_DatabaseBusyTimeout = busyTimeout,
          cg_HTTPAddress = overridden (getenv ''PAYMENT_SANDBOX_HTTP_ADDRESS'') id
            (cg_HTTPAddress Config_Default),
          cg_AdminToken = overridden (getenv ''PAYMENT_SANDBOX_ADMIN_TOKEN'') id
            (cg_AdminToken Config_Default)\<rparr> in
       case Config_validate cfg of Some e \<Rightarrow> Inl e | None \<Rightarrow> Inr cfg)"

section \<open>What a loaded configuration is good for\<close>

lemma Logging_New_valid:
  "(\<exists>h. Logging_New c = Inr h) \<longleftrightarrow> Level_Valid (lc_Level c) \<and> Format_Valid (lc_Format c)"
  by (cases "lc_Level c"; cases "lc_Format c") (simp_all add: Logging_New_def)

lemma Config_Load_Inr:
  assumes "Config_Load getenv = Inr cfg"
  shows "\<exists>h. Logging_New (cg_Logging cfg) = Inr h" and "cg_HTTPAddress cfg \<noteq> []"
    and "cg_AdminToken cfg = getenv ''PAYMENT_SANDBOX_ADMIN_TOKEN''"
proof -
  have v: "Config_validate cfg = None"
    and t: "cg_AdminToken cfg = overridden (getenv ''PAYMENT_SANDBOX_ADMIN_TOKEN'') id (cg_AdminToken Config_Default)"
    using assms by (auto simp: Config_Load_def Let_def bindR_Inr_iff split: option.splits)
  from v show "\<exists>h. Logging_New (cg_Logging cfg) = Inr h" and "cg_HTTPAddress cfg \<noteq> []"
    by (auto simp: Logging_New_valid Config_validate_def split: if_splits)
  from t show "cg_AdminToken cfg = getenv ''PAYMENT_SANDBOX_ADMIN_TOKEN''"
    by (simp add: overridden_def Config_Default_def)
qed

text \<open>Without any variable the defaults are loaded, and a value that is not known is refused.\<close>

lemma Config_Load_defaults: "Config_Load (\<lambda>name. []) = Inr Config_Default"
  by (simp add: Config_Load_def load_busy_timeout_def overridden_def Let_def Config_validate_def Config_Default_def)

lemma Config_Load_unknown_level:
  assumes "Config_Load getenv = Inr cfg" and "getenv ''PAYMENT_SANDBOX_LOG_LEVEL'' \<noteq> []"
  shows "getenv ''PAYMENT_SANDBOX_LOG_LEVEL'' \<in> log_level_text ` {LevelDebug, LevelInfo, LevelWarn, LevelError}"
proof -
  have v: "Config_validate cfg = None"
    and l: "lc_Level (cg_Logging cfg) = log_level_of (getenv ''PAYMENT_SANDBOX_LOG_LEVEL'')"
    using assms by (auto simp: Config_Load_def Let_def bindR_Inr_iff overridden_def split: option.splits)
  then have "Level_Valid (log_level_of (getenv ''PAYMENT_SANDBOX_LOG_LEVEL''))"
    by (auto simp: Config_validate_def split: if_splits)
  then show ?thesis by (auto simp: log_level_of_def split: if_splits)
qed

end
