(* ===== verification/Composition.thy ===== *)
theory Composition
  imports Payment_Requests Scheduler_Sqlite Saga_Sqlite Webhook_Delivery Webhook_Http Scenario_Http
    Runtime_History Configuration
begin

text \<open>
  The composition root, \<open>internal/app/app.go\<close>: how the adapters, services and handlers of the other
  theories are put together, in the order of \<open>compose\<close>; the routes of the server that results; and
  what the bearer token guards. \<open>Open\<close>, the migrations, \<open>ListenAndServe\<close>, the ticker and the signals
  are calls of libraries and not modelled: a request or a tick is a call of the server or of the
  scheduler.
\<close>

section \<open>What the program takes from libraries\<close>

text \<open>
  Parsing of addresses and URLs, digests, texts of errors, the cancellation of a request and the order
  in which maps are visited, and the readiness flag, which only the server reads.
\<close>

record libraries =
  lib_net :: net_library
  lib_sha256 :: "string \<Rightarrow> bytes \<Rightarrow> string"
  lib_text :: "error \<Rightarrow> string"
  lib_remaining :: "nat option"
  lib_iterate :: "nat \<Rightarrow> nat list \<Rightarrow> nat list"
  lib_ready :: "world \<Rightarrow> bool"

datatype startup_error = ApiFailure api_error | Failure error

record application =
  app_server :: "world server"
  app_scheduler :: "(world, job) scheduler"

section \<open>The scheduler and its worker\<close>

definition runtimeDispatcher_Dispatch :: "(world, job) worker \<Rightarrow> ctx \<Rightarrow> job option \<Rightarrow> unit act" where
  "runtimeDispatcher_Dispatch worker cx job = Worker_Execute worker cx job"

definition compose_worker ::
  "libraries \<Rightarrow> world orchestrator \<Rightarrow> (world, payment) payment_executor \<Rightarrow> error + (world, job) worker" where
  "compose_worker lib orchestrator executor =
     bindR (mapErr JobErr (NewExponentialBackoffPolicy 3 (30 * 1000000000) (5 * 60 * 1000000000))) (\<lambda>policy.
       NewWorkerWithRetry (Some sqlite_jobs)
         [(''saga.step'', Some (\<lambda>cx payload.
             bindP (liftP (Unmarshal_message payload)) (\<lambda>m.
               Handle orchestrator cx m (PaymentExecutor_Execute executor)))),
          (DeliveryJobType, Some (OutboundCallback_Execute (lib_net lib) True))]
         (Some (ExponentialBackoffPolicy_Decide policy)) (Some business_now))"

definition compose_scheduler :: "libraries \<Rightarrow> error + (world, job) scheduler" where
  "compose_scheduler lib =
     bindR (NewOrchestrator (Some sqlite_sagas) (Some SagaPublisher_Publish) (Some business_now)
              NewCorrelationID) (\<lambda>orchestrator.
     bindR (mapErr Provider (Registry_Resolve ''fake'' runtime_providers)) (\<lambda>provider.
     bindR (NewPaymentExecutorWithPublisher (Some sqlite_repository) (Some (pn_interface provider))
              (Some business_now) (Some (PaymentEventPublisher_Publish (lib_net lib)))) (\<lambda>executor.
     bindR (compose_worker lib orchestrator executor) (\<lambda>worker.
       mapErr Scheduler
         (NewScheduler (Some sqlite_jobs) (Some (runtimeDispatcher_Dispatch worker)) (Some business_now)
            (Some w_wall)
            \<lparr>cf_Owner = ''runtime'', cf_BatchSize = 100, cf_LeaseDuration = time_Minute\<rparr>)))))"

section \<open>The handlers and their routes\<close>

record handlers =
  hs_payment :: "(world, payment) payment_handler"
  hs_webhook :: "world webhook_handler"
  hs_administration :: "world administration_handler"
  hs_scenario :: "world scenario_handler"
  hs_timeline :: "(world, payment) timeline_handler"
  hs_diagnostics :: "(world, payment) diagnostics_handler"
  hs_audit :: "world webhook_audit_handler"
  hs_history :: "world runtime_history_handler"

definition compose_handlers :: "libraries \<Rightarrow> error + handlers" where
  "compose_handlers lib =
     (let render = lib_text lib; net = lib_net lib in
      bindR (NewScenarioService (Some sqlite_scenarios)
               (Some (runtime_engine (lib_remaining lib) (lib_iterate lib)))) (\<lambda>scenarios.
      bindR (mapErr (\<lambda>e. Message ''create payment handler'')
               (NewHandlerWithPublisherAndIdempotencyAndTransaction (lib_sha256 lib) render
                 (Some sqlite_repository) (Some (PaymentEventPublisher_Publish net))
                 (Some sqlite_idempotency) (Some WithinContext))) (\<lambda>payment.
      bindR (mapErr (\<lambda>e. Message ''create webhook handler'')
               (Webhook_NewHandler net render (Some (sqlite_endpoints net)))) (\<lambda>webhook.
      bindR (mapErr Administration (Administration_NewHandler render (Some (business_now, Database.advance_time))
               (Some (Registry_IDs runtime_providers)))) (\<lambda>administration.
      bindR (NewScenarioHandler render (Some (xr_FindByID sqlite_scenarios)) (Some scenarios)) (\<lambda>scenario.
      bindR (NewTimelineHandler render (Some sqlite_repository) (Some EventLog_ListByAggregate)) (\<lambda>timeline.
      bindR (NewDiagnosticsHandler render (Some sqlite_repository) (Some EventLog_ListByAggregate)
               (Some business_now) (Some (Registry_IDs runtime_providers))) (\<lambda>diagnostics.
      bindR (NewWebhookAuditHandler render (Some ListByJob)) (\<lambda>audit.
      bindR (NewRuntimeHistoryHandler render (Some WithinContext) (Some EventLog_ListByAggregate)
               (Some ListAuditByAggregate) (Some ListByJob)) (\<lambda>history.
        Inr \<lparr>hs_payment = payment, hs_webhook = webhook, hs_administration = administration,
             hs_scenario = scenario, hs_timeline = timeline, hs_diagnostics = diagnostics,
             hs_audit = audit, hs_history = history\<rparr>))))))))))"

definition register_routes :: "handlers \<Rightarrow> string \<Rightarrow> world server \<Rightarrow> api_error + world server" where
  "register_routes hs token sv =
     bindR (Payment_Register (hs_payment hs) sv) (\<lambda>sv.
     bindR (Webhook_Register (hs_webhook hs) sv) (\<lambda>sv.
     bindR (Administration_Register (hs_administration hs) token sv) (\<lambda>sv.
     bindR (Scenario_Register (hs_scenario hs) token sv) (\<lambda>sv.
     bindR (Timeline_Register (hs_timeline hs) token sv) (\<lambda>sv.
     bindR (Diagnostics_Register (hs_diagnostics hs) token sv) (\<lambda>sv.
     bindR (WebhookAudit_Register (hs_audit hs) token sv) (\<lambda>sv.
       RuntimeHistory_Register (hs_history hs) token sv)))))))"

section \<open>compose\<close>

definition compose_application :: "libraries \<Rightarrow> config \<Rightarrow> world server \<Rightarrow> startup_error + application" where
  "compose_application lib cfg sv =
     bindR (mapErr Failure (compose_scheduler lib)) (\<lambda>sc.
     bindR (mapErr Failure (compose_handlers lib)) (\<lambda>hs.
     bindR (mapErr ApiFailure (register_routes hs (cg_AdminToken cfg) sv)) (\<lambda>sv.
       Inr \<lparr>app_server = sv, app_scheduler = sc\<rparr>)))"

text \<open>\<open>initial\<close> is the instant at which the process starts; the clock becomes that of the process.\<close>

definition compose ::
  "libraries \<Rightarrow> config \<Rightarrow> time \<Rightarrow> world \<Rightarrow> (startup_error + application) \<times> world" where
  "compose lib cfg initial w =
     (case NewServer (lib_ready lib) (cg_HTTPAddress cfg) of
        Inl e \<Rightarrow> (Inl (ApiFailure e), w)
      | Inr sv \<Rightarrow>
          (case NewPersistentVirtualClock initial RuntimeStateStore ''business_virtual_time'' w of
             (Inl e, w') \<Rightarrow> (Inl (Failure e), w')
           | (Inr c, w') \<Rightarrow> (compose_application lib cfg sv, w'\<lparr>w_clock := c\<rparr>)))"

section \<open>What compose makes\<close>

definition runtime_policy :: exponential_policy where
  "runtime_policy = \<lparr>eb_maxAttempts = 3, eb_initial = 30000000000, eb_maxDelay = 300000000000\<rparr>"

definition runtime_worker :: "net_library \<Rightarrow> (world, job) worker" where
  "runtime_worker net =
     \<lparr>wk_repository = sqlite_jobs,
      wk_handlers = [(''saga.step'', saga_step_handler net), (DeliveryJobType, OutboundCallback_Execute net True)],
      wk_retryPolicy = Some (ExponentialBackoffPolicy_Decide runtime_policy), wk_clock = Some business_now\<rparr>"

lemma compose_scheduler_eq:
  "compose_scheduler lib =
     Inr (runtime_scheduler (runtimeDispatcher_Dispatch (runtime_worker (lib_net lib))) ''runtime'' 100 time_Minute)"
proof -
  have handler: "(\<lambda>cx payload. bindP (liftP (Unmarshal_message payload)) (\<lambda>m.
      Handle runtime_orchestrator cx m
        (PaymentExecutor_Execute (runtime_executor net (deterministic_interface Fake_New))))) =
    saga_step_handler net" for net
    by (simp add: saga_step_handler_def fun_eq_iff)
  have "NewOrchestrator (Some sqlite_sagas) (Some SagaPublisher_Publish) (Some business_now) NewCorrelationID =
      Inr runtime_orchestrator"
    by (simp add: NewOrchestrator_def runtime_orchestrator_def)
  moreover have "Registry_Resolve ''fake'' runtime_providers = Inr (deterministic_entry Fake_New)"
    by (simp add: Registry_Resolve_def ProviderID_Valid_def runtime_providers_def)
  moreover have "NewPaymentExecutorWithPublisher (Some sqlite_repository)
      (Some (pn_interface (deterministic_entry Fake_New))) (Some business_now)
      (Some (PaymentEventPublisher_Publish net)) = Inr (runtime_executor net (deterministic_interface Fake_New))" for net
    by (simp add: NewPaymentExecutorWithPublisher_def runtime_executor_def deterministic_entry_def)
  moreover have "compose_worker lib runtime_orchestrator
      (runtime_executor (lib_net lib) (deterministic_interface Fake_New)) = Inr (runtime_worker (lib_net lib))"
    by (simp add: compose_worker_def NewExponentialBackoffPolicy_def NewWorkerWithRetry_def NewWorker_def
        handler runtime_worker_def runtime_policy_def)
  ultimately show ?thesis
    by (simp add: compose_scheduler_def NewScheduler_def runtime_scheduler_def time_Minute_def)
qed

definition runtime_handlers :: "libraries \<Rightarrow> handlers" where
  "runtime_handlers lib =
     \<lparr>hs_payment = runtime_payments (lib_net lib) (lib_sha256 lib) (lib_text lib),
      hs_webhook = runtime_webhooks (lib_net lib) (lib_text lib),
      hs_administration =
        \<lparr>an_now = business_now, an_advance = Database.advance_time, an_ids = Registry_IDs runtime_providers,
         an_text = lib_text lib\<rparr>,
      hs_scenario = runtime_scenario_handler (lib_remaining lib) (lib_iterate lib) (lib_text lib),
      hs_timeline =
        \<lparr>th_timeline = \<lparr>tl_payments = sqlite_repository, tl_events = EventLog_ListByAggregate\<rparr>,
         th_text = lib_text lib\<rparr>,
      hs_diagnostics =
        \<lparr>dh_diagnostics =
           \<lparr>dg_timeline = \<lparr>tl_payments = sqlite_repository, tl_events = EventLog_ListByAggregate\<rparr>,
            dg_clock = business_now, dg_providers = Registry_IDs runtime_providers\<rparr>,
         dh_text = lib_text lib\<rparr>,
      hs_audit = \<lparr>ah_audit = ListByJob, ah_text = lib_text lib\<rparr>,
      hs_history = \<lparr>hh_history = sqlite_runtime_history, hh_text = lib_text lib\<rparr>\<rparr>"

lemma compose_handlers_eq: "compose_handlers lib = Inr (runtime_handlers lib)"
  by (simp add: compose_handlers_def runtime_handlers_def Let_def runtime_scenarios_composed
      runtime_payments_composed runtime_webhooks_composed
      runtime_scenario_handler_composed [unfolded sqlite_scenarios_simps]
      Administration_NewHandler_def NewTimelineHandler_def NewTimeline_def NewDiagnosticsHandler_def
      NewDiagnostics_def NewWebhookAuditHandler_def NewWebhookAudit_def NewRuntimeHistoryHandler_def
      sqlite_runtime_history_composed)

text \<open>
  For a payment that does not exist the timeline answers 404 and the runtime history 500: the error of the
  empty history is not one that the handler knows.
\<close>

lemma unknown_payment_answers:
  assumes "w_faults w = []" and "find_row i (w_db w) = None" and "aggregate_rows i (w_db w) = []"
  shows "timelinePaymentID (rq_Path rq) = Some i \<Longrightarrow>
      rs_Status (fst (getTimeline (hs_timeline (runtime_handlers lib)) cx rq w)) = 404"
    and "runtimeHistoryPaymentID (rq_Path rq) = Some i \<Longrightarrow>
      rs_Status (fst (getHistory (hs_history (runtime_handlers lib)) cx rq w)) = 500"
proof -
  have "Repository_FindByID cx i w = (Inl (PaymentApp ErrPaymentNotFound), w)"
    using assms(1,2) by (simp add: Repository_FindByID_reliable)
  then show "timelinePaymentID (rq_Path rq) = Some i \<Longrightarrow>
      rs_Status (fst (getTimeline (hs_timeline (runtime_handlers lib)) cx rq w)) = 404"
    by (simp add: getTimeline_def runtime_handlers_def Timeline_Execute_def bindP_apply writeTimelineError_def
        timeline_error_status_def WriteError_def WriteJSON_def)
  have "RuntimeHistory_read sqlite_runtime_history (WithTx cx) i w = (Inl (PaymentApp ErrEmptyEventHistory), w)"
    using assms(1,3)
    by (simp add: RuntimeHistory_read_def sqlite_runtime_history_def bindP_apply ListByAggregate_reliable
        ReconstructFromEvents_def)
  with assms(1) have "RuntimeHistory_Execute sqlite_runtime_history cx i w =
      (Inl (PaymentApp ErrEmptyEventHistory), w)"
    by (simp add: RuntimeHistory_Execute_def sqlite_runtime_history_def WithinContext_def
        WithinTransaction_reliable)
  then show "runtimeHistoryPaymentID (rq_Path rq) = Some i \<Longrightarrow>
      rs_Status (fst (getHistory (hs_history (runtime_handlers lib)) cx rq w)) = 500"
    by (simp add: getHistory_def runtime_handlers_def writeTimelineError_def timeline_error_status_def
        WriteError_def WriteJSON_def)
qed

section \<open>Routes\<close>

text \<open>What the server serves: the registered paths and prefixes with their handlers.\<close>

definition served :: "'h routes \<Rightarrow> (string \<times> 'h) set" where
  "served r = {(p, f) | p ms m f. (p, ms) \<in> set r \<and> (m, f) \<in> set ms}"

lemma served_put:
  assumes "(p, f) \<in> served (put_row fst (path, route_methods r path @ [(method, g)]) r)"
  shows "(p, f) = (path, g) \<or> (p, f) \<in> served r"
proof -
  from assms obtain ms m where ms: "(p, ms) \<in> set (put_row fst (path, route_methods r path @ [(method, g)]) r)"
    and m: "(m, f) \<in> set ms" by (auto simp: served_def)
  from ms set_put_row_subset have "(p, ms) = (path, route_methods r path @ [(method, g)]) \<or> (p, ms) \<in> set r"
    by (metis insertE subsetD)
  then show ?thesis
  proof
    assume eq: "(p, ms) = (path, route_methods r path @ [(method, g)])"
    show ?thesis
    proof (cases "(m, f) = (method, g)")
      case False
      with eq m have "(m, f) \<in> set (route_methods r path)" by auto
      then obtain old where "map_of r path = Some old" and "(m, f) \<in> set old"
        by (cases "map_of r path") (auto simp: route_methods_def)
      with eq show ?thesis by (auto simp: served_def dest: map_of_SomeD)
    qed (use eq in simp)
  qed (use m in \<open>auto simp: served_def\<close>)
qed

lemma add_route_served:
  assumes "add_route method path (Some g) r = Inr r'"
  shows "served r' \<subseteq> insert (path, g) (served r)"
  using assms by (auto simp: add_route_def split: if_splits dest!: served_put)

definition all_served :: "(string \<Rightarrow> 's handler \<Rightarrow> bool) \<Rightarrow> 's server \<Rightarrow> bool" where
  "all_served P sv \<longleftrightarrow>
     (\<forall>(p, f) \<in> served (rt_routes (sv_router sv)). P p f) \<and>
     (\<forall>(p, f) \<in> served (rt_prefixRoutes (sv_router sv)). P p f)"

lemma Server_Handle_served:
  assumes "Server_Handle method path f sv = Inr sv'" and "all_served P sv" and "P path f"
  shows "all_served P sv'"
  using assms add_route_served
  by (fastforce simp: Server_Handle_def Router_Handle_def all_served_def bindR_Inr_iff)

lemma Server_HandlePrefix_served:
  assumes "Server_HandlePrefix method path f sv = Inr sv'" and "all_served P sv" and "P path f"
  shows "all_served P sv'"
  using assms add_route_served
  by (fastforce simp: Server_HandlePrefix_def Router_HandlePrefix_def all_served_def bindR_Inr_iff)

lemma select_prefix_in:
  "select_prefix path ps selected = selected \<or>
   (select_prefix path ps selected \<in> set ps \<and> has_prefix path (select_prefix path ps selected))"
  by (induction ps arbitrary: selected) (auto split: if_splits, metis+)

text \<open>
  A request is answered by the router itself, which changes nothing, or by a handler that is served
  at its path or at a prefix of it.
\<close>

lemma ServeHTTP_cases:
  assumes "Server_ServeHTTP sv cx rq s = (resp, s')"
  obtains "rs_Status resp \<in> {404, 405}" and "s' = s"
  | p f where "(p, f) \<in> served (rt_routes (sv_router sv)) \<union> served (rt_prefixRoutes (sv_router sv))"
      and "has_prefix (rq_Path rq) p" and "f cx rq s = (resp, s')"
proof -
  let ?r = "sv_router sv"
  have pick: "\<exists>p. has_prefix (rq_Path rq) p \<and> ((p, ms) \<in> set (rt_routes ?r) \<or> map_of (rt_prefixRoutes ?r) p = Some ms)"
    if "(case map_of (rt_routes ?r) (rq_Path rq) of Some ms \<Rightarrow> Some ms | None \<Rightarrow> prefixMethods ?r (rq_Path rq)) = Some ms"
    for ms
  proof (cases "map_of (rt_routes ?r) (rq_Path rq)")
    case (Some ms')
    with that map_of_SomeD [OF Some] show ?thesis by (auto simp: has_prefix_def intro!: exI [of _ "rq_Path rq"])
  next
    case None
    let ?p = "select_prefix (rq_Path rq) (map fst (rt_prefixRoutes ?r)) []"
    from None that have ne: "?p \<noteq> []" and ms: "ms = route_methods (rt_prefixRoutes ?r) ?p"
      by (auto simp: prefixMethods_def Let_def split: if_splits)
    with select_prefix_in [of "rq_Path rq" "map fst (rt_prefixRoutes ?r)" "[]"]
    have "?p \<in> set (map fst (rt_prefixRoutes ?r))" and "has_prefix (rq_Path rq) ?p" by auto
    then obtain ms' where "map_of (rt_prefixRoutes ?r) ?p = Some ms'"
      by (metis map_of_eq_None_iff not_None_eq list.set_map)
    with ms \<open>has_prefix (rq_Path rq) ?p\<close> show ?thesis by (auto simp: route_methods_def)
  qed
  show thesis
  proof (cases "case map_of (rt_routes ?r) (rq_Path rq) of Some ms \<Rightarrow> Some ms | None \<Rightarrow> prefixMethods ?r (rq_Path rq)")
    case None
    with assms that(1) show thesis
      by (auto simp: Server_ServeHTTP_def Router_ServeHTTP_def Let_def)
  next
    case (Some ms)
    from pick [OF this] obtain p where p: "has_prefix (rq_Path rq) p"
      and reg: "(p, ms) \<in> set (rt_routes ?r) \<or> map_of (rt_prefixRoutes ?r) p = Some ms" by blast
    show thesis
    proof (cases "map_of ms (rq_Method rq)")
      case None
      with Some assms that(1) show thesis
        by (auto simp: Server_ServeHTTP_def Router_ServeHTTP_def Let_def)
    next
      case (Some f)
      with \<open>(case _ of Some ms \<Rightarrow> _ | None \<Rightarrow> _) = Some ms\<close> assms have "f cx rq s = (resp, s')"
        by (simp add: Server_ServeHTTP_def Router_ServeHTTP_def Let_def)
      moreover have "(p, f) \<in> served (rt_routes ?r) \<union> served (rt_prefixRoutes ?r)"
        using reg map_of_SomeD [OF Some] by (auto simp: served_def dest: map_of_SomeD)
      ultimately show thesis using p that(2) by blast
    qed
  qed
qed

section \<open>Registration\<close>

text \<open>A registration keeps what is true of all handlers when it is true of those that it adds.\<close>

named_theorems registers_intros \<open>rules for registrations\<close>

definition registers ::
  "(string \<Rightarrow> 's handler \<Rightarrow> bool) \<Rightarrow> ('s server \<Rightarrow> api_error + 's server) \<Rightarrow> bool" where
  "registers P reg \<longleftrightarrow> (\<forall>sv sv'. reg sv = Inr sv' \<longrightarrow> all_served P sv \<longrightarrow> all_served P sv')"

lemma registersD: "registers P reg \<Longrightarrow> reg sv = Inr sv' \<Longrightarrow> all_served P sv \<Longrightarrow> all_served P sv'"
  unfolding registers_def by blast

lemma registers_bind [registers_intros]:
  "registers P reg \<Longrightarrow> registers P next \<Longrightarrow> registers P (\<lambda>sv. bindR (reg sv) next)"
  by (auto simp: registers_def bindR_Inr_iff)

lemma registers_route [registers_intros]:
  "P path f \<Longrightarrow> registers P (Server_Handle method path f)"
  "P path f \<Longrightarrow> registers P (Server_HandlePrefix method path f)"
  "P path (BearerToken token f) \<Longrightarrow> registers P (HandleAdmin method path f token)"
  "P path (BearerToken token f) \<Longrightarrow> registers P (HandleAdminPrefix method path f token)"
  by (auto simp: registers_def HandleAdmin_def HandleAdminPrefix_def
      intro: Server_Handle_served Server_HandlePrefix_served)

lemma register_routes_served:
  assumes "P ''/payments'' (transactional (hs_payment hs) (idempotent (hs_payment hs) (createPayment (hs_payment hs))))"
    and "P ''/payments/'' (transactional (hs_payment hs) (idempotent (hs_payment hs) (command (hs_payment hs))))"
    and "P ''/payments/'' (getPayment (hs_payment hs))"
    and "P ''/webhook-endpoints'' (registerEndpoint (hs_webhook hs))"
    and "P ''/webhook-endpoints'' (listEndpoints (hs_webhook hs))"
    and "P ''/webhook-endpoints/'' (getEndpoint (hs_webhook hs))"
    and "P ''/admin/time'' (BearerToken token (getTime (hs_administration hs)))"
    and "P ''/admin/time/advance'' (BearerToken token (advanceTime (hs_administration hs)))"
    and "P ''/admin/providers'' (BearerToken token (listProviders (hs_administration hs)))"
    and "P ''/admin/scenarios'' (BearerToken token (createScenario (hs_scenario hs)))"
    and "P ''/admin/scenarios/'' (BearerToken token (getScenario (hs_scenario hs)))"
    and "P ''/admin/scenarios/'' (BearerToken token (executeScenario (hs_scenario hs)))"
    and "P ''/admin/payments/'' (BearerToken token (getTimeline (hs_timeline hs)))"
    and "P ''/admin/diagnostics/payments/'' (BearerToken token (getDiagnostics (hs_diagnostics hs)))"
    and "P ''/admin/webhook-jobs/'' (BearerToken token (getAudit (hs_audit hs)))"
    and "P ''/admin/runtime-history/payments/'' (BearerToken token (getHistory (hs_history hs)))"
  shows "registers P (register_routes hs token)"
  unfolding register_routes_def Payment_Register_def Webhook_Register_def Administration_Register_def
    Scenario_Register_def Timeline_Register_def Diagnostics_Register_def WebhookAudit_Register_def
    RuntimeHistory_Register_def
  by (intro registers_intros assms)

lemma NewServer_routes:
  "NewServer ready address =
     (if address = [] then Inl ErrInvalidAddress
      else Inr \<lparr>sv_router =
        \<lparr>rt_routes = [(''/health/live'', [(''GET'', health_live)]),
                      (''/health/ready'', [(''GET'', health_ready ready)])],
         rt_prefixRoutes = []\<rparr>\<rparr>)"
  by (simp add: NewServer_def Router_Handle_def NewRouter_def add_route_def route_methods_def)

lemma NewServer_served:
  assumes "NewServer ready address = Inr sv"
    and "P ''/health/live'' health_live" and "P ''/health/ready'' (health_ready ready)"
  shows "all_served P sv"
proof -
  have sv: "served (rt_routes (sv_router sv)) =
      {(''/health/live'', health_live), (''/health/ready'', health_ready ready)}"
    "served (rt_prefixRoutes (sv_router sv)) = {}"
    using assms(1) by (auto simp: NewServer_routes served_def split: if_splits)
  show ?thesis unfolding all_served_def sv using assms(2,3) by blast
qed

text \<open>
  Every route of the program is registered once, so composition cannot fail there: a registration
  succeeds when its method and path are not taken, and takes them.
\<close>

definition taken :: "'h routes \<Rightarrow> (string \<times> string) set" where
  "taken r = {(p, m). map_of (route_methods r p) m \<noteq> None}"

lemma taken_Nil [simp]: "taken [] = {}"
  by (simp add: taken_def route_methods_def)

lemma taken_two: "p \<noteq> q \<Longrightarrow> taken [(p, [(m, f)]), (q, [(m, g)])] = {(p, m), (q, m)}"
  by (auto simp: taken_def route_methods_def split: if_splits)

lemma add_route_ok:
  assumes "method \<noteq> []" and "path \<noteq> []" and "hd path = CHR ''/''" and "(path, method) \<notin> taken r"
  shows "\<exists>r'. add_route method path (Some f) r = Inr r' \<and> taken r' = insert (path, method) (taken r)"
proof -
  let ?r = "put_row fst (path, route_methods r path @ [(method, f)]) r"
  have rm: "route_methods ?r q = (if q = path then route_methods r path @ [(method, f)] else route_methods r q)" for q
    by (simp add: route_methods_def map_of_put_header)
  have "taken ?r = insert (path, method) (taken r)"
    by (auto simp: taken_def rm map_add_def split: if_splits option.splits)
  then show ?thesis using assms by (auto simp: add_route_def taken_def)
qed

named_theorems opens_intros \<open>rules for registrations that succeed\<close>

definition opens ::
  "(string \<times> string) set \<times> (string \<times> string) set \<Rightarrow> ('s server \<Rightarrow> api_error + 's server) \<Rightarrow>
     (string \<times> string) set \<times> (string \<times> string) set \<Rightarrow> bool" where
  "opens A reg B \<longleftrightarrow>
     (\<forall>sv. (taken (rt_routes (sv_router sv)), taken (rt_prefixRoutes (sv_router sv))) = A \<longrightarrow>
        (\<exists>sv'. reg sv = Inr sv' \<and>
           (taken (rt_routes (sv_router sv')), taken (rt_prefixRoutes (sv_router sv'))) = B))"

lemma opensD:
  assumes "opens A reg B"
    and "(taken (rt_routes (sv_router sv)), taken (rt_prefixRoutes (sv_router sv))) = A"
  shows "\<exists>sv'. reg sv = Inr sv'"
  using assms unfolding opens_def by blast

lemma opens_bind [opens_intros]:
  "opens A reg B \<Longrightarrow> opens B next C \<Longrightarrow> opens A (\<lambda>sv. bindR (reg sv) next) C"
  unfolding opens_def by fastforce

definition fresh_route :: "string \<Rightarrow> string \<Rightarrow> (string \<times> string) set \<Rightarrow> bool" where
  "fresh_route method path T \<longleftrightarrow> method \<noteq> [] \<and> path \<noteq> [] \<and> hd path = CHR ''/'' \<and> (path, method) \<notin> T"

lemma opens_Handle [opens_intros]:
  "fresh_route method path T \<Longrightarrow> opens (T, Q) (Server_Handle method path f) (insert (path, method) T, Q)"
  unfolding opens_def Server_Handle_def Router_Handle_def fresh_route_def
  by (force dest: add_route_ok [where f = f])

lemma opens_HandlePrefix [opens_intros]:
  "fresh_route method path Q \<Longrightarrow> opens (T, Q) (Server_HandlePrefix method path f) (T, insert (path, method) Q)"
  unfolding opens_def Server_HandlePrefix_def Router_HandlePrefix_def fresh_route_def
  by (force dest: add_route_ok [where f = f])

lemma opens_HandleAdmin [opens_intros]:
  "fresh_route method path T \<Longrightarrow> opens (T, Q) (HandleAdmin method path f token) (insert (path, method) T, Q)"
  "fresh_route method path Q \<Longrightarrow> opens (T, Q) (HandleAdminPrefix method path f token) (T, insert (path, method) Q)"
  by (simp_all add: HandleAdmin_def [abs_def] HandleAdminPrefix_def [abs_def] opens_intros)

lemma register_routes_opens:
  "\<exists>B. opens ({(''/health/live'', ''GET''), (''/health/ready'', ''GET'')}, {}) (register_routes hs token) B"
  unfolding register_routes_def Payment_Register_def Webhook_Register_def Administration_Register_def
    Scenario_Register_def Timeline_Register_def Diagnostics_Register_def WebhookAudit_Register_def
    RuntimeHistory_Register_def
  by (rule exI) (rule opens_intros | simp add: fresh_route_def)+

lemma register_routes_ok:
  assumes "NewServer ready address = Inr sv" shows "\<exists>sv'. register_routes hs token sv = Inr sv'"
proof -
  obtain B where B: "opens ({(''/health/live'', ''GET''), (''/health/ready'', ''GET'')}, {}) (register_routes hs token) B"
    using register_routes_opens by blast
  have sv: "sv = \<lparr>sv_router =
        \<lparr>rt_routes = [(''/health/live'', [(''GET'', health_live)]),
                      (''/health/ready'', [(''GET'', health_ready ready)])],
         rt_prefixRoutes = []\<rparr>\<rparr>"
    using assms by (simp add: NewServer_routes split: if_splits)
  have "(taken (rt_routes (sv_router sv)), taken (rt_prefixRoutes (sv_router sv))) =
      ({(''/health/live'', ''GET''), (''/health/ready'', ''GET'')}, {})"
    by (simp add: sv taken_two)
  from opensD [OF B this] show ?thesis .
qed

lemma compose_application_ok:
  assumes "NewServer (lib_ready lib) address = Inr sv"
  obtains app where "compose_application lib cfg sv = Inr app"
    and "register_routes (runtime_handlers lib) (cg_AdminToken cfg) sv = Inr (app_server app)"
    and "app_scheduler app =
      runtime_scheduler (runtimeDispatcher_Dispatch (runtime_worker (lib_net lib))) ''runtime'' 100 time_Minute"
proof -
  obtain sv' where r: "register_routes (runtime_handlers lib) (cg_AdminToken cfg) sv = Inr sv'"
    using register_routes_ok [OF assms] by blast
  let ?app = "\<lparr>app_server = sv', app_scheduler =
      runtime_scheduler (runtimeDispatcher_Dispatch (runtime_worker (lib_net lib))) ''runtime'' 100 time_Minute\<rparr>"
  have "compose_application lib cfg sv = Inr ?app"
    using r by (simp add: compose_application_def compose_scheduler_eq compose_handlers_eq)
  then show thesis by (rule that) (simp_all add: r)
qed

lemma compose_Inr:
  assumes "compose lib cfg initial w = (Inr app, w')"
  obtains sv c w1 where "NewServer (lib_ready lib) (cg_HTTPAddress cfg) = Inr sv"
    and "NewPersistentVirtualClock initial RuntimeStateStore ''business_virtual_time'' w = (Inr c, w1)"
    and "w' = w1\<lparr>w_clock := c\<rparr>"
    and "register_routes (runtime_handlers lib) (cg_AdminToken cfg) sv = Inr (app_server app)"
    and "app_scheduler app =
      runtime_scheduler (runtimeDispatcher_Dispatch (runtime_worker (lib_net lib))) ''runtime'' 100 time_Minute"
proof -
  from assms obtain sv c w1 where sv: "NewServer (lib_ready lib) (cg_HTTPAddress cfg) = Inr sv"
    and c: "NewPersistentVirtualClock initial RuntimeStateStore ''business_virtual_time'' w = (Inr c, w1)"
    and app: "compose_application lib cfg sv = Inr app" and w': "w' = w1\<lparr>w_clock := c\<rparr>"
    by (auto simp: compose_def split: sum.splits prod.splits)
  obtain app' where a: "compose_application lib cfg sv = Inr app'"
    and r: "register_routes (runtime_handlers lib) (cg_AdminToken cfg) sv = Inr (app_server app')"
      "app_scheduler app' =
      runtime_scheduler (runtimeDispatcher_Dispatch (runtime_worker (lib_net lib))) ''runtime'' 100 time_Minute"
    by (rule compose_application_ok [OF sv])
  from a app have "app' = app" by simp
  with sv c w' r that show thesis by simp
qed

section \<open>Start\<close>

lemma compose_starts:
  assumes "w_faults w = []" and "cg_HTTPAddress cfg \<noteq> []" and "\<not> IsZero initial"
    and "\<And>t. stored_state w ''business_virtual_time'' = Some t \<Longrightarrow> time_in_range t"
  shows "\<exists>app w'. compose lib cfg initial w = (Inr app, w') \<and>
    business_now w' = (case stored_state w ''business_virtual_time'' of None \<Rightarrow> initial | Some t \<Rightarrow> t) \<and>
    stored_state w' ''business_virtual_time'' = Some (business_now w')"
proof -
  have "\<exists>c w1. NewPersistentVirtualClock initial RuntimeStateStore ''business_virtual_time'' w = (Inr c, w1) \<and>
      pc_current c = (case stored_state w ''business_virtual_time'' of None \<Rightarrow> initial | Some t \<Rightarrow> t) \<and>
      stored_state w1 ''business_virtual_time'' = Some (pc_current c)"
  proof (cases "map_of (t_runtime_state (w_db w)) ''business_virtual_time''")
    case None
    then show ?thesis
      using assms(1,3)
      by (simp add: NewPersistentVirtualClock_def RuntimeStateStore_def RuntimeStateStore_Load_def
          RuntimeStateStore_Save_def bindP_apply stored_state_def map_of_put_row)
  next
    case (Some t)
    then show ?thesis
      using assms(1,3) assms(4) [of t]
      by (simp add: NewPersistentVirtualClock_def RuntimeStateStore_def RuntimeStateStore_Load_def
          bindP_apply stored_state_def parse_time_def)
  qed
  then obtain c w1 where c: "NewPersistentVirtualClock initial RuntimeStateStore ''business_virtual_time'' w = (Inr c, w1)"
    and at: "pc_current c = (case stored_state w ''business_virtual_time'' of None \<Rightarrow> initial | Some t \<Rightarrow> t)"
    and st: "stored_state w1 ''business_virtual_time'' = Some (pc_current c)" by blast
  obtain sv where sv: "NewServer (lib_ready lib) (cg_HTTPAddress cfg) = Inr sv"
    using assms(2) by (simp add: NewServer_routes)
  obtain app where "compose_application lib cfg sv = Inr app"
    by (rule compose_application_ok [OF sv])
  with c at st sv show ?thesis by (simp add: compose_def business_now_def stored_state_def)
qed

definition sample_libraries :: libraries where
  "sample_libraries =
     \<lparr>lib_net = no_net, lib_sha256 = (\<lambda>s b. []), lib_text = (\<lambda>e. []), lib_remaining = None,
      lib_iterate = (\<lambda>n xs. xs), lib_ready = (\<lambda>w. True)\<rparr>"

definition sample_environment :: "string \<Rightarrow> string" where
  "sample_environment name = (if name = ''PAYMENT_SANDBOX_ADMIN_TOKEN'' then ''secret'' else [])"

definition sample_config :: config where
  "sample_config = Config_Default\<lparr>cg_AdminToken := ''secret''\<rparr>"

lemma sample_environment_loaded: "Config_Load sample_environment = Inr sample_config"
  by (simp add: Config_Load_def load_busy_timeout_def sample_environment_def overridden_def
      Config_validate_def sample_config_def Config_Default_def)

lemma sample_composed:
  "\<exists>app w1. compose sample_libraries sample_config 1700000000000000000 fresh_world = (Inr app, w1)"
proof -
  have "cg_HTTPAddress sample_config \<noteq> []" by (simp add: sample_config_def Config_Default_def)
  with compose_starts [of fresh_world sample_config 1700000000000000000 sample_libraries] show ?thesis
    by (auto simp: fresh_world_def empty_db_def stored_state_def)
qed

section \<open>The bearer token\<close>

definition guarded :: "string \<Rightarrow> string \<Rightarrow> 's handler \<Rightarrow> bool" where
  "guarded token p f \<longleftrightarrow>
     (\<exists>g. f = BearerToken token g) \<or> (\<not> has_prefix p ''/admin'' \<and> \<not> has_prefix ''/admin'' p)"

lemma guarded_token [simp]: "guarded token p (BearerToken token f)"
  by (auto simp: guarded_def)

lemma guarded_elsewhere: "\<not> has_prefix p ''/admin'' \<Longrightarrow> \<not> has_prefix ''/admin'' p \<Longrightarrow> guarded token p f"
  by (simp add: guarded_def)

lemma has_prefix_append: "has_prefix s p \<longleftrightarrow> (\<exists>r. s = p @ r)"
  by (metis append_eq_conv_conj append_take_drop_id has_prefix_def)

lemma prefixes_comparable: "has_prefix s p \<Longrightarrow> has_prefix s q \<Longrightarrow> has_prefix p q \<or> has_prefix q p"
  by (auto simp: has_prefix_append append_eq_append_conv2)

lemma compose_guarded:
  assumes "compose lib cfg initial w = (Inr app, w')"
  shows "all_served (guarded (cg_AdminToken cfg)) (app_server app)"
proof -
  obtain sv where sv: "NewServer (lib_ready lib) (cg_HTTPAddress cfg) = Inr sv"
    and r: "register_routes (runtime_handlers lib) (cg_AdminToken cfg) sv = Inr (app_server app)"
    by (rule compose_Inr [OF assms])
  have "all_served (guarded (cg_AdminToken cfg)) sv"
    by (rule NewServer_served [OF sv]) (simp_all add: guarded_elsewhere has_prefix_def)
  moreover have "registers (guarded (cg_AdminToken cfg)) (register_routes (runtime_handlers lib) (cg_AdminToken cfg))"
    by (rule register_routes_served) (simp_all add: guarded_elsewhere has_prefix_def)
  ultimately show ?thesis using r registersD by blast
qed

text \<open>
  C6. The administration interface is closed without its token: whatever the configuration, a request
  to any path that begins with \<open>/admin\<close> that does not carry the configured token, or any request when
  the token is empty, is answered with 401, 404 or 405, runs no handler and changes nothing.
\<close>

theorem admin_requires_token:
  assumes "compose lib cfg initial w0 = (Inr app, w1)"
    and "has_prefix (rq_Path rq) ''/admin''"
    and "cg_AdminToken cfg = [] \<or>
      TrimSpace (trim_prefix (header_get (rq_Header rq) ''Authorization'') ''Bearer '') \<noteq> cg_AdminToken cfg"
  shows "snd (Server_ServeHTTP (app_server app) cx rq w) = w \<and>
    rs_Status (fst (Server_ServeHTTP (app_server app) cx rq w)) \<in> {401, 404, 405}"
proof -
  obtain resp w' where run: "Server_ServeHTTP (app_server app) cx rq w = (resp, w')" by force
  then show ?thesis
  proof (cases rule: ServeHTTP_cases)
    case 1
    then show ?thesis using run by auto
  next
    case (2 p f)
    have "guarded (cg_AdminToken cfg) p f"
      using compose_guarded [OF assms(1)] 2(1) by (auto simp: all_served_def)
    with prefixes_comparable [OF 2(2) assms(2)] obtain g where "f = BearerToken (cg_AdminToken cfg) g"
      by (auto simp: guarded_def)
    with 2(3) assms(3) run show ?thesis
      by (auto simp: BearerToken_def Let_def WriteError_def WriteJSON_def)
  qed
qed

theorem admin_requires_token_witness:
  "\<exists>app :: application. snd (Server_ServeHTTP (app_server app) background sample_get fresh_world) = fresh_world \<and>
     rs_Status (fst (Server_ServeHTTP (app_server app) background sample_get fresh_world)) \<in> {401, 404, 405}"
proof -
  obtain app w1 where c: "compose sample_libraries sample_config 1700000000000000000 fresh_world = (Inr app, w1)"
    using sample_composed by blast
  have "has_prefix (rq_Path sample_get) ''/admin''" by (simp add: sample_get_def has_prefix_def)
  moreover have "TrimSpace (trim_prefix (header_get (rq_Header sample_get) ''Authorization'') ''Bearer '') \<noteq>
      cg_AdminToken sample_config" by code_simp
  ultimately have "snd (Server_ServeHTTP (app_server app) background sample_get fresh_world) = fresh_world \<and>
     rs_Status (fst (Server_ServeHTTP (app_server app) background sample_get fresh_world)) \<in> {401, 404, 405}"
    by (intro admin_requires_token [OF c] disjI2)
  then show ?thesis ..
qed

end
