(* ===== verification/Program.thy ===== *)
theory Program
  imports Composition
begin

text \<open>
  The whole program as a step relation: an application as \<open>compose\<close> makes it, any request to its
  server, any tick of its scheduler, restarts, and a surrounding world in which any statement may fail.
  What holds in every state that it reaches: the event log is a complete history of the payments, the
  business clock is the one that a restart resumes at, and the runtime history shows what is stored.

  Requests and ticks are single steps here: statements of different requests do not interleave. Each of
  their transactions is atomic, and the tables of payments and events are only written inside one.
\<close>

section \<open>Procedures that keep the log\<close>

definition kept_from :: "world \<Rightarrow> world \<Rightarrow> bool" where
  "kept_from w w' \<longleftrightarrow>
     w_clock w' = w_clock w \<and> t_runtime_state (w_db w') = t_runtime_state (w_db w) \<and>
     (log_consistent w \<longrightarrow> log_consistent w')"

lemma kept_from_refl [simp]: "kept_from w w"
  by (simp add: kept_from_def)

lemma kept_from_trans: "kept_from u v \<Longrightarrow> kept_from v w \<Longrightarrow> kept_from u w"
  by (simp add: kept_from_def)

lemma kept_from_tables:
  assumes "w_clock w' = w_clock w" and "t_runtime_state (w_db w') = t_runtime_state (w_db w)"
    and "t_payments (w_db w') = t_payments (w_db w)" and "t_event_log (w_db w') = t_event_log (w_db w)"
  shows "kept_from w w'"
  using assms log_consistent_tables [OF assms(3,4)] by (simp add: kept_from_def business_now_def)

lemma kept_from_same: "w_clock w' = w_clock w \<Longrightarrow> w_db w' = w_db w \<Longrightarrow> kept_from w w'"
  by (rule kept_from_tables) simp_all

named_theorems kept_intros \<open>procedures that keep the log\<close>

definition log_kept :: "'a act \<Rightarrow> bool" where
  "log_kept m \<longleftrightarrow> (\<forall>w. kept_from w (snd (m w)))"

lemma log_keptI: "(\<And>w r w'. m w = (r, w') \<Longrightarrow> kept_from w w') \<Longrightarrow> log_kept m"
  unfolding log_kept_def by (metis prod.collapse)

lemma log_keptD: "log_kept m \<Longrightarrow> m w = (r, w') \<Longrightarrow> kept_from w w'"
  unfolding log_kept_def by (metis snd_conv)

lemma log_kept_bind [kept_intros]:
  assumes "log_kept m" and "\<And>x. log_kept (f x)" shows "log_kept (bindP m f)"
proof (rule log_keptI)
  fix w r w' assume run: "bindP m f w = (r, w')"
  obtain x v where m: "m w = (x, v)" by force
  with assms(1) have 1: "kept_from w v" by (rule log_keptD)
  show "kept_from w w'"
  proof (cases x)
    case (Inl e)
    with run m 1 show ?thesis by simp
  next
    case (Inr y)
    with run m have "f y v = (r, w')" by simp
    with assms(2) have "kept_from v w'" by (rule log_keptD)
    with 1 show ?thesis by (rule kept_from_trans)
  qed
qed

lemma log_kept_read: "read_only m \<Longrightarrow> db_local m \<Longrightarrow> log_kept m"
  by (auto intro!: log_keptI kept_from_same dest: read_onlyD db_local_clock clock_kept_same)

lemma log_kept_basic [kept_intros]:
  "log_kept (returnP x)" "log_kept (raiseP e)" "log_kept (liftP r)" "log_kept (readP h)"
  "log_kept (query q)" "log_kept (query_row qr)" "log_kept (uint64_arg v)"
  by (simp_all add: log_kept_read read_only_intros local_intros)

definition apart_statement :: "(db \<Rightarrow> 'a \<times> db) \<Rightarrow> bool" where
  "apart_statement f \<longleftrightarrow>
     (\<forall>d. t_payments (snd (f d)) = t_payments d \<and> t_event_log (snd (f d)) = t_event_log d \<and>
          t_runtime_state (snd (f d)) = t_runtime_state d)"

lemma log_kept_statement [kept_intros]:
  assumes "apart_statement f" shows "log_kept (statement f)"
proof (rule log_keptI)
  fix w r w' assume run: "statement f w = (r, w')"
  have "clock_kept (statement f)" by (simp add: db_local_clock local_intros)
  from clock_kept_same [OF this run] have "w_clock w' = w_clock w" .
  moreover have "w_db w' = w_db w \<or> w_db w' = snd (f (w_db w))"
    using run by (cases r) (auto dest: statement_InrD statement_InlD)
  ultimately show "kept_from w w'"
    using assms by (intro kept_from_tables) (auto simp: apart_statement_def)
qed

lemma log_kept_cases [kept_intros]:
  "(c \<Longrightarrow> log_kept m) \<Longrightarrow> (\<not> c \<Longrightarrow> log_kept n) \<Longrightarrow> log_kept (if c then m else n)"
  "log_kept m \<Longrightarrow> (\<And>y. x = Some y \<Longrightarrow> log_kept (f y)) \<Longrightarrow> log_kept (case x of None \<Rightarrow> m | Some y \<Rightarrow> f y)"
  "(\<And>y. log_kept (g y)) \<Longrightarrow> (\<And>y. log_kept (f y)) \<Longrightarrow>
     log_kept (case s of Inl y \<Rightarrow> g y | Inr y \<Rightarrow> f y)"
  by (auto split: option.splits sum.splits)

lemma log_kept_attempt [kept_intros]: "log_kept m \<Longrightarrow> log_kept (attemptP m)"
  by (simp add: log_kept_def)

lemma log_kept_Pair [kept_intros]: "log_kept (Pair r)"
  by (simp add: log_kept_def)

lemma log_kept_each [kept_intros]: "(\<And>x. log_kept (f x)) \<Longrightarrow> log_kept (eachP f xs)"
  by (induction xs) (auto intro!: kept_intros)

lemma log_kept_mapP [kept_intros]: "(\<And>x. log_kept (f x)) \<Longrightarrow> log_kept (mapP f xs)"
  by (induction xs) (auto intro!: kept_intros)

lemma log_kept_outside [kept_intros]:
  "log_kept NewCorrelationID" "log_kept (client_Do request)"
  by (auto simp: log_kept_def NewCorrelationID_def client_Do_def intro!: kept_from_same
      split: list.split option.split)

lemma log_kept_WithinTransaction [kept_intros]:
  assumes "log_kept m" shows "log_kept (WithinTransaction m)"
proof (rule log_keptI)
  fix w r w' assume run: "WithinTransaction m w = (r, w')"
  have control: "log_kept control" unfolding control_def by (rule kept_intros)
  have clock: "w_clock w' = w_clock w"
  proof -
    have "clock_kept m" using assms by (auto simp: clock_kept_def log_kept_def kept_from_def)
    then have "clock_kept (in_transaction background (\<lambda>c. m))" by (intro clock_intros)
    then show ?thesis
      using run clock_kept_same
      by (auto simp: in_transaction_def background_def WithinContext_def)
  qed
  show "kept_from w w'"
  proof (cases r)
    case (Inl e)
    with run have "w_db w' = w_db w" by (auto dest: WithinTransaction_Inl)
    with clock show ?thesis by (rule kept_from_same)
  next
    case (Inr x)
    with run obtain w1 w2 where "w_db w1 = w_db w" "surroundings w1 = surroundings w"
      and b: "m w1 = (Inr x, w2)" and "w_db w' = w_db w2" "surroundings w' = surroundings w2"
      by (auto elim: WithinTransaction_InrE)
    then have "kept_from w w1" and "kept_from w2 w'"
      by (auto intro!: kept_from_same simp: surroundings_def)
    with log_keptD [OF assms b] show ?thesis by (blast intro: kept_from_trans)
  qed
qed

lemma log_kept_in_transaction [kept_intros]:
  "(\<And>c. log_kept (m c)) \<Longrightarrow> log_kept (in_transaction cx m)"
  by (simp add: in_transaction_def WithinContext_def log_kept_WithinTransaction)

section \<open>Jobs, sagas and deliveries\<close>

lemma log_kept_NextRuntimeSequence [kept_intros]: "log_kept NextRuntimeSequence"
  by (auto simp: NextRuntimeSequence_def apart_statement_def intro!: kept_intros)

lemma log_kept_jobs [kept_intros]:
  "log_kept (SchedulerRepository_find cx i)" "log_kept (FindExecutable cx at n)"
  by (simp_all add: log_kept_read local_intros read_only_intros SchedulerRepository_find_frame FindExecutable_frame)

lemma log_kept_appendAudit [kept_intros]: "log_kept (appendAudit cx j)"
  by (auto simp: appendAudit_def insert_audit_def apart_statement_def intro!: kept_intros)

lemma log_kept_SchedulerRepository_Save [kept_intros]: "log_kept (SchedulerRepository_Save cx j)"
  by (auto simp: SchedulerRepository_Save_def SchedulerRepository_save_def upsert_job_def apart_statement_def
      intro!: kept_intros split: option.splits)

lemma log_kept_SchedulerRepository_Acquire [kept_intros]:
  "log_kept (SchedulerRepository_Acquire cx i owner e t)"
  by (auto simp: SchedulerRepository_Acquire_def SchedulerRepository_acquire_def acquire_rows_def
      apart_statement_def intro!: kept_intros split: option.splits)

text \<open>The payment services, each in its own transaction.\<close>

lemma log_kept_service:
  assumes "\<not> cx_tx cx"
  shows "log_kept (service sqlite_repository (Some (PaymentEventPublisher_Publish net)) cx r)"
proof (rule log_keptI)
  fix w x w' assume run: "service sqlite_repository (Some (PaymentEventPublisher_Publish net)) cx r w = (x, w')"
  have "keeps t_runtime_state (service sqlite_repository (Some (PaymentEventPublisher_Publish net)) cx r)"
    by (intro keeps_service) simp_all
  from keepsD [OF this run] clock_kept_same [OF service_clock run] service_records [OF _ assms run]
  show "kept_from w w'" by (simp add: kept_from_def)
qed

lemma log_kept_CreatePayment:
  assumes "\<not> cx_tx cx"
  shows "log_kept (CreatePayment_Execute sqlite_repository (Some (PaymentEventPublisher_Publish net)) cx c)"
proof (rule log_keptI)
  fix w x w'
  assume run: "CreatePayment_Execute sqlite_repository (Some (PaymentEventPublisher_Publish net)) cx c w = (x, w')"
  have "keeps t_runtime_state (CreatePayment_Execute sqlite_repository (Some (PaymentEventPublisher_Publish net)) cx c)"
    by (intro keeps_CreatePayment) simp_all
  from keepsD [OF this run] clock_kept_same [OF CreatePayment_clock run] CreatePayment_records [OF _ assms run]
  show "kept_from w w'" by (simp add: kept_from_def)
qed

lemma log_kept_FindByID [kept_intros]: "log_kept (Repository_FindByID cx i)"
  by (simp add: log_kept_read FindByID_frame)

lemma log_kept_executor:
  assumes "\<not> cx_tx cx"
  shows "log_kept (PaymentExecutor_Execute (runtime_executor net provider) cx m)"
  using assms
  by (auto simp: PaymentExecutor_Execute_def settle_step_def runtime_executor_def Let_def WithMetadata_def
      simp del: service.simps intro!: kept_intros log_kept_service split: option.splits)

lemma log_kept_sagas [kept_intros]:
  "log_kept (SagaRepository_Find cx i)" "log_kept (SagaRepository_Save cx j)"
  "log_kept (SagaPublisher_Publish cx m)"
  by (auto simp: log_kept_read SagaFind_read_only SagaFind_local SagaRepository_Save_def upsert_saga_def
      SagaPublisher_Publish_def apart_statement_def intro!: kept_intros split: option.splits)

lemma log_kept_saga_step:
  assumes "\<not> cx_tx cx" shows "log_kept (saga_step_handler net cx payload)"
  using assms log_kept_executor [of "WithMetadata md cx" for md]
  by (auto simp: saga_step_handler_def Handle_def runtime_orchestrator_def sqlite_sagas_def publishCurrent_def
      publish_async_def Let_def WithMetadata_def intro!: kept_intros log_kept_executor split: option.splits)

lemma log_kept_recordStart [kept_intros]: "log_kept (recordStart cx a)"
  unfolding recordStart_def
  by (intro kept_intros) (simp add: insert_delivery_def apart_statement_def split: option.splits)

lemma log_kept_recordTerminal [kept_intros]: "log_kept (recordTerminal cx a)"
  unfolding recordTerminal_def
  by (intro kept_intros) (simp add: finish_delivery_def apart_statement_def split: option.splits)

lemma log_kept_Record [kept_intros]: "log_kept (DeliveryAudit_Record cx a)"
  unfolding DeliveryAudit_Record_def by (intro kept_intros)

lemma log_kept_Endpoint_FindByID [kept_intros]: "log_kept (Endpoint_FindByID net cx i)"
  unfolding Endpoint_FindByID_def by (intro kept_intros)

lemma log_kept_finish [kept_intros]: "log_kept (callback_finish audited cx delivery out code err)"
  unfolding callback_finish_def Let_def by (intro kept_intros)

lemma log_kept_response [kept_intros]:
  "(\<And>why. log_kept (f why)) \<Longrightarrow> log_kept g \<Longrightarrow> (\<And>c b. log_kept (h c b)) \<Longrightarrow>
     log_kept (case response of HttpError why \<Rightarrow> f why | HttpNilResponse \<Rightarrow> g | HttpResponse c b \<Rightarrow> h c b)"
  by (cases response) simp_all

lemma log_kept_callback: "log_kept (OutboundCallback_Execute net audited cx payload)"
  unfolding OutboundCallback_Execute_def callback_start_def callback_send_def by (intro kept_intros)

section \<open>The worker and the scheduler\<close>

lemma log_kept_persistFailure [kept_intros]:
  "wk_repository wk = sqlite_jobs \<Longrightarrow> log_kept (persistFailure wk cx j e)"
  by (auto simp: persistFailure_def save_and_report_def sqlite_jobs_def intro!: kept_intros
      split: option.splits sum.splits)

lemma log_kept_worker:
  assumes "wk_repository wk = sqlite_jobs"
    and "\<And>t f cx b. (t, f) \<in> set (wk_handlers wk) \<Longrightarrow> \<not> cx_tx cx \<Longrightarrow> log_kept (f cx b)"
    and "\<not> cx_tx cx"
  shows "log_kept (Worker_Execute wk cx job)"
proof -
  have handler: "log_kept (f (WithExecutionMetadata i n cx) b)" if "map_of (wk_handlers wk) t = Some f" for f t i n b
    using map_of_SomeD [OF that] assms(2,3) by (auto simp: WithExecutionMetadata_def)
  show ?thesis
    using assms(1) handler
    by (auto simp: Worker_Execute_def sqlite_jobs_def intro!: kept_intros split: option.splits)
qed

lemma log_kept_runtime_worker:
  "\<not> cx_tx cx \<Longrightarrow> log_kept (runtimeDispatcher_Dispatch (runtime_worker net) cx job)"
  unfolding runtimeDispatcher_Dispatch_def
  by (rule log_kept_worker) (auto simp: runtime_worker_def intro: log_kept_saga_step log_kept_callback)

lemma log_kept_Tick:
  assumes "\<And>job. log_kept (dispatch cx job)"
  shows "log_kept (Scheduler_Tick (runtime_scheduler dispatch owner n d) cx)"
  using assms
  by (auto simp: Scheduler_Tick_def runtime_scheduler_def tick_job_def sqlite_jobs_def intro!: kept_intros
      split: option.splits sum.splits)

section \<open>The invariant of the program\<close>

definition clock_stored :: "world \<Rightarrow> bool" where
  "clock_stored w \<longleftrightarrow>
     pc_key (w_clock w) = ''business_virtual_time'' \<and>
     stored_state w ''business_virtual_time'' = Some (business_now w)"

definition program_invariant :: "world \<Rightarrow> bool" where
  "program_invariant w \<longleftrightarrow> log_consistent w \<and> clock_stored w"

text \<open>A step keeps the invariant, and the business time never goes back.\<close>

definition moves_on :: "world \<Rightarrow> world \<Rightarrow> bool" where
  "moves_on w w' \<longleftrightarrow> program_invariant w' \<and> business_now w \<le> business_now w'"

lemma moves_on_refl: "program_invariant w \<Longrightarrow> moves_on w w"
  by (simp add: moves_on_def)

lemma kept_from_invariant: "kept_from w w' \<Longrightarrow> program_invariant w \<Longrightarrow> moves_on w w'"
  by (simp add: moves_on_def kept_from_def program_invariant_def clock_stored_def stored_state_def business_now_def)

definition handler_safe :: "world handler \<Rightarrow> bool" where
  "handler_safe f \<longleftrightarrow>
     (\<forall>cx rq w. \<not> cx_tx cx \<longrightarrow> program_invariant w \<longrightarrow> moves_on w (snd (f cx rq w)))"

lemma handler_safe_kept:
  "(\<And>cx rq w. \<not> cx_tx cx \<Longrightarrow> kept_from w (snd (f cx rq w))) \<Longrightarrow> handler_safe f"
  by (auto simp: handler_safe_def intro: kept_from_invariant)

lemma handler_safe_token: "handler_safe f \<Longrightarrow> handler_safe (BearerToken token f)"
  by (simp add: handler_safe_def BearerToken_def Let_def moves_on_refl)

section \<open>The clock\<close>

lemma advance_time_invariant:
  assumes "program_invariant w" and "Database.advance_time by w = (x, w')"
  shows "moves_on w w'"
proof -
  have "clock_stored w' \<and> business_now w \<le> business_now w'"
  proof (cases x)
    case (Inl e)
    with assms(2) have "TimeAdvancer_Execute (PersistentVirtualClock_Advance RuntimeStateStore) pc_current
        by (w_clock w) w = (Inl e, w')"
      by (auto simp: Database.advance_time_def split: prod.splits sum.splits)
    then have "stored_state w' = stored_state w \<and> w_clock w' = w_clock w"
      by (auto simp: TimeAdvancer_Execute_def PersistentVirtualClock_Advance_def RuntimeStateStore_def
          RuntimeStateStore_Save_def Let_def stored_state_def surroundings_def
          dest!: statement_InlD elim!: bindP_InlE split: if_splits)
    with assms(1) show ?thesis by (simp add: program_invariant_def clock_stored_def business_now_def)
  next
    case (Inr t)
    with assms(2) obtain c v where a: "PersistentVirtualClock_Advance RuntimeStateStore by (w_clock w) w = (Inr c, v)"
      and w': "w' = v\<lparr>w_clock := c\<rparr>"
      by (auto simp: Database.advance_time_def TimeAdvancer_Execute_def elim!: bindP_InrE
          split: prod.splits sum.splits if_splits)
    from runtime_state.advance_durable [OF a] assms(1) show ?thesis
      by (simp add: w' program_invariant_def clock_stored_def business_now_def stored_state_def)
  qed
  with advance_time_records [OF _ assms(2)] assms(1) show ?thesis
    by (simp add: moves_on_def program_invariant_def)
qed

section \<open>The payment routes\<close>

lemma createPayment_runs:
  assumes "createPayment (runtime_payments net sha256 render) cx rq w = (resp, w')"
  obtains "w' = w"
  | hdr cx' c x where "cx_tx cx' = cx_tx cx"
      and "CreatePayment_Execute sqlite_repository (Some (PaymentEventPublisher_Publish net)) cx' c w = (x, w')"
      and "\<And>e. x = Inl e \<Longrightarrow> resp = writePaymentError (runtime_payments net sha256 render) hdr e"
proof (cases "w' = w")
  case False
  let ?h = "runtime_payments net sha256 render"
  from assms False obtain hdr cx' c where m: "withRequestMetadata ?h cx rq = Inr (hdr, cx')"
    and a: "answer_created ?h hdr
        (CreatePayment_Execute sqlite_repository (Some (PaymentEventPublisher_Publish net)) cx' c w) = (resp, w')"
    by (auto simp: createPayment_def split: sum.splits)
  obtain x w1 where run: "CreatePayment_Execute sqlite_repository (Some (PaymentEventPublisher_Publish net)) cx' c w =
      (x, w1)" by force
  with a have "w1 = w'" and "\<And>e. x = Inl e \<Longrightarrow> resp = writePaymentError ?h hdr e"
    by (cases x; simp add: answer_created_def Let_def)+
  with run that(2) [OF metadata_context [OF m]] show thesis by blast
qed (rule that)

lemma command_runs:
  assumes "command (runtime_payments net sha256 render) cx rq w = (resp, w')"
  obtains "w' = w"
  | hdr cx' r x where "cx_tx cx' = cx_tx cx"
      and "service sqlite_repository (Some (PaymentEventPublisher_Publish net)) cx' r w = (x, w')"
      and "\<And>e. x = Inl e \<Longrightarrow> resp = writePaymentError (runtime_payments net sha256 render) hdr e"
proof (cases "w' = w")
  case False
  let ?h = "runtime_payments net sha256 render"
  from assms False obtain hdr cx' r where m: "withRequestMetadata ?h cx rq = Inr (hdr, cx')"
    and a: "answer_payment ?h hdr (service sqlite_repository (Some (PaymentEventPublisher_Publish net)) cx' r w) =
        (resp, w')"
    by (auto simp: command_def simp del: service.simps split: sum.splits list.splits option.splits if_splits)
  obtain x w1 where run: "service sqlite_repository (Some (PaymentEventPublisher_Publish net)) cx' r w = (x, w1)"
    by force
  with a have "w1 = w'" and "\<And>e. x = Inl e \<Longrightarrow> resp = writePaymentError ?h hdr e"
    by (cases x; simp add: answer_payment_def)+
  with run that(2) [OF metadata_context [OF m]] show thesis by blast
qed (rule that)

text \<open>A handler that is safe inside a transaction when its answer is below 500, and never moves the clock.\<close>

definition route_safe :: "world handler \<Rightarrow> bool" where
  "route_safe f \<longleftrightarrow>
     (\<forall>cx rq w resp w'. f cx rq w = (resp, w') \<longrightarrow>
        w_clock w' = w_clock w \<and> (cx_tx cx \<longrightarrow> rs_Status resp < 500 \<longrightarrow> kept_from w w'))"

lemma route_safe_createPayment: "route_safe (createPayment (runtime_payments net sha256 render))"
  unfolding route_safe_def
proof (intro allI impI)
  fix cx rq w resp w' assume "createPayment (runtime_payments net sha256 render) cx rq w = (resp, w')"
  then show "w_clock w' = w_clock w \<and> (cx_tx cx \<longrightarrow> rs_Status resp < 500 \<longrightarrow> kept_from w w')"
  proof (cases rule: createPayment_runs)
    case (2 hdr cx' c x)
    note clock = clock_kept_same [OF CreatePayment_clock 2(2)]
    have "kept_from w w'" if tx: "cx_tx cx" and lt: "rs_Status resp < 500"
    proof (cases x)
      case (Inl e)
      with 2(3) lt writePaymentError_status have "\<not> server_error e" by blast
      with CreatePayment_client_error 2(1,2) Inl tx have "w_db w' = w_db w" by blast
      with clock show ?thesis by (rule kept_from_same)
    next
      case (Inr p)
      have "keeps t_runtime_state (CreatePayment_Execute sqlite_repository
          (Some (PaymentEventPublisher_Publish net)) cx' c)" by (intro keeps_CreatePayment) simp_all
      from keepsD [OF this 2(2)] clock CreatePayment_records_success [OF _ 2(2) [unfolded Inr]]
      show ?thesis by (simp add: kept_from_def)
    qed
    with clock show ?thesis by simp
  qed simp
qed

lemma route_safe_command: "route_safe (command (runtime_payments net sha256 render))"
  unfolding route_safe_def
proof (intro allI impI)
  fix cx rq w resp w' assume "command (runtime_payments net sha256 render) cx rq w = (resp, w')"
  then show "w_clock w' = w_clock w \<and> (cx_tx cx \<longrightarrow> rs_Status resp < 500 \<longrightarrow> kept_from w w')"
  proof (cases rule: command_runs)
    case (2 hdr cx' r x)
    note clock = clock_kept_same [OF service_clock 2(2)]
    have "kept_from w w'" if tx: "cx_tx cx" and lt: "rs_Status resp < 500"
    proof (cases x)
      case (Inl e)
      with 2(3) lt writePaymentError_status have "\<not> server_error e" by blast
      with service_client_error 2(1,2) Inl tx have "w_db w' = w_db w" by blast
      with clock show ?thesis by (rule kept_from_same)
    next
      case (Inr p)
      have "keeps t_runtime_state (service sqlite_repository (Some (PaymentEventPublisher_Publish net)) cx' r)"
        by (intro keeps_service) simp_all
      from keepsD [OF this 2(2)] clock service_records_success [OF _ 2(2) [unfolded Inr]]
      show ?thesis by (simp add: kept_from_def)
    qed
    with clock show ?thesis by simp
  qed simp
qed

lemma kept_from_other:
  assumes "other_than_records (w_db w') = other_than_records (w_db w)" and "w_clock w' = w_clock w"
  shows "kept_from w w'"
proof -
  from other_than_records_eq [OF assms(1)]
  obtain r where "w_db w' = (w_db w)\<lparr>t_idempotency_records := r\<rparr>" by blast
  with assms(2) show ?thesis by (intro kept_from_tables) simp_all
qed

lemma idempotent_clock:
  assumes "ph_idempotency h = Some sqlite_idempotency"
    and "\<And>cx rq w. w_clock (snd (next cx rq w)) = w_clock w"
  shows "w_clock (snd (idempotent h next cx rq w)) = w_clock w"
proof (cases "\<exists>body. keyed rq body")
  case False
  with assms show ?thesis by (auto simp: idempotent_def keyed_def split: option.splits)
next
  case True
  then obtain body where k: "keyed rq body" ..
  let ?r = "new_record h rq body"
  note simps = idempotent_def keyed_def Let_def sqlite_idempotency_def
  obtain x s1 where rv: "Idempotency_Reserve cx ?r w = (x, s1)" by force
  note 1 = clock_kept_same [OF idempotency_clock(1) rv]
  consider (failed) e where "x = Inl e" | (held) "x = Inr False" | (new) "x = Inr True"
    by (cases x) auto
  then show ?thesis
  proof cases
    case failed
    with assms(1) k rv 1 show ?thesis by (simp add: simps)
  next
    case held
    obtain y s2 where f: "Idempotency_Find cx (request_scope rq) (idempotency_key rq) s1 = (y, s2)" by force
    with assms(1) k rv 1 held clock_kept_same [OF idempotency_clock(2) f] show ?thesis
      by (cases y) (simp_all add: simps replay_stored_def)
  next
    case new
    obtain ans s2 where n: "next cx rq s1 = (ans, s2)" by force
    obtain y s3 where c: "Idempotency_Complete cx (completed_record ?r ans) s2 = (y, s3)" by force
    obtain z s4 where d: "Idempotency_Release cx (id_Scope ?r) (id_Key ?r) (id_Fingerprint ?r) s2 = (z, s4)" by force
    have "w_clock s2 = w_clock s1" using assms(2) [of cx rq s1] n by simp
    with assms(1) k rv 1 new n c d clock_kept_same [OF idempotency_clock(3) c]
      clock_kept_same [OF idempotency_clock(4) d] show ?thesis
      by (cases y) (simp_all add: simps run_reserved_def)
  qed
qed

lemma transactional_safe:
  assumes "ph_idempotency h = Some sqlite_idempotency" and "ph_transaction h = Some WithinContext"
    and safe: "route_safe f"
  shows "handler_safe (transactional h (idempotent h f))"
proof (rule handler_safe_kept)
  fix cx :: ctx and rq and w :: world assume tx: "\<not> cx_tx cx"
  obtain resp w' where run: "transactional h (idempotent h f) cx rq w = (resp, w')" by force
  have inner: "w_clock (snd (idempotent h f c rq v)) = w_clock v" for c v
    by (rule idempotent_clock [OF assms(1)]) (metis prod.collapse route_safe_def safe)
  let ?fn = "\<lambda>c s. case idempotent h f c rq s of (resp, s') \<Rightarrow>
      if rs_Status resp \<ge> 500 then (Inl (Message ''payment request failed; transaction rolled back''), s')
      else (Inr resp, s')"
  have "clock_kept (?fn c)" for c
    unfolding clock_kept_def using inner [of c] by (simp add: prod.case_eq_if)
  then have ck: "clock_kept (in_transaction cx ?fn)" by (rule clock_kept_in_transaction)
  obtain r v where tr: "in_transaction cx ?fn w = (r, v)" by force
  with run tx assms(2) have "v = w'"
    by (cases r) (auto simp: in_transaction_def transactional_def split: prod.splits)
  with clock_kept_same [OF ck tr] have clock: "w_clock w' = w_clock w" by simp
  from transactional_cases [OF assms(2) run] have "kept_from w w'"
  proof
    assume "rs_Status resp = 500 \<and> w_db w' = w_db w"
    with clock show ?thesis by (auto intro: kept_from_same)
  next
    assume "\<exists>w1 w2. idempotent h f (WithTx cx) rq w1 = (resp, w2) \<and> rs_Status resp < 500 \<and>
       w_db w1 = w_db w \<and> surroundings w1 = surroundings w \<and> w_db w' = w_db w2"
    then obtain w1 w2 where i: "idempotent h f (WithTx cx) rq w1 = (resp, w2)" and lt: "rs_Status resp < 500"
      and w1: "w_db w1 = w_db w" "surroundings w1 = surroundings w" and w': "w_db w' = w_db w2" by blast
    have c1: "w_clock w1 = w_clock w" using w1(2) by (simp add: surroundings_def)
    have c2: "w_clock w2 = w_clock w1" using inner [of "WithTx cx" w1] i by simp
    have "kept_from w1 w2"
    proof (rule idempotent_cases [OF assms(1) i lt])
      assume "other_than_records (w_db w2) = other_than_records (w_db w1)"
      then show ?thesis using c2 by (rule kept_from_other)
    next
      fix v v' assume n: "f (WithTx cx) rq v = (resp, v')"
        and 1: "other_than_records (w_db v) = other_than_records (w_db w1)" "w_clock v = w_clock w1"
        and 2: "other_than_records (w_db w2) = other_than_records (w_db v')" "w_clock w2 = w_clock v'"
      have "kept_from v v'" using safe n lt by (auto simp: route_safe_def WithTx_def)
      with kept_from_other [OF 1] kept_from_other [OF 2] show ?thesis by (blast intro: kept_from_trans)
    qed
    moreover have "kept_from w w1" using c1 w1(1) by (rule kept_from_same)
    moreover have "kept_from w2 w'" using clock c1 c2 w' by (intro kept_from_same) simp_all
    ultimately show ?thesis by (blast intro: kept_from_trans)
  qed
  with run show "kept_from w (snd (transactional h (idempotent h f) cx rq w))" by simp
qed

section \<open>The other routes\<close>

text \<open>Most handlers run one procedure and answer with what it returns.\<close>

lemma kept_answer:
  "log_kept m \<Longrightarrow>
     kept_from w (snd (case m w of (Inl e, s') \<Rightarrow> (k e, s') | (Inr x, s') \<Rightarrow> (g x s', s')))"
  by (auto split: prod.splits sum.splits dest: log_keptD)

lemma log_kept_reads [kept_intros]:
  "log_kept (EventLog_ListByAggregate cx i)" "log_kept (GetPayment_Execute sqlite_repository cx i)"
  "log_kept (ListByJob cx i)" "log_kept (ListAudit cx i)" "log_kept (ListAuditByAggregate cx i)"
  "log_kept (Endpoint_List net cx)" "log_kept (ScenarioRepository_FindByID cx i)"
proof -
  show a: "log_kept (ListAudit cx i)" for cx i unfolding ListAudit_def by (intro kept_intros)
  show "log_kept (ListAuditByAggregate cx i)" unfolding ListAuditByAggregate_def by (intro kept_intros a)
  show "log_kept (EventLog_ListByAggregate cx i)" unfolding EventLog_ListByAggregate_def by (intro kept_intros)
  show "log_kept (GetPayment_Execute sqlite_repository cx i)"
    unfolding GetPayment_Execute_def by (simp add: kept_intros)
  show "log_kept (ListByJob cx i)" unfolding ListByJob_def by (intro kept_intros)
  show "log_kept (Endpoint_List net cx)" unfolding Endpoint_List_def by (intro kept_intros)
  show "log_kept (ScenarioRepository_FindByID cx i)" unfolding ScenarioRepository_FindByID_def
    by (intro kept_intros)
qed

lemma log_kept_writes [kept_intros]:
  "log_kept (Endpoint_Save cx e)" "log_kept (ScenarioRepository_Save cx x)"
  unfolding Endpoint_Save_def ScenarioRepository_Save_def
  by (auto simp: insert_endpoint_def insert_scenario_def apart_statement_def intro!: kept_intros
      split: option.splits)

lemma log_kept_engine [kept_intros]: "log_kept (runtime_engine remaining iterate cx x)"
  by (auto simp: log_kept_def runtime_engine_def intro!: kept_from_same split: prod.splits)

lemma log_kept_WithinContext [kept_intros]: "(\<And>c. log_kept (m c)) \<Longrightarrow> log_kept (WithinContext cx m)"
  by (simp add: WithinContext_def log_kept_WithinTransaction)

lemma safe_getPayment: "handler_safe (getPayment (runtime_payments net sha256 render))"
proof (rule handler_safe_kept)
  fix cx :: ctx and rq w
  show "kept_from w (snd (getPayment (runtime_payments net sha256 render) cx rq w))"
    by (auto simp: getPayment_def answer_payment_def intro!: kept_answer kept_intros
        split: sum.splits option.splits)
qed

lemma safe_webhooks:
  "handler_safe (registerEndpoint (runtime_webhooks net render))"
  "handler_safe (listEndpoints (runtime_webhooks net render))"
  "handler_safe (getEndpoint (runtime_webhooks net render))"
  by (rule handler_safe_kept; auto simp: registerEndpoint_def listEndpoints_def getEndpoint_def
      runtime_webhooks_def RegisterEndpoint_Execute_def ListEndpoints_Execute_def GetEndpoint_Execute_def
      intro!: kept_answer kept_intros split: sum.splits option.splits)+

lemma safe_administration:
  assumes "an_advance h = Database.advance_time"
  shows "handler_safe (getTime h)" and "handler_safe (advanceTime h)" and "handler_safe (listProviders h)"
  using assms
  by (auto simp: handler_safe_def getTime_def listProviders_def advanceTime_def
      intro: advance_time_invariant moves_on_refl split: sum.splits option.splits prod.splits)

lemma safe_scenarios:
  "handler_safe (createScenario (runtime_scenario_handler remaining iterate render))"
  "handler_safe (getScenario (runtime_scenario_handler remaining iterate render))"
  "handler_safe (executeScenario (runtime_scenario_handler remaining iterate render))"
  by (rule handler_safe_kept; auto simp: createScenario_def getScenario_def executeScenario_def
      runtime_scenario_handler_def runtime_scenarios_def ScenarioService_Create_def ScenarioService_Execute_def
      ScenarioInspection_Execute_def intro!: kept_answer kept_intros split: sum.splits option.splits)+

lemma safe_inspection:
  "handler_safe (getTimeline (hs_timeline (runtime_handlers lib)))"
  "handler_safe (getDiagnostics (hs_diagnostics (runtime_handlers lib)))"
  "handler_safe (getAudit (hs_audit (runtime_handlers lib)))"
  by (rule handler_safe_kept; auto simp: getTimeline_def getDiagnostics_def getAudit_def runtime_handlers_def
      Timeline_Execute_def Diagnostics_Execute_def WebhookAudit_Execute_def
      intro!: kept_answer kept_intros split: option.splits)+

lemma safe_history: "handler_safe (getHistory (hs_history (runtime_handlers lib)))"
  by (rule handler_safe_kept; auto simp: getHistory_def runtime_handlers_def RuntimeHistory_Execute_def
      RuntimeHistory_read_def sqlite_runtime_history_def intro!: kept_answer kept_intros split: option.splits)

section \<open>The program\<close>

lemma compose_safe:
  assumes "compose lib cfg initial w0 = (Inr app, w1)" and "\<not> cx_tx cx" and "program_invariant w"
  shows "moves_on w (snd (Server_ServeHTTP (app_server app) cx rq w))"
    and "moves_on w (snd (Scheduler_Tick (app_scheduler app) cx w))"
proof -
  let ?P = "\<lambda>p f. handler_safe f"
  obtain sv where sv: "NewServer (lib_ready lib) (cg_HTTPAddress cfg) = Inr sv"
    and r: "register_routes (runtime_handlers lib) (cg_AdminToken cfg) sv = Inr (app_server app)"
    and sc: "app_scheduler app =
      runtime_scheduler (runtimeDispatcher_Dispatch (runtime_worker (lib_net lib))) ''runtime'' 100 time_Minute"
    by (rule compose_Inr [OF assms(1)])
  have "all_served ?P sv"
    by (rule NewServer_served [OF sv]) (simp_all add: handler_safe_def health_live_def health_ready_def moves_on_refl)
  moreover have "registers ?P (register_routes (runtime_handlers lib) (cg_AdminToken cfg))"
  proof (rule register_routes_served)
    show "handler_safe (transactional (hs_payment (runtime_handlers lib)) (idempotent (hs_payment (runtime_handlers lib))
        (createPayment (hs_payment (runtime_handlers lib)))))"
      by (intro transactional_safe) (simp_all add: runtime_handlers_def route_safe_createPayment)
    show "handler_safe (transactional (hs_payment (runtime_handlers lib)) (idempotent (hs_payment (runtime_handlers lib))
        (command (hs_payment (runtime_handlers lib)))))"
      by (intro transactional_safe) (simp_all add: runtime_handlers_def route_safe_command)
  qed (simp_all add: handler_safe_token safe_inspection safe_history,
       simp_all add: runtime_handlers_def handler_safe_token safe_getPayment safe_webhooks safe_administration safe_scenarios)
  ultimately have all: "all_served ?P (app_server app)" using r registersD by blast
  obtain resp w' where run: "Server_ServeHTTP (app_server app) cx rq w = (resp, w')" by force
  then have "moves_on w w'"
  proof (cases rule: ServeHTTP_cases)
    case (2 p f)
    then have "handler_safe f" using all by (auto simp: all_served_def)
    then show ?thesis using 2(3) assms(2,3) by (metis handler_safe_def snd_conv)
  qed (use assms(3) in \<open>simp add: moves_on_refl\<close>)
  with run show "moves_on w (snd (Server_ServeHTTP (app_server app) cx rq w))" by simp
  have "log_kept (Scheduler_Tick (app_scheduler app) cx)"
    unfolding sc by (intro log_kept_Tick log_kept_runtime_worker assms(2))
  then show "moves_on w (snd (Scheduler_Tick (app_scheduler app) cx w))"
    using assms(3) by (auto simp: log_kept_def intro: kept_from_invariant)
qed

text \<open>However the process starts, its clock is the stored one; a restart continues where the program was.\<close>

lemma compose_clock:
  assumes "compose lib cfg initial w = (Inr app, w')"
  shows "clock_stored w'" and "t_payments (w_db w') = t_payments (w_db w)"
    and "t_event_log (w_db w') = t_event_log (w_db w)"
    and "clock_stored w \<Longrightarrow> business_now w' = business_now w"
proof -
  let ?k = "''business_virtual_time''"
  obtain c w1 where c: "NewPersistentVirtualClock initial RuntimeStateStore ?k w = (Inr c, w1)"
    and w': "w' = w1\<lparr>w_clock := c\<rparr>"
    by (rule compose_Inr [OF assms])
  have key: "pc_key c = ?k"
    using c by (auto simp: NewPersistentVirtualClock_def elim!: bindP_InrE split: if_splits option.splits)
  have tables: "t_payments (w_db w1) = t_payments (w_db w) \<and> t_event_log (w_db w1) = t_event_log (w_db w)"
    using c
    by (auto simp: NewPersistentVirtualClock_def RuntimeStateStore_def RuntimeStateStore_Save_def
        elim!: bindP_InrE dest!: read_onlyD [OF RuntimeStateStore_Load_frame] statement_InrD
        split: if_splits option.splits)
  show "t_payments (w_db w') = t_payments (w_db w)" "t_event_log (w_db w') = t_event_log (w_db w)"
    using tables w' by simp_all
  have same: "stored_state w' = stored_state w1" by (simp add: w' stored_state_def fun_eq_iff)
  show "clock_stored w'"
  proof (cases "stored_state w ?k")
    case None
    from runtime_state.first_start_saves [OF None c] key show ?thesis
      unfolding clock_stored_def same by (simp add: w' business_now_def)
  next
    case (Some at)
    from runtime_state.restart_resumes [OF Some c] key Some show ?thesis
      unfolding clock_stored_def same by (simp add: w' business_now_def)
  qed
  show "business_now w' = business_now w" if "clock_stored w"
  proof -
    from that have "stored_state w ?k = Some (business_now w)" by (simp add: clock_stored_def)
    from runtime_state.restart_resumes [OF this c] show ?thesis by (simp add: w' business_now_def)
  qed
qed

text \<open>
  The steps of the program: a request, a tick of the scheduler, a restart with any libraries and
  configuration, and a change in what surrounds it (which statements fail, random identifiers, the wall
  clock, the answers of webhook receivers).
\<close>

inductive program_step :: "application \<times> world \<Rightarrow> application \<times> world \<Rightarrow> bool" where
  request: "program_step (app, w) (app, w')"
    if "\<not> cx_tx cx" and "Server_ServeHTTP (app_server app) cx rq w = (resp, w')"
| tick: "program_step (app, w) (app, w')"
    if "\<not> cx_tx cx" and "Scheduler_Tick (app_scheduler app) cx w = (x, w')"
| restart: "program_step (app, w) (app', w')" if "compose lib cfg initial w = (Inr app', w')"
| surroundings: "program_step (app, w)
    (app, w\<lparr>w_faults := faults, w_entropy := entropy, w_wall := wall, w_http := answers\<rparr>)"

inductive_cases program_stepE: "program_step (app, w) (app', w')"

definition composed :: "application \<Rightarrow> bool" where
  "composed app \<longleftrightarrow> (\<exists>lib cfg initial w w'. compose lib cfg initial w = (Inr app, w'))"

lemma composedI: "compose lib cfg initial w = (Inr app, w') \<Longrightarrow> composed app"
  unfolding composed_def by blast

lemma program_step_moves:
  assumes "program_step (app, w) (app', w')" and "composed app" and "program_invariant w"
  shows "composed app' \<and> moves_on w w'"
proof -
  from assms(2) obtain lib cfg initial u u' where c: "compose lib cfg initial u = (Inr app, u')"
    by (auto simp: composed_def)
  from assms(1) show ?thesis
  proof (rule program_stepE)
    fix cx rq resp assume tx: "\<not> cx_tx cx" and run: "Server_ServeHTTP (app_server app) cx rq w = (resp, w')"
      and "app' = app"
    with compose_safe(1) [OF c tx assms(3), of rq] assms(2) show ?thesis by simp
  next
    fix cx x assume tx: "\<not> cx_tx cx" and run: "Scheduler_Tick (app_scheduler app) cx w = (x, w')"
      and "app' = app"
    with compose_safe(2) [OF c tx assms(3)] assms(2) show ?thesis by simp
  next
    fix lib' cfg' initial' assume start: "compose lib' cfg' initial' w = (Inr app', w')"
    note clock = compose_clock [OF start]
    have "clock_stored w" using assms(3) by (simp add: program_invariant_def)
    with clock(4) have "business_now w' = business_now w" .
    with log_consistent_tables [OF clock(2,3)] clock(1) assms(3) composedI [OF start] show ?thesis
      by (simp add: moves_on_def program_invariant_def)
  next
    fix faults entropy wall answers assume "app = app'"
      and w': "w' = w\<lparr>w_faults := faults, w_entropy := entropy, w_wall := wall, w_http := answers\<rparr>"
    have "kept_from w w'" unfolding w' by (rule kept_from_same) simp_all
    with \<open>app = app'\<close> assms(2,3) show ?thesis by (auto intro: kept_from_invariant)
  qed
qed

lemma program_steps_invariant:
  assumes "program_step\<^sup>*\<^sup>* (app0, w0) (app, w)" and "composed app0" and "program_invariant w0"
  shows "composed app \<and> program_invariant w \<and> business_now w0 \<le> business_now w"
  using assms(1)
proof (induction rule: rtranclp_induct2)
  case refl
  with assms(2,3) show ?case by simp
next
  case (step app w app' w')
  with program_step_moves [OF step.hyps(2)] show ?case by (auto simp: moves_on_def)
qed

lemma program_started:
  assumes "compose lib cfg initial w0 = (Inr app, w1)"
    and "t_payments (w_db w0) = []" and "t_event_log (w_db w0) = []"
  shows "composed app \<and> program_invariant w1"
proof -
  note clock = compose_clock [OF assms(1)]
  have "log_consistent w1" using clock(2,3) assms(2,3) by (intro empty_consistent) simp_all
  with clock(1) composedI [OF assms(1)] show ?thesis by (simp add: program_invariant_def)
qed

section \<open>The runtime history\<close>

text \<open>What a history shows of a payment is what is stored of it.\<close>

lemma shown_payment:
  assumes "log_consistent w" and "shows_history (w_db w) i h"
  shows "stored w i = Some (ru_Payment h)"
proof -
  let ?d = "w_db w"
  have c: "collectR restore_event_row (aggregate_rows i ?d) = Inr (ru_Events h)"
    and r: "ReconstructFromEvents (ru_Events h) = Inr (Some (ru_Payment h))"
    using assms(2) by (simp_all add: shows_history_def)
  have "ru_Events h \<noteq> []" using r by (auto simp: ReconstructFromEvents_def)
  then have "aggregate_rows i ?d \<noteq> []" using c by auto
  moreover have "history_recorded ?d i" using assms(1) by (simp add: log_consistent_def)
  ultimately obtain es ps where "collectR restore_event_row (aggregate_rows i ?d) = Inr es"
    and hist: "history i 1 es ps" and st: "stored_payment ?d i = Some (last ps)"
    by (auto simp: history_recorded_def split: option.splits)
  with c have "es = ru_Events h" by simp
  with reconstruct_history [OF hist] \<open>ru_Events h \<noteq> []\<close> r st show ?thesis by (simp add: stored_def)
qed

section \<open>Properties\<close>

text \<open>The sample program: started on an empty database, and asked to create the payment \<open>p1\<close>.\<close>

lemma sample_program:
  obtains app w1 w where
    "compose sample_libraries sample_config 1700000000000000000 fresh_world = (Inr app, w1)"
    and "program_step\<^sup>*\<^sup>* (app, w1) (app, w)" and "w_faults w = []"
    and "fst (Repository_FindByID background ''p1'' w) = Inr sample"
    and "isl (fst (RuntimeHistory_Execute sqlite_runtime_history background ''p1'' w)) = False"
    and "business_now w1 = 1700000000000000000"
    and "stored_state w ''business_virtual_time'' = Some 1700000000000000000"
proof -
  let ?start = "compose sample_libraries sample_config 1700000000000000000 fresh_world"
  obtain app w1 where c: "?start = (Inr app, w1)" using sample_composed by blast
  have "case ?start of (Inl e, w1) \<Rightarrow> False | (Inr app, w1) \<Rightarrow>
      (case Server_ServeHTTP (app_server app) background create_request w1 of (resp, w) \<Rightarrow>
         w_faults w = [] \<and> fst (Repository_FindByID background ''p1'' w) = Inr sample \<and>
         isl (fst (RuntimeHistory_Execute sqlite_runtime_history background ''p1'' w)) = False \<and>
         business_now w1 = 1700000000000000000 \<and>
         stored_state w ''business_virtual_time'' = Some 1700000000000000000)"
    by code_simp
  moreover obtain resp w where run: "Server_ServeHTTP (app_server app) background create_request w1 = (resp, w)"
    by force
  ultimately have w: "w_faults w = []" "fst (Repository_FindByID background ''p1'' w) = Inr sample"
    "isl (fst (RuntimeHistory_Execute sqlite_runtime_history background ''p1'' w)) = False"
    "business_now w1 = 1700000000000000000"
    "stored_state w ''business_virtual_time'' = Some 1700000000000000000"
    using c by simp_all
  have "program_step (app, w1) (app, w)"
    using run by (rule program_step.request [rotated]) (simp add: background_def)
  then have "program_step\<^sup>*\<^sup>* (app, w1) (app, w)" by (rule r_into_rtranclp)
  from that [OF c this w] show thesis .
qed

text \<open>
  C2. The event log is a complete history of every payment, for the whole program. Start it on a
  database without payments and events, and let anything happen: any requests to any route, any ticks of
  the scheduler with the sagas and deliveries they run, any restarts with any configuration, any
  statements failing, any answers from the webhook receivers. Then for every identity: if the
  repository finds a payment, its events are listed and replaying them reconstructs exactly that
  payment; if it finds none, the error is \<open>ErrPaymentNotFound\<close> and the list of events is empty.
\<close>

theorem program_log_replays:
  assumes "compose lib cfg initial w0 = (Inr app0, w1)"
    and "t_payments (w_db w0) = []" and "t_event_log (w_db w0) = []"
    and "program_step\<^sup>*\<^sup>* (app0, w1) (app, w)" and "w_faults w = []"
  shows "case Repository_FindByID cx i w of
           (Inr p, _) \<Rightarrow> (\<exists>es. EventLog_ListByAggregate cx i w = (Inr es, w) \<and>
                           ReconstructFromEvents es = Inr (Some p))
         | (Inl e, _) \<Rightarrow> e = PaymentApp ErrPaymentNotFound \<and>
                          EventLog_ListByAggregate cx i w = (Inr [], w)"
proof -
  have "composed app0 \<and> program_invariant w1" by (rule program_started [OF assms(1-3)])
  with program_steps_invariant [OF assms(4)] have "log_consistent w" by (simp add: program_invariant_def)
  then show ?thesis by (rule consistent_replay [OF _ assms(5)])
qed

theorem program_log_replays_witness:
  "\<exists>app w1 w es. program_step\<^sup>*\<^sup>* (app :: application, w1) (app, w) \<and>
     EventLog_ListByAggregate background ''p1'' w = (Inr es, w) \<and> ReconstructFromEvents es = Inr (Some sample)"
proof (rule sample_program)
  fix app w1 w
  assume c: "compose sample_libraries sample_config 1700000000000000000 fresh_world = (Inr app, w1)"
    and steps: "program_step\<^sup>*\<^sup>* (app, w1) (app, w)" and calm: "w_faults w = []"
    and found: "fst (Repository_FindByID background ''p1'' w) = Inr sample"
  from found obtain w' where "Repository_FindByID background ''p1'' w = (Inr sample, w')"
    by (metis prod.collapse)
  with program_log_replays [OF c _ _ steps calm, of background "''p1''"] steps show ?thesis
    by (auto simp: fresh_world_def empty_db_def)
qed

text \<open>
  C3. Business time survives. In every state that the program reaches the virtual clock is not behind
  where it was, nor behind any event of the log; and a process started anew on the database at that
  point, whatever its configuration and whenever it starts, goes on at exactly that business time.
\<close>

theorem business_time_survives:
  assumes "compose lib cfg initial w0 = (Inr app0, w1)"
    and "t_payments (w_db w0) = []" and "t_event_log (w_db w0) = []"
    and "program_step\<^sup>*\<^sup>* (app0, w1) (app, w)"
    and "compose lib' cfg' initial' w = (Inr app', w')"
  shows "business_now w' = business_now w \<and> business_now w1 \<le> business_now w \<and>
    (\<forall>r \<in> set (t_event_log (w_db w)). er_occurred_at r \<le> business_now w)"
proof -
  have "composed app0 \<and> program_invariant w1" by (rule program_started [OF assms(1-3)])
  with program_steps_invariant [OF assms(4)]
  have inv: "program_invariant w" and le: "business_now w1 \<le> business_now w" by simp_all
  have "business_now w' = business_now w"
    using inv by (intro compose_clock(4) [OF assms(5)]) (simp add: program_invariant_def)
  with inv le show ?thesis by (simp add: program_invariant_def log_consistent_def)
qed

theorem business_time_survives_witness:
  "\<exists>app w w'. compose sample_libraries sample_config 5 w = (Inr app, w') \<and>
     fst (Repository_FindByID background ''p1'' w) = Inr sample \<and> business_now w' = business_now w \<and>
     1700000000000000000 \<le> business_now w"
proof (rule sample_program)
  fix app w1 w
  assume c: "compose sample_libraries sample_config 1700000000000000000 fresh_world = (Inr app, w1)"
    and steps: "program_step\<^sup>*\<^sup>* (app, w1) (app, w)" and calm: "w_faults w = []"
    and found: "fst (Repository_FindByID background ''p1'' w) = Inr sample"
    and start: "business_now w1 = 1700000000000000000"
    and clock: "stored_state w ''business_virtual_time'' = Some 1700000000000000000"
  have empty: "t_payments (w_db fresh_world) = []" "t_event_log (w_db fresh_world) = []"
    by (simp_all add: fresh_world_def empty_db_def)
  have "cg_HTTPAddress sample_config \<noteq> []" and "time_in_range 1700000000000000000"
    by (simp_all add: sample_config_def Config_Default_def time_in_range_def second_def)
  then obtain app' w' where again: "compose sample_libraries sample_config 5 w = (Inr app', w')"
    using compose_starts [of w sample_config 5 sample_libraries] calm clock by auto
  from business_time_survives [OF c empty steps again] again found start show ?thesis by auto
qed

text \<open>
  C7. The runtime history is complete. In every state that the program reaches, asking for the history
  of a payment changes nothing, and a history that is returned, whatever statements fail around it,
  shows exactly what is stored: the payment as the repository has it, its whole log, and every job of
  the payment that was ever audited, each once, with the whole audit of the job and of its deliveries.
  For a payment that is not stored there is no history.
\<close>

theorem runtime_history_is_complete:
  assumes "compose lib cfg initial w0 = (Inr app0, w1)"
    and "t_payments (w_db w0) = []" and "t_event_log (w_db w0) = []"
    and "program_step\<^sup>*\<^sup>* (app0, w1) (app, w)"
    and "RuntimeHistory_Execute sqlite_runtime_history cx i w = (r, w')"
  shows "w_db w' = w_db w \<and>
    (case r of
       Inl e \<Rightarrow> True
     | Inr h \<Rightarrow>
         stored w i = Some (ru_Payment h) \<and>
         collectR restore_event_row (aggregate_rows i (w_db w)) = Inr (ru_Events h) \<and>
         distinct (map rj_JobID (ru_Jobs h)) \<and>
         set (map rj_JobID (ru_Jobs h)) =
           {jr_id (ar_job a) | a. a \<in> set (t_scheduler_job_audit (w_db w)) \<and> jr_aggregate_id (ar_job a) = i} \<and>
         list_all (\<lambda>g. shows_job (w_db w) (rj_JobID g) g) (ru_Jobs h))"
proof -
  have "composed app0 \<and> program_invariant w1" by (rule program_started [OF assms(1-3)])
  with program_steps_invariant [OF assms(4)] have con: "log_consistent w" by (simp add: program_invariant_def)
  note read = RuntimeHistory_Execute_shows [OF assms(5)]
  show ?thesis
  proof (cases r)
    case (Inl e)
    with read(1) show ?thesis by simp
  next
    case (Inr h)
    note sh = read(2) [OF Inr]
    have jobs: "list_all2 (shows_job (w_db w)) (audited_jobs i (w_db w)) (ru_Jobs h)"
      using sh by (simp add: shows_history_def)
    have ids: "map rj_JobID (ru_Jobs h) = audited_jobs i (w_db w)"
      using jobs by (auto simp: list_all2_conv_all_nth shows_job_def intro!: nth_equalityI)
    have "list_all (\<lambda>g. shows_job (w_db w) (rj_JobID g) g) (ru_Jobs h)"
      using jobs by (auto simp: list_all2_conv_all_nth list_all_length shows_job_def)
    with Inr read(1) sh shown_payment [OF con sh] ids audited_jobs_distinct [of i "w_db w"]
      set_audited_jobs [of i "w_db w"] show ?thesis by (simp add: shows_history_def del: set_map)
  qed
qed

theorem runtime_history_is_complete_witness:
  "\<exists>w h w'. fst (Repository_FindByID background ''p1'' w) = Inr sample \<and>
     RuntimeHistory_Execute sqlite_runtime_history background ''p1'' w = (Inr h, w') \<and>
     stored w ''p1'' = Some (ru_Payment h) \<and> w_db w' = w_db w"
proof (rule sample_program)
  fix app w1 w
  assume c: "compose sample_libraries sample_config 1700000000000000000 fresh_world = (Inr app, w1)"
    and steps: "program_step\<^sup>*\<^sup>* (app, w1) (app, w)"
    and found: "fst (Repository_FindByID background ''p1'' w) = Inr sample"
    and ok: "isl (fst (RuntimeHistory_Execute sqlite_runtime_history background ''p1'' w)) = False"
  have empty: "t_payments (w_db fresh_world) = []" "t_event_log (w_db fresh_world) = []"
    by (simp_all add: fresh_world_def empty_db_def)
  obtain h w' where run: "RuntimeHistory_Execute sqlite_runtime_history background ''p1'' w = (Inr h, w')"
    using ok by (cases "RuntimeHistory_Execute sqlite_runtime_history background ''p1'' w";
        cases "fst (RuntimeHistory_Execute sqlite_runtime_history background ''p1'' w)") auto
  from runtime_history_is_complete [OF c empty steps run] run found show ?thesis by auto
qed

end
