(* ===== verification/Startup.thy ===== *)
theory Startup
  imports Program
begin

text \<open>
  How a process starts (\<open>cmd/payment-sandbox/main.go\<close>, \<open>Run\<close> of \<open>internal/app/app.go\<close>): the connection
  to the database (\<open>internal/platform/persistence/sqlite/database.go\<close>), its migrations
  (\<open>migrations.go\<close>), and \<open>run\<close> up to the started application. The driver, \<open>goose\<close> and \<open>godotenv\<close> are
  libraries: a driver decides, from the calls made so far, whether the next call fails, and the calls
  are recorded. The world is that of the migrated database.
\<close>

section \<open>The driver\<close>

datatype driver_call =
    CallOpen string | CallMaxOpenConns nat | CallMaxIdleConns nat | CallExec string | CallPing
  | CallSetDialect string | CallUp string | CallClose

type_synonym driver = "driver_call list \<Rightarrow> driver_call \<Rightarrow> error option"

definition call :: "driver \<Rightarrow> driver_call \<Rightarrow> (driver_call list, error, unit) proc" where
  "call d c calls = ((case d calls c of None \<Rightarrow> Inr () | Some e \<Rightarrow> Inl e), calls @ [c])"

text \<open>A call that returns nothing, or whose error is dropped.\<close>

definition call_only :: "driver_call \<Rightarrow> driver_call list \<Rightarrow> driver_call list" where
  "call_only c calls = calls @ [c]"

section \<open>Opening and migrating\<close>

definition executePragma :: "driver \<Rightarrow> string \<Rightarrow> (driver_call list, error, unit) proc" where
  "executePragma d pragma = call d (CallExec pragma)"

text \<open>\<open>Duration.Milliseconds\<close> rounds towards zero.\<close>

definition Milliseconds :: "duration \<Rightarrow> int64" where
  "Milliseconds t =
     word_of_int (if sint t < 0 then - (- sint t div 1000000) else sint t div 1000000)"

definition pragmas :: "config \<Rightarrow> string list" where
  "pragmas cfg =
     [''PRAGMA foreign_keys = ON;'', ''PRAGMA journal_mode = WAL;'', ''PRAGMA synchronous = NORMAL;'',
      ''PRAGMA busy_timeout = '' @ formatInt (Milliseconds (cg_DatabaseBusyTimeout cfg)) @ '';'']"

definition configure :: "driver \<Rightarrow> config \<Rightarrow> (driver_call list, error, unit) proc" where
  "configure d cfg = eachP (executePragma d) (pragmas cfg)"

text \<open>The deferred function of \<open>Open\<close>: a failure after the connection was made closes it.\<close>

definition closing_on_failure ::
  "(driver_call list, error, unit) proc \<Rightarrow> (driver_call list, error, unit) proc" where
  "closing_on_failure m calls =
     (case m calls of
        (Inl e, calls') \<Rightarrow> (Inl e, call_only CallClose calls')
      | (Inr u, calls') \<Rightarrow> (Inr u, calls'))"

definition Database_Open :: "driver \<Rightarrow> config \<Rightarrow> (driver_call list, error, unit) proc" where
  "Database_Open d cfg =
     bindP (call d (CallOpen (cg_DatabasePath cfg))) (\<lambda>_.
       closing_on_failure
         (bindP (writeP (call_only (CallMaxOpenConns 1))) (\<lambda>_.
          bindP (writeP (call_only (CallMaxIdleConns 1))) (\<lambda>_.
          bindP (configure d cfg) (\<lambda>_.
            call d CallPing)))))"

definition Migrations_Up :: "driver \<Rightarrow> (driver_call list, error, unit) proc" where
  "Migrations_Up d = bindP (call d (CallSetDialect ''sqlite3'')) (\<lambda>_. call d (CallUp ''sql''))"

section \<open>run\<close>

text \<open>
  \<open>run\<close>, from the environment to the running application. When it fails after the database was opened,
  the deferred close runs.
\<close>

definition run_start ::
  "libraries \<Rightarrow> driver \<Rightarrow> (string \<Rightarrow> string) \<Rightarrow> time \<Rightarrow> driver_call list \<Rightarrow> world \<Rightarrow>
     (startup_error + application) \<times> driver_call list \<times> world" where
  "run_start lib d getenv initial calls w =
     (case Config_Load getenv of
        Inl e \<Rightarrow> (Inl (Failure e), calls, w)
      | Inr cfg \<Rightarrow>
          (case Logging_New (cg_Logging cfg) of
             Inl e \<Rightarrow> (Inl (Failure e), calls, w)
           | Inr logger \<Rightarrow>
               (case Database_Open d cfg calls of
                  (Inl e, calls1) \<Rightarrow> (Inl (Failure e), calls1, w)
                | (Inr _, calls1) \<Rightarrow>
                    (case Migrations_Up d calls1 of
                       (Inl e, calls2) \<Rightarrow> (Inl (Failure e), call_only CallClose calls2, w)
                     | (Inr _, calls2) \<Rightarrow>
                         if cg_AdminToken cfg = []
                           then (Inl (Failure (Message ''admin API token is required'')),
                                 call_only CallClose calls2, w)
                         else (case compose lib cfg initial w of
                             (Inl e, w') \<Rightarrow> (Inl e, call_only CallClose calls2, w')
                           | (Inr app, w') \<Rightarrow> (Inr app, calls2, w'))))))"

section \<open>main\<close>

text \<open>
  What \<open>main\<close> does with its two flags: it ends with a status, prints the version, or runs with the
  environment that \<open>load\<close> (\<open>godotenv.Load\<close>) makes of the file. Parsing the flags is the \<open>flag\<close> package.
\<close>

datatype main_command = ExitStatus int | PrintVersion string | RunWith "string \<Rightarrow> string"

definition LoadEnvFile ::
  "(string \<Rightarrow> (string \<Rightarrow> string) \<Rightarrow> error + (string \<Rightarrow> string)) \<Rightarrow> string \<Rightarrow> (string \<Rightarrow> string) \<Rightarrow>
     error + (string \<Rightarrow> string)" where
  "LoadEnvFile load path getenv = load path getenv"

definition Version :: string where
  "Version = ''dev''"

definition main_program ::
  "(string \<Rightarrow> (string \<Rightarrow> string) \<Rightarrow> error + (string \<Rightarrow> string)) \<Rightarrow> string \<Rightarrow> bool \<Rightarrow>
     (string \<Rightarrow> string) \<Rightarrow> main_command" where
  "main_program load envFile showVersion getenv =
     (case (if envFile = [] then Inr getenv else LoadEnvFile load envFile getenv) of
        Inl e \<Rightarrow> ExitStatus 1
      | Inr env \<Rightarrow>
          if showVersion then PrintVersion (''payment-sandbox '' @ Version @ [CHR 0x0A]) else RunWith env)"

section \<open>Sequences of calls\<close>

text \<open>
  \<open>makes cs m\<close>: when \<open>m\<close> succeeds it has made the calls \<open>cs\<close>, when it fails a non-empty initial part of
  them, the last of which is the one that failed.
\<close>

definition makes :: "driver_call list \<Rightarrow> (driver_call list, error, unit) proc \<Rightarrow> bool" where
  "makes cs m \<longleftrightarrow>
     (\<forall>calls. case m calls of
        (Inr u, calls') \<Rightarrow> calls' = calls @ cs
      | (Inl e, calls') \<Rightarrow> \<exists>done. done \<noteq> [] \<and> prefix done cs \<and> calls' = calls @ done)"

named_theorems makes_intros \<open>rules for sequences of calls\<close>

lemma makesD:
  assumes "makes cs m" and "m calls = (r, calls')"
  shows "case r of Inr u \<Rightarrow> calls' = calls @ cs
    | Inl e \<Rightarrow> \<exists>done. done \<noteq> [] \<and> prefix done cs \<and> calls' = calls @ done"
  using spec [OF assms(1) [unfolded makes_def], of calls] assms(2) by (auto split: sum.splits)

lemma makes_call [makes_intros]: "makes [c] (call d c)"
  by (auto simp: makes_def call_def split: option.splits)

lemma makes_write [makes_intros]: "makes [c] (writeP (call_only c))"
  by (simp add: makes_def call_only_def)

lemma makes_bind [makes_intros]:
  assumes "makes cs m" and "makes cs' (f ())"
  shows "makes (cs @ cs') (bindP m f)"
  unfolding makes_def
proof
  fix calls
  show "case bindP m f calls of (Inr u, calls') \<Rightarrow> calls' = calls @ cs @ cs'
    | (Inl e, calls') \<Rightarrow> \<exists>done. done \<noteq> [] \<and> prefix done (cs @ cs') \<and> calls' = calls @ done"
  proof (cases "m calls")
    case (Pair r calls1)
    note m = makesD [OF assms(1) Pair]
    show ?thesis
    proof (cases r)
      case (Inl e)
      with m Pair show ?thesis by (auto simp: bindP_apply intro: prefix_prefix)
    next
      case (Inr u)
      obtain r' calls2 where f: "f () calls1 = (r', calls2)" by force
      show ?thesis
      proof (cases r')
        case (Inl e)
        with makesD [OF assms(2) f] obtain more where "more \<noteq> []" "prefix more cs'" "calls2 = calls1 @ more"
          by auto
        with m Inr Inl Pair f show ?thesis by (auto simp: bindP_apply intro!: exI [of _ "cs @ more"])
      next
        case (Inr u')
        with makesD [OF assms(2) f] m \<open>r = Inr u\<close> Pair f show ?thesis by (simp add: bindP_apply)
      qed
    qed
  qed
qed

lemma makes_each: "(\<And>x. makes [g x] (f x)) \<Longrightarrow> makes (map g xs) (eachP f xs)"
proof (induction xs)
  case (Cons x xs)
  from makes_bind [OF Cons.prems Cons.IH [OF Cons.prems], of x] show ?case by simp
qed (simp add: makes_def)

lemma makes_configure [makes_intros]: "makes (map CallExec (pragmas cfg)) (configure d cfg)"
  unfolding configure_def executePragma_def by (intro makes_each makes_call)

text \<open>The calls of a start that succeeds: connect, configure, ping, migrate.\<close>

definition configuring :: "config \<Rightarrow> driver_call list" where
  "configuring cfg =
     [CallMaxOpenConns 1] @ [CallMaxIdleConns 1] @ map CallExec (pragmas cfg) @ [CallPing]"

definition opening_calls :: "config \<Rightarrow> driver_call list" where
  "opening_calls cfg =
     CallOpen (cg_DatabasePath cfg) # configuring cfg @ [CallSetDialect ''sqlite3''] @ [CallUp ''sql'']"

lemma Database_Open_calls:
  assumes "Database_Open d cfg calls = (r, calls')"
  shows "case r of
      Inr u \<Rightarrow> calls' = calls @ CallOpen (cg_DatabasePath cfg) # configuring cfg
    | Inl e \<Rightarrow> calls' = calls @ [CallOpen (cg_DatabasePath cfg)] \<or>
        (\<exists>done. prefix done (CallOpen (cg_DatabasePath cfg) # configuring cfg) \<and> calls' = calls @ done @ [CallClose])"
proof -
  let ?rest = "bindP (writeP (call_only (CallMaxOpenConns 1))) (\<lambda>_.
      bindP (writeP (call_only (CallMaxIdleConns 1))) (\<lambda>_. bindP (configure d cfg) (\<lambda>_. call d CallPing)))"
  let ?c = "CallOpen (cg_DatabasePath cfg)"
  have rest: "makes (configuring cfg) ?rest" unfolding configuring_def by (intro makes_intros)
  show ?thesis
  proof (cases "d calls ?c")
    case (Some e)
    with assms show ?thesis by (auto simp: Database_Open_def bindP_apply call_def)
  next
    case None
    obtain q calls1 where q: "?rest (calls @ [?c]) = (q, calls1)" by force
    from None assms have r: "closing_on_failure ?rest (calls @ [?c]) = (r, calls')"
      by (simp add: Database_Open_def bindP_apply call_def)
    show ?thesis
    proof (cases q)
      case (Inl e)
      with makesD [OF rest q] obtain "done" where "prefix done (configuring cfg)" "calls1 = calls @ [?c] @ done"
        by auto
      with r q Inl show ?thesis
        by (auto simp: closing_on_failure_def call_only_def intro!: exI [of _ "?c # done"])
    next
      case (Inr u)
      with makesD [OF rest q] r q show ?thesis by (auto simp: closing_on_failure_def)
    qed
  qed
qed

lemma Migrations_Up_calls: "makes ([CallSetDialect ''sqlite3''] @ [CallUp ''sql'']) (Migrations_Up d)"
  unfolding Migrations_Up_def by (intro makes_intros)

section \<open>Properties\<close>

text \<open>
  C38. The process owns its database. Whatever the driver refuses and whatever the environment says, a
  start that succeeds has connected, limited the connection to one, set every pragma, pinged and migrated,
  in this order, before anything was composed, and leaves the connection open. A start that fails has
  either never connected, or has done an initial part of this and closed the connection, once, as its
  last call. Nothing is stored in the database unless it was migrated and a token is set.
\<close>

theorem start_owns_database:
  assumes "run_start lib d getenv initial [] w = (r, calls, w')"
  shows "case r of
      Inr app \<Rightarrow> \<exists>cfg. Config_Load getenv = Inr cfg \<and> cg_AdminToken cfg \<noteq> [] \<and> calls = opening_calls cfg \<and>
        compose lib cfg initial w = (Inr app, w')
    | Inl e \<Rightarrow> (calls = [] \<and> w' = w) \<or>
        (\<exists>cfg. Config_Load getenv = Inr cfg \<and>
          (calls = [CallOpen (cg_DatabasePath cfg)] \<and> w' = w \<or>
           (\<exists>made. prefix made (opening_calls cfg) \<and> calls = made @ [CallClose] \<and>
             (w' \<noteq> w \<longrightarrow> made = opening_calls cfg \<and> cg_AdminToken cfg \<noteq> []))))"
proof (cases "Config_Load getenv")
  case (Inl e)
  with assms show ?thesis by (auto simp: run_start_def)
next
  case (Inr cfg)
  note load = Inr
  obtain logger where l: "Logging_New (cg_Logging cfg) = Inr logger" using Config_Load_Inr(1) [OF load] by blast
  obtain q calls1 where o: "Database_Open d cfg [] = (q, calls1)" by force
  note O = Database_Open_calls [OF o]
  show ?thesis
  proof (cases q)
    case (Inl e)
    have "prefix m (opening_calls cfg)" if "prefix m (CallOpen (cg_DatabasePath cfg) # configuring cfg)" for m
      using that unfolding opening_calls_def by (metis append_Cons prefix_prefix)
    with O Inl assms load l o show ?thesis by (auto simp: run_start_def)
  next
    case (Inr u)
    let ?opened = "CallOpen (cg_DatabasePath cfg) # configuring cfg"
    obtain q2 calls2 where m: "Migrations_Up d ?opened = (q2, calls2)" by force
    note M = makesD [OF Migrations_Up_calls m]
    have o': "Database_Open d cfg [] = (Inr u, ?opened)" using O Inr o by simp
    show ?thesis
    proof (cases q2)
      case (Inl e)
      with M obtain more where more: "prefix more ([CallSetDialect ''sqlite3''] @ [CallUp ''sql''])"
        and "calls2 = ?opened @ more" by auto
      then have "prefix calls2 (opening_calls cfg)" by (simp add: opening_calls_def)
      with assms load l o' m Inl show ?thesis by (auto simp: run_start_def call_only_def)
    next
      case (Inr v)
      then have "calls2 = opening_calls cfg" using M by (simp add: opening_calls_def)
      with assms load l o' m Inr show ?thesis
        by (auto simp: run_start_def call_only_def split: if_splits sum.splits prod.splits)
    qed
  qed
qed

text \<open>A driver that never fails, and one that refuses to ping.\<close>

definition sound_driver :: driver where
  "sound_driver calls c = None"

definition unreachable_driver :: driver where
  "unreachable_driver calls c = (if c = CallPing then Some (Message ''ping'') else None)"

theorem start_owns_database_witness:
  "\<exists>e w'. run_start sample_libraries unreachable_driver sample_environment 5 [] fresh_world =
     (Inl e,
      [CallOpen ''payment-sandbox.db'', CallMaxOpenConns 1, CallMaxIdleConns 1,
       CallExec ''PRAGMA foreign_keys = ON;'', CallExec ''PRAGMA journal_mode = WAL;'',
       CallExec ''PRAGMA synchronous = NORMAL;'', CallExec ''PRAGMA busy_timeout = 5000;'', CallPing, CallClose],
      w') \<and> w' = fresh_world"
proof -
  have "Milliseconds 5000000000 = 5000" by (simp add: Milliseconds_def)
  then have "formatInt (Milliseconds 5000000000) = ''5000''" by (simp add: formatInt_def digits.simps char_of_def bit_0)
  then have run: "run_start sample_libraries unreachable_driver sample_environment 5 [] fresh_world =
    (Inl (Failure (Message ''ping'')),
      [CallOpen ''payment-sandbox.db'', CallMaxOpenConns 1, CallMaxIdleConns 1,
       CallExec ''PRAGMA foreign_keys = ON;'', CallExec ''PRAGMA journal_mode = WAL;'',
       CallExec ''PRAGMA synchronous = NORMAL;'', CallExec ''PRAGMA busy_timeout = 5000;'', CallPing, CallClose],
      fresh_world)"
    by (simp add: run_start_def sample_environment_loaded sample_config_def Config_Default_def Logging_New_def
        Database_Open_def configure_def executePragma_def pragmas_def bindP_apply call_def call_only_def
        closing_on_failure_def unreachable_driver_def)
  from start_owns_database [OF this] show ?thesis using run by simp
qed

text \<open>
  C37. The program starts. With a driver and statements that do not fail, an environment that loads and
  names a token, and a stored business time (if any) that can be read, the start succeeds, and the
  business clock resumes at the stored time or, at the first start, at the instant of the start. Without
  a token the program does not start, stores nothing and closes the database.
\<close>

theorem application_starts:
  assumes "\<And>calls c. d calls c = None" and "w_faults w = []" and "Config_Load getenv = Inr cfg"
    and "\<not> IsZero initial" and "\<And>t. stored_state w ''business_virtual_time'' = Some t \<Longrightarrow> time_in_range t"
  shows "if getenv ''PAYMENT_SANDBOX_ADMIN_TOKEN'' = []
    then \<exists>e. run_start lib d getenv initial [] w = (Inl e, opening_calls cfg @ [CallClose], w)
    else \<exists>app w'. run_start lib d getenv initial [] w = (Inr app, opening_calls cfg, w') \<and>
           business_now w' = (case stored_state w ''business_virtual_time'' of None \<Rightarrow> initial | Some t \<Rightarrow> t) \<and>
           stored_state w' ''business_virtual_time'' = Some (business_now w')"
proof -
  note cfg = Config_Load_Inr [OF assms(3)]
  obtain logger where l: "Logging_New (cg_Logging cfg) = Inr logger" using cfg(1) by blast
  have each: "eachP (executePragma d) ps calls = (Inr (), calls @ map CallExec ps)" for ps calls
    by (induction ps arbitrary: calls) (simp_all add: executePragma_def call_def assms(1) bindP_apply)
  have o: "Database_Open d cfg [] = (Inr (), CallOpen (cg_DatabasePath cfg) # configuring cfg)"
    by (simp add: Database_Open_def configure_def bindP_apply call_def call_only_def assms(1) each
        closing_on_failure_def configuring_def)
  have m: "Migrations_Up d (CallOpen (cg_DatabasePath cfg) # configuring cfg) = (Inr (), opening_calls cfg)"
    by (simp add: Migrations_Up_def bindP_apply call_def assms(1) opening_calls_def)
  note run = run_start_def assms(3) l o m cfg(3)
  show ?thesis
  proof (cases "getenv ''PAYMENT_SANDBOX_ADMIN_TOKEN'' = []")
    case True
    then show ?thesis by (simp add: run call_only_def)
  next
    case False
    with compose_starts [OF assms(2) cfg(2) assms(4,5), of lib] show ?thesis by (auto simp: run)
  qed
qed

theorem application_starts_witness:
  "\<exists>app w'. run_start sample_libraries sound_driver sample_environment 1700000000000000000 [] fresh_world =
       (Inr app, opening_calls sample_config, w') \<and>
     business_now w' = 1700000000000000000"
proof -
  have "w_faults fresh_world = []" and none: "stored_state fresh_world ''business_virtual_time'' = None"
    by (simp_all add: fresh_world_def empty_db_def stored_state_def)
  then show ?thesis
    using application_starts [OF _ _ sample_environment_loaded, of sound_driver fresh_world
        1700000000000000000 sample_libraries]
    by (auto simp: sound_driver_def sample_environment_def)
qed

end
