(* ===== verification/Lifecycle.thy ===== *)
theory Lifecycle
  imports Startup
begin

text \<open>
  The running process: \<open>application.serve\<close> of \<open>internal/app/app.go\<close> with its three goroutines (the main
  one, the scheduler's ticker, and \<open>ListenAndServe\<close>), their channels, and the deferred close of \<open>run\<close>.
  \<open>net/http\<close> is a library: a listener ends with an error of its own or, once \<open>Shutdown\<close> was called, with
  \<open>ErrServerClosed\<close>; \<open>Shutdown\<close> returns when no request is active, or with an error.
\<close>

section \<open>The goroutines\<close>

text \<open>Where the main goroutine stands.\<close>

datatype main_thread =
    Serving | NotReady | ShuttingDown | AwaitServer | AwaitScheduler | Returned "error option"

text \<open>
  \<open>lf_serverErr\<close> is the buffered channel of that name: \<open>Some None\<close> is a nil error in it. \<open>lf_stopped\<close> says
  that \<open>schedulerDone\<close> is closed, \<open>lf_cancelled\<close> that the context is done, \<open>lf_active\<close> counts the requests
  that were accepted and not answered, \<open>lf_closed\<close> says that the database was closed.
\<close>

record process =
  lf_main :: main_thread
  lf_stopped :: bool
  lf_listening :: bool
  lf_serverErr :: "error option option"
  lf_shutdown :: bool
  lf_active :: nat
  lf_cancelled :: bool
  lf_ready :: bool
  lf_closed :: bool
  lf_world :: world

definition process_start :: "world \<Rightarrow> process" where
  "process_start w =
     \<lparr>lf_main = Serving, lf_stopped = False, lf_listening = True, lf_serverErr = None,
      lf_shutdown = False, lf_active = 0, lf_cancelled = False, lf_ready = True, lf_closed = False,
      lf_world = w\<rparr>"

text \<open>
  The application depends on the readiness flag, which its health check reads. After the close every
  statement of a tick or a request fails, and its error is dropped or answered.
\<close>

inductive serve_step :: "(bool \<Rightarrow> application) \<Rightarrow> process \<Rightarrow> process \<Rightarrow> bool" for app where
  tick: "serve_step app s (s\<lparr>lf_world := w'\<rparr>)"
    if "\<not> lf_stopped s" and "\<not> lf_closed s" and "\<not> cx_tx cx"
      and "Scheduler_Tick (app_scheduler (app (lf_ready s))) cx (lf_world s) = (x, w')"
| tick_closed: "serve_step app s s" if "\<not> lf_stopped s" and "lf_closed s"
| scheduler_stops: "serve_step app s (s\<lparr>lf_stopped := True\<rparr>)" if "\<not> lf_stopped s" and "lf_cancelled s"
| accept: "serve_step app s (s\<lparr>lf_active := Suc (lf_active s)\<rparr>)"
    if "lf_listening s" and "\<not> lf_shutdown s"
| answer: "serve_step app s (s\<lparr>lf_active := n, lf_world := w'\<rparr>)"
    if "lf_active s = Suc n" and "\<not> lf_closed s" and "\<not> cx_tx cx"
      and "Server_ServeHTTP (app_server (app (lf_ready s))) cx rq (lf_world s) = (resp, w')"
| answer_closed: "serve_step app s (s\<lparr>lf_active := n\<rparr>)"
    if "lf_active s = Suc n" and "lf_closed s"
| listen_fails: "serve_step app s (s\<lparr>lf_listening := False, lf_serverErr := Some (Some e)\<rparr>)"
    if "lf_listening s" and "\<not> lf_shutdown s"
| listen_closed: "serve_step app s (s\<lparr>lf_listening := False, lf_serverErr := Some None\<rparr>)"
    if "lf_listening s" and "lf_shutdown s"
| signal: "serve_step app s (s\<lparr>lf_cancelled := True\<rparr>)"
| server_ended: "serve_step app s
      (s\<lparr>lf_serverErr := None,
         lf_main := Returned (case e of None \<Rightarrow> None | Some _ \<Rightarrow> Some (Message ''serve HTTP''))\<rparr>)"
    if "lf_main s = Serving" and "lf_serverErr s = Some e"
| not_ready: "serve_step app s (s\<lparr>lf_ready := False, lf_main := NotReady\<rparr>)"
    if "lf_main s = Serving" and "lf_cancelled s"
| shutdown: "serve_step app s (s\<lparr>lf_shutdown := True, lf_main := ShuttingDown\<rparr>)"
    if "lf_main s = NotReady"
| drained: "serve_step app s (s\<lparr>lf_main := AwaitServer\<rparr>)"
    if "lf_main s = ShuttingDown" and "lf_active s = 0"
| shutdown_fails: "serve_step app s (s\<lparr>lf_main := Returned (Some (Message ''shutdown HTTP server''))\<rparr>)"
    if "lf_main s = ShuttingDown"
| server_stopped: "serve_step app s
      (s\<lparr>lf_serverErr := None,
         lf_main := (case e of None \<Rightarrow> AwaitScheduler
                     | Some _ \<Rightarrow> Returned (Some (Message ''stop HTTP server'')))\<rparr>)"
    if "lf_main s = AwaitServer" and "lf_serverErr s = Some e"
| scheduler_done: "serve_step app s (s\<lparr>lf_main := Returned None\<rparr>)"
    if "lf_main s = AwaitScheduler" and "lf_stopped s"
| close_database: "serve_step app s (s\<lparr>lf_closed := True\<rparr>)"
    if "lf_main s = Returned r" and "\<not> lf_closed s"
| surroundings: "serve_step app s
    (s\<lparr>lf_world := (lf_world s)\<lparr>w_faults := faults, w_entropy := entropy, w_wall := wall, w_http := answers\<rparr>\<rparr>)"

section \<open>What holds in every state\<close>

definition serving_ok :: "process \<Rightarrow> bool" where
  "serving_ok s \<longleftrightarrow>
     (lf_stopped s \<longrightarrow> lf_cancelled s) \<and>
     (lf_serverErr s = Some None \<longrightarrow> lf_shutdown s) \<and>
     (lf_closed s \<longrightarrow> (\<exists>r. lf_main s = Returned r)) \<and>
     (case lf_main s of
        Serving \<Rightarrow> \<not> lf_shutdown s \<and> (lf_listening s \<longleftrightarrow> lf_serverErr s = None)
      | NotReady \<Rightarrow> lf_cancelled s \<and> \<not> lf_ready s \<and> \<not> lf_shutdown s \<and>
          (lf_listening s \<longleftrightarrow> lf_serverErr s = None)
      | ShuttingDown \<Rightarrow> lf_cancelled s \<and> \<not> lf_ready s \<and> lf_shutdown s \<and>
          (lf_listening s \<longleftrightarrow> lf_serverErr s = None)
      | AwaitServer \<Rightarrow> lf_cancelled s \<and> \<not> lf_ready s \<and> lf_shutdown s \<and> lf_active s = 0 \<and>
          (lf_listening s \<longleftrightarrow> lf_serverErr s = None)
      | AwaitScheduler \<Rightarrow> lf_cancelled s \<and> \<not> lf_ready s \<and> lf_shutdown s \<and> lf_active s = 0 \<and>
          \<not> lf_listening s
      | Returned None \<Rightarrow> lf_cancelled s \<and> \<not> lf_ready s \<and> lf_shutdown s \<and> lf_active s = 0 \<and>
          \<not> lf_listening s \<and> lf_stopped s
      | Returned (Some e) \<Rightarrow> True)"

lemma serving_ok_start: "serving_ok (process_start w)"
  by (simp add: serving_ok_def process_start_def)

lemma serving_ok_step:
  assumes "serve_step app s s'" and "serving_ok s" shows "serving_ok s'"
  using assms
  by (cases rule: serve_step.cases) (auto simp: serving_ok_def split: main_thread.splits option.splits)

lemma serving_ok_steps:
  assumes "(serve_step app)\<^sup>*\<^sup>* s s'" and "serving_ok s" shows "serving_ok s'"
  using assms by (induction rule: rtranclp_induct) (auto intro: serving_ok_step)

section \<open>Nothing runs after a clean stop\<close>

text \<open>What a process has stored and where its clock stands.\<close>

definition kept_state :: "process \<Rightarrow> db \<times> persistent_clock" where
  "kept_state s = (w_db (lf_world s), w_clock (lf_world s))"

lemma clean_stop_step:
  assumes "serve_step app s s'" and "serving_ok s" and "lf_main s = Returned None"
  shows "lf_main s' = Returned None \<and> kept_state s' = kept_state s"
  using assms by (cases rule: serve_step.cases) (auto simp: serving_ok_def kept_state_def)

lemma clean_stop_steps:
  assumes "(serve_step app)\<^sup>*\<^sup>* s s'" and "serving_ok s" and "lf_main s = Returned None"
  shows "lf_main s' = Returned None \<and> kept_state s' = kept_state s"
  using assms
proof (induction rule: rtranclp_induct)
  case (step t u)
  with serving_ok_steps clean_stop_step show ?case by metis
qed simp

section \<open>The process is a run of the program\<close>

text \<open>
  Each step of the process leaves the world alone or is a step of the program of \<open>Program\<close>, run by the
  application with the readiness of the moment.
\<close>

lemma serve_step_program:
  assumes "serve_step app s s'"
  shows "lf_world s' = lf_world s \<or>
    program_step (app (lf_ready s), lf_world s) (app (lf_ready s), lf_world s')"
  using assms
  by (cases rule: serve_step.cases) (auto intro: program_step.request program_step.tick program_step.surroundings)

text \<open>The application that \<open>run\<close> starts, as a function of the flag that its server holds.\<close>

definition with_ready :: "libraries \<Rightarrow> bool \<Rightarrow> libraries" where
  "with_ready lib r = lib\<lparr>lib_ready := (\<lambda>w. r)\<rparr>"

definition process_started ::
  "libraries \<Rightarrow> driver \<Rightarrow> (string \<Rightarrow> string) \<Rightarrow> time \<Rightarrow> world \<Rightarrow> (bool \<Rightarrow> application) \<Rightarrow> world \<Rightarrow> bool" where
  "process_started lib d getenv initial w0 app w \<longleftrightarrow>
     (\<forall>r. \<exists>calls. run_start (with_ready lib r) d getenv initial [] w0 = (Inr (app r), calls, w))"

lemma run_start_Inr:
  assumes "run_start lib d getenv initial calls w0 = (Inr app, calls', w)"
  obtains cfg where "compose lib cfg initial w0 = (Inr app, w)"
  using assms by (auto simp: run_start_def split: sum.splits prod.splits if_splits)

lemma process_started_composed:
  assumes "process_started lib d getenv initial w0 app w"
  obtains cfg where "compose (with_ready lib r) cfg initial w0 = (Inr (app r), w)"
  using assms run_start_Inr unfolding process_started_def by metis

lemma serve_step_moves:
  assumes "serve_step app s s'" and "\<And>r. composed (app r)" and "program_invariant (lf_world s)"
  shows "moves_on (lf_world s) (lf_world s')"
  using serve_step_program [OF assms(1)] program_step_moves [OF _ assms(2,3)] assms(3)
  by (auto simp: moves_on_refl)

lemma serve_steps_invariant:
  assumes "(serve_step app)\<^sup>*\<^sup>* s0 s" and "\<And>r. composed (app r)" and "program_invariant (lf_world s0)"
  shows "program_invariant (lf_world s) \<and> business_now (lf_world s0) \<le> business_now (lf_world s)"
  using assms(1)
proof (induction rule: rtranclp_induct)
  case (step s s')
  with serve_step_moves [OF step.hyps(2) assms(2)] show ?case by (auto simp: moves_on_def)
qed (simp add: assms(3))

text \<open>So what \<open>Program\<close> shows of the program holds for the process that \<open>run\<close> starts.\<close>

lemma served_log_replays:
  assumes "process_started lib d getenv initial w0 app w"
    and "t_payments (w_db w0) = []" and "t_event_log (w_db w0) = []"
    and "(serve_step app)\<^sup>*\<^sup>* (process_start w) s" and "w_faults (lf_world s) = []"
  shows "case Repository_FindByID cx i (lf_world s) of
           (Inr p, _) \<Rightarrow> (\<exists>es. EventLog_ListByAggregate cx i (lf_world s) = (Inr es, lf_world s) \<and>
                           ReconstructFromEvents es = Inr (Some p))
         | (Inl e, _) \<Rightarrow> e = PaymentApp ErrPaymentNotFound \<and>
                          EventLog_ListByAggregate cx i (lf_world s) = (Inr [], lf_world s)"
proof -
  have "composed (app r)" for r
    using process_started_composed [OF assms(1)] composedI by metis
  moreover obtain cfg where c: "compose (with_ready lib True) cfg initial w0 = (Inr (app True), w)"
    by (rule process_started_composed [OF assms(1)])
  have "program_invariant (lf_world (process_start w))"
    using program_started [OF c assms(2,3)] by (simp add: process_start_def)
  ultimately have "program_invariant (lf_world s)" using serve_steps_invariant [OF assms(4)] by blast
  then show ?thesis by (intro consistent_replay [OF _ assms(5)]) (simp add: program_invariant_def)
qed

section \<open>The health check\<close>

text \<open>Registering other routes leaves a route alone.\<close>

definition leaves_route :: "string \<Rightarrow> ('s server \<Rightarrow> api_error + 's server) \<Rightarrow> bool" where
  "leaves_route path reg \<longleftrightarrow>
     (\<forall>sv sv'. reg sv = Inr sv' \<longrightarrow>
        map_of (rt_routes (sv_router sv')) path = map_of (rt_routes (sv_router sv)) path)"

named_theorems leaves_intros \<open>rules for registrations that leave a route alone\<close>

lemma leaves_bind [leaves_intros]:
  "leaves_route path reg \<Longrightarrow> leaves_route path next \<Longrightarrow> leaves_route path (\<lambda>sv. bindR (reg sv) next)"
  by (auto simp: leaves_route_def bindR_Inr_iff)

lemma leaves_other [leaves_intros]:
  "p \<noteq> path \<Longrightarrow> leaves_route path (Server_Handle method p f)"
  "leaves_route path (Server_HandlePrefix method p f)"
  "p \<noteq> path \<Longrightarrow> leaves_route path (HandleAdmin method p f token)"
  "leaves_route path (HandleAdminPrefix method p f token)"
  by (auto simp: leaves_route_def HandleAdmin_def HandleAdminPrefix_def Server_Handle_def
      Server_HandlePrefix_def Router_Handle_def Router_HandlePrefix_def add_route_def bindR_Inr_iff
      map_of_put_row split: option.splits if_splits)

lemma register_routes_health: "leaves_route ''/health/ready'' (register_routes hs token)"
  unfolding register_routes_def Payment_Register_def Webhook_Register_def Administration_Register_def
    Scenario_Register_def Timeline_Register_def Diagnostics_Register_def WebhookAudit_Register_def
    RuntimeHistory_Register_def
  by (intro leaves_intros) simp_all

lemma composed_health:
  assumes "compose lib cfg initial w0 = (Inr app, w1)"
    and "rq_Method rq = ''GET''" and "rq_Path rq = ''/health/ready''"
  shows "Server_ServeHTTP (app_server app) cx rq = health_ready (lib_ready lib) cx rq"
proof -
  obtain sv where sv: "NewServer (lib_ready lib) (cg_HTTPAddress cfg) = Inr sv"
    and r: "register_routes (runtime_handlers lib) (cg_AdminToken cfg) sv = Inr (app_server app)"
    by (rule compose_Inr [OF assms(1)])
  have "map_of (rt_routes (sv_router (app_server app))) ''/health/ready'' =
      map_of (rt_routes (sv_router sv)) ''/health/ready''"
    using register_routes_health r by (auto simp: leaves_route_def)
  also have "\<dots> = Some [(''GET'', health_ready (lib_ready lib))]"
    using sv by (auto simp: NewServer_routes split: if_splits)
  finally show ?thesis
    using assms(2,3) by (simp add: Server_ServeHTTP_def Router_ServeHTTP_def Let_def fun_eq_iff)
qed

section \<open>The stop ends\<close>

text \<open>How many steps of its own the stop of a process still needs.\<close>

definition main_rank :: "main_thread \<Rightarrow> nat" where
  "main_rank m =
     (case m of Serving \<Rightarrow> 5 | NotReady \<Rightarrow> 4 | ShuttingDown \<Rightarrow> 3 | AwaitServer \<Rightarrow> 2 | AwaitScheduler \<Rightarrow> 1
      | Returned r \<Rightarrow> 0)"

definition stop_rank :: "process \<Rightarrow> nat" where
  "stop_rank s =
     main_rank (lf_main s) + (if lf_stopped s then 0 else 1) + (if lf_listening s then 1 else 0)"

lemmas rank_defs = stop_rank_def main_rank_def

lemma stop_rank_step: "serve_step app s s' \<Longrightarrow> stop_rank s' \<le> stop_rank s"
  by (cases rule: serve_step.cases) (auto simp: rank_defs split: option.splits)

lemma stop_progress:
  assumes "serving_ok s" and "lf_cancelled s" and "\<And>r. lf_main s \<noteq> Returned r"
  shows "\<exists>s'. serve_step app s s' \<and> stop_rank s' < stop_rank s"
proof (cases "lf_main s")
  case Serving
  with serve_step.not_ready [of s app] assms(2) show ?thesis by (force simp: rank_defs)
next
  case NotReady
  with serve_step.shutdown [of s app] show ?thesis by (force simp: rank_defs)
next
  case ShuttingDown
  with serve_step.shutdown_fails [of s app] show ?thesis by (force simp: rank_defs)
next
  case AwaitServer
  show ?thesis
  proof (cases "lf_serverErr s")
    case None
    with AwaitServer assms(1) have "lf_listening s" and "lf_shutdown s" by (auto simp: serving_ok_def)
    with serve_step.listen_closed [of s app] show ?thesis by (force simp: rank_defs)
  next
    case (Some e)
    from serve_step.server_stopped [OF AwaitServer Some, of app] AwaitServer show ?thesis
      by (cases e) (force simp: rank_defs)+
  qed
next
  case AwaitScheduler
  show ?thesis
  proof (cases "lf_stopped s")
    case True
    note serve_step.scheduler_done [OF AwaitScheduler True, of app]
    moreover have "stop_rank (s\<lparr>lf_main := Returned None\<rparr>) < stop_rank s"
      using AwaitScheduler by (simp add: rank_defs)
    ultimately show ?thesis by blast
  next
    case False
    from serve_step.scheduler_stops [OF False assms(2), of app] False show ?thesis
      by (force simp: rank_defs)
  qed
qed (use assms(3) in blast)

section \<open>Properties\<close>

text \<open>The sample process, and its stop without any request.\<close>

definition sample_application :: "bool \<Rightarrow> application" where
  "sample_application r =
     (case run_start (with_ready sample_libraries r) sound_driver sample_environment 1700000000000000000 []
             fresh_world of
        (Inr app, _) \<Rightarrow> app)"

lemma sample_started:
  obtains w where "process_started sample_libraries sound_driver sample_environment 1700000000000000000
      fresh_world sample_application w"
proof -
  let ?run = "\<lambda>r. run_start (with_ready sample_libraries r) sound_driver sample_environment 1700000000000000000 []
      fresh_world"
  have "\<exists>app w'. ?run r = (Inr app, opening_calls sample_config, w')" for r
    using application_starts [OF _ _ sample_environment_loaded, of sound_driver fresh_world
        1700000000000000000 "with_ready sample_libraries r"]
    by (auto simp: sound_driver_def sample_environment_def fresh_world_def empty_db_def stored_state_def)
  then obtain app ws where run: "\<And>r. ?run r = (Inr (app r), opening_calls sample_config, ws r)" by metis
  have "ws r = ws True" for r
  proof -
    obtain cfg where "compose (with_ready sample_libraries r) cfg 1700000000000000000 fresh_world = (Inr (app r), ws r)"
      "Config_Load sample_environment = Inr cfg"
      using start_owns_database [OF run [of r]] by auto
    moreover obtain cfg' where "compose (with_ready sample_libraries True) cfg' 1700000000000000000 fresh_world =
        (Inr (app True), ws True)" "Config_Load sample_environment = Inr cfg'"
      using start_owns_database [OF run [of True]] by auto
    ultimately show ?thesis
      by (elim compose_Inr) simp
  qed
  with run have "process_started sample_libraries sound_driver sample_environment 1700000000000000000
      fresh_world sample_application (ws True)"
    by (auto simp: process_started_def sample_application_def)
  then show thesis by (rule that)
qed

lemma serve_steps_trans [trans]:
  "serve_step app s t \<Longrightarrow> serve_step app t u \<Longrightarrow> (serve_step app)\<^sup>*\<^sup>* s u"
  "(serve_step app)\<^sup>*\<^sup>* s t \<Longrightarrow> serve_step app t u \<Longrightarrow> (serve_step app)\<^sup>*\<^sup>* s u"
  by (auto intro: rtranclp.rtrancl_into_rtrancl)

lemma sample_stop:
  "(serve_step app)\<^sup>*\<^sup>* (process_start w)
     ((process_start w)\<lparr>lf_main := Returned None, lf_stopped := True, lf_listening := False,
        lf_shutdown := True, lf_cancelled := True, lf_ready := False\<rparr>)"
proof -
  let ?s = "process_start w"
  let ?s1 = "?s\<lparr>lf_cancelled := True\<rparr>"
  let ?s2 = "?s1\<lparr>lf_ready := False, lf_main := NotReady\<rparr>"
  let ?s3 = "?s2\<lparr>lf_shutdown := True, lf_main := ShuttingDown\<rparr>"
  let ?s4 = "?s3\<lparr>lf_listening := False, lf_serverErr := Some None\<rparr>"
  let ?s5 = "?s4\<lparr>lf_main := AwaitServer\<rparr>"
  let ?s6 = "?s5\<lparr>lf_serverErr := None, lf_main := (case None :: error option of None \<Rightarrow> AwaitScheduler
      | Some _ \<Rightarrow> Returned (Some (Message ''stop HTTP server'')))\<rparr>"
  let ?s7 = "?s6\<lparr>lf_stopped := True\<rparr>"
  have "serve_step app ?s ?s1" by (rule serve_step.signal)
  also have "serve_step app ?s1 ?s2" by (rule serve_step.not_ready) (simp_all add: process_start_def)
  also have "serve_step app ?s2 ?s3" by (rule serve_step.shutdown) simp
  also have "serve_step app ?s3 ?s4" by (rule serve_step.listen_closed) (simp_all add: process_start_def)
  also have "serve_step app ?s4 ?s5" by (rule serve_step.drained) (simp_all add: process_start_def)
  also have "serve_step app ?s5 ?s6" by (rule serve_step.server_stopped) simp_all
  also have "serve_step app ?s6 ?s7" by (rule serve_step.scheduler_stops) (simp_all add: process_start_def)
  also have "serve_step app ?s7 (?s7\<lparr>lf_main := Returned None\<rparr>)" by (rule serve_step.scheduler_done) simp_all
  finally show ?thesis by (simp add: process_start_def)
qed

text \<open>
  C39. A process that stops cleanly has stopped. If \<open>serve\<close> of a started process returns no error, then
  it was asked to stop, its health check answers 503, its listener is closed, every request that it
  accepted was answered, and the scheduler has ended; whatever still happens until the process is gone,
  nothing is stored any more and the clock does not move, so closing the database interrupts nothing.
\<close>

theorem clean_stop_is_complete:
  assumes "process_started lib d getenv initial w0 app w"
    and "(serve_step app)\<^sup>*\<^sup>* (process_start w) s" and "lf_main s = Returned None"
    and "rq_Method probe = ''GET''" and "rq_Path probe = ''/health/ready''"
  shows "lf_cancelled s \<and> \<not> lf_listening s \<and> lf_active s = 0 \<and> lf_stopped s \<and>
    rs_Status (fst (Server_ServeHTTP (app_server (app (lf_ready s))) cx probe v)) = 503 \<and>
    (\<forall>s'. (serve_step app)\<^sup>*\<^sup>* s s' \<longrightarrow> kept_state s' = kept_state s)"
proof -
  have ok: "serving_ok s" by (rule serving_ok_steps [OF assms(2) serving_ok_start])
  obtain cfg where "compose (with_ready lib False) cfg initial w0 = (Inr (app False), w)"
    by (rule process_started_composed [OF assms(1)])
  from composed_health [OF this assms(4,5)] ok assms(3)
  have "rs_Status (fst (Server_ServeHTTP (app_server (app (lf_ready s))) cx probe v)) = 503"
    by (simp add: serving_ok_def health_ready_def with_ready_def WriteJSON_def)
  moreover have "\<forall>s'. (serve_step app)\<^sup>*\<^sup>* s s' \<longrightarrow> kept_state s' = kept_state s"
    using clean_stop_steps ok assms(3) by blast
  moreover have "lf_cancelled s \<and> \<not> lf_listening s \<and> lf_active s = 0 \<and> lf_stopped s"
    using ok assms(3) by (simp add: serving_ok_def)
  ultimately show ?thesis by blast
qed

theorem clean_stop_is_complete_witness:
  "\<exists>app w s. process_started sample_libraries sound_driver sample_environment 1700000000000000000 fresh_world app w \<and>
     (serve_step app)\<^sup>*\<^sup>* (process_start w) s \<and> lf_main s = Returned None \<and>
     rs_Status (fst (Server_ServeHTTP (app_server (app (lf_ready s))) background
       \<lparr>rq_Method = ''GET'', rq_Path = ''/health/ready'', rq_EscapedPath = [], rq_RawQuery = [],
        rq_Header = [], rq_Body = None\<rparr> w)) = 503"
proof -
  obtain w where st: "process_started sample_libraries sound_driver sample_environment 1700000000000000000
      fresh_world sample_application w"
    by (rule sample_started)
  note run = sample_stop [of sample_application w]
  from clean_stop_is_complete [OF st run, of
      "\<lparr>rq_Method = ''GET'', rq_Path = ''/health/ready'', rq_EscapedPath = [], rq_RawQuery = [],
        rq_Header = [], rq_Body = None\<rparr>" background w]
  show ?thesis using st run by (intro exI conjI) (assumption | simp)+
qed

text \<open>
  C40. A stop ends. From every state of a process whose context is done, as long as \<open>serve\<close> has not
  returned, one of the goroutines can take a step of the stop, no step of any goroutine undoes one, and
  at most seven are needed: there is no deadlock between the channels, whatever requests are active and
  whether or not the listener failed.
\<close>

theorem stop_always_ends:
  assumes "(serve_step app)\<^sup>*\<^sup>* (process_start w) s" and "lf_cancelled s"
  shows "stop_rank s \<le> 7 \<and> (\<forall>s'. serve_step app s s' \<longrightarrow> stop_rank s' \<le> stop_rank s) \<and>
    ((\<exists>r. lf_main s = Returned r) \<or> (\<exists>s'. serve_step app s s' \<and> stop_rank s' < stop_rank s))"
proof -
  have ok: "serving_ok s" by (rule serving_ok_steps [OF assms(1) serving_ok_start])
  have "stop_rank s \<le> 7" by (simp add: rank_defs split: main_thread.splits)
  with stop_rank_step stop_progress [OF ok assms(2)] show ?thesis by blast
qed

theorem stop_always_ends_witness:
  "\<exists>s s'. (serve_step sample_application)\<^sup>*\<^sup>* (process_start fresh_world) s \<and> stop_rank s = 7 \<and>
     serve_step sample_application s s' \<and> stop_rank s' < 7"
proof -
  let ?s = "(process_start fresh_world)\<lparr>lf_cancelled := True\<rparr>"
  have run: "(serve_step sample_application)\<^sup>*\<^sup>* (process_start fresh_world) ?s"
    by (rule r_into_rtranclp) (rule serve_step.signal)
  have rank: "stop_rank ?s = 7" by (simp add: rank_defs process_start_def)
  moreover have "lf_main ?s = Serving" by (simp add: process_start_def)
  ultimately show ?thesis using stop_always_ends [OF run] run by fastforce
qed

text \<open>
  When the listener fails, \<open>serve\<close> returns without waiting for the scheduler: as long as nobody asks for
  a stop the ticks go on, also after the database was closed.
\<close>

theorem failed_listener_leaves_scheduler:
  assumes "(serve_step app)\<^sup>*\<^sup>* (process_start w) s" and "lf_main s = Returned r" and "\<not> lf_cancelled s"
  shows "r \<noteq> None \<and> \<not> lf_stopped s"
  using serving_ok_steps [OF assms(1) serving_ok_start] assms(2,3)
  by (cases r) (auto simp: serving_ok_def)

theorem failed_listener_leaves_scheduler_witness:
  "\<exists>s. (serve_step sample_application)\<^sup>*\<^sup>* (process_start fresh_world) s \<and> lf_closed s \<and> \<not> lf_stopped s"
proof -
  let ?s = "process_start fresh_world"
  let ?s1 = "?s\<lparr>lf_listening := False, lf_serverErr := Some (Some (Message ''address already in use''))\<rparr>"
  let ?s2 = "?s1\<lparr>lf_serverErr := None, lf_main := Returned (case Some (Message ''address already in use'') of
      None \<Rightarrow> None | Some _ \<Rightarrow> Some (Message ''serve HTTP''))\<rparr>"
  have "serve_step sample_application ?s ?s1" by (rule serve_step.listen_fails) (simp_all add: process_start_def)
  also have "serve_step sample_application ?s1 ?s2"
    by (rule serve_step.server_ended) (simp_all add: process_start_def)
  also have "serve_step sample_application ?s2 (?s2\<lparr>lf_closed := True\<rparr>)"
    by (rule serve_step.close_database) (simp_all add: process_start_def)
  finally have run: "(serve_step sample_application)\<^sup>*\<^sup>* ?s (?s2\<lparr>lf_closed := True\<rparr>)" .
  have "\<not> lf_cancelled (?s2\<lparr>lf_closed := True\<rparr>)" by (simp add: process_start_def)
  from failed_listener_leaves_scheduler [OF run _ this] have "\<not> lf_stopped (?s2\<lparr>lf_closed := True\<rparr>)" by simp
  moreover have "lf_closed (?s2\<lparr>lf_closed := True\<rparr>)" by simp
  ultimately show ?thesis using run by blast
qed

end
