(* ===== verification/Delivery_Run.thy ===== *)
theory Delivery_Run
  imports Composition
begin

text \<open>
  Webhook deliveries end to end: the scheduler, the worker and the outbound callback that
  \<open>internal/app/app.go\<close> puts together, run on the jobs that are due. When no statement fails, a tick
  sends every due delivery once, in the order of the due times, and settles every job by the answer it
  got; a delivery is over after at most three attempts.
\<close>

section \<open>What a delivery amounts to\<close>

text \<open>How an outcome of the HTTP client is taken.\<close>

fun delivered :: "http_outcome \<Rightarrow> bool" where
  "delivered (HttpResponse code has_body) \<longleftrightarrow> has_body \<and> 200 \<le> code \<and> code < 300"
| "delivered _ \<longleftrightarrow> False"

fun answered_status :: "http_outcome \<Rightarrow> int" where
  "answered_status (HttpResponse code has_body) = code"
| "answered_status _ = 0"

fun delivery_error :: "http_outcome \<Rightarrow> error option" where
  "delivery_error (HttpError why) = Some (delivery_failed why)"
| "delivery_error HttpNilResponse = Some (delivery_failed ''HTTP client returned nil response'')"
| "delivery_error (HttpResponse code has_body) =
     (if \<not> has_body then Some (delivery_failed ''HTTP client returned nil response body'')
      else if code < 200 \<or> code \<ge> 300 then Some (delivery_failed ''unexpected HTTP status'')
      else None)"

lemma delivery_error_None: "delivery_error out = None \<longleftrightarrow> delivered out"
  by (cases out) auto

text \<open>The endpoint and the payload of a delivery job, when it can be sent.\<close>

definition delivery_of :: "net_library \<Rightarrow> db \<Rightarrow> job \<Rightarrow> (endpoint \<times> delivery_payload) option" where
  "delivery_of net d j =
     (case decodeDeliveryPayload (j_payload j) of
        Inl e \<Rightarrow> None
      | Inr p \<Rightarrow>
          (case row_at wr_id (dp_EndpointID p) (t_webhook_endpoints d) of
             None \<Rightarrow> None
           | Some r \<Rightarrow>
               (case NewEndpoint net (dp_EndpointID p) (wr_url r) of
                  Inl e \<Rightarrow> None
                | Inr e \<Rightarrow> if nl_request_ok net (ep_url e) then Some (e, p) else None)))"

lemma delivery_ofE:
  assumes "delivery_of net d j = Some (e, p)"
  obtains r where "decodeDeliveryPayload (j_payload j) = Inr p"
    and "row_at wr_id (dp_EndpointID p) (t_webhook_endpoints d) = Some r"
    and "NewEndpoint net (dp_EndpointID p) (wr_url r) = Inr e" and "nl_request_ok net (ep_url e)"
    and "dp_EndpointID p \<noteq> []"
  using assms
  by (auto simp: delivery_of_def NewEndpoint_def split: sum.splits option.splits if_splits)

text \<open>The audit row that an attempt leaves, once it is over.\<close>

definition attempt_row ::
  "job \<Rightarrow> delivery_payload \<Rightarrow> http_outcome \<Rightarrow> int \<Rightarrow> delivery_row" where
  "attempt_row j p out runtimeSequence =
     \<lparr>dr_job_id = j_id j, dr_attempt = uint (j_attempts j) + 1, dr_endpoint_id = dp_EndpointID p,
      dr_correlation_id = dp_CorrelationID p, dr_causation_id = dp_CausationID p,
      dr_outcome = delivery_text (if delivered out then DeliverySucceeded else DeliveryFailed),
      dr_http_status = answered_status out, dr_error = delivery_error out,
      dr_runtime_sequence = runtimeSequence\<rparr>"

text \<open>
  The job after the attempt: completed; or to be retried after 30 seconds, the second time after a
  minute; or exhausted with the third attempt.
\<close>

definition settled :: "time \<Rightarrow> bool \<Rightarrow> job \<Rightarrow> job" where
  "settled now ok j =
     j\<lparr>j_status := (if ok then JobCompleted
                    else if j_attempts j + 1 < 3 then JobPending else JobExhausted),
       j_nextAttemptAt := (if \<not> ok \<and> j_attempts j + 1 < 3
                           then now + 30 * second * 2 ^ unat (j_attempts j) else j_nextAttemptAt j),
       j_leaseOwner := [], j_leaseExpiresAt := 0,
       j_leaseGeneration := j_leaseGeneration j + 1, j_attempts := j_attempts j + 1\<rparr>"

section \<open>One callback\<close>

lemma recordStart_calm:
  assumes "reliable (Suc n) w" and "uint (da_Attempt a) < 2 ^ 63"
    and "row_at delivery_key (da_JobID a, uint (da_Attempt a)) (t_webhook_delivery_audit (w_db w)) = None"
  shows "recordStart cx a w =
    (Inr (), w\<lparr>w_db := (w_db w)\<lparr>t_runtime_sequence := t_runtime_sequence (w_db w) + 1,
        t_webhook_delivery_audit := t_webhook_delivery_audit (w_db w) @
          [delivery_row_of a (uint (da_Attempt a)) (t_runtime_sequence (w_db w) + 1)]\<rparr>\<rparr>)"
proof -
  have f: "w_faults w = []" using assms(1) by (simp add: reliable_def)
  obtain n where N: "NextRuntimeSequence w =
      (Inr n, w\<lparr>w_db := (w_db w)\<lparr>t_runtime_sequence := t_runtime_sequence (w_db w) + 1\<rparr>\<rparr>)"
    and n: "uint n = t_runtime_sequence (w_db w) + 1"
    using NextRuntimeSequence_reliable [of w] assms(1) by (auto simp: reliable_def)
  have "uint n < 2 ^ 63" using n assms(1) by (simp add: reliable_def)
  then show ?thesis
    using f assms(2,3) N n
    by (simp add: recordStart_def bindP_apply insert_delivery_def delivery_key_def delivery_row_of_def)
qed

lemma put_row_last:
  "row_at key (key r) rows = None \<Longrightarrow> key r' = key r \<Longrightarrow> put_row key r' (rows @ [r]) = rows @ [r']"
  by (induction rows) (auto split: if_splits)

lemma recordTerminal_calm:
  assumes "w_faults w = []" and "uint (da_Attempt a) < 2 ^ 63"
    and "t_webhook_delivery_audit (w_db w) = rows @ [r]"
    and "row_at delivery_key (delivery_key r) rows = None"
    and "delivery_key r = (da_JobID a, uint (da_Attempt a))"
    and "dr_outcome r = delivery_text DeliveryStarted"
  shows "recordTerminal cx a w =
    (Inr (), w\<lparr>w_db := (w_db w)\<lparr>t_webhook_delivery_audit := rows @
       [r\<lparr>dr_outcome := delivery_text (da_Outcome a), dr_http_status := da_HTTPStatus a,
          dr_error := da_Error a\<rparr>]\<rparr>\<rparr>)"
proof -
  let ?r = "r\<lparr>dr_outcome := delivery_text (da_Outcome a), dr_http_status := da_HTTPStatus a,
          dr_error := da_Error a\<rparr>"
  have "delivery_key ?r = delivery_key r" by (simp add: delivery_key_def)
  with assms(4) have "put_row delivery_key ?r (rows @ [r]) = rows @ [?r]" by (rule put_row_last)
  moreover have "row_at delivery_key (da_JobID a, uint (da_Attempt a)) (rows @ [r]) = Some r"
    using assms(4,5) by (simp add: row_at_append)
  ultimately show ?thesis
    using assms by (simp add: recordTerminal_def bindP_apply finish_delivery_def)
qed

lemma FindByID_calm:
  assumes "w_faults w = []" and "row_at wr_id i (t_webhook_endpoints (w_db w)) = Some r"
    and "NewEndpoint net i (wr_url r) = Inr e"
  shows "Endpoint_FindByID net cx i w = (Inr e, w)"
  using assms by (simp add: Endpoint_FindByID_def bindP_apply)

text \<open>What an attempt to send leaves of the world.\<close>

definition after_sending :: "world \<Rightarrow> http_request \<Rightarrow> delivery_row \<Rightarrow> world" where
  "after_sending w request row =
     w\<lparr>w_db := (w_db w)\<lparr>t_runtime_sequence := t_runtime_sequence (w_db w) + 1,
                t_webhook_delivery_audit := t_webhook_delivery_audit (w_db w) @ [row]\<rparr>,
       w_http := tl (w_http w), w_outbox := w_outbox w @ [request]\<rparr>"


lemma callback_send_calm:
  assumes "w_http w = out # rest" and "nl_request_ok net (ep_url e)"
  shows "callback_send net audited cx p e w =
    callback_finish audited cx p (if delivered out then DeliverySucceeded else DeliveryFailed)
      (answered_status out) (delivery_error out)
      (w\<lparr>w_http := rest, w_outbox := w_outbox w @ [delivery_request e p]\<rparr>)"
  using assms by (cases out) (auto simp: callback_send_def bindP_apply client_Do_def)

lemma Execute_calm:
  assumes "reliable (Suc n) w" and "delivery_of net (w_db w) j = Some (e, p)"
    and "w_http w = out # rest" and "j_id j \<noteq> []" and "uint (j_attempts j) + 1 < 2 ^ 63"
    and "row_at delivery_key (j_id j, uint (j_attempts j) + 1) (t_webhook_delivery_audit (w_db w)) = None"
    and cx: "ExecutionMetadataFromContext cx = Some (j_id j, a)" and a: "uint a = uint (j_attempts j) + 1"
  shows "OutboundCallback_Execute net True cx (j_payload j) w =
    ((case delivery_error out of None \<Rightarrow> Inr () | Some err \<Rightarrow> Inl err),
     after_sending w (delivery_request e p) (attempt_row j p out (t_runtime_sequence (w_db w) + 1)))"
proof -
  from assms(2) obtain r where d: "decodeDeliveryPayload (j_payload j) = Inr p"
    and r: "row_at wr_id (dp_EndpointID p) (t_webhook_endpoints (w_db w)) = Some r"
    and e: "NewEndpoint net (dp_EndpointID p) (wr_url r) = Inr e" and ok: "nl_request_ok net (ep_url e)"
    and ne: "dp_EndpointID p \<noteq> []" by (rule delivery_ofE)
  have f: "w_faults w = []" using assms(1) by (simp add: reliable_def)
  let ?a = "newAttempt cx p DeliveryStarted 0"
  let ?row = "delivery_row_of ?a (uint a) (t_runtime_sequence (w_db w) + 1)"
  let ?w1 = "w\<lparr>w_db := (w_db w)\<lparr>t_runtime_sequence := t_runtime_sequence (w_db w) + 1,
        t_webhook_delivery_audit := t_webhook_delivery_audit (w_db w) @ [?row]\<rparr>\<rparr>"
  let ?w2 = "?w1\<lparr>w_http := rest, w_outbox := w_outbox w @ [delivery_request e p]\<rparr>"
  have at: "newAttempt cx p out' code = \<lparr>da_JobID = j_id j, da_Attempt = a, da_EndpointID = dp_EndpointID p,
      da_CorrelationID = dp_CorrelationID p, da_CausationID = dp_CausationID p,
      da_Outcome = out', da_HTTPStatus = code, da_Error = None, da_RuntimeSequence = 0\<rparr>" for out' code
    by (simp add: newAttempt_def cx)
  have "recordStart (WithTx cx) ?a w = (Inr (), ?w1)"
    using recordStart_calm [OF assms(1), of ?a "WithTx cx"] assms(5,6) a by (simp add: at)
  then have "in_transaction cx (\<lambda>txctx. recordStart txctx ?a) w = (Inr (), ?w1)"
    using f by (intro in_transaction_reliable) simp_all
  then have start: "callback_start True cx p w = (Inr (), ?w1)"
    using assms(4) ne by (simp add: callback_start_def DeliveryAudit_Record_def at)
  have find: "Endpoint_FindByID net cx (dp_EndpointID p) ?w1 = (Inr e, ?w1)"
    using FindByID_calm [of ?w1] f r e by simp
  have finish: "callback_finish True cx p (if delivered out then DeliverySucceeded else DeliveryFailed)
      (answered_status out) (delivery_error out) ?w2 =
      ((case delivery_error out of None \<Rightarrow> Inr () | Some err \<Rightarrow> Inl err),
       after_sending w (delivery_request e p) (attempt_row j p out (t_runtime_sequence (w_db w) + 1)))"
    (is "callback_finish True cx p ?out ?code ?err ?w2 = _")
  proof -
    let ?b = "(newAttempt cx p ?out ?code)\<lparr>da_Error := ?err\<rparr>"
    have "recordTerminal cx ?b ?w2 = (Inr (), ?w2\<lparr>w_db := (w_db ?w2)\<lparr>t_webhook_delivery_audit :=
        t_webhook_delivery_audit (w_db w) @ [?row\<lparr>dr_outcome := delivery_text (da_Outcome ?b),
          dr_http_status := da_HTTPStatus ?b, dr_error := da_Error ?b\<rparr>]\<rparr>\<rparr>)"
      using f assms(5,6) a
      by (intro recordTerminal_calm) (simp_all add: at delivery_key_def delivery_row_of_def)
    moreover have "?w2\<lparr>w_db := (w_db ?w2)\<lparr>t_webhook_delivery_audit :=
        t_webhook_delivery_audit (w_db w) @ [?row\<lparr>dr_outcome := delivery_text (da_Outcome ?b),
          dr_http_status := da_HTTPStatus ?b, dr_error := da_Error ?b\<rparr>]\<rparr>\<rparr> =
        after_sending w (delivery_request e p) (attempt_row j p out (t_runtime_sequence (w_db w) + 1))"
      using assms(3) a by (simp add: after_sending_def attempt_row_def delivery_row_of_def at)
    ultimately have "DeliveryAudit_Record cx ?b ?w2 =
        (Inr (), after_sending w (delivery_request e p) (attempt_row j p out (t_runtime_sequence (w_db w) + 1)))"
      using assms(4) ne by (simp add: DeliveryAudit_Record_def at)
    then show ?thesis by (cases ?err) (simp_all add: callback_finish_def Let_def bindP_apply)
  qed
  with d start find finish show ?thesis
    using callback_send_calm [of ?w1 out rest net e True cx p] assms(3) ok
    by (simp add: OutboundCallback_Execute_def bindP_apply)
qed


section \<open>Saving and leasing, when nothing fails\<close>

text \<open>The tables that the scheduler's repository leaves alone, and the next runtime sequence.\<close>

definition scheduled :: "db \<Rightarrow> job_row list \<Rightarrow> db \<Rightarrow> bool" where
  "scheduled d rows d' \<longleftrightarrow>
     t_scheduler_jobs d' = rows \<and> t_runtime_sequence d' = t_runtime_sequence d + 1 \<and>
     other_tables d' = other_tables d"

lemma other_tablesD:
  assumes "other_tables d' = other_tables d"
  shows "t_webhook_endpoints d' = t_webhook_endpoints d"
    and "t_webhook_delivery_audit d' = t_webhook_delivery_audit d"
proof -
  from arg_cong [OF assms, of t_webhook_endpoints] arg_cong [OF assms, of t_webhook_delivery_audit]
  show "t_webhook_endpoints d' = t_webhook_endpoints d"
    and "t_webhook_delivery_audit d' = t_webhook_delivery_audit d" by (simp_all add: other_tables_def)
qed

lemma Save_calm:
  assumes "reliable (Suc n) w" and "job_storable j" and "fence_open j (w_db w)"
  shows "\<exists>d. SchedulerRepository_Save cx j w = (Inr (), w\<lparr>w_db := d\<rparr>) \<and>
           scheduled (w_db w) (put_row jr_id (row_of j) (t_scheduler_jobs (w_db w))) d"
proof -
  from save_reliable_open [OF assms, of "WithTx cx"] obtain d
    where sv: "SchedulerRepository_save (WithTx cx) j w = (Inr (), w\<lparr>w_db := d\<rparr>)"
      and jobs: "t_scheduler_jobs d = put_row jr_id (row_of j) (t_scheduler_jobs (w_db w))"
      and sq: "t_runtime_sequence d = t_runtime_sequence (w_db w) + 1" by blast
  have S: "SchedulerRepository_Save cx j w = (Inr (), w\<lparr>w_db := d\<rparr>)"
    unfolding SchedulerRepository_Save_def using sv assms(1)
    by (intro in_transaction_reliable) (simp_all add: reliable_def)
  from save_open(2) [OF sv assms(3)] have "other_tables d = other_tables (w_db w)"
    by (simp add: audit_extends_def)
  with S jobs sq show ?thesis by (auto simp: scheduled_def)
qed

lemma Acquire_calm:
  assumes rel: "reliable (Suc n) w" and r: "find_job i (w_db w) = Some r" and "acquirable c r"
    and sc: "job_scan (leased_row owner e r) = Inr j" and "job_storable j"
  shows "\<exists>d. SchedulerRepository_Acquire cx i owner e c w = (Inr j, w\<lparr>w_db := d\<rparr>) \<and>
           scheduled (w_db w) (put_row jr_id (leased_row owner e r) (t_scheduler_jobs (w_db w))) d"
proof -
  let ?d = "(w_db w)\<lparr>t_scheduler_jobs := put_row jr_id (leased_row owner e r) (t_scheduler_jobs (w_db w))\<rparr>"
  have faults: "w_faults w = []" using rel by (simp add: reliable_def)
  have i: "jr_id (leased_row owner e r) = i" using find_job_id [OF r] by (simp add: leased_row_def)
  have s: "statement (acquire_rows i owner e c) w = (Inr 1, w\<lparr>w_db := ?d\<rparr>)"
    using faults r assms(3) by (cases w) (simp add: statement_reliable acquire_rows_cases)
  have f: "SchedulerRepository_find (WithTx cx) i (w\<lparr>w_db := ?d\<rparr>) = (Inr j, w\<lparr>w_db := ?d\<rparr>)"
    using faults i sc by (simp add: SchedulerRepository_find_def bindP_apply)
  from appendAudit_reliable [of "w\<lparr>w_db := ?d\<rparr>" j "WithTx cx"] rel assms(5)
  obtain d where a: "appendAudit (WithTx cx) j (w\<lparr>w_db := ?d\<rparr>) = (Inr (), w\<lparr>w_db := d\<rparr>)"
    and "t_scheduler_jobs d = t_scheduler_jobs ?d" and "t_runtime_sequence d = t_runtime_sequence (w_db w) + 1"
    by (auto simp: reliable_def)
  moreover have "other_tables d = other_tables (w_db w)"
    using appendAudit_Inr(2) [OF a] by (simp add: audit_extends_def other_tables_def)
  moreover have "SchedulerRepository_acquire (WithTx cx) i owner e c w = (Inr j, w\<lparr>w_db := d\<rparr>)"
    using s f a by (simp add: SchedulerRepository_acquire_def bindP_apply)
  with faults have "SchedulerRepository_Acquire cx i owner e c w = (Inr j, w\<lparr>w_db := d\<rparr>)"
    unfolding SchedulerRepository_Acquire_def by (intro in_transaction_reliable) simp_all
  ultimately show ?thesis by (auto simp: scheduled_def)
qed

lemma put_row_put_row: "key r = key r' \<Longrightarrow> put_row key r (put_row key r' rows) = put_row key r rows"
  by (induction rows) auto

section \<open>One job\<close>

text \<open>
  A delivery job that waits for its next attempt and has attempts left. The generation is one that the
  remaining attempts can still raise, and no attempt to come was begun before.
\<close>

definition deliverable :: "db \<Rightarrow> job \<Rightarrow> bool" where
  "deliverable d j \<longleftrightarrow>
     job_wf j \<and> job_storable j \<and> j_jobType j = DeliveryJobType \<and> j_status j = JobPending \<and>
     j_attempts j < 3 \<and> uint (j_leaseGeneration j) + 3 < 2 ^ 63 + uint (j_attempts j) \<and>
     (\<forall>r \<in> set (t_webhook_delivery_audit d). dr_job_id r = j_id j \<longrightarrow> dr_attempt r \<le> uint (j_attempts j))"

definition leased_job :: "string \<Rightarrow> time \<Rightarrow> job \<Rightarrow> job" where
  "leased_job owner e j =
     j\<lparr>j_status := JobLeased, j_leaseOwner := owner, j_leaseExpiresAt := e,
       j_leaseGeneration := j_leaseGeneration j + 1\<rparr>"

lemma uint_inc:
  fixes v :: uint64
  assumes "uint v + 1 < 2 ^ 63"
  shows "uint (v + 1) = uint v + 1"
proof -
  have "v \<noteq> - 1"
  proof
    assume "v = - 1"
    then have "uint v = 2 ^ 64 - 1" by (simp add: unsigned_minus_1_eq_mask mask_eq_exp_minus_1)
    with assms show False by simp
  qed
  from arg_cong [OF unat_inc_exact [OF this], of int] show ?thesis by simp
qed

lemma leased_row_row_of:
  assumes "uint (j_leaseGeneration j) + 1 < 2 ^ 63" and "e \<noteq> 0"
  shows "leased_row owner e (row_of j) = row_of (leased_job owner e j)"
  using assms by (simp add: leased_row_def row_of_def job_row_of_def leased_job_def uint_inc)

lemma few_attempts:
  assumes "(a :: uint64) < 3"
  obtains "a = 0" | "a = 1" | "a = 2"
proof -
  have "unat a < 3" using assms by (simp add: word_less_nat_alt)
  then have "unat a = unat (0 :: uint64) \<or> unat a = unat (1 :: uint64) \<or> unat a = unat (2 :: uint64)"
    by simp linarith
  then have "a = 0 \<or> a = 1 \<or> a = 2" using unsigned_word_eqI by blast
  then show thesis using that by blast
qed

text \<open>The retry of the policy of the running program.\<close>

lemma runtime_policy_decides:
  assumes "(a :: uint64) < 3"
  shows "ExponentialBackoffPolicy_Decide runtime_policy (a + 1) =
    Inr (if a + 1 < 3 then \<lparr>rd_RetryAfter = 30000000000 * 2 ^ unat a, rd_Retry = True\<rparr> else no_retry)"
  using assms
  by (cases rule: few_attempts)
    (simp_all add: ExponentialBackoffPolicy_Decide_def runtime_policy_def half_def word_le_nat_alt)


text \<open>What an attempt of the worker makes of the leased job is \<open>settled\<close>.\<close>

lemma settled_by_attempt:
  assumes "j_attempts j < 3" and "time_Add now (30000000000 * 2 ^ unat (j_attempts j)) =
      now + 30 * second * 2 ^ unat (j_attempts j)" and "0 < now"
    and "j_status j = JobPending"
  shows "attempt_outcome (Some (ExponentialBackoffPolicy_Decide runtime_policy)) now ok
      (leased_job owner e j) = Inr (settled now ok j)"
    and "retries_used_up (Some (ExponentialBackoffPolicy_Decide runtime_policy)) (leased_job owner e j) = Inr False"
proof -
  let ?l = "leased_job owner e j"
  have a: "j_attempts ?l = j_attempts j" by (simp add: leased_job_def)
  show used: "retries_used_up (Some (ExponentialBackoffPolicy_Decide runtime_policy)) ?l = Inr False"
  proof (cases "j_attempts j = 0")
    case False
    have "unat (j_attempts j) < 3" using assms(1) by (simp add: word_less_nat_alt)
    then have "\<not> 3 \<le> j_attempts j" by (simp add: word_le_nat_alt)
    then show ?thesis using a False
      by (simp add: retries_used_up_def ExponentialBackoffPolicy_Decide_def runtime_policy_def)
  qed (use a in \<open>simp add: retries_used_up_def\<close>)
  have pos: "now + 30 * second * 2 ^ unat (j_attempts j) \<noteq> 0"
    using assms(3) second_pos by (intro pos_add_strict [THEN less_imp_neq, symmetric]) simp_all
  show "attempt_outcome (Some (ExponentialBackoffPolicy_Decide runtime_policy)) now ok ?l =
      Inr (settled now ok j)"
    using used assms(2) pos runtime_policy_decides [OF assms(1)] a
    by (simp add: attempt_outcome_def Job_Start_def Job_Complete_def Job_Fail_def Job_ScheduleRetry_def
        Job_Exhaust_def clearLease_def leased_job_def settled_def no_retry_def)
qed


text \<open>
  The times of a tick fit: the virtual time and the lease lie in the years that the tables can hold,
  with room for the longest delay of a retry.
\<close>

definition times_fit :: "time \<Rightarrow> time \<Rightarrow> bool" where
  "times_fit now leaseEnd \<longleftrightarrow>
     0 < now \<and> time_in_range (now + minute) \<and> leaseEnd \<noteq> 0 \<and> time_in_range leaseEnd"

lemma retry_time:
  assumes "times_fit now e" and "(a :: uint64) < 3"
  shows "time_Add now (30000000000 * 2 ^ unat a) = now + 30 * second * 2 ^ unat a"
    and "a + 1 < 3 \<Longrightarrow> time_in_range (now + 30 * second * 2 ^ unat a)"
proof -
  have r: "0 < now" "now + minute < 3652059 * 86400 * second"
    using assms(1) by (simp_all add: times_fit_def time_in_range_def)
  from assms(2) have "\<exists>n. sint (30000000000 * 2 ^ unat a :: duration) = n \<and> n = 30 * second * 2 ^ unat a \<and>
      0 < n \<and> n \<le> 120 * second \<and> (a + 1 < 3 \<longrightarrow> n \<le> minute)"
    by (cases rule: few_attempts) (simp_all add: second_def minute_def word_less_nat_alt)
  then obtain n where n: "sint (30000000000 * 2 ^ unat a :: duration) = n" "n = 30 * second * 2 ^ unat a"
      "0 < n" "n \<le> 120 * second" "a + 1 < 3 \<longrightarrow> n \<le> minute" by blast
  have "0 \<le> (now + n) div second" using r(1) n(3) by (simp add: pos_imp_zdiv_nonneg_iff)
  moreover have "(now + n) div second \<le> max_seconds"
  proof -
    have "(now + n) div second \<le> (3652060 * 86400 * second) div second"
      using r(2) n(4) by (intro zdiv_mono1) (simp_all add: minute_def second_def)
    then show ?thesis by (simp add: max_seconds_def second_def)
  qed
  ultimately show "time_Add now (30000000000 * 2 ^ unat a) = now + 30 * second * 2 ^ unat a"
    using n(1,2) by (simp add: time_Add_exact max_seconds_def)
  show "time_in_range (now + 30 * second * 2 ^ unat a)" if "a + 1 < 3"
    unfolding n(2) [symmetric] using r n(3,5) that by (simp add: time_in_range_def second_def)
qed

text \<open>What one delivery does to the tables; \<open>k\<close> sequence values are drawn up to its start marker.\<close>

definition rest_of :: "db \<Rightarrow> db" where
  "rest_of d = d\<lparr>t_scheduler_jobs := [], t_scheduler_job_audit := [], t_webhook_delivery_audit := [],
                 t_runtime_sequence := 0\<rparr>"

definition settles :: "int \<Rightarrow> db \<Rightarrow> time \<Rightarrow> job \<Rightarrow> delivery_payload \<Rightarrow> http_outcome \<Rightarrow> db \<Rightarrow> bool" where
  "settles k d now j p out d' \<longleftrightarrow>
     t_scheduler_jobs d' = put_row jr_id (row_of (settled now (delivered out) j)) (t_scheduler_jobs d) \<and>
     t_webhook_delivery_audit d' =
       t_webhook_delivery_audit d @ [attempt_row j p out (t_runtime_sequence d + k)] \<and>
     t_runtime_sequence d' = t_runtime_sequence d + k + 1 \<and> rest_of d' = rest_of d"

lemma rest_of_other: "other_tables d' = other_tables d \<Longrightarrow> rest_of d' = rest_of d"
proof -
  have "rest_of x = (other_tables x)\<lparr>t_webhook_delivery_audit := []\<rparr>" for x
    by (simp add: rest_of_def other_tables_def)
  then show "other_tables d' = other_tables d \<Longrightarrow> rest_of d' = rest_of d" by simp
qed

lemma rest_of_endpoints: "rest_of d' = rest_of d \<Longrightarrow> t_webhook_endpoints d' = t_webhook_endpoints d"
  by (drule arg_cong [of _ _ t_webhook_endpoints]) (simp add: rest_of_def)

lemma delivery_of_endpoints:
  "t_webhook_endpoints d' = t_webhook_endpoints d \<Longrightarrow> delivery_of net d' j = delivery_of net d j"
  by (simp add: delivery_of_def split: sum.split)

lemma deliverable_few:
  assumes "deliverable d j"
  shows "uint (j_attempts j) < 3" and "j_id j \<noteq> []" and "uint (j_leaseGeneration j) + 1 < 2 ^ 63"
    and "row_at delivery_key (j_id j, uint (j_attempts j) + 1) (t_webhook_delivery_audit d) = None"
proof -
  have "unat (j_attempts j) < 3" using assms by (simp add: deliverable_def word_less_nat_alt)
  then show a: "uint (j_attempts j) < 3" by (metis int_ops(3) of_nat_less_iff of_nat_numeral uint_nat)
  show "j_id j \<noteq> []" using assms by (simp add: deliverable_def job_wf_def)
  show "uint (j_leaseGeneration j) + 1 < 2 ^ 63" using assms a by (simp add: deliverable_def)
  show "row_at delivery_key (j_id j, uint (j_attempts j) + 1) (t_webhook_delivery_audit d) = None"
    using assms by (auto simp: deliverable_def row_at_None_iff delivery_key_def)
qed

lemma settled_storable:
  assumes "deliverable d j" and "times_fit now e"
  shows "job_storable (settled now ok j)"
proof -
  note few = deliverable_few [OF assms(1)]
  have "uint (j_attempts j + 1) < 2 ^ 63" and "uint (j_leaseGeneration j + 1) < 2 ^ 63"
    using few(1,3) by (simp_all add: uint_inc)
  then show ?thesis
    using assms retry_time(2) [OF assms(2)]
    by (auto simp: settled_def job_storable_def deliverable_def time_in_range_def second_def)
qed


lemma row_of_next [simp]: "jr_next_attempt_at (row_of j) = j_nextAttemptAt j"
  by (simp add: row_of_def job_row_of_def)

text \<open>The job while its delivery runs.\<close>

definition running_job :: "job \<Rightarrow> job" where
  "running_job l = l\<lparr>j_status := JobRunning, j_attempts := j_attempts l + 1\<rparr>"

lemma leased_starts: "Job_Start (leased_job owner e j) = Inr (running_job (leased_job owner e j))"
  by (simp add: Job_Start_def leased_job_def running_job_def)

lemma leased_storable:
  assumes "deliverable d j" and "times_fit now e"
  shows "job_storable (leased_job owner e j)" and "job_storable (running_job (leased_job owner e j))"
  using assms deliverable_few(1,3) [OF assms(1)]
  by (auto simp: deliverable_def job_storable_def leased_job_def running_job_def times_fit_def uint_inc)

lemma leased_wf:
  assumes "deliverable d j" and "times_fit now e" and "owner \<noteq> []"
  shows "job_wf (leased_job owner e j)"
  using assms by (simp add: deliverable_def job_wf_def leased_job_def times_fit_def DeliveryJobType_def)

text \<open>A save over the row of the same generation, not completed, is let through.\<close>

lemma fence_over:
  assumes "t_scheduler_jobs d = put_row jr_id (row_of a) rows" and "j_id k = j_id a"
    and "j_leaseGeneration k = j_leaseGeneration a" and "j_status a \<noteq> JobCompleted"
  shows "fence_open k d"
  using assms by (simp add: fence_open_def find_job_def)

lemma worker_settles:
  assumes rel: "reliable (Suc (Suc (Suc n))) w" and dv: "deliverable d0 j"
    and fit: "times_fit (business_now w) e" and owner: "owner \<noteq> []"
    and jobs: "t_scheduler_jobs (w_db w) = put_row jr_id (row_of (leased_job owner e j)) rows"
    and au: "t_webhook_delivery_audit (w_db w) = t_webhook_delivery_audit d0"
    and dl: "delivery_of net (w_db w) j = Some (ep, p)" and out: "w_http w = out # rest"
  shows "\<exists>d. Worker_Execute (runtime_worker net) cx (Some (leased_job owner e j)) w =
      ((case delivery_error out of None \<Rightarrow> Inr () | Some err \<Rightarrow> Inl (Joined [err])),
       w\<lparr>w_db := d, w_http := rest, w_outbox := w_outbox w @ [delivery_request ep p]\<rparr>) \<and>
     settles 2 (w_db w) (business_now w) j p out d"
proof -
  let ?l = "leased_job owner e j" and ?k = "settled (business_now w) (delivered out) j"
  let ?s = "running_job ?l"
  let ?decide = "ExponentialBackoffPolicy_Decide runtime_policy"
  have same: "j_id ?s = j_id j" "j_leaseGeneration ?s = j_leaseGeneration ?l" "j_payload ?s = j_payload j"
      "j_id ?l = j_id j" "j_attempts ?s = j_attempts j + 1" "j_id ?k = j_id j"
      "j_leaseGeneration ?k = j_leaseGeneration ?s" "j_jobType ?l = j_jobType j"
      "j_status ?l \<noteq> JobCompleted" "j_status ?s = JobRunning"
    by (simp_all add: leased_job_def running_job_def settled_def)
  note st = leased_storable [OF dv fit, of owner] and few = deliverable_few [OF dv]
  have at: "uint (j_attempts ?s) = uint (j_attempts j) + 1" using few(1) by (simp add: same uint_inc)
  \<comment> \<open>the start is saved\<close>
  have "fence_open ?s (w_db w)" by (rule fence_over [OF jobs]) (simp_all add: same)
  then obtain d1 where S1: "SchedulerRepository_Save cx ?s w = (Inr (), w\<lparr>w_db := d1\<rparr>)"
    and d1: "scheduled (w_db w) (put_row jr_id (row_of ?s) (t_scheduler_jobs (w_db w))) d1"
    using Save_calm [of "Suc (Suc n)" w ?s cx] rel st(2) by auto
  \<comment> \<open>the callback runs\<close>
  let ?w1 = "w\<lparr>w_db := d1\<rparr>"
  let ?row = "attempt_row j p out (t_runtime_sequence (w_db w) + 2)"
  let ?w2 = "after_sending ?w1 (delivery_request ep p) ?row"
  note o1 = other_tablesD [of d1 "w_db w"]
  have r1: "reliable (Suc (Suc n)) ?w1" using rel d1 by (simp add: reliable_def scheduled_def)
  have H: "OutboundCallback_Execute net True (WithExecutionMetadata (j_id ?s) (j_attempts ?s) cx)
      (j_payload ?s) ?w1 = ((case delivery_error out of None \<Rightarrow> Inr () | Some err \<Rightarrow> Inl err), ?w2)"
  proof -
    have "delivery_of net (w_db ?w1) j = Some (ep, p)"
      using dl d1 o1 by (simp add: scheduled_def delivery_of_endpoints [of d1 "w_db w"])
    moreover have "row_at delivery_key (j_id j, uint (j_attempts j) + 1)
        (t_webhook_delivery_audit (w_db ?w1)) = None"
      using few(4) d1 o1 au by (simp add: scheduled_def)
    ultimately show ?thesis
      using Execute_calm [of "Suc n" ?w1 net j ep p out rest
          "WithExecutionMetadata (j_id ?s) (j_attempts ?s) cx" "j_attempts ?s"] r1 out few at d1
      by (simp add: same ExecutionMetadataFromContext_def WithExecutionMetadata_def scheduled_def ac_simps)
  qed
  \<comment> \<open>the settled job is saved\<close>
  have r2: "reliable (Suc n) ?w2" using rel d1 by (simp add: reliable_def scheduled_def after_sending_def)
  have jobs2: "t_scheduler_jobs (w_db ?w2) = put_row jr_id (row_of ?s) (t_scheduler_jobs (w_db w))"
    using d1 by (simp add: after_sending_def scheduled_def)
  have "fence_open ?k (w_db ?w2)" by (rule fence_over [OF jobs2]) (simp_all add: same)
  then obtain d3 where S3: "SchedulerRepository_Save cx ?k ?w2 = (Inr (), ?w2\<lparr>w_db := d3\<rparr>)"
    and d3: "scheduled (w_db ?w2) (put_row jr_id (row_of ?k) (t_scheduler_jobs (w_db ?w2))) d3"
    using Save_calm [OF r2 settled_storable [OF dv fit]] by blast
  have w3: "?w2\<lparr>w_db := d3\<rparr> = w\<lparr>w_db := d3, w_http := rest, w_outbox := w_outbox w @ [delivery_request ep p]\<rparr>"
    using out by (simp add: after_sending_def)
  have effect: "settles 2 (w_db w) (business_now w) j p out d3"
  proof -
    have "t_scheduler_jobs d3 = put_row jr_id (row_of ?k) (t_scheduler_jobs (w_db w))"
      using d3 by (simp add: scheduled_def jobs2 put_row_put_row same)
    moreover have "rest_of d3 = rest_of (w_db w)"
      using rest_of_other [of d3 "w_db ?w2"] rest_of_other [of d1 "w_db w"] d1 d3
      by (simp add: scheduled_def after_sending_def) (simp add: rest_of_def)
    ultimately show ?thesis
      using d1 d3 o1 other_tablesD(2) [of d3 "w_db ?w2"]
      by (simp add: settles_def scheduled_def after_sending_def)
  qed
  \<comment> \<open>what the worker does with the result\<close>
  have few': "j_attempts j < 3" and pend: "j_status j = JobPending" and ty: "j_jobType j = DeliveryJobType"
    and pos: "0 < business_now w" using dv fit by (simp_all add: deliverable_def times_fit_def)
  note outcome = settled_by_attempt [OF few' retry_time(1) [OF fit few'] pos pend]
  have ex: "Worker_Execute (runtime_worker net) cx (Some ?l) w =
      ((case delivery_error out of None \<Rightarrow> Inr () | Some err \<Rightarrow> Inl (Joined [err])), ?w2\<lparr>w_db := d3\<rparr>)"
  proof (cases "delivery_error out")
    case None
    then have ok: "delivered out" by (simp add: delivery_error_None)
    have "Job_Complete ?s = Inr ?k"
      using outcome(1) [of True owner e] outcome(2) [of owner e] leased_starts [of owner e j] ok by (simp add: attempt_outcome_def)
    then show ?thesis
      using outcome(2) [of owner e] leased_starts [of owner e j] S1 H S3 None ty same(8)
      by (simp add: Worker_Execute_def runtime_worker_def bindP_apply DeliveryJobType_def)
  next
    case (Some err)
    then have bad: "\<not> delivered out" by (metis delivery_error_None option.distinct(1))
    obtain m dec where m: "Job_Fail ?s = Inr m" and dec: "?decide (j_attempts m) = Inr dec"
      and k: "(if rd_Retry dec then Job_ScheduleRetry (time_Add (business_now w) (rd_RetryAfter dec)) m
               else Job_Exhaust m) = Inr ?k"
      using outcome(1) [of False owner e] outcome(2) [of owner e] leased_starts [of owner e j] bad
      by (auto simp: attempt_outcome_def bindR_Inr_iff)
    have now2: "business_now ?w2 = business_now w" by (simp add: business_now_def after_sending_def)
    have "persistFailure (runtime_worker net) cx ?s err ?w2 = (Inl (Joined [err]), ?w2\<lparr>w_db := d3\<rparr>)"
      using m dec k S3 now2
      by (simp add: persistFailure_def runtime_worker_def save_and_report_def bindP_apply split: if_splits)
    then show ?thesis
      using outcome(2) [of owner e] leased_starts [of owner e j] S1 H Some ty same(8)
      by (simp add: Worker_Execute_def runtime_worker_def bindP_apply DeliveryJobType_def)
  qed
  with w3 effect show ?thesis by auto
qed


section \<open>One turn of the tick\<close>

definition delivery_scheduler :: "net_library \<Rightarrow> (world, job) scheduler" where
  "delivery_scheduler net =
     runtime_scheduler (runtimeDispatcher_Dispatch (runtime_worker net)) ''runtime'' 100 time_Minute"

text \<open>The end of a lease that the scheduler takes at an instant of the wall clock.\<close>

abbreviation lease_end :: "time \<Rightarrow> time" where
  "lease_end wall \<equiv> time_Add wall time_Minute"

lemma turn_settles:
  assumes rel: "reliable (Suc (Suc (Suc (Suc n)))) w" and dv: "deliverable (w_db w) j"
    and fit: "times_fit (business_now w) (lease_end wall)"
    and row: "find_job (j_id j) (w_db w) = Some (row_of j)"
    and dl: "delivery_of net (w_db w) j = Some (ep, p)" and out: "w_http w = out # rest"
  shows "\<exists>d. tick_job (delivery_scheduler net) cx wall (Some j) w =
      (Inr (map_option (\<lambda>err. Joined [err]) (delivery_error out)),
       w\<lparr>w_db := d, w_http := rest, w_outbox := w_outbox w @ [delivery_request ep p]\<rparr>) \<and>
     settles 3 (w_db w) (business_now w) j p out d"
proof -
  let ?e = "lease_end wall" and ?o = "''runtime''"
  let ?l = "leased_job ?o ?e j"
  have e: "?e \<noteq> 0" and g: "uint (j_leaseGeneration j) + 1 < 2 ^ 63" and pend: "j_status j = JobPending"
    using fit dv deliverable_few(3) [OF dv] by (simp_all add: times_fit_def deliverable_def)
  have lr: "leased_row ?o ?e (row_of j) = row_of ?l" by (rule leased_row_row_of [OF g e])
  have "job_scan (row_of ?l) = Inr ?l"
    using leased_wf [OF dv fit, of ?o] leased_storable(1) [OF dv fit] by (simp add: job_scan_row_of)
  then obtain d1 where A: "SchedulerRepository_Acquire cx (j_id j) ?o ?e wall w = (Inr ?l, w\<lparr>w_db := d1\<rparr>)"
    and d1: "scheduled (w_db w) (put_row jr_id (row_of ?l) (t_scheduler_jobs (w_db w))) d1"
    using Acquire_calm [OF rel row, of wall ?o ?e ?l cx] leased_storable(1) [OF dv fit] pend lr
    by (auto simp: acquirable_def)
  let ?w1 = "w\<lparr>w_db := d1\<rparr>"
  note o1 = other_tablesD [of d1 "w_db w"]
  have now1: "business_now ?w1 = business_now w" by (simp add: business_now_def)
  have r1: "reliable (Suc (Suc (Suc n))) ?w1" using rel d1 by (simp add: reliable_def scheduled_def)
  have dl1: "delivery_of net (w_db ?w1) j = Some (ep, p)"
    using dl d1 o1 by (simp add: scheduled_def delivery_of_endpoints [of d1 "w_db w"])
  obtain d2 where W: "Worker_Execute (runtime_worker net) cx (Some ?l) ?w1 =
      ((case delivery_error out of None \<Rightarrow> Inr () | Some err \<Rightarrow> Inl (Joined [err])),
       ?w1\<lparr>w_db := d2, w_http := rest, w_outbox := w_outbox w @ [delivery_request ep p]\<rparr>)"
    and d2: "settles 2 d1 (business_now w) j p out d2"
    using worker_settles [OF r1 dv, where e = ?e and owner = ?o and rows = "t_scheduler_jobs (w_db w)"
        and net = net and ep = ep and p = p and out = out and rest = rest and cx = cx] fit d1 o1 dl1 out now1
    by (auto simp: scheduled_def)
  have "settles 3 (w_db w) (business_now w) j p out d2"
    using d2 d1 o1 rest_of_other [of d1 "w_db w"]
    by (simp add: settles_def scheduled_def put_row_put_row settled_def leased_job_def ac_simps)
  moreover have "tick_job (delivery_scheduler net) cx wall (Some j) w =
      (Inr (map_option (\<lambda>err. Joined [err]) (delivery_error out)),
       w\<lparr>w_db := d2, w_http := rest, w_outbox := w_outbox w @ [delivery_request ep p]\<rparr>)"
    using A W
    by (simp add: tick_job_def delivery_scheduler_def runtime_scheduler_def sqlite_jobs_def bindP_apply
        runtimeDispatcher_Dispatch_def split: option.splits)
  ultimately show ?thesis by blast
qed

section \<open>A whole tick\<close>

text \<open>
  A due job with the endpoint and payload it goes to and the outcome that the HTTP client will give.
\<close>

type_synonym due = "job \<times> (endpoint \<times> delivery_payload) \<times> http_outcome"

fun due_request :: "due \<Rightarrow> http_request" where
  "due_request (j, (e, p), out) = delivery_request e p"

fun due_error :: "due \<Rightarrow> error option" where
  "due_error (j, s, out) = map_option (\<lambda>err. Joined [err]) (delivery_error out)"

text \<open>The audit rows of the deliveries; each delivery draws four sequence values, the third for its marker.\<close>

fun attempt_rows :: "int \<Rightarrow> due list \<Rightarrow> delivery_row list" where
  "attempt_rows n [] = []"
| "attempt_rows n ((j, (e, p), out) # xs) = attempt_row j p out (n + 3) # attempt_rows (n + 4) xs"

fun settled_rows :: "time \<Rightarrow> due list \<Rightarrow> job_row list \<Rightarrow> job_row list" where
  "settled_rows now [] rows = rows"
| "settled_rows now ((j, s, out) # xs) rows =
     settled_rows now xs (put_row jr_id (row_of (settled now (delivered out) j)) rows)"

definition due_now :: "net_library \<Rightarrow> db \<Rightarrow> due \<Rightarrow> bool" where
  "due_now net d x \<longleftrightarrow>
     deliverable d (fst x) \<and> delivery_of net d (fst x) = Some (fst (snd x)) \<and>
     find_job (j_id (fst x)) d = Some (row_of (fst x))"

text \<open>Settling one delivery leaves the others due.\<close>

lemma due_after:
  assumes "due_now net d x" and "settles k d now j p out d'" and "j_id (fst x) \<noteq> j_id j"
  shows "due_now net d' x"
proof -
  have a: "t_webhook_delivery_audit d' = t_webhook_delivery_audit d @ [attempt_row j p out (t_runtime_sequence d + k)]"
    and e: "t_webhook_endpoints d' = t_webhook_endpoints d"
    and f: "find_job (j_id (fst x)) d' = find_job (j_id (fst x)) d"
    using assms(2,3) rest_of_endpoints [of d' d] by (simp_all add: settles_def find_job_def settled_def)
  have "deliverable d' (fst x) = deliverable d (fst x)"
    using assms(3) by (auto simp: deliverable_def a attempt_row_def)
  with assms(1) e f show ?thesis by (simp add: due_now_def delivery_of_endpoints [of d' d])
qed

lemma turns_settle:
  assumes "reliable (4 * length xs) w" and "distinct (map (\<lambda>x. j_id (fst x)) xs)"
    and "\<And>x. x \<in> set xs \<Longrightarrow> due_now net (w_db w) x"
    and "times_fit (business_now w) (lease_end wall)"
    and "take (length xs) (w_http w) = map (\<lambda>x. snd (snd x)) xs"
  shows "\<exists>d. mapP (tick_job (delivery_scheduler net) cx wall) (map (\<lambda>x. Some (fst x)) xs) w =
      (Inr (map due_error xs),
       w\<lparr>w_db := d, w_http := drop (length xs) (w_http w), w_outbox := w_outbox w @ map due_request xs\<rparr>) \<and>
     t_scheduler_jobs d = settled_rows (business_now w) xs (t_scheduler_jobs (w_db w)) \<and>
     t_webhook_delivery_audit d =
       t_webhook_delivery_audit (w_db w) @ attempt_rows (t_runtime_sequence (w_db w)) xs \<and>
     t_runtime_sequence d = t_runtime_sequence (w_db w) + 4 * int (length xs) \<and>
     rest_of d = rest_of (w_db w)"
  using assms
proof (induction xs arbitrary: w)
  case Nil
  show ?case by (intro exI [of _ "w_db w"]) simp
next
  case (Cons x xs)
  obtain j ep p out where x: "x = (j, (ep, p), out)" by (metis prod.exhaust)
  from Cons.prems(5) x obtain rest where out: "w_http w = out # rest" and rest: "take (length xs) rest = map (\<lambda>x. snd (snd x)) xs"
    by (cases "w_http w") auto
  have due: "deliverable (w_db w) j" "delivery_of net (w_db w) j = Some (ep, p)"
      "find_job (j_id j) (w_db w) = Some (row_of j)"
    using Cons.prems(3) [of x] x by (simp_all add: due_now_def)
  have "reliable (Suc (Suc (Suc (Suc (4 * length xs))))) w" using Cons.prems(1) by (simp add: reliable_def)
  from turn_settles [OF this due(1) Cons.prems(4) due(3,2) out, of cx] obtain d where
    t: "tick_job (delivery_scheduler net) cx wall (Some j) w = (Inr (due_error x),
        w\<lparr>w_db := d, w_http := rest, w_outbox := w_outbox w @ [due_request x]\<rparr>)"
    and s: "settles 3 (w_db w) (business_now w) j p out d" by (auto simp: x)
  let ?w = "w\<lparr>w_db := d, w_http := rest, w_outbox := w_outbox w @ [due_request x]\<rparr>"
  have now: "business_now ?w = business_now w" by (simp add: business_now_def)
  have sq: "t_runtime_sequence d = t_runtime_sequence (w_db w) + 4" using s by (simp add: settles_def)
  have rel: "reliable (4 * length xs) ?w" using Cons.prems(1) sq by (simp add: reliable_def)
  have ids: "j_id (fst y) \<noteq> j_id j" if "y \<in> set xs" for y
    using Cons.prems(2) that by (force simp: x)
  have due': "due_now net (w_db ?w) y" if "y \<in> set xs" for y
    using due_after [OF Cons.prems(3) s ids] that by simp
  have dist: "distinct (map (\<lambda>x. j_id (fst x)) xs)" and fit: "times_fit (business_now ?w) (lease_end wall)"
    and rest': "take (length xs) (w_http ?w) = map (\<lambda>x. snd (snd x)) xs"
    using Cons.prems(2,4) rest now by (simp_all add: comp_def)
  from Cons.IH [OF rel dist due' fit rest'] obtain d' where
    m: "mapP (tick_job (delivery_scheduler net) cx wall) (map (\<lambda>x. Some (fst x)) xs) ?w =
      (Inr (map due_error xs),
       ?w\<lparr>w_db := d', w_http := drop (length xs) rest, w_outbox := w_outbox ?w @ map due_request xs\<rparr>)"
    and e: "t_scheduler_jobs d' = settled_rows (business_now w) xs (t_scheduler_jobs d)"
      "t_webhook_delivery_audit d' = t_webhook_delivery_audit d @ attempt_rows (t_runtime_sequence d) xs"
      "t_runtime_sequence d' = t_runtime_sequence d + 4 * int (length xs)"
      "rest_of d' = rest_of d" unfolding now by auto
  have "mapP (tick_job (delivery_scheduler net) cx wall) (map (\<lambda>x. Some (fst x)) (x # xs)) w =
      (Inr (map due_error (x # xs)),
       w\<lparr>w_db := d', w_http := drop (length (x # xs)) (w_http w),
         w_outbox := w_outbox w @ map due_request (x # xs)\<rparr>)"
    using t m out by (simp add: x bindP_apply)
  moreover have "t_scheduler_jobs d' = settled_rows (business_now w) (x # xs) (t_scheduler_jobs (w_db w))"
    and "t_webhook_delivery_audit d' =
      t_webhook_delivery_audit (w_db w) @ attempt_rows (t_runtime_sequence (w_db w)) (x # xs)"
    and "t_runtime_sequence d' = t_runtime_sequence (w_db w) + 4 * int (length (x # xs))"
    and "rest_of d' = rest_of (w_db w)"
    using s e sq by (simp_all add: x settles_def)
  ultimately show ?case by blast
qed


lemma settled_rows_other:
  "i \<notin> (\<lambda>x. j_id (fst x)) ` set xs \<Longrightarrow> row_at jr_id i (settled_rows now xs rows) = row_at jr_id i rows"
  by (induction now xs rows rule: settled_rows.induct) (auto simp: settled_def)

lemma settled_rows_nth:
  assumes "distinct (map (\<lambda>x. j_id (fst x)) xs)" and "x \<in> set xs"
  shows "row_at jr_id (j_id (fst x)) (settled_rows now xs rows) =
    Some (row_of (settled now (delivered (snd (snd x))) (fst x)))"
  using assms
proof (induction xs arbitrary: rows)
  case (Cons y ys)
  obtain j s out where y: "y = (j, s, out)" by (metis prod.exhaust)
  show ?case
  proof (cases "x = y")
    case True
    then have "j_id j \<notin> (\<lambda>x. j_id (fst x)) ` set ys" using Cons.prems(1) y by auto
    then show ?thesis using True y by (simp add: settled_rows_other) (simp add: settled_def)
  next
    case False
    with Cons show ?thesis by (simp add: y)
  qed
qed simp

lemma settled_rows_keys:
  "(\<lambda>x. j_id (fst x)) ` set xs \<subseteq> jr_id ` set rows \<Longrightarrow>
     map jr_id (settled_rows now xs rows) = map jr_id rows"
proof (induction now xs rows rule: settled_rows.induct)
  case (2 now j s out xs rows)
  have "map jr_id (put_row jr_id (row_of (settled now (delivered out) j)) rows) = map jr_id rows"
    using 2(2) by (simp add: keys_put_row settled_def)
  moreover from arg_cong [OF this, of set]
  have "jr_id ` set (put_row jr_id (row_of (settled now (delivered out) j)) rows) = jr_id ` set rows" by simp
  ultimately show ?case using 2 by simp
qed simp

lemma attempt_rows_nth:
  "attempt_rows n xs =
     map (\<lambda>i. case xs ! i of (j, (e, p), out) \<Rightarrow> attempt_row j p out (n + 4 * int i + 3)) [0..<length xs]"
proof (induction n xs rule: attempt_rows.induct)
  case (2 n j e p out xs)
  have "[0..<length ((j, (e, p), out) # xs)] = 0 # map Suc [0..<length xs]"
    by (simp add: map_Suc_upt upt_conv_Cons del: upt_Suc)
  then show ?case by (simp add: 2 comp_def algebra_simps split: prod.split)
qed simp

lemma scan_rows_of: "(\<And>j. j \<in> set js \<Longrightarrow> job_wf j \<and> job_storable j) \<Longrightarrow> scan_jobs (map row_of js) = Inr js"
  by (induction js) (auto simp: job_scan_row_of)

lemma executable_rows_distinct:
  assumes "keys_distinct jr_id (t_scheduler_jobs d)"
  shows "keys_distinct jr_id (executable_rows at limit d)"
proof -
  from assms have "inj_on jr_id (set (t_scheduler_jobs d))" and "distinct (t_scheduler_jobs d)"
    by (simp_all add: distinct_map)
  then have "distinct (executable_rows at limit d)"
    by (simp add: executable_rows_def limit_rows_def)
  moreover have "set (executable_rows at limit d) \<subseteq> set (t_scheduler_jobs d)"
    using executable_rows_facts(1) [of at limit d] by auto
  ultimately show ?thesis
    using \<open>inj_on jr_id _\<close> by (auto simp: distinct_map intro: inj_on_subset)
qed

text \<open>
  The tick of the program, when everything that is due is a delivery that can be made and nothing fails.
\<close>

lemma tick_delivers:
  assumes "reliable (4 * length js) w" and "keys_distinct jr_id (t_scheduler_jobs (w_db w))"
    and due: "executable_rows (business_now w) 100 (w_db w) = map row_of js"
    and dv: "\<And>j. j \<in> set js \<Longrightarrow> deliverable (w_db w) j"
    and sends: "map (delivery_of net (w_db w)) js = map Some sends"
    and "times_fit (business_now w) (lease_end (w_wall w))"
    and "length js \<le> length (w_http w)"
  shows "\<exists>d. Scheduler_Tick (delivery_scheduler net) cx w =
      ((if \<forall>out \<in> set (take (length js) (w_http w)). delivered out then Inr ()
        else Inl (the (errors_Join (map (\<lambda>out. map_option (\<lambda>err. Joined [err]) (delivery_error out))
                    (take (length js) (w_http w)))))),
       w\<lparr>w_db := d, w_http := drop (length js) (w_http w),
         w_outbox := w_outbox w @ map (\<lambda>(e, p). delivery_request e p) sends\<rparr>) \<and>
     (\<forall>i < length js. find_job (j_id (js ! i)) d =
        Some (row_of (settled (business_now w) (delivered (w_http w ! i)) (js ! i)))) \<and>
     (\<forall>i. i \<notin> j_id ` set js \<longrightarrow> find_job i d = find_job i (w_db w)) \<and>
     map jr_id (t_scheduler_jobs d) = map jr_id (t_scheduler_jobs (w_db w)) \<and>
     t_webhook_delivery_audit d = t_webhook_delivery_audit (w_db w) @
       map (\<lambda>i. attempt_row (js ! i) (snd (sends ! i)) (w_http w ! i)
                 (t_runtime_sequence (w_db w) + 4 * int i + 3)) [0..<length js] \<and>
     t_runtime_sequence d = t_runtime_sequence (w_db w) + 4 * int (length js) \<and>
     rest_of d = rest_of (w_db w)"
proof -
  let ?n = "length js"
  define outs where "outs = take ?n (w_http w)"
  define xs where "xs = zip js (zip sends outs)"
  have ls: "length sends = ?n" using arg_cong [OF sends, of length] by simp
  have lo: "length outs = ?n" using assms(7) by (simp add: outs_def)
  have proj: "map fst xs = js" "map (\<lambda>x. fst (snd x)) xs = sends" "map (\<lambda>x. snd (snd x)) xs = outs"
    using ls lo by (simp_all add: xs_def map_fst_zip map_snd_zip flip: map_map [unfolded comp_def])
  have len: "length xs = ?n" using ls lo by (simp add: xs_def)
  have nth: "xs ! i = (js ! i, sends ! i, w_http w ! i)" if "i < ?n" for i
    using that ls lo by (simp add: xs_def) (simp add: outs_def)
  have rows: "set (map row_of js) \<subseteq> set (t_scheduler_jobs (w_db w))"
    using executable_rows_facts(1) [of "business_now w" 100 "w_db w"] due by auto
  have found: "find_job (j_id j) (w_db w) = Some (row_of j)" if "j \<in> set js" for j
    using row_at_unique [OF assms(2), of "row_of j"] rows that by (auto simp: find_job_def)
  have ids: "distinct (map j_id js)"
    using executable_rows_distinct [OF assms(2), of "business_now w" 100] by (simp add: due comp_def)
  have due_xs: "due_now net (w_db w) x" if "x \<in> set xs" for x
  proof -
    from that len obtain i where i: "i < ?n" and x: "x = xs ! i" by (metis in_set_conv_nth)
    have "delivery_of net (w_db w) (js ! i) = Some (sends ! i)"
      using i ls arg_cong [OF sends, of "\<lambda>l. l ! i"] by simp
    with i dv found show ?thesis by (simp add: x nth due_now_def)
  qed
  have "reliable (4 * length xs) w" and "distinct (map (\<lambda>x. j_id (fst x)) xs)"
    and "take (length xs) (w_http w) = map (\<lambda>x. snd (snd x)) xs"
    using assms(1) ids arg_cong [OF proj(1), of "map j_id"] by (simp_all add: len proj(3) comp_def) (simp add: outs_def)
  from turns_settle [OF this(1,2) due_xs assms(6) this(3), of cx] obtain d where
    m: "mapP (tick_job (delivery_scheduler net) cx (w_wall w)) (map (\<lambda>x. Some (fst x)) xs) w =
      (Inr (map due_error xs),
       w\<lparr>w_db := d, w_http := drop ?n (w_http w), w_outbox := w_outbox w @ map due_request xs\<rparr>)"
    and jobs: "t_scheduler_jobs d = settled_rows (business_now w) xs (t_scheduler_jobs (w_db w))"
    and audit: "t_webhook_delivery_audit d =
       t_webhook_delivery_audit (w_db w) @ attempt_rows (t_runtime_sequence (w_db w)) xs"
    and sq: "t_runtime_sequence d = t_runtime_sequence (w_db w) + 4 * int (length js)"
    and rst: "rest_of d = rest_of (w_db w)" by (auto simp: len)
  have "scan_jobs (map row_of js) = Inr js"
    by (rule scan_rows_of) (use dv in \<open>simp add: deliverable_def\<close>)
  then have find: "jb_FindExecutable (sc_repository (delivery_scheduler net)) cx (business_now w) 100 w =
      (Inr (map Some js), w)"
    using assms(1) due
    by (simp add: delivery_scheduler_def runtime_scheduler_def sqlite_jobs_def FindExecutable_def bindP_apply reliable_def)
  have reqs: "map due_request xs = map (\<lambda>(e, p). delivery_request e p) sends"
    unfolding proj(2) [symmetric] by (simp add: comp_def) (metis due_request.simps prod.collapse case_prod_conv)
  have errs: "map due_error xs = map (\<lambda>out. map_option (\<lambda>err. Joined [err]) (delivery_error out)) outs"
    unfolding proj(3) [symmetric] by (simp add: comp_def) (metis due_error.simps prod.collapse)
  have none: "errors_Join (map due_error xs) = None \<longleftrightarrow> (\<forall>out \<in> set outs. delivered out)"
    by (auto simp: errors_Join_None_iff errs delivery_error_None)
  have parts: "sc_businessClock (delivery_scheduler net) = business_now"
    "sc_operationalClock (delivery_scheduler net) = w_wall" "sc_batchSize (delivery_scheduler net) = 100"
    by (simp_all add: delivery_scheduler_def runtime_scheduler_def)
  have js: "map Some js = map (\<lambda>x. Some (fst x)) xs" unfolding proj(1) [symmetric] by (simp add: comp_def)
  have tick: "Scheduler_Tick (delivery_scheduler net) cx w =
      ((if \<forall>out \<in> set outs. delivered out then Inr ()
        else Inl (the (errors_Join (map (\<lambda>out. map_option (\<lambda>err. Joined [err]) (delivery_error out)) outs)))),
       w\<lparr>w_db := d, w_http := drop ?n (w_http w),
         w_outbox := w_outbox w @ map (\<lambda>(e, p). delivery_request e p) sends\<rparr>)"
    using find [unfolded js] m none
    by (cases "errors_Join (map due_error xs)")
      (auto simp: Scheduler_Tick_def parts bindP_apply errs reqs)
  have stored: "find_job (j_id (js ! i)) d =
      Some (row_of (settled (business_now w) (delivered (w_http w ! i)) (js ! i)))" if "i < ?n" for i
  proof -
    have "xs ! i \<in> set xs" using that len by simp
    from settled_rows_nth [OF \<open>distinct (map (\<lambda>x. j_id (fst x)) xs)\<close> this] that show ?thesis
      by (simp add: find_job_def jobs nth)
  qed
  have others: "find_job i d = find_job i (w_db w)" if "i \<notin> j_id ` set js" for i
  proof -
    have "i \<notin> (\<lambda>x. j_id (fst x)) ` set xs" using that unfolding proj(1) [symmetric] by auto
    then show ?thesis by (simp add: find_job_def jobs settled_rows_other)
  qed
  have keys: "map jr_id (t_scheduler_jobs d) = map jr_id (t_scheduler_jobs (w_db w))"
    unfolding jobs
  proof (rule settled_rows_keys)
    have "(\<lambda>x. j_id (fst x)) ` set xs = jr_id ` set (map row_of js)"
      unfolding proj(1) [symmetric] by force
    then show "(\<lambda>x. j_id (fst x)) ` set xs \<subseteq> jr_id ` set (t_scheduler_jobs (w_db w))" using rows by auto
  qed
  have "attempt_rows (t_runtime_sequence (w_db w)) xs =
      map (\<lambda>i. attempt_row (js ! i) (snd (sends ! i)) (w_http w ! i)
                 (t_runtime_sequence (w_db w) + 4 * int i + 3)) [0..<length js]"
    unfolding attempt_rows_nth len by (intro map_cong refl) (simp add: nth split: prod.split)
  with audit have audit': "t_webhook_delivery_audit d = t_webhook_delivery_audit (w_db w) @
      map (\<lambda>i. attempt_row (js ! i) (snd (sends ! i)) (w_http w ! i)
                 (t_runtime_sequence (w_db w) + 4 * int i + 3)) [0..<length js]" by simp
  show ?thesis
    by (intro exI [of _ d] conjI allI impI tick [unfolded outs_def] stored others keys audit' sq rst)
qed


lemma settled_wf:
  assumes "deliverable d j" and "times_fit now e"
  shows "job_wf (settled now ok j)"
proof -
  have "0 < now + 30 * second * 2 ^ unat (j_attempts j)"
    using assms(2) second_pos by (intro pos_add_strict) (simp_all add: times_fit_def)
  then show ?thesis using assms(1) by (auto simp: deliverable_def job_wf_def settled_def)
qed

section \<open>Properties\<close>



text \<open>A world with one endpoint and two deliveries to it: the last attempt of one, the first of another.\<close>

definition delivery_job :: "string \<Rightarrow> uint64 \<Rightarrow> job" where
  "delivery_job i attempts =
     \<lparr>j_id = i, j_jobType = DeliveryJobType, j_payload = Marshal_delivery sample_delivery, j_scheduledAt = 1,
      j_nextAttemptAt = 1, j_status = JobPending, j_leaseOwner = [], j_leaseExpiresAt = 0,
      j_leaseGeneration = attempts, j_attempts = attempts, j_aggregateID = ''p1'', j_causationID = ''k''\<rparr>"

definition two_deliveries :: world where
  "two_deliveries = endpoint_world\<lparr>w_db := (w_db endpoint_world)\<lparr>t_scheduler_jobs :=
       [row_of (delivery_job ''d2'' 0), row_of (delivery_job ''d1'' 2)]\<rparr>,
     w_http := [HttpResponse 500 True, HttpResponse 200 True]\<rparr>"

definition plain_libraries :: libraries where
  "plain_libraries = sample_libraries\<lparr>lib_net := any_net\<rparr>"


end
