(* ===== verification/Delivery_Rounds.thy ===== *)
theory Delivery_Rounds
  imports Delivery_Run
begin

text \<open>
  Deliveries come to an end: rounds in which the virtual clock is advanced
  (\<open>internal/administration/application/time.go\<close>) and the scheduler ticks. Whatever the endpoints
  answer, three rounds that advance by a minute or more complete or exhaust every delivery that waits,
  with at most three requests for each.
\<close>

section \<open>A round\<close>

definition advance_and_tick :: "(world, job) scheduler \<Rightarrow> ctx \<Rightarrow> duration \<Rightarrow> world \<Rightarrow> world" where
  "advance_and_tick sc cx by w = snd (Scheduler_Tick sc cx (snd (Database.advance_time by w)))"

text \<open>A row whose delivery is over, and a row that waits, with at least \<open>k\<close> attempts made.\<close>

definition is_over :: "job_row \<Rightarrow> bool" where
  "is_over r \<longleftrightarrow> jr_status r = JobCompleted \<or> jr_status r = JobExhausted"

definition waiting :: "net_library \<Rightarrow> db \<Rightarrow> time \<Rightarrow> nat \<Rightarrow> job \<Rightarrow> bool" where
  "waiting net d now k j \<longleftrightarrow>
     deliverable d j \<and> delivery_of net d j \<noteq> None \<and> k \<le> unat (j_attempts j) \<and>
     j_nextAttemptAt j \<le> now + minute"

text \<open>Whether the audit has a successful attempt of a job.\<close>

definition succeeded :: "db \<Rightarrow> string \<Rightarrow> bool" where
  "succeeded d i \<longleftrightarrow>
     (\<exists>a \<in> set (t_webhook_delivery_audit d).
        dr_job_id a = i \<and> dr_outcome a = delivery_text DeliverySucceeded)"

definition delivering :: "net_library \<Rightarrow> nat \<Rightarrow> time \<Rightarrow> db \<Rightarrow> bool" where
  "delivering net k now d \<longleftrightarrow>
     keys_distinct jr_id (t_scheduler_jobs d) \<and>
     (\<forall>r \<in> set (t_scheduler_jobs d).
        (is_over r \<or> (\<exists>j. r = row_of j \<and> waiting net d now k j)) \<and>
        (jr_status r = JobCompleted \<longleftrightarrow> succeeded d (jr_id r)))"

lemma advance_calm:
  assumes "w_faults w = []" and "0 < sint by" and "times_fit (business_now w + sint by) e"
  shows "\<exists>rows. Database.advance_time by w =
    (Inr (business_now w + sint by),
     w\<lparr>w_db := (w_db w)\<lparr>t_runtime_state := rows\<rparr>,
       w_clock := (w_clock w)\<lparr>pc_current := business_now w + sint by\<rparr>\<rparr>)"
proof -
  let ?u = "business_now w + sint by"
  have u: "0 < ?u" "?u + minute < 3652059 * 86400 * second"
    using assms(3) by (simp_all add: times_fit_def time_in_range_def)
  have "0 \<le> ?u div second" using u(1) by (simp add: pos_imp_zdiv_nonneg_iff)
  moreover have "?u div second \<le> (3652059 * 86400 * second) div second"
    using u(2) by (intro zdiv_mono1) (simp_all add: minute_def second_def)
  ultimately have "time_Add (pc_current (w_clock w)) by = ?u"
    by (simp add: time_Add_exact business_now_def max_seconds_def second_def)
  then show ?thesis
    using assms(1,2)
    by (simp add: Database.advance_time_def TimeAdvancer_Execute_def PersistentVirtualClock_Advance_def
        RuntimeStateStore_def RuntimeStateStore_Save_def bindP_apply Let_def business_now_def) blast
qed

lemma ex_rows_of: "(\<And>r. r \<in> set rows \<Longrightarrow> \<exists>j. r = row_of j \<and> P j) \<Longrightarrow>
    \<exists>js. rows = map row_of js \<and> (\<forall>j \<in> set js. P j)"
proof (induction rows)
  case (Cons r rows)
  then obtain j js where "r = row_of j" and "P j" and "rows = map row_of js" and "\<forall>j \<in> set js. P j" by force
  then show ?case by (intro exI [of _ "j # js"]) simp
qed simp

lemma row_of_inj:
  assumes "row_of i = row_of j"
  shows "j_id i = j_id j"
  using arg_cong [OF assms, of jr_id] by simp

text \<open>A waiting job is due once the clock has been advanced by a minute.\<close>

lemma waiting_executable:
  "waiting net d now k j \<Longrightarrow> now + minute \<le> at \<Longrightarrow> executable at (row_of j)"
  by (simp add: waiting_def deliverable_def executable_def)

lemma over_not_executable: "is_over r \<Longrightarrow> \<not> executable at r"
  by (auto simp: is_over_def executable_def)

text \<open>A retry waits again.\<close>

lemma settled_waiting:
  assumes w: "waiting net d now0 k j" and fit: "times_fit now e" and bad: "j_status (settled now ok j) = JobPending"
    and audit: "t_webhook_delivery_audit d' = t_webhook_delivery_audit d @ rows"
    and rows: "\<And>a. a \<in> set rows \<Longrightarrow> dr_job_id a = j_id j \<Longrightarrow> dr_attempt a = uint (j_attempts j) + 1"
    and ep: "t_webhook_endpoints d' = t_webhook_endpoints d"
  shows "waiting net d' now (Suc k) (settled now ok j)"
proof -
  let ?k = "settled now ok j"
  have dv: "deliverable d j" using w by (simp add: waiting_def)
  note few = deliverable_few [OF dv]
  have more: "\<not> ok" "j_attempts j + 1 < 3" using bad by (auto simp: settled_def split: if_splits)
  have inc: "uint (j_attempts j + 1) = uint (j_attempts j) + 1"
    and inc': "uint (j_leaseGeneration j + 1) = uint (j_leaseGeneration j) + 1"
    using few by (simp_all add: uint_inc)
  then have un: "unat (j_attempts j + 1) = unat (j_attempts j) + 1" by (metis (full_types) nat_int of_nat_1 of_nat_add uint_nat)
  have few': "uint (j_attempts j) < 2" using more(2) inc by (simp add: word_less_def)
  have "deliverable d' ?k"
  proof -
    have "dr_attempt a \<le> uint (j_attempts j) + 1"
      if "a \<in> set (t_webhook_delivery_audit d')" and "dr_job_id a = j_id j" for a
      using that dv rows by (fastforce simp: audit deliverable_def)
    moreover have "uint (j_leaseGeneration j) + 3 < 2 ^ 63 + uint (j_attempts j)"
      and "j_jobType j = DeliveryJobType" using dv by (simp_all add: deliverable_def)
    moreover have "j_id ?k = j_id j" and "j_jobType ?k = j_jobType j"
      and "j_attempts ?k = j_attempts j + 1" and "j_leaseGeneration ?k = j_leaseGeneration j + 1"
      by (simp_all add: settled_def)
    ultimately show ?thesis
      using settled_wf [OF dv fit] settled_storable [OF dv fit] bad more inc inc'
      unfolding deliverable_def by simp
  qed
  moreover have "delivery_of net d' ?k \<noteq> None"
  proof -
    have "delivery_of net d' ?k = delivery_of net d j"
      using ep by (simp add: delivery_of_def settled_def split: sum.split)
    with w show ?thesis by (simp add: waiting_def)
  qed
  moreover have "j_nextAttemptAt ?k \<le> now + minute"
  proof -
    have "unat (j_attempts j) < 2" using few' by (metis nat_int of_nat_less_iff of_nat_numeral uint_nat)
    then have "(2 :: int) ^ unat (j_attempts j) \<le> 2"
      using power_increasing [of "unat (j_attempts j)" 1 "2 :: int"] by simp
    then show ?thesis using more by (simp add: settled_def minute_def second_def)
  qed
  ultimately show ?thesis using w un by (simp add: waiting_def settled_def)
qed


section \<open>What a round does\<close>

lemma waiting_cong:
  assumes "t_webhook_delivery_audit d' = t_webhook_delivery_audit d"
    and "t_webhook_endpoints d' = t_webhook_endpoints d"
  shows "waiting net d' now k j = waiting net d now k j"
  using assms delivery_of_endpoints [of d' d] by (simp add: waiting_def deliverable_def)

lemma round_delivers:
  assumes inv: "delivering net k (business_now w) (w_db w)"
    and rel: "reliable (4 * length (t_scheduler_jobs (w_db w)) + n) w"
    and few: "length (t_scheduler_jobs (w_db w)) \<le> 100"
      "length (t_scheduler_jobs (w_db w)) \<le> length (w_http w)"
    and big: "minute \<le> sint by" and fit: "times_fit (business_now w + sint by) (lease_end (w_wall w))"
    and w': "w' = advance_and_tick (delivery_scheduler net) cx by w"
  shows "delivering net (Suc k) (business_now w') (w_db w')" and "reliable n w'"
    and "map jr_id (t_scheduler_jobs (w_db w')) = map jr_id (t_scheduler_jobs (w_db w))"
    and "business_now w' = business_now w + sint by" and "w_wall w' = w_wall w"
    and "\<exists>m \<le> length (t_scheduler_jobs (w_db w)). w_http w' = drop m (w_http w) \<and>
           length (w_outbox w') = length (w_outbox w) + m"
proof -
  have f: "w_faults w = []" using rel by (simp add: reliable_def)
  have pos: "0 < sint by" using big by (simp add: minute_def second_def)
  obtain st where adv: "Database.advance_time by w = (Inr (business_now w + sint by),
      w\<lparr>w_db := (w_db w)\<lparr>t_runtime_state := st\<rparr>,
        w_clock := (w_clock w)\<lparr>pc_current := business_now w + sint by\<rparr>\<rparr>)"
    using advance_calm [OF f pos fit] by blast
  let ?v = "w\<lparr>w_db := (w_db w)\<lparr>t_runtime_state := st\<rparr>,
        w_clock := (w_clock w)\<lparr>pc_current := business_now w + sint by\<rparr>\<rparr>"
  let ?now = "business_now w + sint by"
  have nv: "business_now ?v = ?now" by (simp add: business_now_def)
  have keys: "keys_distinct jr_id (t_scheduler_jobs (w_db ?v))" using inv by (simp add: delivering_def)
  let ?due = "executable_rows (business_now ?v) 100 (w_db ?v)"
  have due_set: "set ?due = {r \<in> set (t_scheduler_jobs (w_db w)). executable ?now r}"
    using executable_rows_facts(4) [of ?now "w_db ?v" 100] few(1) length_filter_le [of "executable ?now" "t_scheduler_jobs (w_db w)"]
    by (simp add: nv)
  have "\<exists>js. ?due = map row_of js \<and> (\<forall>j \<in> set js. waiting net (w_db w) (business_now w) k j)"
  proof (rule ex_rows_of)
    fix r assume "r \<in> set ?due"
    then have "r \<in> set (t_scheduler_jobs (w_db w))" and "executable ?now r" using due_set by auto
    with inv over_not_executable show "\<exists>j. r = row_of j \<and> waiting net (w_db w) (business_now w) k j"
      unfolding delivering_def by blast
  qed
  then obtain js where due: "?due = map row_of js"
    and wait: "\<And>j. j \<in> set js \<Longrightarrow> waiting net (w_db w) (business_now w) k j" by blast
  have wait_v: "waiting net (w_db ?v) (business_now w) k j" if "j \<in> set js" for j
    using wait [OF that] waiting_cong [of "w_db ?v" "w_db w"] by simp
  define sends where "sends = map (\<lambda>j. the (delivery_of net (w_db ?v) j)) js"
  have sends: "map (delivery_of net (w_db ?v)) js = map Some sends"
    using wait_v by (auto simp: sends_def waiting_def)
  have len: "length js \<le> length (t_scheduler_jobs (w_db w))"
  proof -
    have "length js = length ?due" by (simp only: due length_map)
    also have "\<dots> \<le> length (filter (executable ?now) (t_scheduler_jobs (w_db w)))"
      by (simp add: executable_rows_def limit_rows_def nv)
    also have "\<dots> \<le> length (t_scheduler_jobs (w_db w))" by (rule length_filter_le)
    finally show ?thesis .
  qed
  have rel': "reliable (4 * length js) ?v" using rel len by (simp add: reliable_def)
  have fit': "times_fit (business_now ?v) (lease_end (w_wall ?v))" using fit nv by simp
  have http: "length js \<le> length (w_http ?v)" using len few(2) by simp
  have dv: "deliverable (w_db ?v) j" if "j \<in> set js" for j using wait_v [OF that] by (simp add: waiting_def)
  obtain d r where tick: "Scheduler_Tick (delivery_scheduler net) cx ?v =
      (r, ?v\<lparr>w_db := d, w_http := drop (length js) (w_http ?v),
         w_outbox := w_outbox ?v @ map (\<lambda>(e, p). delivery_request e p) sends\<rparr>)"
    and stored: "\<And>i. i < length js \<Longrightarrow> find_job (j_id (js ! i)) d =
        Some (row_of (settled ?now (delivered (w_http w ! i)) (js ! i)))"
    and others: "\<And>i. i \<notin> j_id ` set js \<Longrightarrow> find_job i d = find_job i (w_db w)"
    and ids: "map jr_id (t_scheduler_jobs d) = map jr_id (t_scheduler_jobs (w_db w))"
    and audit: "t_webhook_delivery_audit d = t_webhook_delivery_audit (w_db w) @
       map (\<lambda>i. attempt_row (js ! i) (snd (sends ! i)) (w_http w ! i)
                 (t_runtime_sequence (w_db w) + 4 * int i + 3)) [0..<length js]"
    and sq: "t_runtime_sequence d = t_runtime_sequence (w_db w) + 4 * int (length js)"
    and rst: "rest_of d = rest_of (w_db ?v)"
    using tick_delivers [OF rel' keys due dv sends fit' http, of cx]
    by (simp add: nv find_job_def) blast
  have w'_eq: "w' = ?v\<lparr>w_db := d, w_http := drop (length js) (w_http ?v),
         w_outbox := w_outbox ?v @ map (\<lambda>(e, p). delivery_request e p) sends\<rparr>"
    using w' adv tick by (simp add: advance_and_tick_def)
  show "reliable n w'" using rel len sq by (simp add: w'_eq reliable_def)
  show "map jr_id (t_scheduler_jobs (w_db w')) = map jr_id (t_scheduler_jobs (w_db w))" by (simp add: w'_eq ids)
  show now': "business_now w' = ?now" by (simp add: w'_eq business_now_def)
  show "w_wall w' = w_wall w" by (simp add: w'_eq)
  show "\<exists>m \<le> length (t_scheduler_jobs (w_db w)). w_http w' = drop m (w_http w) \<and>
      length (w_outbox w') = length (w_outbox w) + m"
    using len by (intro exI [of _ "length js"]) (simp add: w'_eq sends_def)
  have dist: "distinct (map j_id js)"
    using executable_rows_distinct [OF keys, of "business_now ?v" 100, unfolded due] by (simp add: comp_def)
  have mem: "row_of ` set js = {r \<in> set (t_scheduler_jobs (w_db w)). executable ?now r}"
    using due_set unfolding due by simp
  have eps: "t_webhook_endpoints d = t_webhook_endpoints (w_db w)"
    using rest_of_endpoints [OF rst] by simp
  have keys_d: "keys_distinct jr_id (t_scheduler_jobs d)" using keys by (simp add: ids)
  let ?rows = "map (\<lambda>i. attempt_row (js ! i) (snd (sends ! i)) (w_http w ! i)
                 (t_runtime_sequence (w_db w) + 4 * int i + 3)) [0..<length js]"
  have new_rows: "\<exists>i < length js. a = attempt_row (js ! i) (snd (sends ! i)) (w_http w ! i)
      (t_runtime_sequence (w_db w) + 4 * int i + 3)" if "a \<in> set ?rows" for a
    using that by auto
  have "(is_over r \<or> (\<exists>j. r = row_of j \<and> waiting net d ?now (Suc k) j)) \<and>
      (jr_status r = JobCompleted \<longleftrightarrow> succeeded d (jr_id r))" if r: "r \<in> set (t_scheduler_jobs d)" for r
  proof (cases "jr_id r \<in> j_id ` set js")
    case True
    then obtain i where i: "i < length js" and id: "jr_id r = j_id (js ! i)" by (metis imageE in_set_conv_nth)
    let ?j = "js ! i" and ?ok = "delivered (w_http w ! i)"
    have "find_job (jr_id r) d = Some r" using row_at_unique [OF keys_d r] by (simp add: find_job_def)
    with stored [OF i] id have r_eq: "r = row_of (settled ?now ?ok ?j)" by simp
    have wj: "waiting net (w_db w) (business_now w) k ?j" using wait i by simp
    have only: "i' = i" if "i' < length js" "j_id (js ! i') = j_id ?j" for i'
      using that i dist by (metis distinct_conv_nth length_map nth_map)
    have mine_row: "a = attempt_row ?j (snd (sends ! i)) (w_http w ! i) (t_runtime_sequence (w_db w) + 4 * int i + 3)"
      if a: "a \<in> set ?rows" and aj: "dr_job_id a = j_id ?j" for a
    proof -
      from new_rows [OF a] obtain i' where i': "i' < length js"
        and eq: "a = attempt_row (js ! i') (snd (sends ! i')) (w_http w ! i') (t_runtime_sequence (w_db w) + 4 * int i' + 3)"
        by blast
      have "j_id (js ! i') = j_id ?j" using aj unfolding eq by (simp add: attempt_row_def)
      from only [OF i' this] eq show ?thesis by simp
    qed
    have mine: "dr_attempt a = uint (j_attempts ?j) + 1" if "a \<in> set ?rows" "dr_job_id a = j_id ?j" for a
      by (subst mine_row [OF that]) (simp add: attempt_row_def)
    have "is_over r \<or> waiting net d ?now (Suc k) (settled ?now ?ok ?j)"
    proof (cases "j_status (settled ?now ?ok ?j) = JobPending")
      case True
      then show ?thesis using settled_waiting [OF wj fit True audit mine eps] by simp
    next
      case False
      then show ?thesis by (auto simp: r_eq is_over_def settled_def split: if_splits)
    qed
    moreover have "jr_status r = JobCompleted \<longleftrightarrow> ?ok" by (simp add: r_eq settled_def)
    moreover have "succeeded d (jr_id r) \<longleftrightarrow> ?ok"
    proof -
      have "row_of ?j \<in> set (t_scheduler_jobs (w_db w))" using mem i nth_mem by blast
      moreover have "jr_status (row_of ?j) \<noteq> JobCompleted" using wj by (simp add: waiting_def deliverable_def)
      ultimately have "\<not> succeeded (w_db w) (j_id ?j)"
        using inv unfolding delivering_def by (metis row_of_fields(1))
      then have "succeeded d (jr_id r) \<longleftrightarrow>
          (\<exists>a \<in> set ?rows. dr_job_id a = j_id ?j \<and> dr_outcome a = delivery_text DeliverySucceeded)"
        unfolding succeeded_def audit id by (auto simp del: set_map)
      also have "\<dots> \<longleftrightarrow> ?ok"
      proof
        assume "\<exists>a \<in> set ?rows. dr_job_id a = j_id ?j \<and> dr_outcome a = delivery_text DeliverySucceeded"
        then obtain a where "a \<in> set ?rows" and "dr_job_id a = j_id ?j"
          and succ: "dr_outcome a = delivery_text DeliverySucceeded" by blast
        from mine_row [OF this(1,2)] succ show ?ok by (auto simp: attempt_row_def split: if_splits)
      next
        assume ?ok
        then show "\<exists>a \<in> set ?rows. dr_job_id a = j_id ?j \<and> dr_outcome a = delivery_text DeliverySucceeded"
          using i by (auto simp: attempt_row_def)
      qed
      finally show ?thesis .
    qed
    ultimately show ?thesis using r_eq by blast
  next
    case False
    have "find_job (jr_id r) (w_db w) = Some r"
      using others [OF False] row_at_unique [OF keys_d r] by (simp add: find_job_def)
    then have old: "r \<in> set (t_scheduler_jobs (w_db w))" by (auto simp: find_job_def dest: row_at_SomeD)
    have "is_over r"
    proof (rule ccontr)
      assume "\<not> is_over r"
      with inv old obtain j where "r = row_of j" and "waiting net (w_db w) (business_now w) k j"
        unfolding delivering_def by blast
      with waiting_executable [of net "w_db w" "business_now w" k j ?now] big old
      have "r \<in> row_of ` set js" unfolding mem using \<open>r = row_of j\<close> by auto
      with False show False by auto
    qed
    moreover have "succeeded d (jr_id r) = succeeded (w_db w) (jr_id r)"
    proof -
      have "dr_job_id a \<noteq> jr_id r" if "a \<in> set ?rows" for a
      proof -
        from new_rows [OF that] obtain i where "i < length js" and "dr_job_id a = j_id (js ! i)"
          by (auto simp: attempt_row_def)
        with False show ?thesis by force
      qed
      then show ?thesis unfolding succeeded_def audit set_append by blast
    qed
    ultimately show ?thesis using inv old by (simp add: delivering_def)
  qed
  with keys_d show "delivering net (Suc k) (business_now w') (w_db w')"
    unfolding delivering_def now' by (simp add: w'_eq)
qed


section \<open>Properties\<close>

lemma waiting_until_three: "waiting net d now k j \<Longrightarrow> k < 3"
  by (simp add: waiting_def deliverable_def word_less_nat_alt)



definition refused_deliveries :: world where
  "refused_deliveries = two_deliveries\<lparr>w_http := replicate 6 (HttpResponse 503 True)\<rparr>"


end
