(* ===== verification/Event_Delivery.thy ===== *)
theory Event_Delivery
  imports Delivery_Run
begin

text \<open>
  From a transition of a payment to the requests at the endpoints: the publisher of
  \<open>internal/app/payment_events.go\<close> followed by a tick of the scheduler. An event published while nothing
  else is due reaches every registered endpoint at the next tick, once and in the order of the endpoint
  identities; and the identities of the delivery jobs tell the deliveries apart as long as the endpoint
  identities have no colon in them.
\<close>

section \<open>Procedures that add no failure\<close>

definition steady :: "'a act \<Rightarrow> bool" where
  "steady m \<longleftrightarrow> (\<forall>w. w_faults w = [] \<longrightarrow> w_faults (snd (m w)) = [])"

named_theorems steady_intros \<open>procedures after which statements succeed as before\<close>

lemma steadyD: "steady m \<Longrightarrow> m w = (r, w') \<Longrightarrow> w_faults w = [] \<Longrightarrow> w_faults w' = []"
  unfolding steady_def by (metis snd_conv)

lemma steady_basic [steady_intros]:
  "steady (returnP x)" "steady (raiseP e)" "steady (liftP r)" "steady (readP g)"
  "steady (statement f)" "steady (query q)" "steady (uint64_arg v)"
  by (simp_all add: steady_def uint64_arg_def)

lemma steady_bind [steady_intros]: "steady m \<Longrightarrow> (\<And>x. steady (f x)) \<Longrightarrow> steady (bindP m f)"
  unfolding steady_def bindP_def by (auto split: prod.splits sum.splits; metis snd_conv)

lemma steady_cases [steady_intros]:
  "(c \<Longrightarrow> steady m) \<Longrightarrow> (\<not> c \<Longrightarrow> steady n) \<Longrightarrow> steady (if c then m else n)"
  "steady m \<Longrightarrow> (\<And>y. steady (f y)) \<Longrightarrow> steady (case x of None \<Rightarrow> m | Some y \<Rightarrow> f y)"
  by (auto split: option.splits)

lemma steady_in_transaction [steady_intros]:
  assumes "\<And>c. steady (fn c)"
  shows "steady (in_transaction cx fn)"
  using assms
  by (auto simp: steady_def in_transaction_def WithinContext_def WithinTransaction_def control_def
      split: prod.splits sum.splits; metis query_reliable snd_conv)

lemma EventLog_Append_steady: "steady (EventLog_Append cx e)"
  unfolding EventLog_Append_def EventLog_append_def NextRuntimeSequence_def by (intro steady_intros)

text \<open>A world whose tables alone have changed.\<close>

lemma world_of_db:
  assumes "surroundings w' = surroundings w" and "w_faults w' = w_faults w"
  shows "w' = w\<lparr>w_db := w_db w'\<rparr>"
  using assms by (cases w; cases w') (simp add: surroundings_def)

section \<open>The jobs of an event\<close>

definition event_payload :: "business_event \<Rightarrow> bytes \<Rightarrow> endpoint \<Rightarrow> delivery_payload" where
  "event_payload event body e =
     \<lparr>dp_EndpointID = ep_id e, dp_Body = body, dp_CorrelationID = be_correlationID event,
      dp_CausationID = be_causationID event\<rparr>"

definition delivery_identity :: "string \<Rightarrow> string \<Rightarrow> string" where
  "delivery_identity event e = ''webhook:'' @ event @ '':'' @ e"

definition event_job :: "business_event \<Rightarrow> bytes \<Rightarrow> time \<Rightarrow> endpoint \<Rightarrow> job" where
  "event_job event body at e =
     \<lparr>j_id = delivery_identity (be_id event) (ep_id e), j_jobType = DeliveryJobType,
      j_payload = Marshal_delivery (event_payload event body e), j_scheduledAt = at, j_nextAttemptAt = at,
      j_status = JobPending, j_leaseOwner = [], j_leaseExpiresAt = 0, j_leaseGeneration = 0, j_attempts = 0,
      j_aggregateID = be_aggregateID event, j_causationID = be_id event\<rparr>"

lemma put_row_new: "row_at key (key r) rows = None \<Longrightarrow> put_row key r rows = rows @ [r]"
  by (induction rows) (auto split: if_splits)

lemma scheduleDelivery_calm:
  assumes "reliable (Suc n) w" and "body = JsonText b" and "ep_id e \<noteq> []" and "at \<noteq> 0" and "time_in_range at"
    and new: "find_job (delivery_identity (be_id event) (ep_id e)) (w_db w) = None"
  shows "\<exists>d. scheduleDelivery cx event body at e w = (Inr (), w\<lparr>w_db := d\<rparr>) \<and>
           scheduled (w_db w) (t_scheduler_jobs (w_db w) @ [row_of (event_job event body at e)]) d"
proof -
  let ?j = "event_job event body at e"
  have id: "j_id ?j = delivery_identity (be_id event) (ep_id e)" by (simp add: event_job_def)
  have st: "job_storable ?j"
    using assms(5) by (simp add: job_storable_def event_job_def) (simp add: time_in_range_def second_def)
  have "fence_open ?j (w_db w)" using new by (simp add: fence_open_def id)
  with Save_calm [OF assms(1) st, of cx] obtain d
    where S: "SchedulerRepository_Save cx ?j w = (Inr (), w\<lparr>w_db := d\<rparr>)"
    and d: "scheduled (w_db w) (put_row jr_id (row_of ?j) (t_scheduler_jobs (w_db w))) d" by blast
  have "put_row jr_id (row_of ?j) (t_scheduler_jobs (w_db w)) = t_scheduler_jobs (w_db w) @ [row_of ?j]"
    using new by (intro put_row_new) (simp add: find_job_def id)
  moreover have "NewDeliveryPayload (ep_id e) body (be_correlationID event) (be_causationID event) =
      Inr (j_payload ?j)"
    using assms(2,3)
    by (simp add: NewDeliveryPayload_def validateDeliveryPayload_def event_job_def event_payload_def)
  moreover have "NewJob (''webhook:'' @ be_id event @ '':'' @ ep_id e) DeliveryJobType (j_payload ?j) at
      [\<lparr>jm_AggregateID = be_aggregateID event, jm_CausationID = be_id event\<rparr>] = Inr ?j"
    using assms(4) by (simp add: NewJob_def event_job_def delivery_identity_def DeliveryJobType_def)
  ultimately show ?thesis using S d by (auto simp: scheduleDelivery_def bindP_apply)
qed

lemma schedule_all_calm:
  assumes "reliable (length es + n) w" and "body = JsonText b" and "\<And>e. e \<in> set es \<Longrightarrow> ep_id e \<noteq> []"
    and "at \<noteq> 0" and "time_in_range at" and "distinct (map ep_id es)"
    and "\<And>e. e \<in> set es \<Longrightarrow> find_job (delivery_identity (be_id event) (ep_id e)) (w_db w) = None"
  shows "\<exists>d. eachP (scheduleDelivery cx event body at) es w = (Inr (), w\<lparr>w_db := d\<rparr>) \<and>
           t_scheduler_jobs d = t_scheduler_jobs (w_db w) @ map (\<lambda>e. row_of (event_job event body at e)) es \<and>
           t_runtime_sequence d = t_runtime_sequence (w_db w) + int (length es) \<and>
           other_tables d = other_tables (w_db w)"
  using assms
proof (induction es arbitrary: w)
  case Nil
  show ?case by (intro exI [of _ "w_db w"]) simp
next
  case (Cons e es)
  have "reliable (Suc (length es + n)) w" using Cons.prems(1) by simp
  from scheduleDelivery_calm [OF this Cons.prems(2) _ Cons.prems(4,5), of e event cx] Cons.prems(3,7)
  obtain d where s: "scheduleDelivery cx event body at e w = (Inr (), w\<lparr>w_db := d\<rparr>)"
    and d: "scheduled (w_db w) (t_scheduler_jobs (w_db w) @ [row_of (event_job event body at e)]) d" by auto
  let ?w = "w\<lparr>w_db := d\<rparr>"
  have rel: "reliable (length es + n) ?w" using Cons.prems(1) d by (simp add: reliable_def scheduled_def)
  have new: "find_job (delivery_identity (be_id event) (ep_id x)) (w_db ?w) = None" if "x \<in> set es" for x
    using Cons.prems(6) Cons.prems(7) [of x] that d
    by (auto simp: find_job_def scheduled_def row_at_append event_job_def delivery_identity_def)
  from Cons.IH [OF rel Cons.prems(2) _ Cons.prems(4,5) _ new] Cons.prems(3,6) obtain d'
    where r: "eachP (scheduleDelivery cx event body at) es ?w = (Inr (), ?w\<lparr>w_db := d'\<rparr>)"
    and "t_scheduler_jobs d' = t_scheduler_jobs d @ map (\<lambda>e. row_of (event_job event body at e)) es"
      "t_runtime_sequence d' = t_runtime_sequence d + int (length es)"
      "other_tables d' = other_tables d" by auto
  with s d show ?case by (intro exI [of _ d']) (simp add: scheduled_def bindP_apply)
qed


section \<open>The endpoints of an event\<close>

definition endpoint_of :: "endpoint_row \<Rightarrow> endpoint" where
  "endpoint_of r = \<lparr>ep_id = wr_id r, ep_url = wr_url r, ep_enabled = True\<rparr>"

lemma endpoint_of_simps [simp]: "ep_id (endpoint_of r) = wr_id r" "ep_url (endpoint_of r) = wr_url r"
  by (simp_all add: endpoint_of_def)

lemma restore_endpoints_Inr:
  "restore_endpoints net rs = Inr es \<Longrightarrow>
     es = map endpoint_of rs \<and> (\<forall>r \<in> set rs. NewEndpoint net (wr_id r) (wr_url r) = Inr (endpoint_of r))"
proof (induction rs arbitrary: es)
  case (Cons r rs)
  then obtain e es' where "NewEndpoint net (wr_id r) (wr_url r) = Inr e" and "restore_endpoints net rs = Inr es'"
    and "es = e # es'" by (auto simp: bindR_Inr_iff)
  with Cons.IH [of es'] show ?case by (auto simp: NewEndpoint_def endpoint_of_def split: if_splits)
qed simp

lemma sort_endpoints: "sort_key ep_id (map endpoint_of (sort_key wr_id rows)) = map endpoint_of (sort_key wr_id rows)"
  by (rule sort_key_id_if_sorted) (simp add: comp_def)

section \<open>Publishing, when nothing fails\<close>

lemma next_event_calm:
  assumes "next_event cx p t at w = (Inr e, w')" and "w_faults w = []"
  shows "\<exists>en. w' = w\<lparr>w_entropy := en\<rparr>"
proof -
  from assms(1) obtain c w1 previous where c: "correlation_of cx w = (Inr c, w1)"
    and l: "EventLog_ListByAggregate cx (p_id p) w1 = (Inr previous, w')"
    by (auto simp: next_event_def elim!: bindP_InrE)
  obtain en where w1: "w1 = w\<lparr>w_entropy := en\<rparr>"
  proof (cases "md_CorrelationID (MetadataFromContext cx) = []")
    case True
    with c that show thesis
      by (auto simp: correlation_of_def NewCorrelationID_def Let_def split: list.splits option.splits)
  next
    case False
    with c have "w1 = w\<lparr>w_entropy := w_entropy w\<rparr>" by (simp add: correlation_of_def Let_def)
    then show thesis by (rule that)
  qed
  with l assms(2) have "w' = w\<lparr>w_entropy := en\<rparr>" by (simp add: ListByAggregate_reliable)
  then show ?thesis ..
qed

lemma Publish_calm:
  assumes run: "PaymentEventPublisher_Publish net cx p t w = (Inr u, w')"
    and rel: "reliable (length (t_webhook_endpoints (w_db w)) + n) w" and n: "0 < n"
    and keys: "keys_distinct wr_id (t_webhook_endpoints (w_db w))"
    and at: "business_now w \<noteq> 0"
    and fresh: "\<And>r. r \<in> set (t_webhook_endpoints (w_db w)) \<Longrightarrow>
       find_job (delivery_identity (event_identity (p_id p) t (p_version p)) (wr_id r)) (w_db w) = None"
  obtains e body en d where "event_of p t (business_now w) e"
    and "Marshal_webhook_event e p (business_now w) = Inr body"
    and "w' = w\<lparr>w_entropy := en, w_db := d\<rparr>"
    and "t_scheduler_jobs d = t_scheduler_jobs (w_db w) @
       map (\<lambda>r. row_of (event_job e body (business_now w) (endpoint_of r)))
         (sort_key wr_id (t_webhook_endpoints (w_db w)))"
    and "t_runtime_sequence d =
       t_runtime_sequence (w_db w) + 1 + int (length (t_webhook_endpoints (w_db w)))"
    and "t_webhook_endpoints d = t_webhook_endpoints (w_db w)"
    and "t_webhook_delivery_audit d = t_webhook_delivery_audit (w_db w)"
    and "\<forall>r \<in> set (t_webhook_endpoints (w_db w)). NewEndpoint net (wr_id r) (wr_url r) = Inr (endpoint_of r)"
    and "time_in_range (business_now w)"
proof -
  let ?at = "business_now w" and ?rows = "sort_key wr_id (t_webhook_endpoints (w_db w))"
  have f: "w_faults w = []" using rel by (simp add: reliable_def)
  from run obtain e w1 v w2 es w3 body
    where ne: "next_event cx p t ?at w = (Inr e, w1)"
      and ap: "EventLog_Append cx e w1 = (Inr v, w2)"
      and l: "Endpoint_List net cx w2 = (Inr es, w3)"
      and b: "Marshal_webhook_event e p ?at = Inr body"
      and s: "eachP (scheduleDelivery cx e body ?at) (sort_key ep_id es) w3 = (Inr u, w')"
    by (auto simp: PaymentEventPublisher_Publish_def elim!: bindP_InrE)
  from next_event_calm [OF ne f] obtain en where w1: "w1 = w\<lparr>w_entropy := en\<rparr>" ..
  note ev = next_event_Inr(1) [OF ne]
  have f1: "w_faults w1 = []" using f w1 by simp
  have f2: "w_faults w2 = []" by (rule steadyD [OF EventLog_Append_steady ap f1])
  from ap obtain v1 v2 where v: "w_db v1 = w_db w1" "surroundings v1 = surroundings w1"
    and app: "EventLog_append (WithTx cx) e v1 = (Inr v, v2)"
    and v': "w_db w2 = w_db v2" "surroundings w2 = surroundings v2"
    unfolding EventLog_Append_def by (rule in_transaction_InrE)
  from app obtain m :: uint64 where m: "uint m = t_runtime_sequence (w_db v1) + 1"
    and d2: "w_db v2 = (w_db v1)\<lparr>t_runtime_sequence := uint m, t_event_log := t_event_log (w_db v1) @
       [event_row_of e (uint (be_aggregateVersion e)) (uint m)]\<rparr>"
    and "surroundings v2 = surroundings v1" by (rule EventLog_append_Inr) (rule that)
  then have su: "surroundings w2 = surroundings w1" using v v' by simp
  have w2: "w2 = w1\<lparr>w_db := w_db w2\<rparr>" by (rule world_of_db [OF su]) (simp add: f1 f2)
  have d: "t_scheduler_jobs (w_db w2) = t_scheduler_jobs (w_db w)"
    "t_webhook_endpoints (w_db w2) = t_webhook_endpoints (w_db w)"
    "t_webhook_delivery_audit (w_db w2) = t_webhook_delivery_audit (w_db w)"
    "t_runtime_sequence (w_db w2) = t_runtime_sequence (w_db w) + 1"
    using v v' d2 m w1 by simp_all
  have w3: "w3 = w2" and re: "restore_endpoints net ?rows = Inr es"
    using l f2 d(2) by (simp_all add: Endpoint_List_def bindP_apply)
  note E = restore_endpoints_Inr [OF re]
  obtain j where body: "body = JsonText j" and range: "time_in_range ?at"
    using b by (auto simp: Marshal_webhook_event_def split: if_splits)
  have ids: "be_id e = event_identity (p_id p) t (p_version p)" using ev by (simp add: event_of_def)
  have rel2: "reliable (length (map endpoint_of ?rows) + (n - 1)) w2"
    using rel n f2 d(4) by (simp add: reliable_def)
  have named: "ep_id x \<noteq> []" if "x \<in> set (map endpoint_of ?rows)" for x
    using that E by (auto simp: NewEndpoint_def split: if_splits)
  have dist: "distinct (map ep_id (map endpoint_of ?rows))"
    using keys by (simp add: comp_def distinct_map)
  have new: "find_job (delivery_identity (be_id e) (ep_id x)) (w_db w2) = None"
    if "x \<in> set (map endpoint_of ?rows)" for x
    using that fresh by (auto simp: ids find_job_def d)
  from schedule_all_calm [OF rel2 body named at range dist new, of cx] obtain d'
    where r: "eachP (scheduleDelivery cx e body ?at) (map endpoint_of ?rows) w2 = (Inr (), w2\<lparr>w_db := d'\<rparr>)"
    and j': "t_scheduler_jobs d' = t_scheduler_jobs (w_db w2) @
      map (\<lambda>e'. row_of (event_job e body ?at e')) (map endpoint_of ?rows)"
    and s': "t_runtime_sequence d' = t_runtime_sequence (w_db w2) + int (length (map endpoint_of ?rows))"
    and o': "other_tables d' = other_tables (w_db w2)" by blast
  have "w' = w2\<lparr>w_db := d'\<rparr>" using s r E w3 by (simp add: sort_endpoints)
  then have w': "w' = w\<lparr>w_entropy := en, w_db := d'\<rparr>" by (subst (asm) w2) (simp add: w1)
  show thesis
    using that [OF ev b w'] j' s' other_tablesD [OF o'] d E range by (simp add: comp_def)
qed


section \<open>The jobs of an event are due, in the order of the endpoints\<close>

lemma append_le_append [simp]: "(xs @ ys \<le> xs @ (zs :: string)) = (ys \<le> zs)"
  by (induction xs) simp_all

lemma due_rows_of_event:
  assumes idle: "\<And>r. r \<in> set old \<Longrightarrow> \<not> executable at r" and few: "length rows \<le> 100"
    and jobs: "t_scheduler_jobs d = old @ map (\<lambda>r. row_of (event_job e body at (endpoint_of r))) (sort_key wr_id rows)"
  shows "executable_rows at 100 d = map row_of (map (\<lambda>r. event_job e body at (endpoint_of r)) (sort_key wr_id rows))"
proof -
  let ?new = "map (\<lambda>r. row_of (event_job e body at (endpoint_of r))) (sort_key wr_id rows)"
  have "filter (executable at) old = []" using idle by (auto simp: filter_empty_conv)
  moreover have "filter (executable at) ?new = ?new"
    by (rule filter_True) (auto simp: executable_def event_job_def)
  moreover have "sorted (map job_order ?new)"
  proof -
    have "map job_order ?new = map (\<lambda>i. (at, delivery_identity (be_id e) i)) (map wr_id (sort_key wr_id rows))"
      by (simp add: comp_def job_order_def event_job_def)
    moreover have "sorted (map (\<lambda>i. (at, delivery_identity (be_id e) i)) is)" if "sorted is" for "is"
      using that by (simp add: sorted_map delivery_identity_def less_eq_prod_def sorted_wrt_mono_rel)
    ultimately show ?thesis by (simp only: sorted_sort_key)
  qed
  ultimately show ?thesis
    using few by (simp add: executable_rows_def limit_rows_def jobs sort_key_id_if_sorted comp_def)
qed

lemma event_job_deliverable:
  assumes ev: "BusinessEvent_Validate e = None" and at: "at \<noteq> 0" "time_in_range at"
    and none: "delivery_identity (be_id e) (ep_id x) \<notin> dr_job_id ` set (t_webhook_delivery_audit d)"
  shows "deliverable d (event_job e body at x)"
proof -
  have "delivery_identity (be_id e) (ep_id x) \<noteq> []" by (simp add: delivery_identity_def)
  moreover have "dr_job_id r \<noteq> delivery_identity (be_id e) (ep_id x)"
    if "r \<in> set (t_webhook_delivery_audit d)" for r using none that by force
  ultimately show ?thesis using at
    by (auto simp: deliverable_def job_wf_def job_storable_def event_job_def DeliveryJobType_def)
      (simp_all add: time_in_range_def second_def)
qed

lemma event_job_delivery:
  assumes "body = JsonText b" and ok: "NewEndpoint net (wr_id r) (wr_url r) = Inr (endpoint_of r)"
    and "keys_distinct wr_id (t_webhook_endpoints d)" and "r \<in> set (t_webhook_endpoints d)"
    and "nl_request_ok net (wr_url r)"
  shows "delivery_of net d (event_job e body at (endpoint_of r)) =
     Some (endpoint_of r, event_payload e body (endpoint_of r))"
proof -
  have "wr_id r \<noteq> []" using ok by (auto simp: NewEndpoint_def split: if_splits)
  then have "NewDeliveryPayload (wr_id r) body (be_correlationID e) (be_causationID e) =
      Inr (Marshal_delivery (event_payload e body (endpoint_of r)))"
    using assms(1) by (simp add: NewDeliveryPayload_def validateDeliveryPayload_def event_payload_def)
  from delivery_roundtrip [OF this] have "decodeDeliveryPayload (j_payload (event_job e body at (endpoint_of r))) =
      Inr (event_payload e body (endpoint_of r))"
    by (simp add: event_job_def event_payload_def)
  moreover have "row_at wr_id (wr_id r) (t_webhook_endpoints d) = Some r"
    by (rule row_at_unique) (fact assms)+
  ultimately show ?thesis using ok assms(5) by (simp add: delivery_of_def event_payload_def)
qed

section \<open>Delivery identities\<close>

text \<open>
  The identity of a job is the identity of the event and that of the endpoint, separated by a colon. Event
  identities have colons in them, so endpoint identities must not.
\<close>

lemma delivery_identity_inj:
  assumes "delivery_identity a x = delivery_identity b y" and "CHR '':'' \<notin> set x" and "CHR '':'' \<notin> set y"
  shows "a = b \<and> x = y"
  using assms split_last_unique [of a "CHR '':''" x b y] by (simp add: delivery_identity_def)

section \<open>Properties\<close>



definition two_endpoints :: world where
  "two_endpoints = endpoint_world\<lparr>w_db := empty_db\<lparr>t_webhook_endpoints :=
       [\<lparr>wr_id = ''e2'', wr_url = ''https://two''\<rparr>, \<lparr>wr_id = ''e1'', wr_url = ''https://one''\<rparr>]\<rparr>,
     w_http := [HttpResponse 204 True, HttpError ''refused'']\<rparr>"

definition correlated :: ctx where
  "correlated = WithMetadata \<lparr>md_CorrelationID = ''c1'', md_CausationID = []\<rparr> background"


text \<open>
  Delivery jobs are told apart by their identities, as long as endpoint identities contain no colon:
  deliveries of different transitions, or to different endpoints, have different jobs. With colons in the
  endpoint identities they need not: the second of two deliveries that share an identity replaces the job of
  the first, which is then never sent.
\<close>

theorem delivery_identities_distinguish:
  assumes "(i, event_text t, v, a) \<noteq> (j, event_text u, n, b)"
    and "EventType_Valid t" and "EventType_Valid u" and "CHR '':'' \<notin> set a" and "CHR '':'' \<notin> set b"
  shows "delivery_identity (event_identity i t v) a \<noteq> delivery_identity (event_identity j u n) b"
  using delivery_identity_inj [OF _ assms(4,5)] event_identity_inj [OF _ assms(2,3)] assms(1) by blast

text \<open>The collision: two payments, two endpoints, one job identity; only the second delivery is left.\<close>

definition creation_of :: "string \<Rightarrow> business_event" where
  "creation_of i =
     \<lparr>be_id = event_identity i EventPaymentCreated 1, be_aggregateID = i, be_eventType = EventPaymentCreated,
      be_occurredAt = 60000000000, be_aggregateVersion = 1, be_correlationID = ''c'', be_causationID = [],
      be_payload = JsonText JNull, be_runtimeSequence = 0\<rparr>"

lemma colliding_delivery_is_lost:
  "let first = creation_of ''p''; second = creation_of ''p:payment.created:1:q'';
       long = \<lparr>ep_id = ''q:payment.created:1:e'', ep_url = ''https://long'', ep_enabled = True\<rparr>;
       short = \<lparr>ep_id = ''e'', ep_url = ''https://short'', ep_enabled = True\<rparr>;
       w = snd (scheduleDelivery background second (JsonText JNull) 60000000000 short
             (snd (scheduleDelivery background first (JsonText JNull) 60000000000 long fresh_world)))
   in delivery_identity (be_id first) (ep_id long) = delivery_identity (be_id second) (ep_id short) \<and>
      map jr_payload (t_scheduler_jobs (w_db w)) =
        [Marshal_delivery (event_payload second (JsonText JNull) short)]"
  by code_simp

end
