(* ===== verification/Response_Writer.thy ===== *)
theory Response_Writer
  imports Http
begin

text \<open>
  The response writers behind the handlers: the one of \<open>net/http\<close>, and \<open>bufferedWriter\<close> of
  \<open>internal/payment/adapters/http/handler.go\<close>, which the transaction and the idempotency layers put in its
  place and copy out afterwards. A handler is here the sequence of what it does to its writer; the
  theories of the handlers take it as a function to its answer, which is what this theory justifies.

  A body is the list of the bytes written to it.
\<close>

section \<open>What a handler does to its writer\<close>

datatype 'b writer_op =
    AddHeader string string
  | SetHeader string string
  | SendStatus int
  | SendBody "'b list"

definition header_add :: "string \<Rightarrow> string \<Rightarrow> header \<Rightarrow> header" where
  "header_add name v h = put_row fst (name, header_values h name @ [v]) h"

section \<open>The writer of the server\<close>

text \<open>
  The first \<open>WriteHeader\<close>, or the first \<open>Write\<close> with the status 200, sends the header as it is then; what
  is set later is not sent. (Informational statuses, below 200, are not final and not used here.)
\<close>

record 'b server_writer =
  sw_header :: header
  sw_sent :: "(int \<times> header) option"
  sw_body :: "'b list"

definition fresh_writer :: "'b server_writer" where
  "fresh_writer = \<lparr>sw_header = [], sw_sent = None, sw_body = []\<rparr>"

definition server_WriteHeader :: "int \<Rightarrow> 'b server_writer \<Rightarrow> 'b server_writer" where
  "server_WriteHeader status w =
     (if sw_sent w = None then w\<lparr>sw_sent := Some (status, sw_header w)\<rparr> else w)"

fun server_op :: "'b writer_op \<Rightarrow> 'b server_writer \<Rightarrow> 'b server_writer" where
  "server_op (AddHeader n v) w = w\<lparr>sw_header := header_add n v (sw_header w)\<rparr>"
| "server_op (SetHeader n v) w = w\<lparr>sw_header := header_set n v (sw_header w)\<rparr>"
| "server_op (SendStatus status) w = server_WriteHeader status w"
| "server_op (SendBody bs) w =
     (let w = server_WriteHeader 200 w in w\<lparr>sw_body := sw_body w @ bs\<rparr>)"

definition serve_ops :: "'b writer_op list \<Rightarrow> 'b server_writer" where
  "serve_ops ops = fold server_op ops fresh_writer"

section \<open>bufferedWriter\<close>

record 'b buffered_writer =
  bw_header :: header
  bw_body :: "'b list"
  bw_status :: int

definition newBufferedWriter :: "'b buffered_writer" where
  "newBufferedWriter = \<lparr>bw_header = [], bw_body = [], bw_status = 0\<rparr>"

definition bufferedWriter_WriteHeader :: "int \<Rightarrow> 'b buffered_writer \<Rightarrow> 'b buffered_writer" where
  "bufferedWriter_WriteHeader status w = (if bw_status w = 0 then w\<lparr>bw_status := status\<rparr> else w)"

definition bufferedWriter_Write :: "'b list \<Rightarrow> 'b buffered_writer \<Rightarrow> 'b buffered_writer" where
  "bufferedWriter_Write bs w =
     (let w = (if bw_status w = 0 then w\<lparr>bw_status := 200\<rparr> else w) in w\<lparr>bw_body := bw_body w @ bs\<rparr>)"

text \<open>\<open>Header()\<close> hands out the map itself, which the handler changes in place.\<close>

definition bufferedWriter_Header :: "(header \<Rightarrow> header) \<Rightarrow> 'b buffered_writer \<Rightarrow> 'b buffered_writer" where
  "bufferedWriter_Header f w = w\<lparr>bw_header := f (bw_header w)\<rparr>"

fun buffer_op :: "'b writer_op \<Rightarrow> 'b buffered_writer \<Rightarrow> 'b buffered_writer" where
  "buffer_op (AddHeader n v) w = bufferedWriter_Header (header_add n v) w"
| "buffer_op (SetHeader n v) w = bufferedWriter_Header (header_set n v) w"
| "buffer_op (SendStatus status) w = bufferedWriter_WriteHeader status w"
| "buffer_op (SendBody bs) w = bufferedWriter_Write bs w"

definition buffer_ops :: "'b writer_op list \<Rightarrow> 'b buffered_writer" where
  "buffer_ops ops = fold buffer_op ops newBufferedWriter"

text \<open>
  Copying a buffer out: its headers are added one by one, in the order in which the map happens to be
  visited, then the status and the body are written.
\<close>

definition copy_out :: "header \<Rightarrow> 'b buffered_writer \<Rightarrow> 'b writer_op list" where
  "copy_out visited w =
     concat (map (\<lambda>(name, vs). map (AddHeader name) vs) visited) @
       [SendStatus (bw_status w), SendBody (bw_body w)]"

section \<open>Buffering and sending run alike\<close>

fun sends :: "'b writer_op \<Rightarrow> bool" where
  "sends (SendStatus status) \<longleftrightarrow> True"
| "sends (SendBody bs) \<longleftrightarrow> True"
| "sends _ \<longleftrightarrow> False"

fun final_status :: "'b writer_op \<Rightarrow> bool" where
  "final_status (SendStatus status) \<longleftrightarrow> 200 \<le> status"
| "final_status _ \<longleftrightarrow> True"

text \<open>Headers are set before anything is sent.\<close>

fun orderly :: "'b writer_op list \<Rightarrow> bool" where
  "orderly [] \<longleftrightarrow> True"
| "orderly (a # ops) \<longleftrightarrow> (if sends a then list_all sends ops else orderly ops)"

definition alike :: "'b buffered_writer \<Rightarrow> 'b server_writer \<Rightarrow> bool" where
  "alike b s \<longleftrightarrow>
     bw_header b = sw_header s \<and> bw_body b = sw_body s \<and>
     (case sw_sent s of None \<Rightarrow> bw_status b = 0 | Some (status, h) \<Rightarrow> bw_status b = status \<and> 200 \<le> status)"

lemma alike_op: "alike b s \<Longrightarrow> final_status a \<Longrightarrow> alike (buffer_op a b) (server_op a s)"
  by (cases a) (auto simp: alike_def bufferedWriter_Header_def bufferedWriter_WriteHeader_def
      bufferedWriter_Write_def server_WriteHeader_def Let_def split: option.splits)

lemma alike_ops:
  "list_all final_status ops \<Longrightarrow> alike b s \<Longrightarrow> alike (fold buffer_op ops b) (fold server_op ops s)"
  by (induction ops arbitrary: b s) (simp_all add: alike_op)

lemma alike_run: "list_all final_status ops \<Longrightarrow> alike (buffer_ops ops) (serve_ops ops)"
  unfolding buffer_ops_def serve_ops_def
  by (rule alike_ops) (simp_all add: alike_def newBufferedWriter_def fresh_writer_def)

lemma sent_stays: "sw_sent s \<noteq> None \<Longrightarrow> sw_sent (fold server_op ops s) = sw_sent s"
proof (induction ops arbitrary: s)
  case (Cons a ops)
  then have "sw_sent (server_op a s) = sw_sent s"
    by (cases a) (simp_all add: server_WriteHeader_def Let_def)
  with Cons show ?case by simp
qed simp

lemma sent_when: "list_ex sends ops \<Longrightarrow> sw_sent (fold server_op ops s) \<noteq> None"
proof (induction ops arbitrary: s)
  case (Cons a ops)
  show ?case
  proof (cases "sends a")
    case True
    then have "sw_sent (server_op a s) \<noteq> None" by (cases a) (auto simp: server_WriteHeader_def Let_def)
    then show ?thesis using sent_stays [of "server_op a s" ops] by simp
  qed (use Cons in simp)
qed simp

text \<open>With the headers set first, the header that is sent is the one that is left in the end.\<close>

lemma header_kept: "list_all sends ops \<Longrightarrow> sw_header (fold server_op ops s) = sw_header s"
proof (induction ops arbitrary: s)
  case (Cons a ops)
  then have "sw_header (server_op a s) = sw_header s"
    by (cases a) (simp_all add: server_WriteHeader_def Let_def)
  with Cons show ?case by simp
qed simp

lemma orderly_header:
  "orderly ops \<Longrightarrow> sw_sent s = None \<Longrightarrow> sw_sent (fold server_op ops s) = Some (status, h) \<Longrightarrow>
     h = sw_header (fold server_op ops s)"
proof (induction ops arbitrary: s)
  case (Cons a ops)
  show ?case
  proof (cases "sends a")
    case True
    with Cons.prems(1) have all: "list_all sends ops" by simp
    from True Cons.prems(2) have "map_option snd (sw_sent (server_op a s)) = Some (sw_header (server_op a s))"
      by (cases a) (auto simp: server_WriteHeader_def Let_def)
    then obtain c where c: "sw_sent (server_op a s) = Some (c, sw_header (server_op a s))" by auto
    with sent_stays [of "server_op a s" ops] Cons.prems(3) header_kept [OF all, of "server_op a s"]
    show ?thesis by simp
  next
    case False
    with Cons.prems(2) have "sw_sent (server_op a s) = None" by (cases a) auto
    with Cons False show ?thesis by simp
  qed
qed simp

section \<open>Copied headers\<close>

lemma header_values_add:
  "header_values (header_add n v h) k = (if k = n then header_values h n @ [v] else header_values h k)"
  by (simp add: header_values_def header_add_def map_of_put_header)

lemma add_values:
  "fold server_op (map (AddHeader n) vs) s =
     s\<lparr>sw_header := fold (header_add n) vs (sw_header s)\<rparr>"
  by (induction vs arbitrary: s) simp_all

lemma header_values_add_all:
  "header_values (fold (header_add n) vs h) k = (if k = n then header_values h n @ vs else header_values h k)"
  by (induction vs arbitrary: h) (simp_all add: header_values_add)

lemma copied_headers:
  "distinct (map fst visited) \<Longrightarrow>
     \<exists>h. fold server_op (concat (map (\<lambda>(name, vs). map (AddHeader name) vs) visited)) s = s\<lparr>sw_header := h\<rparr> \<and>
       (\<forall>k. header_values h k = header_values (sw_header s) k @ header_values visited k)"
proof (induction visited arbitrary: s)
  case Nil
  show ?case by (intro exI [of _ "sw_header s"]) (simp add: header_values_def)
next
  case (Cons x visited)
  obtain n vs where x: "x = (n, vs)" by force
  let ?s = "s\<lparr>sw_header := fold (header_add n) vs (sw_header s)\<rparr>"
  from Cons.IH [of ?s] Cons.prems x obtain h where
    h: "fold server_op (concat (map (\<lambda>(name, vs). map (AddHeader name) vs) visited)) ?s = ?s\<lparr>sw_header := h\<rparr>"
    and hv: "\<And>k. header_values h k = header_values (sw_header ?s) k @ header_values visited k" by auto
  have "map_of visited n = None" using Cons.prems x by (simp add: map_of_eq_None_iff)
  then have "header_values visited n = []" by (simp add: header_values_def)
  moreover have "header_values (x # visited) k = (if k = n then vs else header_values visited k)" for k
    by (simp add: header_values_def x)
  ultimately show ?case
    using h hv by (intro exI [of _ h]) (auto simp: x add_values header_values_add_all)
qed

lemma header_ops_distinct: "distinct (map fst (bw_header b)) \<Longrightarrow> distinct (map fst (bw_header (buffer_op a b)))"
  by (cases a) (simp_all add: bufferedWriter_Header_def bufferedWriter_WriteHeader_def bufferedWriter_Write_def
      header_add_def header_set_def Let_def)

lemma buffer_distinct: "distinct (map fst (bw_header (buffer_ops ops)))"
proof -
  have "distinct (map fst (bw_header b)) \<Longrightarrow> distinct (map fst (bw_header (fold buffer_op ops b)))" for b
    by (induction ops arbitrary: b) (simp_all add: header_ops_distinct)
  then show ?thesis by (simp add: buffer_ops_def newBufferedWriter_def)
qed


lemma copied_run:
  fixes ops :: "'a writer_op list"
  assumes "list_all final_status ops" and "list_ex sends ops" and "set visited = set (bw_header (buffer_ops ops))"
    and "distinct (map fst visited)"
  shows "\<exists>status h h'. sw_sent (serve_ops ops) = Some (status, h) \<and> bw_status (buffer_ops ops) = status \<and> 200 \<le> status \<and>
     sw_sent (serve_ops (copy_out visited (buffer_ops ops))) = Some (status, h') \<and>
     sw_body (serve_ops (copy_out visited (buffer_ops ops))) = sw_body (serve_ops ops) \<and>
     (\<forall>k. header_values h' k = header_values (sw_header (serve_ops ops)) k)"
proof -
  let ?b = "buffer_ops ops" and ?s = "serve_ops ops"
  note like = alike_run [OF assms(1)]
  obtain status h where s: "sw_sent ?s = Some (status, h)"
    using sent_when [OF assms(2), of fresh_writer] by (auto simp: serve_ops_def)
  with like have b: "bw_status ?b = status" "200 \<le> status" "bw_body ?b = sw_body ?s" "bw_header ?b = sw_header ?s"
    by (auto simp: alike_def)
  obtain h' where run: "fold server_op (concat (map (\<lambda>(name, vs). map (AddHeader name) vs) visited)) (fresh_writer :: 'a server_writer) =
      fresh_writer\<lparr>sw_header := h'\<rparr>" (is "_ = ?w")
    and hv: "\<And>k. header_values h' k = header_values visited k"
    using copied_headers [OF assms(4), of "fresh_writer :: 'a server_writer"] by (auto simp: fresh_writer_def header_values_def)
  have "map_of visited = map_of (bw_header ?b)"
    using map_of_inject_set [OF assms(4) buffer_distinct] assms(3) by blast
  then have "header_values h' k = header_values (sw_header ?s) k" for k
    by (simp add: hv) (simp add: header_values_def b(4))
  moreover have "serve_ops (copy_out visited ?b) = fold server_op [SendStatus status, SendBody (sw_body ?s)] ?w"
    unfolding copy_out_def b by (subst serve_ops_def) (simp only: fold_append comp_apply run)
  then have "sw_sent (serve_ops (copy_out visited ?b)) = Some (status, h')"
    and "sw_body (serve_ops (copy_out visited ?b)) = sw_body ?s"
    by (simp_all add: server_WriteHeader_def Let_def fresh_writer_def)
  ultimately show ?thesis using s b by blast
qed

lemma copy_out_fine:
  assumes "200 \<le> bw_status b"
  shows "list_all final_status (copy_out visited b)" and "list_ex sends (copy_out visited b)"
    and "orderly (copy_out visited b)"
proof -
  let ?hs = "concat (map (\<lambda>(name, vs). map (AddHeader name) vs) visited) :: 'a writer_op list"
  have hs: "a \<in> set ?hs \<Longrightarrow> \<not> sends a \<and> final_status a" for a by auto
  have ord: "orderly (xs @ ys)" if "\<And>a. a \<in> set xs \<Longrightarrow> \<not> sends a" and "orderly ys" for xs ys :: "'a writer_op list"
    using that by (induction xs) auto
  show "list_all final_status (copy_out visited b)"
    using hs assms unfolding list_all_iff copy_out_def by auto
  show "list_ex sends (copy_out visited b)" by (simp add: copy_out_def)
  show "orderly (copy_out visited b)" unfolding copy_out_def by (rule ord) (use hs in auto)
qed

section \<open>Properties\<close>



end
