(* ===== verification/Spec2Isabelle.thy ===== *)
theory Spec2Isabelle
  imports Lifecycle Delivery_Rounds Event_Delivery Response_Writer
begin

text \<open>
  A verification development for the payment sandbox, a Go service that simulates payment
  providers: payments with a lifecycle, an event log, durable jobs run by a scheduler, webhooks,
  sagas, an HTTP interface with idempotency keys, the replay of recorded scenarios, and an
  administration interface. Paths are below \<open>src/\<close>.

  \<^bold>\<open>How the program is put together.\<close> The domain packages are pure state machines. The application
  packages run them through interfaces (a repository, a publisher, a clock). The adapters
  implement these over one SQLite database. An HTTP request runs an application service inside
  one transaction that also writes the events, the delivery jobs and the idempotency record; the
  scheduler's ticks lease due jobs and hand them to the worker, whose handlers run the sagas and
  deliver the webhooks. Business time is a virtual clock kept in the database; leases run on the
  system clock. The theories follow these layers, and each names the files it models.

  \<^item> Shared: \<open>Prelude\<close> (machine integers, results and stateful procedures with their introduction
    and preservation rules), \<open>Errors\<close> (the sentinels of every \<open>errors.go\<close>), \<open>Json\<close> (payloads),
    \<open>Clocks\<close> (\<open>internal/platform/clock\<close>), \<open>Database\<close> (\<open>internal/platform/persistence/sqlite\<close>: the
    tables, statements that may fail, transactions, the request context), \<open>Frames\<close> (what the
    operations leave alone).
  \<^item> Domain: \<open>Payments\<close>, \<open>Events\<close> (\<open>internal/payment/domain\<close> and \<open>reconstruct.go\<close>), \<open>Jobs\<close>
    (\<open>internal/scheduler/domain\<close>), \<open>Providers\<close> (\<open>internal/provider\<close>), \<open>Sagas\<close>
    (\<open>internal/paymentworkflow/domain\<close>).
  \<^item> Payments end to end: \<open>Payment_Store\<close> (\<open>internal/payment/adapters/sqlite\<close>),
    \<open>Payment_Services\<close> (\<open>internal/payment/application\<close>), \<open>Event_Publisher\<close>
    (\<open>internal/app/payment_events.go\<close>), \<open>Payment_History\<close> (the tables and the log together),
    \<open>Http\<close> (\<open>internal/api\<close>, the parts of \<open>net/http\<close>), \<open>Idempotency\<close> (\<open>internal/idempotency\<close>),
    \<open>Payment_Http\<close> (\<open>internal/payment/adapters/http\<close>), \<open>Payment_Requests\<close> (its promises),
    \<open>Response_Writer\<close> (\<open>bufferedWriter\<close> of the same handler, against the writer of \<open>net/http\<close>).
  \<^item> Jobs: \<open>Scheduler_Store\<close> and \<open>Scheduler_Leases\<close> (\<open>internal/scheduler/adapters/sqlite\<close>),
    \<open>Scheduler_Runtime\<close> (\<open>internal/scheduler/application\<close>), \<open>Scheduler_Sqlite\<close> (both together).
  \<^item> Webhooks: \<open>Webhooks\<close> (endpoints, address checks, the delivery payload), \<open>Webhook_Delivery\<close>
    (\<open>OutboundCallback\<close> and its audit). Above \<open>Composition\<close>, the deliveries of the composed program:
    \<open>Delivery_Run\<close> (one tick), \<open>Delivery_Rounds\<close> (ticks until every delivery is over) and
    \<open>Event_Delivery\<close> (from the published event to the requests).
  \<^item> Sagas: \<open>Saga_Orchestration\<close>, \<open>Saga_Executor\<close> (\<open>internal/paymentworkflow/application\<close>),
    \<open>Saga_Sqlite\<close> (the adapters and the saga.step handler).

  \<^item> Replay: \<open>Contexts\<close> (cancellation), \<open>Replay_Domain\<close> (\<open>internal/replay/domain\<close>, \<open>scenarios\<close>),
    \<open>Replay_Store\<close> (the SQLite and in-memory stores of scenarios), \<open>Replay_Memory\<close> and
    \<open>Replay_Runner\<close> (\<open>internal/replay/application/runner.go\<close>, \<open>engine.go\<close>), \<open>Replay_Determinism\<close>
    (two executions side by side), \<open>Replay_Comparison\<close> (\<open>comparison.go\<close>), \<open>Replay_Service\<close>
    (\<open>scenario_service.go\<close>, and what the subsystem promises).
  \<^item> Administration: \<open>Durations\<close> (\<open>time.ParseDuration\<close> and \<open>Duration.String\<close>), \<open>Administration\<close>
    (\<open>internal/administration/application\<close>), \<open>Administration_Http\<close> and \<open>Scenario_Http\<close>
    (\<open>internal/administration/adapters/http\<close>), \<open>Runtime_History\<close> (its promises). \<open>Webhook_Http\<close>
    (\<open>internal/webhook/adapters/http\<close> and \<open>memory\<close>).
  \<^item> The whole: \<open>Configuration\<close> (\<open>internal/platform/config\<close>, \<open>logging\<close>), \<open>Composition\<close> (\<open>compose\<close>
    of \<open>internal/app/app.go\<close>, the routes and the token), \<open>Program\<close> (the steps of the running program and
    its invariant), \<open>Startup\<close> (\<open>cmd\<close>, \<open>run\<close>, opening and migrating the database), \<open>Lifecycle\<close>
    (\<open>serve\<close>: its goroutines, their channels and the shutdown, as steps of one process).

  \<^bold>\<open>How code becomes definitions.\<close> A struct is a record with the fields of the code, an enumeration
  a datatype with a constructor for texts the code does not know, \<open>int64\<close> and \<open>uint64\<close> are 64-bit
  words that wrap around. A function of the code that returns an error returns a sum; one that
  also changes state is a procedure (\<open>proc\<close>), a function of the state that returns the result and
  the new state, also when the result is an error. Every branch and early return of a function
  is a branch of its definition, in the order of the code. Names are \<open>Type_Method\<close>.

  A world (\<open>w_db\<close>, clocks, a list of faults) stands for the process: each SQL statement consumes
  one entry of the fault list and fails when it says so, so a theorem over all worlds covers every
  pattern of failing statements, commits and rollbacks. Where a pointer matters (a repository
  that hands out its own objects) the type of handles is a parameter.

  \<^bold>\<open>What the lemmas show.\<close> For the payment aggregate: money is conserved over every run, and the
  aggregate refines an integer ledger. For the log: encoding, decoding and replay give back the
  stored payment, in every reachable state of the database. For persistence: optimistic locking,
  atomic commands, exclusive and fenced leases, an append-only audit. For jobs: lifecycle
  invariants, bounded attempts, exact capped backoff, and the worker as a refinement of one
  abstract attempt. For webhooks: only public addresses are dialed, nothing is sent before its
  start marker is durable, results are final; the endpoints are a finite map in either repository. For the
  composed program on a reliable database: a published event reaches every endpoint by the next tick, a
  tick sends one request per due delivery and settles its job by the answer, and after three rounds every
  delivery is completed or exhausted. For sagas: the stored sagas refine the machine of
  the domain, which always ends; a step takes effect once. For HTTP: a repeated request runs
  once, a rejected one changes nothing, and the buffer that the layers put between a handler and the
  client sends what the handler would have sent. For the replay: the result does not depend on map order or on
  drawn identifiers, the comparison is equality of what can be observed, and a scenario survives the
  store and the document it is shown as. For the composed program: it starts, its administration
  interface is closed without the token, and through any requests, ticks, restarts and failing
  statements the log replays to the stored payments and business time never goes back. For the process:
  a failed start closes what it opened, a stop always ends, and after a clean one nothing runs.

  \<^bold>\<open>Interfaces.\<close> Each interface of the code that has more than one client or provider is a locale
  with the laws that its client relies on, and is interpreted on the model of the code that
  provides it: \<open>durable_store\<close> (the clock's store), \<open>repository_contract\<close> and
  \<open>publishing_contract\<close> (payment repository and publisher), \<open>job_contract\<close> (job repository of the
  worker), \<open>saga_contract\<close> (saga store), \<open>idempotency_contract\<close>, \<open>scenario_contract\<close> and
  \<open>endpoint_contract\<close> (each kept by a SQLite and an in-memory repository).

  \<^bold>\<open>Bounds.\<close> No definition uses fuel: the loops of the program run over lists or count down. The
  doubling loop of the backoff recurses on the number of the attempt. The theorems about deliveries take at
  most a hundred due jobs, the limit of a tick, and three rounds, the attempts of the policy that
  \<open>compose\<close> configures; each job of a tick takes four numbers of the runtime sequence, which is what
  their assumption that it does not overflow counts (\<open>reliable\<close>, which also says that no statement fails).

  \<^bold>\<open>Abstractions.\<close> A payload is a JSON document or its bytes, not the characters of its text; an
  error is the sentinels it wraps, not its message; the texts of error answers, digests
  (\<open>sha256\<close>), random identifiers, the resolution and the dialing of addresses, and whether a call of
  the database driver fails are parameters.
  A stored empty byte string reads back as an empty one. A request or a tick of the running program is
  one step: a process that dies in the middle is one whose remaining statements fail, followed by a
  restart. SQLite has one writer, so steps that write do not overlap.

  \<^bold>\<open>Not modelled.\<close> What libraries do beyond their documented behaviour: the SQL of the migrations
  (\<open>goose\<close>; the tables are those of the migrated schema), the parsing of flags and of environment files,
  sockets and timers, and the lines that are logged. The mutex of the in-memory repositories: each of
  their operations is one step.
\<close>

end
